(* ===== verification/Go_Base.thy ===== *)
theory Go_Base
  imports Main "HOL-Library.Monad_Syntax" "HOL-Library.Word" "HOL-Library.AList"
    "HOL-Library.Multiset" "HOL-Library.Sublist"
begin

text \<open>
  The prelude of the development: the parts of the Go language and of its packages
  \<^verbatim>\<open>strings\<close> and \<^verbatim>\<open>strconv\<close> that the sources under src/ use, and the
  lemmas on them that the components share.

  Conventions. A Go string or byte slice is an Isabelle \<^typ>\<open>string\<close>, that is, a list of
  bytes. A Go run-time panic (index out of range, nil dereference, failed type assertion) is
  the value \<^const>\<open>None\<close> of \<open>'a option\<close>; code that can panic is written in the
  option monad. A returned Go error is a value of the result, never a panic. Go's
  \<^verbatim>\<open>int\<close> and \<^verbatim>\<open>int64\<close> are \<^typ>\<open>int\<close>; where the code
  can leave the 64-bit range the wrap-around is written out with \<open>wrap64\<close>.
\<close>

named_theorems frame_simps \<open>which fields an operation leaves alone\<close>
named_theorems inv_intros \<open>operations preserve their component's invariant\<close>

type_synonym 'a go = "'a option"

section \<open>Bytes\<close>

abbreviation byte :: "char \<Rightarrow> nat" where
  "byte c \<equiv> of_char c"

text \<open>The Go condition \<open>lo <= c && c <= hi\<close> on bytes.\<close>

definition in_range :: "char \<Rightarrow> char \<Rightarrow> char \<Rightarrow> bool" where
  "in_range lo hi c \<longleftrightarrow> byte lo \<le> byte c \<and> byte c \<le> byte hi"

lemma byte_lt_256 [simp]: "byte c < 256"
  using of_char_mod_256 [of c] by (metis mod_less_divisor zero_less_numeral)

lemma byte_inject [simp]: "byte c = byte d \<longleftrightarrow> c = d"
  by simp

lemma char_of_byte [simp]: "char_of (byte c) = c"
  by simp

lemma byte_char_of [simp]: "n < 256 \<Longrightarrow> byte (char_of n) = n"
  by simp

section \<open>64-bit wrap-around\<close>

definition wrap64 :: "int \<Rightarrow> int" where
  "wrap64 i = (i + 2 ^ 63) mod 2 ^ 64 - 2 ^ 63"

definition int64_range :: "int \<Rightarrow> bool" where
  "int64_range i \<longleftrightarrow> - (2 ^ 63) \<le> i \<and> i < 2 ^ 63"

lemma wrap64_id [simp]: "int64_range i \<Longrightarrow> wrap64 i = i"
  by (simp add: wrap64_def int64_range_def)

lemma wrap64_range [simp]: "int64_range (wrap64 i)"
  by (simp add: wrap64_def int64_range_def)

section \<open>Package strings\<close>

definition HasPrefix :: "string \<Rightarrow> string \<Rightarrow> bool" where
  "HasPrefix s p \<longleftrightarrow> take (length p) s = p"

definition HasSuffix :: "string \<Rightarrow> string \<Rightarrow> bool" where
  "HasSuffix s x \<longleftrightarrow> length x \<le> length s \<and> drop (length s - length x) s = x"

fun Index :: "string \<Rightarrow> string \<Rightarrow> nat option" where
  "Index [] sub = (if sub = [] then Some 0 else None)"
| "Index (c # cs) sub =
     (if HasPrefix (c # cs) sub then Some 0 else map_option Suc (Index cs sub))"

definition Contains :: "string \<Rightarrow> string \<Rightarrow> bool" where
  "Contains s sub \<longleftrightarrow> Index s sub \<noteq> None"

fun IndexByte :: "string \<Rightarrow> char \<Rightarrow> nat option" where
  "IndexByte [] b = None"
| "IndexByte (c # cs) b = (if c = b then Some 0 else map_option Suc (IndexByte cs b))"

text \<open>\<open>strings.Cut\<close> with a one-byte separator, the only form the sources use.\<close>

definition Cut :: "string \<Rightarrow> char \<Rightarrow> string \<times> string \<times> bool" where
  "Cut s sep = (case IndexByte s sep of
       Some i \<Rightarrow> (take i s, drop (Suc i) s, True)
     | None \<Rightarrow> (s, [], False))"

text \<open>\<open>strings.Split\<close> with a one-byte separator.\<close>

fun Split :: "string \<Rightarrow> char \<Rightarrow> string list" where
  "Split [] sep = [[]]"
| "Split (c # cs) sep =
     (if c = sep then [] # Split cs sep
      else (case Split cs sep of [] \<Rightarrow> [[c]] | w # ws \<Rightarrow> (c # w) # ws))"

text \<open>\<open>strings.Trim\<close> with a one-byte cutset.\<close>

definition TrimByte :: "string \<Rightarrow> char \<Rightarrow> string" where
  "TrimByte s c = rev (dropWhile (\<lambda>x. x = c) (rev (dropWhile (\<lambda>x. x = c) s)))"

text \<open>\<open>strings.ReplaceAll\<close> of a one-byte pattern.\<close>

definition ReplaceByte :: "string \<Rightarrow> char \<Rightarrow> string \<Rightarrow> string" where
  "ReplaceByte s c r = concat (map (\<lambda>x. if x = c then r else [x]) s)"

definition Join :: "string list \<Rightarrow> string \<Rightarrow> string" where
  "Join ws sep = (case ws of [] \<Rightarrow> [] | w # ws' \<Rightarrow> w @ concat (map (\<lambda>x. sep @ x) ws'))"

lemma HasPrefix_iff: "HasPrefix s p \<longleftrightarrow> prefix p s"
  unfolding HasPrefix_def prefix_def
  by (metis append_eq_conv_conj append_take_drop_id)

lemma HasSuffix_iff: "HasSuffix s x \<longleftrightarrow> suffix x s"
proof
  assume "HasSuffix s x"
  then show "suffix x s"
    by (metis HasSuffix_def suffix_drop)
next
  assume "suffix x s"
  then show "HasSuffix s x"
    by (auto simp: HasSuffix_def suffix_def)
qed

lemma Index_Some:
  "Index s sub = Some i \<Longrightarrow> i \<le> length s \<and> HasPrefix (drop i s) sub"
  by (induction s arbitrary: i) (auto simp: HasPrefix_def split: if_splits)

lemma Contains_iff: "Contains s sub \<longleftrightarrow> (\<exists>ps ss. s = ps @ sub @ ss)"
proof (induction s)
  case Nil
  then show ?case by (auto simp: Contains_def)
next
  case (Cons c cs)
  show ?case
  proof (cases "HasPrefix (c # cs) sub")
    case True
    then obtain ss where "c # cs = [] @ sub @ ss"
      by (auto simp: HasPrefix_iff prefix_def)
    with True show ?thesis unfolding Contains_def
      by (metis Index.simps(2) option.distinct(1))
  next
    case False
    then have "Contains (c # cs) sub \<longleftrightarrow> Contains cs sub"
      by (simp add: Contains_def)
    also have "\<dots> \<longleftrightarrow> (\<exists>ps ss. cs = ps @ sub @ ss)" by (rule Cons.IH)
    also have "\<dots> \<longleftrightarrow> (\<exists>ps ss. c # cs = ps @ sub @ ss)"
    proof
      assume "\<exists>ps ss. cs = ps @ sub @ ss"
      then show "\<exists>ps ss. c # cs = ps @ sub @ ss" by (metis append_Cons)
    next
      assume "\<exists>ps ss. c # cs = ps @ sub @ ss"
      then obtain ps ss where e: "c # cs = ps @ sub @ ss" by blast
      with False have "ps \<noteq> []" by (auto simp: HasPrefix_iff)
      with e show "\<exists>ps ss. cs = ps @ sub @ ss"
        by (auto simp: Cons_eq_append_conv)
    qed
    finally show ?thesis .
  qed
qed

lemma IndexByte_None [simp]: "IndexByte s c = None \<longleftrightarrow> c \<notin> set s"
  by (induction s) auto

lemma IndexByte_Some:
  "IndexByte s c = Some i \<Longrightarrow> i < length s \<and> s ! i = c \<and> c \<notin> set (take i s)"
proof (induction s arbitrary: i)
  case Nil
  then show ?case by simp
next
  case (Cons d s)
  then show ?case by (cases i) (auto split: if_splits)
qed

lemma IndexByte_append: "c \<notin> set u \<Longrightarrow> IndexByte (u @ c # v) c = Some (length u)"
  by (induction u) auto

lemma Cut_found: "c \<notin> set u \<Longrightarrow> Cut (u @ c # v) c = (u, v, True)"
  by (simp add: Cut_def IndexByte_append)

lemma Cut_not_found: "c \<notin> set s \<Longrightarrow> Cut s c = (s, [], False)"
  by (simp add: Cut_def IndexByte_None [THEN iffD2])

lemma Cut_TrueD: "Cut s c = (u, v, True) \<Longrightarrow> s = u @ c # v \<and> c \<notin> set u"
proof -
  assume a: "Cut s c = (u, v, True)"
  then obtain i where i: "IndexByte s c = Some i" "u = take i s" "v = drop (Suc i) s"
    by (auto simp: Cut_def split: option.splits)
  then show ?thesis using IndexByte_Some [OF i(1)] id_take_nth_drop [of i s] by simp
qed

lemma Split_not_Nil [simp]: "Split s c \<noteq> []"
  by (cases s) (auto split: list.splits)

lemma Split_no_sep: "w \<in> set (Split s c) \<Longrightarrow> c \<notin> set w"
  by (induction s arbitrary: w) (auto split: if_splits list.splits)

lemma ReplaceByte_notin: "c \<notin> set r \<Longrightarrow> c \<notin> set (ReplaceByte s c r)"
  by (auto simp: ReplaceByte_def)

section \<open>Package strconv\<close>

datatype num_error = ErrSyntax | ErrRange

definition digit_char :: "nat \<Rightarrow> char" where
  "digit_char d = char_of (48 + d)"

fun nat_to_dec :: "nat \<Rightarrow> string" where
  "nat_to_dec n = (if n < 10 then [digit_char n] else nat_to_dec (n div 10) @ [digit_char (n mod 10)])"

declare nat_to_dec.simps [simp del]

definition Itoa :: "int \<Rightarrow> string" where
  "Itoa i = (if i < 0 then CHR ''-'' # nat_to_dec (nat (- i)) else nat_to_dec (nat i))"

text \<open>The value of a digit in \<open>strconv.ParseUint\<close>: 0-9, then letters of either case.\<close>

definition digit_val :: "char \<Rightarrow> nat option" where
  "digit_val c =
     (if in_range (CHR ''0'') (CHR ''9'') c then Some (byte c - 48)
      else if in_range (CHR ''a'') (CHR ''z'') c then Some (byte c - 87)
      else if in_range (CHR ''A'') (CHR ''Z'') c then Some (byte c - 55)
      else None)"

text \<open>
  The loop of \<open>strconv.ParseUint\<close>: a bad digit is a syntax error with value 0, the first
  step past \<open>maxVal\<close> returns \<open>maxVal\<close> with a range error without reading on.
\<close>

fun parse_uint_loop :: "nat \<Rightarrow> nat \<Rightarrow> nat \<Rightarrow> string \<Rightarrow> nat \<times> num_error option" where
  "parse_uint_loop maxVal base n [] = (n, None)"
| "parse_uint_loop maxVal base n (c # cs) =
     (case digit_val c of
        None \<Rightarrow> (0, Some ErrSyntax)
      | Some d \<Rightarrow>
          if base \<le> d then (0, Some ErrSyntax)
          else if maxVal < n * base + d then (maxVal, Some ErrRange)
          else parse_uint_loop maxVal base (n * base + d) cs)"

definition ParseUint :: "string \<Rightarrow> nat \<Rightarrow> nat \<Rightarrow> nat \<times> num_error option" where
  "ParseUint s base bits =
     (if s = [] then (0, Some ErrSyntax) else parse_uint_loop (2 ^ bits - 1) base 0 s)"

definition ParseInt :: "string \<Rightarrow> nat \<Rightarrow> nat \<Rightarrow> int \<times> num_error option" where
  "ParseInt s base bits =
     (if s = [] then (0, Some ErrSyntax)
      else
        let neg = (hd s = CHR ''-'');
            body = (if hd s = CHR ''+'' \<or> neg then tl s else s);
            (un, err) = ParseUint body base bits;
            cutoff = 2 ^ (bits - 1)
        in if err = Some ErrSyntax then (0, err)
           else if \<not> neg \<and> cutoff \<le> un then (int cutoff - 1, Some ErrRange)
           else if neg \<and> cutoff < un then (- int cutoff, Some ErrRange)
           else (if neg then - int un else int un, None))"

definition Atoi :: "string \<Rightarrow> int \<times> num_error option" where
  "Atoi s = ParseInt s 10 64"

text \<open>The idiom \<open>v, _ := strconv.Atoi(s)\<close>.\<close>

abbreviation atoi_val :: "string \<Rightarrow> int" where
  "atoi_val s \<equiv> fst (Atoi s)"

lemma digit_val_digit_char: "d < 10 \<Longrightarrow> digit_val (digit_char d) = Some d"
  by (simp add: digit_val_def digit_char_def in_range_def)

lemma nat_to_dec_not_Nil [simp]: "nat_to_dec n \<noteq> []"
  by (subst nat_to_dec.simps) simp

lemma nat_to_dec_digits: "c \<in> set (nat_to_dec n) \<Longrightarrow> in_range (CHR ''0'') (CHR ''9'') c"
proof (induction n rule: nat_to_dec.induct)
  case (1 n)
  show ?case
  proof (cases "n < 10")
    case True
    with "1.prems" show ?thesis
      by (simp add: nat_to_dec.simps [of n] digit_char_def in_range_def)
  next
    case False
    with "1.prems" have "c \<in> set (nat_to_dec (n div 10)) \<or> c = digit_char (n mod 10)"
      by (auto simp: nat_to_dec.simps [of n])
    then show ?thesis
    proof
      assume "c \<in> set (nat_to_dec (n div 10))"
      with "1.IH" False show ?thesis by blast
    next
      assume "c = digit_char (n mod 10)"
      moreover have "n mod 10 < 10" by simp
      ultimately show ?thesis by (auto simp: digit_char_def in_range_def)
    qed
  qed
qed

lemma parse_uint_loop_append:
  "parse_uint_loop mx base n u = (m, None) \<Longrightarrow>
     parse_uint_loop mx base n (u @ v) = parse_uint_loop mx base m v"
  by (induction mx base n u rule: parse_uint_loop.induct) (auto split: option.splits if_splits)

lemma parse_uint_loop_dec:
  "n \<le> mx \<Longrightarrow> parse_uint_loop mx 10 0 (nat_to_dec n) = (n, None)"
proof (induction n rule: nat_to_dec.induct)
  case (1 n)
  show ?case
  proof (cases "n < 10")
    case True
    with "1.prems" show ?thesis
      by (simp add: nat_to_dec.simps [of n] digit_val_digit_char)
  next
    case False
    have "parse_uint_loop mx 10 0 (nat_to_dec (n div 10)) = (n div 10, None)"
      using "1.IH" [OF False] "1.prems" by simp
    then have "parse_uint_loop mx 10 0 (nat_to_dec n)
        = parse_uint_loop mx 10 (n div 10) [digit_char (n mod 10)]"
      using False by (simp add: nat_to_dec.simps [of n] parse_uint_loop_append)
    also have "\<dots> = (n, None)"
    proof -
      have "n div 10 * 10 + n mod 10 = n" by simp
      with "1.prems" show ?thesis
        by (simp add: digit_val_digit_char)
    qed
    finally show ?thesis .
  qed
qed

lemma ParseUint_dec: "n < 2 ^ bits \<Longrightarrow> ParseUint (nat_to_dec n) 10 bits = (n, None)"
  by (simp add: ParseUint_def parse_uint_loop_dec)

lemma hd_nat_to_dec: "hd (nat_to_dec n) \<noteq> CHR ''-''" "hd (nat_to_dec n) \<noteq> CHR ''+''"
  using nat_to_dec_digits [of "hd (nat_to_dec n)" n] by (auto simp: in_range_def)

text \<open>Printing an \<open>int64\<close> and reading it back gives the same number, with no error.\<close>

lemma Atoi_Itoa: "int64_range i \<Longrightarrow> Atoi (Itoa i) = (i, None)"
proof (cases "i < 0")
  case True
  assume r: "int64_range i"
  have "ParseUint (nat_to_dec (nat (- i))) 10 64 = (nat (- i), None)"
    using r True by (intro ParseUint_dec) (simp add: int64_range_def nat_less_iff)
  with True r show ?thesis
    by (simp add: Atoi_def Itoa_def ParseInt_def int64_range_def nat_less_iff Let_def)
next
  case False
  assume r: "int64_range i"
  have "ParseUint (nat_to_dec (nat i)) 10 64 = (nat i, None)"
    using r False by (intro ParseUint_dec) (simp add: int64_range_def nat_less_iff)
  with False r hd_nat_to_dec [of "nat i"] show ?thesis
    by (simp add: Atoi_def Itoa_def ParseInt_def int64_range_def nat_less_iff Let_def)
qed

lemma ParseInt_bound:
  assumes "0 < bits"
  shows "- (2 ^ (bits - 1)) \<le> fst (ParseInt s base bits) \<and> fst (ParseInt s base bits) < 2 ^ (bits - 1)"
proof -
  define k where "k = bits - 1"
  obtain un err where p: "ParseUint (if hd s = CHR ''+'' \<or> hd s = CHR ''-'' then tl s else s) base bits
      = (un, err)" by fastforce
  have lt: "int un < 2 ^ k" if "\<not> 2 ^ k \<le> un"
    using that by (metis not_le of_nat_less_iff of_nat_numeral of_nat_power)
  have le: "int un \<le> 2 ^ k" if "\<not> 2 ^ k < un"
    using that by (metis not_less of_nat_le_iff of_nat_numeral of_nat_power)
  have pos: "(1::int) \<le> 2 ^ k" by simp
  have cases: "fst (ParseInt s base bits) \<in> {0, 2 ^ k - 1, - (2 ^ k)}
      \<or> (fst (ParseInt s base bits) = int un \<and> \<not> 2 ^ k \<le> un)
      \<or> (fst (ParseInt s base bits) = - int un \<and> \<not> 2 ^ k < un)"
    unfolding ParseInt_def Let_def p prod.case k_def by simp
  then consider "fst (ParseInt s base bits) \<in> {0, 2 ^ k - 1, - (2 ^ k)}"
    | "fst (ParseInt s base bits) = int un" "int un < 2 ^ k"
    | "fst (ParseInt s base bits) = - int un" "int un \<le> 2 ^ k"
    using lt le by blast
  then have "- (2 ^ k) \<le> fst (ParseInt s base bits) \<and> fst (ParseInt s base bits) < 2 ^ k"
  proof cases
    case 1
    then show ?thesis using pos by auto
  next
    case 2
    then show ?thesis using pos by linarith
  next
    case 3
    then show ?thesis using pos by linarith
  qed
  then show ?thesis by (simp add: k_def)
qed

lemma Atoi_range: "int64_range (atoi_val s)"
  using ParseInt_bound [of 64 s 10] by (simp add: Atoi_def int64_range_def)

lemma Itoa_not_Nil [simp]: "Itoa i \<noteq> []"
  by (simp add: Itoa_def)

section \<open>Loops over slices in the option monad\<close>

text \<open>\<open>for _, x := range xs { s = f(x, s) }\<close> where the body can panic.\<close>

fun foreach :: "'a list \<Rightarrow> ('a \<Rightarrow> 's \<Rightarrow> 's go) \<Rightarrow> 's \<Rightarrow> 's go" where
  "foreach [] f s = Some s"
| "foreach (x # xs) f s = (case f x s of None \<Rightarrow> None | Some s' \<Rightarrow> foreach xs f s')"

lemma foreach_inv:
  assumes "foreach xs f s = Some t" "P s"
    and "\<And>x s s'. x \<in> set xs \<Longrightarrow> P s \<Longrightarrow> f x s = Some s' \<Longrightarrow> P s'"
  shows "P t"
  using assms
proof (induction xs arbitrary: s)
  case Nil
  then show ?case by simp
next
  case (Cons x xs)
  then obtain u where u: "f x s = Some u" "foreach xs f u = Some t"
    by (auto split: option.splits)
  have "P u" using Cons.prems(2,3) u(1) by (meson list.set_intros(1))
  then show ?case using Cons.IH [OF u(2)] Cons.prems(3) by (meson list.set_intros(2))
qed

lemma foreach_append:
  "foreach (xs @ ys) f s = (case foreach xs f s of None \<Rightarrow> None | Some s' \<Rightarrow> foreach ys f s')"
  by (induction xs arbitrary: s) (auto split: option.splits)

lemma foreach_Some:
  assumes "P s"
    and "\<And>x s. x \<in> set xs \<Longrightarrow> P s \<Longrightarrow> \<exists>s'. f x s = Some s' \<and> P s'"
  shows "\<exists>t. foreach xs f s = Some t \<and> P t"
  using assms
proof (induction xs arbitrary: s)
  case Nil
  then show ?case by simp
next
  case (Cons x xs)
  then obtain u where u: "f x s = Some u" "P u" by (meson list.set_intros(1))
  with Cons.IH [of u] Cons.prems(2) show ?case by (auto split: option.splits)
qed

lemma bind_eq_Some [simp]: "Option.bind m f = Some y \<longleftrightarrow> (\<exists>x. m = Some x \<and> f x = Some y)"
  by (cases m) auto

section \<open>Go maps\<close>

text \<open>
  A Go map with string keys is an association list with distinct keys. Ranging over a Go map
  visits the keys in an order the language leaves open, so every definition that ranges over a
  map takes a parameter \<open>ord\<close>, the order of the visit as a function of the keys.
  \<open>range_order ord\<close> says that it is an order: each key once.
\<close>

type_synonym key_order = "string list \<Rightarrow> string list"

definition range_order :: "key_order \<Rightarrow> bool" where
  "range_order ord \<longleftrightarrow> (\<forall>ks. mset (ord ks) = mset ks)"

text \<open>\<open>m[k]\<close> of a map of slices: a missing key reads as the nil (empty) slice.\<close>

definition map_get :: "(string \<times> 'v list) list \<Rightarrow> string \<Rightarrow> 'v list" where
  "map_get m k = (case map_of m k of None \<Rightarrow> [] | Some vs \<Rightarrow> vs)"

lemma range_order_id [simp]: "range_order (\<lambda>ks. ks)"
  by (simp add: range_order_def)

lemma range_order_set: "range_order ord \<Longrightarrow> set (ord ks) = set ks"
  unfolding range_order_def by (metis set_mset_mset)

lemma range_order_distinct: "range_order ord \<Longrightarrow> distinct ks \<Longrightarrow> distinct (ord ks)"
  unfolding range_order_def by (metis mset_eq_imp_distinct_iff)

lemma map_get_update [simp]: "map_get (AList.update k v m) k' = (if k = k' then v else map_get m k')"
  by (simp add: map_get_def update_conv)

lemma map_get_delete [simp]: "map_get (AList.delete k m) k' = (if k = k' then [] else map_get m k')"
  by (simp add: map_get_def delete_conv)

lemma map_get_Nil [simp]: "map_get [] k = []"
  by (simp add: map_get_def)

section \<open>Compiled regular expressions\<close>

text \<open>
  A compiled \<^verbatim>\<open>*regexp.Regexp\<close> is represented by what the sources can observe
  of it: the methods they call. Patterns come from the rule files, so a theorem that mentions
  a regular expression holds for every such behaviour.
\<close>

record Regexp =
  MatchString :: "string \<Rightarrow> bool"
  FindStringSubmatch :: "string \<Rightarrow> string list"
  SubexpNames :: "string list"
  FindAllStringSubmatch :: "string \<Rightarrow> nat \<Rightarrow> string list list"

end
