(* ===== verification/Go_Unicode.thy ===== *)
theory Go_Unicode
  imports Go_Base
begin

text \<open>
  Go's UTF-8 and case mapping, as the packages \<^verbatim>\<open>unicode/utf8\<close>,
  \<^verbatim>\<open>unicode\<close> and \<^verbatim>\<open>strings\<close> define them: decoding with
  the replacement rune for ill-formed bytes, encoding, validity, \<open>strings.Map\<close>,
  \<open>strings.ToLower\<close>, \<open>strings.ToUpper\<close>, \<open>unicode.IsSpace\<close> and
  \<open>strings.TrimSpace\<close>. The two tables are the simple case mappings of Unicode 13 (the
  tables of Go 1.18) outside ASCII, as ranges (first, last, stride, delta).
\<close>

section \<open>UTF-8\<close>

abbreviation (input) RuneError :: nat where
  "RuneError \<equiv> 65533"

definition cont_byte :: "char \<Rightarrow> bool" where
  "cont_byte c \<longleftrightarrow> 128 \<le> byte c \<and> byte c \<le> 191"

text \<open>\<open>utf8.DecodeRune\<close>: the rune and its width; an ill-formed sequence is one byte wide.\<close>

definition decode2 :: "nat \<Rightarrow> string \<Rightarrow> nat \<times> nat" where
  "decode2 b0 cs = (case cs of
       c1 # _ \<Rightarrow> if cont_byte c1 then ((b0 - 192) * 64 + (byte c1 - 128), 2) else (RuneError, 1)
     | _ \<Rightarrow> (RuneError, 1))"

definition decode3 :: "nat \<Rightarrow> string \<Rightarrow> nat \<times> nat" where
  "decode3 b0 cs = (case cs of
       c1 # c2 # _ \<Rightarrow>
         if (if b0 = 224 then 160 else 128) \<le> byte c1 \<and> byte c1 \<le> (if b0 = 237 then 159 else 191)
            \<and> cont_byte c2
         then ((b0 - 224) * 4096 + (byte c1 - 128) * 64 + (byte c2 - 128), 3)
         else (RuneError, 1)
     | _ \<Rightarrow> (RuneError, 1))"

definition decode4 :: "nat \<Rightarrow> string \<Rightarrow> nat \<times> nat" where
  "decode4 b0 cs = (case cs of
       c1 # c2 # c3 # _ \<Rightarrow>
         if (if b0 = 240 then 144 else 128) \<le> byte c1 \<and> byte c1 \<le> (if b0 = 244 then 143 else 191)
            \<and> cont_byte c2 \<and> cont_byte c3
         then ((b0 - 240) * 262144 + (byte c1 - 128) * 4096 + (byte c2 - 128) * 64 + (byte c3 - 128), 4)
         else (RuneError, 1)
     | _ \<Rightarrow> (RuneError, 1))"

definition DecodeRune :: "string \<Rightarrow> nat \<times> nat" where
  "DecodeRune s = (case s of
       [] \<Rightarrow> (RuneError, 0)
     | c # cs \<Rightarrow>
         let b0 = byte c in
         if b0 < 128 then (b0, 1)
         else if 194 \<le> b0 \<and> b0 \<le> 223 then decode2 b0 cs
         else if 224 \<le> b0 \<and> b0 \<le> 239 then decode3 b0 cs
         else if 240 \<le> b0 \<and> b0 \<le> 244 then decode4 b0 cs
         else (RuneError, 1))"

definition valid_rune :: "nat \<Rightarrow> bool" where
  "valid_rune r \<longleftrightarrow> r < 55296 \<or> (57343 < r \<and> r \<le> 1114111)"

text \<open>\<open>utf8.EncodeRune\<close>: surrogates and values past U+10FFFF encode the replacement rune.\<close>

definition EncodeRune :: "nat \<Rightarrow> string" where
  "EncodeRune r =
     (if r \<le> 127 then [char_of r]
      else if r \<le> 2047 then [char_of (192 + r div 64), char_of (128 + r mod 64)]
      else if \<not> valid_rune r then [char_of (239::nat), char_of (191::nat), char_of (189::nat)]
      else if r \<le> 65535 then
        [char_of (224 + r div 4096), char_of (128 + r div 64 mod 64), char_of (128 + r mod 64)]
      else
        [char_of (240 + r div 262144), char_of (128 + r div 4096 mod 64),
         char_of (128 + r div 64 mod 64), char_of (128 + r mod 64)])"

lemma DecodeRune_width:
  "s \<noteq> [] \<Longrightarrow> 1 \<le> snd (DecodeRune s) \<and> snd (DecodeRune s) \<le> length s"
  by (cases s)
    (auto simp: DecodeRune_def decode2_def decode3_def decode4_def Let_def
      split: list.splits if_splits)

text \<open>The runes of a \<open>for _, c := range s\<close> loop, each with the bytes it was read from.\<close>

function runes :: "string \<Rightarrow> (nat \<times> string) list" where
  "runes s = (if s = [] then []
     else let (r, w) = DecodeRune s in (r, take w s) # runes (drop w s))"
  by pat_completeness auto
termination
proof (relation "measure length", simp)
  fix s :: string and x r w
  assume s: "s \<noteq> []" and x: "x = DecodeRune s" and rw: "(r, w) = x"
  then have "1 \<le> w" using DecodeRune_width [OF s] by (metis snd_conv)
  with s show "(drop w s, s) \<in> measure length" by simp
qed

declare runes.simps [simp del]

lemma runes_Nil [simp]: "runes [] = []"
  by (simp add: runes.simps)

lemma runes_Cons:
  "s \<noteq> [] \<Longrightarrow> runes s = (fst (DecodeRune s), take (snd (DecodeRune s)) s)
     # runes (drop (snd (DecodeRune s)) s)"
  by (subst runes.simps) (simp add: case_prod_beta Let_def)

text \<open>No byte is lost or duplicated by the decoding.\<close>

lemma concat_runes: "concat (map snd (runes s)) = s"
proof (induction s rule: runes.induct)
  case (1 s)
  show ?case
  proof (cases "s = []")
    case False
    have "concat (map snd (runes (drop (snd (DecodeRune s)) s))) = drop (snd (DecodeRune s)) s"
      using "1.IH" [OF False] by (metis prod.collapse)
    with False show ?thesis by (simp add: runes_Cons)
  qed simp
qed

definition ValidString :: "string \<Rightarrow> bool" where
  "ValidString s \<longleftrightarrow> list_all (\<lambda>(r, bs). \<not> (r = RuneError \<and> length bs = 1)) (runes s)"

lemma decode2_encode:
  assumes "2 \<le> a" "a < 32" "b < 64"
  shows "decode2 (192 + a) (char_of (128 + b) # cs) = (a * 64 + b, 2)"
  using assms by (simp add: decode2_def cont_byte_def)

lemma decode3_encode:
  assumes "a < 16" "b < 64" "c < 64" "a = 0 \<longrightarrow> 32 \<le> b" "a = 13 \<longrightarrow> b < 32"
  shows "decode3 (224 + a) (char_of (128 + b) # char_of (128 + c) # cs)
    = (a * 4096 + b * 64 + c, 3)"
  using assms by (auto simp: decode3_def cont_byte_def)

lemma decode4_encode:
  assumes "a < 5" "b < 64" "c < 64" "d < 64" "a = 0 \<longrightarrow> 16 \<le> b" "a = 4 \<longrightarrow> b < 16"
  shows "decode4 (240 + a) (char_of (128 + b) # char_of (128 + c) # char_of (128 + d) # cs)
    = (a * 262144 + b * 4096 + c * 64 + d, 4)"
  using assms by (auto simp: decode4_def cont_byte_def)

lemma DecodeRune_EncodeRune:
  assumes "valid_rune r"
  shows "DecodeRune (EncodeRune r @ cs) = (r, length (EncodeRune r))"
proof -
  have m: "x mod 64 < 64" for x :: nat by simp
  consider "r \<le> 127" | "127 < r" "r \<le> 2047" | "2047 < r" "r \<le> 65535" | "65535 < r" by linarith
  then show ?thesis
  proof cases
    case 1
    then show ?thesis by (simp add: EncodeRune_def DecodeRune_def Let_def)
  next
    case 2
    then have d: "2 \<le> r div 64" "r div 64 < 32" by auto
    have "r div 64 * 64 + r mod 64 = r" by simp
    with 2 d decode2_encode [OF d m, of r cs] show ?thesis
      by (auto simp: EncodeRune_def DecodeRune_def Let_def)
  next
    case 3
    then have d: "r div 4096 < 16" by auto
    have q: "r div 4096 = r div 64 div 64" by (simp add: div_mult2_eq [symmetric])
    have z: "r div 4096 = 0 \<longrightarrow> 32 \<le> r div 64 mod 64"
      unfolding q using 3 by auto
    have e: "r div 4096 = 13 \<longrightarrow> r div 64 mod 64 < 32"
    proof
      assume h: "r div 4096 = 13"
      then have "r < 57344" by simp
      with assms have "r < 55296" by (auto simp: valid_rune_def)
      then have "r div 64 < 864" by simp
      moreover have "r div 64 = r div 64 div 64 * 64 + r div 64 mod 64" by simp
      ultimately show "r div 64 mod 64 < 32" using h unfolding q by linarith
    qed
    have "r div 64 div 64 * 4096 + r div 64 mod 64 * 64 + r mod 64 = r"
    proof -
      have "r div 64 = r div 64 div 64 * 64 + r div 64 mod 64" by simp
      moreover have "r = r div 64 * 64 + r mod 64" by simp
      ultimately show ?thesis by linarith
    qed
    then have "r div 4096 * 4096 + r div 64 mod 64 * 64 + r mod 64 = r" unfolding q .
    with 3 d decode3_encode [OF d m m z e, of r cs] assms show ?thesis
      by (auto simp: EncodeRune_def DecodeRune_def Let_def)
  next
    case 4
    then have d: "r div 262144 < 5" using assms by (auto simp: valid_rune_def)
    have q: "r div 4096 = r div 64 div 64" "r div 262144 = r div 4096 div 64"
      by (simp_all add: div_mult2_eq [symmetric])
    have dm: "r div 4096 = r div 4096 div 64 * 64 + r div 4096 mod 64" by simp
    have z: "r div 262144 = 0 \<longrightarrow> 16 \<le> r div 4096 mod 64"
    proof
      assume "r div 262144 = 0"
      moreover have "16 \<le> r div 4096" using 4 by simp
      ultimately show "16 \<le> r div 4096 mod 64" using dm unfolding q(2) by linarith
    qed
    have e: "r div 262144 = 4 \<longrightarrow> r div 4096 mod 64 < 16"
    proof
      assume "r div 262144 = 4"
      moreover have "r div 4096 < 272" using 4 assms by (simp add: valid_rune_def)
      ultimately show "r div 4096 mod 64 < 16" using dm unfolding q(2) by linarith
    qed
    have "r div 4096 div 64 * 262144 + r div 4096 mod 64 * 4096 + r div 64 mod 64 * 64 + r mod 64 = r"
    proof -
      have "r div 64 = r div 4096 * 64 + r div 64 mod 64" unfolding q(1) by simp
      moreover have "r = r div 64 * 64 + r mod 64" by simp
      ultimately show ?thesis using dm by linarith
    qed
    then have "r div 262144 * 262144 + r div 4096 mod 64 * 4096 + r div 64 mod 64 * 64 + r mod 64 = r"
      unfolding q(2) .
    with 4 d decode4_encode [OF d m m m z e, of "r div 64" r cs] assms show ?thesis
      by (auto simp: EncodeRune_def DecodeRune_def Let_def)
  qed
qed

lemma EncodeRune_not_Nil [simp]: "EncodeRune r \<noteq> []"
  by (simp add: EncodeRune_def)

lemma runes_EncodeRune:
  "valid_rune r \<Longrightarrow> runes (EncodeRune r @ cs) = (r, EncodeRune r) # runes cs"
  by (simp add: runes_Cons DecodeRune_EncodeRune)

section \<open>Case mapping\<close>

type_synonym case_range = "nat \<times> nat \<times> nat \<times> int"

definition lower_ranges :: "case_range list" where
  "lower_ranges = [
    (192, 214, 1, 32), (216, 222, 1, 32), (256, 302, 2, 1), (304, 304, 1, -199),
    (306, 310, 2, 1), (313, 327, 2, 1), (330, 374, 2, 1), (376, 376, 1, -121), (377, 381, 2, 1),
    (385, 385, 1, 210), (386, 388, 2, 1), (390, 390, 1, 206), (391, 391, 1, 1),
    (393, 394, 1, 205), (395, 395, 1, 1), (398, 398, 1, 79), (399, 399, 1, 202),
    (400, 400, 1, 203), (401, 401, 1, 1), (403, 403, 1, 205), (404, 404, 1, 207),
    (406, 406, 1, 211), (407, 407, 1, 209), (408, 408, 1, 1), (412, 412, 1, 211),
    (413, 413, 1, 213), (415, 415, 1, 214), (416, 420, 2, 1), (422, 422, 1, 218),
    (423, 423, 1, 1), (425, 425, 1, 218), (428, 428, 1, 1), (430, 430, 1, 218), (431, 431, 1, 1),
    (433, 434, 1, 217), (435, 437, 2, 1), (439, 439, 1, 219), (440, 440, 1, 1), (444, 444, 1, 1),
    (452, 452, 1, 2), (453, 453, 1, 1), (455, 455, 1, 2), (456, 456, 1, 1), (458, 458, 1, 2),
    (459, 475, 2, 1), (478, 494, 2, 1), (497, 497, 1, 2), (498, 500, 2, 1), (502, 502, 1, -97),
    (503, 503, 1, -56), (504, 542, 2, 1), (544, 544, 1, -130), (546, 562, 2, 1),
    (570, 570, 1, 10795), (571, 571, 1, 1), (573, 573, 1, -163), (574, 574, 1, 10792),
    (577, 577, 1, 1), (579, 579, 1, -195), (580, 580, 1, 69), (581, 581, 1, 71),
    (582, 590, 2, 1), (880, 882, 2, 1), (886, 886, 1, 1), (895, 895, 1, 116), (902, 902, 1, 38),
    (904, 906, 1, 37), (908, 908, 1, 64), (910, 911, 1, 63), (913, 929, 1, 32),
    (931, 939, 1, 32), (975, 975, 1, 8), (984, 1006, 2, 1), (1012, 1012, 1, -60),
    (1015, 1015, 1, 1), (1017, 1017, 1, -7), (1018, 1018, 1, 1), (1021, 1023, 1, -130),
    (1024, 1039, 1, 80), (1040, 1071, 1, 32), (1120, 1152, 2, 1), (1162, 1214, 2, 1),
    (1216, 1216, 1, 15), (1217, 1229, 2, 1), (1232, 1326, 2, 1), (1329, 1366, 1, 48),
    (4256, 4293, 1, 7264), (4295, 4295, 1, 7264), (4301, 4301, 1, 7264), (5024, 5103, 1, 38864),
    (5104, 5109, 1, 8), (7312, 7354, 1, -3008), (7357, 7359, 1, -3008), (7680, 7828, 2, 1),
    (7838, 7838, 1, -7615), (7840, 7934, 2, 1), (7944, 7951, 1, -8), (7960, 7965, 1, -8),
    (7976, 7983, 1, -8), (7992, 7999, 1, -8), (8008, 8013, 1, -8), (8025, 8031, 2, -8),
    (8040, 8047, 1, -8), (8072, 8079, 1, -8), (8088, 8095, 1, -8), (8104, 8111, 1, -8),
    (8120, 8121, 1, -8), (8122, 8123, 1, -74), (8124, 8124, 1, -9), (8136, 8139, 1, -86),
    (8140, 8140, 1, -9), (8152, 8153, 1, -8), (8154, 8155, 1, -100), (8168, 8169, 1, -8),
    (8170, 8171, 1, -112), (8172, 8172, 1, -7), (8184, 8185, 1, -128), (8186, 8187, 1, -126),
    (8188, 8188, 1, -9), (8486, 8486, 1, -7517), (8490, 8490, 1, -8383), (8491, 8491, 1, -8262),
    (8498, 8498, 1, 28), (8544, 8559, 1, 16), (8579, 8579, 1, 1), (9398, 9423, 1, 26),
    (11264, 11310, 1, 48), (11360, 11360, 1, 1), (11362, 11362, 1, -10743),
    (11363, 11363, 1, -3814), (11364, 11364, 1, -10727), (11367, 11371, 2, 1),
    (11373, 11373, 1, -10780), (11374, 11374, 1, -10749), (11375, 11375, 1, -10783),
    (11376, 11376, 1, -10782), (11378, 11378, 1, 1), (11381, 11381, 1, 1),
    (11390, 11391, 1, -10815), (11392, 11490, 2, 1), (11499, 11501, 2, 1), (11506, 11506, 1, 1),
    (42560, 42604, 2, 1), (42624, 42650, 2, 1), (42786, 42798, 2, 1), (42802, 42862, 2, 1),
    (42873, 42875, 2, 1), (42877, 42877, 1, -35332), (42878, 42886, 2, 1), (42891, 42891, 1, 1),
    (42893, 42893, 1, -42280), (42896, 42898, 2, 1), (42902, 42920, 2, 1),
    (42922, 42922, 1, -42308), (42923, 42923, 1, -42319), (42924, 42924, 1, -42315),
    (42925, 42925, 1, -42305), (42926, 42926, 1, -42308), (42928, 42928, 1, -42258),
    (42929, 42929, 1, -42282), (42930, 42930, 1, -42261), (42931, 42931, 1, 928),
    (42932, 42942, 2, 1), (42946, 42946, 1, 1), (42948, 42948, 1, -48),
    (42949, 42949, 1, -42307), (42950, 42950, 1, -35384), (42951, 42953, 2, 1),
    (42997, 42997, 1, 1), (65313, 65338, 1, 32), (66560, 66599, 1, 40), (66736, 66771, 1, 40),
    (68736, 68786, 1, 64), (71840, 71871, 1, 32), (93760, 93791, 1, 32), (125184, 125217, 1, 34)]"

definition upper_ranges :: "case_range list" where
  "upper_ranges = [
    (181, 181, 1, 743), (224, 246, 1, -32), (248, 254, 1, -32), (255, 255, 1, 121),
    (257, 303, 2, -1), (305, 305, 1, -232), (307, 311, 2, -1), (314, 328, 2, -1),
    (331, 375, 2, -1), (378, 382, 2, -1), (383, 383, 1, -300), (384, 384, 1, 195),
    (387, 389, 2, -1), (392, 392, 1, -1), (396, 396, 1, -1), (402, 402, 1, -1),
    (405, 405, 1, 97), (409, 409, 1, -1), (410, 410, 1, 163), (414, 414, 1, 130),
    (417, 421, 2, -1), (424, 424, 1, -1), (429, 429, 1, -1), (432, 432, 1, -1),
    (436, 438, 2, -1), (441, 441, 1, -1), (445, 445, 1, -1), (447, 447, 1, 56),
    (453, 453, 1, -1), (454, 454, 1, -2), (456, 456, 1, -1), (457, 457, 1, -2),
    (459, 459, 1, -1), (460, 460, 1, -2), (462, 476, 2, -1), (477, 477, 1, -79),
    (479, 495, 2, -1), (498, 498, 1, -1), (499, 499, 1, -2), (501, 501, 1, -1),
    (505, 543, 2, -1), (547, 563, 2, -1), (572, 572, 1, -1), (575, 576, 1, 10815),
    (578, 578, 1, -1), (583, 591, 2, -1), (592, 592, 1, 10783), (593, 593, 1, 10780),
    (594, 594, 1, 10782), (595, 595, 1, -210), (596, 596, 1, -206), (598, 599, 1, -205),
    (601, 601, 1, -202), (603, 603, 1, -203), (604, 604, 1, 42319), (608, 608, 1, -205),
    (609, 609, 1, 42315), (611, 611, 1, -207), (613, 613, 1, 42280), (614, 614, 1, 42308),
    (616, 616, 1, -209), (617, 617, 1, -211), (618, 618, 1, 42308), (619, 619, 1, 10743),
    (620, 620, 1, 42305), (623, 623, 1, -211), (625, 625, 1, 10749), (626, 626, 1, -213),
    (629, 629, 1, -214), (637, 637, 1, 10727), (640, 640, 1, -218), (642, 642, 1, 42307),
    (643, 643, 1, -218), (647, 647, 1, 42282), (648, 648, 1, -218), (649, 649, 1, -69),
    (650, 651, 1, -217), (652, 652, 1, -71), (658, 658, 1, -219), (669, 669, 1, 42261),
    (670, 670, 1, 42258), (837, 837, 1, 84), (881, 883, 2, -1), (887, 887, 1, -1),
    (891, 893, 1, 130), (940, 940, 1, -38), (941, 943, 1, -37), (945, 961, 1, -32),
    (962, 962, 1, -31), (963, 971, 1, -32), (972, 972, 1, -64), (973, 974, 1, -63),
    (976, 976, 1, -62), (977, 977, 1, -57), (981, 981, 1, -47), (982, 982, 1, -54),
    (983, 983, 1, -8), (985, 1007, 2, -1), (1008, 1008, 1, -86), (1009, 1009, 1, -80),
    (1010, 1010, 1, 7), (1011, 1011, 1, -116), (1013, 1013, 1, -96), (1016, 1016, 1, -1),
    (1019, 1019, 1, -1), (1072, 1103, 1, -32), (1104, 1119, 1, -80), (1121, 1153, 2, -1),
    (1163, 1215, 2, -1), (1218, 1230, 2, -1), (1231, 1231, 1, -15), (1233, 1327, 2, -1),
    (1377, 1414, 1, -48), (4304, 4346, 1, 3008), (4349, 4351, 1, 3008), (5112, 5117, 1, -8),
    (7296, 7296, 1, -6254), (7297, 7297, 1, -6253), (7298, 7298, 1, -6244),
    (7299, 7300, 1, -6242), (7301, 7301, 1, -6243), (7302, 7302, 1, -6236),
    (7303, 7303, 1, -6181), (7304, 7304, 1, 35266), (7545, 7545, 1, 35332),
    (7549, 7549, 1, 3814), (7566, 7566, 1, 35384), (7681, 7829, 2, -1), (7835, 7835, 1, -59),
    (7841, 7935, 2, -1), (7936, 7943, 1, 8), (7952, 7957, 1, 8), (7968, 7975, 1, 8),
    (7984, 7991, 1, 8), (8000, 8005, 1, 8), (8017, 8023, 2, 8), (8032, 8039, 1, 8),
    (8048, 8049, 1, 74), (8050, 8053, 1, 86), (8054, 8055, 1, 100), (8056, 8057, 1, 128),
    (8058, 8059, 1, 112), (8060, 8061, 1, 126), (8064, 8071, 1, 8), (8080, 8087, 1, 8),
    (8096, 8103, 1, 8), (8112, 8113, 1, 8), (8115, 8115, 1, 9), (8126, 8126, 1, -7205),
    (8131, 8131, 1, 9), (8144, 8145, 1, 8), (8160, 8161, 1, 8), (8165, 8165, 1, 7),
    (8179, 8179, 1, 9), (8526, 8526, 1, -28), (8560, 8575, 1, -16), (8580, 8580, 1, -1),
    (9424, 9449, 1, -26), (11312, 11358, 1, -48), (11361, 11361, 1, -1),
    (11365, 11365, 1, -10795), (11366, 11366, 1, -10792), (11368, 11372, 2, -1),
    (11379, 11379, 1, -1), (11382, 11382, 1, -1), (11393, 11491, 2, -1), (11500, 11502, 2, -1),
    (11507, 11507, 1, -1), (11520, 11557, 1, -7264), (11559, 11559, 1, -7264),
    (11565, 11565, 1, -7264), (42561, 42605, 2, -1), (42625, 42651, 2, -1),
    (42787, 42799, 2, -1), (42803, 42863, 2, -1), (42874, 42876, 2, -1), (42879, 42887, 2, -1),
    (42892, 42892, 1, -1), (42897, 42899, 2, -1), (42900, 42900, 1, 48), (42903, 42921, 2, -1),
    (42933, 42943, 2, -1), (42947, 42947, 1, -1), (42952, 42954, 2, -1), (42998, 42998, 1, -1),
    (43859, 43859, 1, -928), (43888, 43967, 1, -38864), (65345, 65370, 1, -32),
    (66600, 66639, 1, -40), (66776, 66811, 1, -40), (68800, 68850, 1, -64),
    (71872, 71903, 1, -32), (93792, 93823, 1, -32), (125218, 125251, 1, -34)]"

fun case_lookup :: "case_range list \<Rightarrow> nat \<Rightarrow> nat" where
  "case_lookup [] r = r"
| "case_lookup ((lo, hi, stride, delta) # rs) r =
     (if lo \<le> r \<and> r \<le> hi \<and> (r - lo) mod stride = 0 then nat (int r + delta) else case_lookup rs r)"

definition lower_ascii :: "char \<Rightarrow> char" where
  "lower_ascii c = (if in_range (CHR ''A'') (CHR ''Z'') c then char_of (byte c + 32) else c)"

definition upper_ascii :: "char \<Rightarrow> char" where
  "upper_ascii c = (if in_range (CHR ''a'') (CHR ''z'') c then char_of (byte c - 32) else c)"

definition unicode_ToLower :: "nat \<Rightarrow> nat" where
  "unicode_ToLower r = (if r < 128 then byte (lower_ascii (char_of r)) else case_lookup lower_ranges r)"

definition unicode_ToUpper :: "nat \<Rightarrow> nat" where
  "unicode_ToUpper r = (if r < 128 then byte (upper_ascii (char_of r)) else case_lookup upper_ranges r)"

text \<open>\<open>strings.Map\<close> with a mapping that drops no rune: ill-formed bytes become U+FFFD.\<close>

definition strings_Map :: "(nat \<Rightarrow> nat) \<Rightarrow> string \<Rightarrow> string" where
  "strings_Map f s = concat (map (\<lambda>(r, _). EncodeRune (f r)) (runes s))"

definition is_ascii :: "string \<Rightarrow> bool" where
  "is_ascii s \<longleftrightarrow> list_all (\<lambda>c. byte c < 128) s"

definition ToLower :: "string \<Rightarrow> string" where
  "ToLower s = (if is_ascii s then map lower_ascii s else strings_Map unicode_ToLower s)"

definition ToUpper :: "string \<Rightarrow> string" where
  "ToUpper s = (if is_ascii s then map upper_ascii s else strings_Map unicode_ToUpper s)"

lemma lower_ascii_lt [simp]: "byte c < 128 \<Longrightarrow> byte (lower_ascii c) < 128"
  by (simp add: lower_ascii_def in_range_def)

lemma is_ascii_lower: "is_ascii s \<Longrightarrow> is_ascii (map lower_ascii s)"
  by (simp add: is_ascii_def list_all_iff)

lemma lower_ascii_idem [simp]: "lower_ascii (lower_ascii c) = lower_ascii c"
  by (simp add: lower_ascii_def in_range_def)

lemma ToLower_Nil [simp]: "ToLower [] = []"
  by (simp add: ToLower_def is_ascii_def)

lemma ToLower_ascii_idem: "is_ascii s \<Longrightarrow> ToLower (ToLower s) = ToLower s"
  by (simp add: ToLower_def is_ascii_lower)

lemma ToLower_eq_Nil [simp]: "ToLower s = [] \<longleftrightarrow> s = []"
proof (cases "is_ascii s \<or> s = []")
  case True
  then show ?thesis by (auto simp: ToLower_def strings_Map_def)
next
  case False
  then have "runes s \<noteq> []" by (simp add: runes_Cons)
  with False show ?thesis
    by (cases "runes s") (auto simp: ToLower_def strings_Map_def)
qed

section \<open>White space\<close>

definition IsSpace :: "nat \<Rightarrow> bool" where
  "IsSpace r \<longleftrightarrow> r \<in> {9, 10, 11, 12, 13, 32, 133, 160, 5760, 8232, 8233, 8239, 8287, 12288}
     \<or> (8192 \<le> r \<and> r \<le> 8202)"

text \<open>\<open>strings.TrimSpace\<close>.\<close>

definition TrimSpace :: "string \<Rightarrow> string" where
  "TrimSpace s = (let sp = (\<lambda>(r, _). IsSpace r) in
     concat (map snd (rev (dropWhile sp (rev (dropWhile sp (runes s)))))))"

end
