(* ===== verification/Strings_Util.thy ===== *)
theory Strings_Util
  imports Go_Unicode
begin

unbundle bit_operations_syntax

text \<open>
  The helpers of \<^verbatim>\<open>internal/strings\<close> (src/internal/strings/strings.go) and
  \<^verbatim>\<open>internal/url\<close> (src/internal/url/url.go): hexadecimal digits, quotes,
  membership, and the lenient query-string parser. Byte arithmetic is done on
  \<open>8 word\<close>, as in the code, and the lemmas show the values it has on hexadecimal digits.
\<close>

section \<open>internal/strings\<close>

definition ValidHex :: "char \<Rightarrow> bool" where
  "ValidHex x \<longleftrightarrow> in_range (CHR ''0'') (CHR ''9'') x \<or> in_range (CHR ''a'') (CHR ''f'') x
     \<or> in_range (CHR ''A'') (CHR ''F'') x"

abbreviation byte_word :: "char \<Rightarrow> 8 word" where
  "byte_word c \<equiv> of_nat (byte c)"

definition x2c_digit :: "char \<Rightarrow> 8 word" where
  "x2c_digit c = (if 65 \<le> byte c then ((byte_word c AND 223) - 65) + 10 else byte_word c - 48)"

text \<open>\<open>X2c\<close> reads the first two bytes of its argument; these are its parameters here.\<close>

definition X2c :: "char \<Rightarrow> char \<Rightarrow> char" where
  "X2c a b = char_of (unat (x2c_digit a * 16 + x2c_digit b))"

definition MaybeRemoveQuotes :: "string \<Rightarrow> string" where
  "MaybeRemoveQuotes s =
     (if length s < 2 then s
      else if hd s = CHR 0x22 then
        (if last s \<noteq> CHR 0x22 then s else butlast (tl s))
      else if hd s = CHR 0x27 then
        (if last s \<noteq> CHR 0x27 then s else butlast (tl s))
      else s)"

fun InSlice :: "string \<Rightarrow> string list \<Rightarrow> bool" where
  "InSlice a [] = False"
| "InSlice a (b # bs) = (if b = a then True else InSlice a bs)"

section \<open>internal/url\<close>

text \<open>The two switch statements of \<open>QueryUnescape\<close>; \<^const>\<open>None\<close> is the default branch.\<close>

definition unhex :: "char \<Rightarrow> 8 word option" where
  "unhex c =
     (if in_range (CHR ''0'') (CHR ''9'') c then Some (byte_word c - 48)
      else if in_range (CHR ''a'') (CHR ''f'') c then Some (byte_word c - (97 - 10))
      else if in_range (CHR ''A'') (CHR ''F'') c then Some (byte_word c - (65 - 10))
      else None)"

fun QueryUnescape :: "string \<Rightarrow> string" where
  "QueryUnescape [] = []"
| "QueryUnescape (ci # rest) =
     (if ci = CHR ''+'' then CHR '' '' # QueryUnescape rest
      else if ci = CHR ''%'' then
        (case rest of
           hi # lo # rest' \<Rightarrow>
             (case (unhex hi, unhex lo) of
                (Some h, Some l) \<Rightarrow> char_of (unat (push_bit 4 h OR l)) # QueryUnescape rest'
              | _ \<Rightarrow> ci # QueryUnescape rest)
         | _ \<Rightarrow> ci # QueryUnescape rest)
      else ci # QueryUnescape rest)"

declare QueryUnescape.simps(2) [simp del]

text \<open>One turn of the loop of \<open>ParseQuery\<close>: the field before the separator, and the rest.\<close>

definition next_field :: "string \<Rightarrow> char \<Rightarrow> string \<times> string" where
  "next_field query sep = (case IndexByte query sep of
       Some i \<Rightarrow> (take i query, drop (Suc i) query)
     | None \<Rightarrow> (query, []))"

definition split_field :: "string \<Rightarrow> string \<times> string" where
  "split_field key = (case IndexByte key (CHR ''='') of
       Some i \<Rightarrow> (QueryUnescape (take i key), QueryUnescape (drop (Suc i) key))
     | None \<Rightarrow> (QueryUnescape key, QueryUnescape []))"

function parse_query_loop :: "string \<Rightarrow> char \<Rightarrow> (string \<times> string list) list \<Rightarrow>
    (string \<times> string list) list" where
  "parse_query_loop query sep m =
     (if query = [] then m
      else
        let (key, rest) = next_field query sep in
        if key = [] then parse_query_loop rest sep m
        else let (k, v) = split_field key in
          parse_query_loop rest sep (AList.update k (map_get m k @ [v]) m))"
  by pat_completeness auto
termination
  by (relation "measure (\<lambda>(q, _, _). length q)")
    (auto simp: next_field_def split: option.splits dest!: IndexByte_Some)

declare parse_query_loop.simps [simp del]

definition ParseQuery :: "string \<Rightarrow> char \<Rightarrow> (string \<times> string list) list" where
  "ParseQuery query separator = parse_query_loop query separator []"

section \<open>Lemmas\<close>

lemma InSlice_iff: "InSlice a bs \<longleftrightarrow> a \<in> set bs"
  by (induction bs) auto

lemma MaybeRemoveQuotes_quoted:
  "q = CHR 0x22 \<or> q = CHR 0x27 \<Longrightarrow> MaybeRemoveQuotes (q # s @ [q]) = s"
  by (auto simp: MaybeRemoveQuotes_def)

lemma MaybeRemoveQuotes_length: "length (MaybeRemoveQuotes s) \<le> length s"
  by (simp add: MaybeRemoveQuotes_def)

text \<open>The value of a hexadecimal digit.\<close>

definition hexval :: "char \<Rightarrow> nat" where
  "hexval c = (if byte c \<le> 57 then byte c - 48 else if byte c \<le> 70 then byte c - 55 else byte c - 87)"

lemma ValidHex_cases:
  assumes "ValidHex c"
  shows "byte c \<in> {48, 49, 50, 51, 52, 53, 54, 55, 56, 57, 65, 66, 67, 68, 69, 70, 97, 98, 99, 100, 101, 102}"
proof -
  have "(48 \<le> byte c \<and> byte c \<le> 57) \<or> (97 \<le> byte c \<and> byte c \<le> 102) \<or> (65 \<le> byte c \<and> byte c \<le> 70)"
    using assms by (auto simp: ValidHex_def in_range_def)
  moreover have "n \<in> {48, 49, 50, 51, 52, 53, 54, 55, 56, 57}" if "48 \<le> n" "n \<le> 57" for n :: nat
    using that by (simp, arith)
  moreover have "n \<in> {97, 98, 99, 100, 101, 102}" if "97 \<le> n" "n \<le> 102" for n :: nat
    using that by (simp, arith)
  moreover have "n \<in> {65, 66, 67, 68, 69, 70}" if "65 \<le> n" "n \<le> 70" for n :: nat
    using that by (simp, arith)
  ultimately show ?thesis by blast
qed

lemma hexval_lt: "ValidHex c \<Longrightarrow> hexval c < 16"
  by (drule ValidHex_cases) (auto simp: hexval_def)

lemma x2c_digit_hexval: "ValidHex c \<Longrightarrow> x2c_digit c = of_nat (hexval c)"
  by (drule ValidHex_cases) (auto simp: x2c_digit_def hexval_def)

lemma unhex_hexval: "unhex c = (if ValidHex c then Some (of_nat (hexval c)) else None)"
proof (cases "ValidHex c")
  case True
  then show ?thesis
    using ValidHex_cases [OF True] by (auto simp: unhex_def hexval_def in_range_def)
next
  case False
  then show ?thesis by (simp add: unhex_def ValidHex_def)
qed

lemma unat_of_nat8: "n < 256 \<Longrightarrow> unat (of_nat n :: 8 word) = n"
  by (simp add: unat_of_nat)

lemma X2c_hexval:
  assumes "ValidHex a" "ValidHex b"
  shows "X2c a b = char_of (hexval a * 16 + hexval b)"
proof -
  have lt: "hexval a * 16 + hexval b < 256" using hexval_lt [OF assms(1)] hexval_lt [OF assms(2)] by simp
  have e: "x2c_digit a * 16 + x2c_digit b = of_nat (hexval a * 16 + hexval b)"
    by (simp add: x2c_digit_hexval assms)
  show ?thesis by (simp only: X2c_def e unat_of_nat8 [OF lt])
qed

lemma push_or_nibble:
  assumes "h < 16" "l < 16"
  shows "unat (push_bit 4 (of_nat h) OR of_nat l :: 8 word) = h * 16 + l"
proof -
  have "push_bit 4 (of_nat h) OR of_nat l = push_bit 4 (of_nat h) + (of_nat l :: 8 word)"
  proof (rule disjunctive_add [symmetric])
    fix n
    have "\<not> bit l n" if "4 \<le> n"
    proof -
      have "l = take_bit 4 l" using assms(2) by (simp add: take_bit_eq_mod)
      then show ?thesis using that by (metis bit_take_bit_iff not_le)
    qed
    then show "\<not> bit (push_bit 4 (of_nat h :: 8 word)) n \<or> \<not> bit (of_nat l :: 8 word) n"
      by (auto simp: bit_push_bit_iff bit_of_nat_iff)
  qed
  also have "\<dots> = of_nat (h * 16 + l)" by (simp add: push_bit_eq_mult)
  finally have e: "push_bit 4 (of_nat h) OR of_nat l = (of_nat (h * 16 + l) :: 8 word)" .
  have lt: "h * 16 + l < 256" using assms by simp
  show ?thesis by (simp only: e unat_of_nat8 [OF lt])
qed

lemma unescape_byte:
  assumes "ValidHex a" "ValidHex b"
  shows "char_of (unat (push_bit 4 (of_nat (hexval a)) OR of_nat (hexval b) :: 8 word)) = X2c a b"
  by (simp add: push_or_nibble hexval_lt X2c_hexval assms)

lemma QueryUnescape_plain:
  "CHR ''+'' \<notin> set s \<Longrightarrow> CHR ''%'' \<notin> set s \<Longrightarrow> QueryUnescape s = s"
  by (induction s) (auto simp: QueryUnescape.simps(2))

text \<open>The loop body in terms of \<^const>\<open>ValidHex\<close> and \<^const>\<open>X2c\<close>.\<close>

lemma QueryUnescape_escape:
  "QueryUnescape (CHR ''%'' # a # b # r) =
     (if ValidHex a \<and> ValidHex b then X2c a b # QueryUnescape r
      else CHR ''%'' # QueryUnescape (a # b # r))"
  by (simp add: QueryUnescape.simps(2) [of "CHR ''%''"] unhex_hexval unescape_byte)

lemma QueryUnescape_short:
  "length r < 2 \<Longrightarrow> QueryUnescape (CHR ''%'' # r) = CHR ''%'' # QueryUnescape r"
  by (cases r; cases "tl r") (auto simp: QueryUnescape.simps(2) [of "CHR ''%''"])

lemma QueryUnescape_other:
  "c \<noteq> CHR ''%'' \<Longrightarrow> QueryUnescape (c # r) = (if c = CHR ''+'' then CHR '' '' else c) # QueryUnescape r"
  by (simp add: QueryUnescape.simps(2))

lemmas QueryUnescape_steps = QueryUnescape_escape QueryUnescape_short QueryUnescape_other

lemma QueryUnescape_length: "length (QueryUnescape s) \<le> length s"
proof (induction s rule: length_induct)
  case (1 s)
  show ?case
  proof (cases s)
    case (Cons c r)
    show ?thesis
    proof (cases "c = CHR ''%'' \<and> 2 \<le> length r")
      case True
      then obtain a b r' where r: "r = a # b # r'" by (auto simp: neq_Nil_conv Suc_le_length_iff numeral_2_eq_2)
      have "length (QueryUnescape r') \<le> length r'" "length (QueryUnescape r) \<le> length r"
        using "1.IH" [rule_format, of r'] "1.IH" [rule_format, of r] Cons r by simp_all
      then show ?thesis unfolding Cons r using True by (simp add: QueryUnescape_escape)
    next
      case False
      have "length (QueryUnescape r) \<le> length r" using "1.IH" Cons by simp
      with False show ?thesis unfolding Cons
        by (cases "c = CHR ''%''") (simp_all add: QueryUnescape_short QueryUnescape_other)
    qed
  qed simp
qed

text \<open>The fields of a query string, as a specification of the loop: split, drop the empty ones.\<close>

definition query_fields :: "string \<Rightarrow> char \<Rightarrow> (string \<times> string) list" where
  "query_fields q sep = map split_field (filter (\<lambda>f. f \<noteq> []) (Split q sep))"

lemma Split_append_sep: "sep \<notin> set u \<Longrightarrow> Split (u @ sep # v) sep = u # Split v sep"
  by (induction u) auto

lemma Split_no_sep_whole: "sep \<notin> set u \<Longrightarrow> Split u sep = [u]"
  by (induction u) auto

lemma query_fields_Nil [simp]: "query_fields [] sep = []"
  by (simp add: query_fields_def)

lemma query_fields_next:
  assumes "next_field q sep = (key, rest)" "q \<noteq> []"
  shows "query_fields q sep = (if key = [] then [] else [split_field key]) @ query_fields rest sep"
proof (cases "IndexByte q sep")
  case None
  from assms(1) have k: "key = q" "rest = []"
    unfolding next_field_def None by simp_all
  from None have "sep \<notin> set q" by simp
  with k assms(2) show ?thesis by (simp add: query_fields_def Split_no_sep_whole)
next
  case (Some i)
  then have q: "q = key @ sep # rest" "sep \<notin> set key"
    using assms IndexByte_Some [OF Some] id_take_nth_drop [of i q] by (auto simp: next_field_def)
  show ?thesis unfolding q(1) query_fields_def by (simp add: Split_append_sep q(2))
qed

lemma parse_query_loop_get:
  "map_get (parse_query_loop q sep m) k
     = map_get m k @ map snd (filter (\<lambda>(k', _). k' = k) (query_fields q sep))"
proof (induction q sep m rule: parse_query_loop.induct)
  case (1 q sep m)
  obtain key rest where nf: "next_field q sep = (key, rest)" by fastforce
  obtain k1 v1 where sf: "split_field key = (k1, v1)" by fastforce
  show ?case
  proof (cases "q = []")
    case True
    then show ?thesis by (simp add: parse_query_loop.simps [of "[]"])
  next
    case False
    note step = parse_query_loop.simps [of q sep m]
    show ?thesis
    proof (cases "key = []")
      case True
      with False nf "1.IH"(1) [OF False nf [symmetric] refl True] show ?thesis
        by (simp add: step query_fields_next [OF nf False])
    next
      case key: False
      from "1.IH"(2) [OF False nf [symmetric] refl key sf [symmetric] refl] False nf key sf
      show ?thesis
        by (simp add: step query_fields_next [OF nf False])
    qed
  qed
qed

section \<open>Properties\<close>

text \<open>
  The values \<open>ParseQuery\<close> stores under a key are the decoded values of the query's
  non-empty fields with that decoded key, in the order of the query string.
\<close>

theorem ParseQuery_values:
  "map_get (ParseQuery query sep) k = map snd (filter (\<lambda>(k', _). k' = k) (query_fields query sep))"
  by (simp add: ParseQuery_def parse_query_loop_get)

end
