(* ===== verification/Transformations.thy ===== *)
theory Transformations
  imports Strings_Util
begin

text \<open>
  The package \<^verbatim>\<open>transformations\<close> (src/transformations). A Go transformation
  takes a string and returns a string and an error; a run-time panic is \<^const>\<open>None\<close>.
  The byte loops write to a buffer at an index that never passes the index they read at, and
  read from the original input; the model reads the suffix of the input that is left and
  returns the bytes written. \<^verbatim>\<open>html.UnescapeString\<close>, a third-party function, is a
  parameter, and so are the hash functions of \<^verbatim>\<open>crypto\<close>.
\<close>

type_synonym transformation = "string \<Rightarrow> (string \<times> string option) go"

abbreviation ok :: "string \<Rightarrow> (string \<times> string option) go" where
  "ok s \<equiv> Some (s, None)"

section \<open>URL encoding\<close>

definition c2x :: "nat \<Rightarrow> char" where
  "c2x n = ''0123456789abcdef'' ! n"

definition url_plain :: "char \<Rightarrow> bool" where
  "url_plain c \<longleftrightarrow> byte c = 42 \<or> (48 \<le> byte c \<and> byte c \<le> 57) \<or> (65 \<le> byte c \<and> byte c \<le> 90)
     \<or> (97 \<le> byte c \<and> byte c \<le> 122)"

fun doURLEncode :: "string \<Rightarrow> string" where
  "doURLEncode [] = []"
| "doURLEncode (cc # rest) =
     (if cc = CHR '' '' then [CHR ''+'']
      else if url_plain cc then [cc]
      else [CHR ''%'', c2x (byte cc div 16), c2x (byte cc mod 16)]) @ doURLEncode rest"

definition urlEncode :: transformation where
  "urlEncode data = ok (doURLEncode data)"

fun doURLDecode :: "string \<Rightarrow> string" where
  "doURLDecode [] = []"
| "doURLDecode (c # rest) =
     (if c = CHR ''%'' then
        (case rest of
           c1 # c2 # rest' \<Rightarrow>
             if ValidHex c1 \<and> ValidHex c2 then X2c c1 c2 # doURLDecode rest'
             else c # doURLDecode rest
         | _ \<Rightarrow> c # doURLDecode rest)
      else (if c = CHR ''+'' then CHR '' '' else c) # doURLDecode rest)"

declare doURLDecode.simps(2) [simp del]

definition url_special :: "char \<Rightarrow> bool" where
  "url_special c \<longleftrightarrow> c = CHR ''%'' \<or> c = CHR ''+''"

definition urlDecode :: transformation where
  "urlDecode data =
     ok (takeWhile (\<lambda>c. \<not> url_special c) data @ doURLDecode (dropWhile (\<lambda>c. \<not> url_special c) data))"

text \<open>Full-width ASCII (ff01 - ff5e) gets 0x20 added to the lower byte.\<close>

definition full_width :: "char \<Rightarrow> char \<Rightarrow> char \<Rightarrow> char" where
  "full_width h1 h2 c =
     (if 0 < byte c \<and> byte c < 95 \<and> (h1 = CHR ''f'' \<or> h1 = CHR ''F'') \<and> (h2 = CHR ''f'' \<or> h2 = CHR ''F'')
      then char_of (byte c + 32) else c)"

fun inplaceUniDecode :: "string \<Rightarrow> string" where
  "inplaceUniDecode [] = []"
| "inplaceUniDecode (c # rest) =
     (if c = CHR ''%'' then
        (case rest of
           u # rest1 \<Rightarrow>
             if u = CHR ''u'' \<or> u = CHR ''U'' then
               (case rest1 of
                  h1 # h2 # h3 # h4 # rest5 \<Rightarrow>
                    if ValidHex h1 \<and> ValidHex h2 \<and> ValidHex h3 \<and> ValidHex h4
                    then full_width h1 h2 (X2c h3 h4) # inplaceUniDecode rest5
                    else c # u # inplaceUniDecode rest1
                | _ \<Rightarrow> c # u # inplaceUniDecode rest1)
             else
               (case rest1 of
                  c2 # rest2 \<Rightarrow>
                    if ValidHex u \<and> ValidHex c2 then X2c u c2 # inplaceUniDecode rest2
                    else c # inplaceUniDecode rest
                | [] \<Rightarrow> c # inplaceUniDecode rest)
         | [] \<Rightarrow> c # inplaceUniDecode rest)
      else (if c = CHR ''+'' then CHR '' '' else c) # inplaceUniDecode rest)"

declare inplaceUniDecode.simps(2) [simp del]

definition urlDecodeUni :: transformation where
  "urlDecodeUni data =
     ok (takeWhile (\<lambda>c. \<not> url_special c) data
         @ inplaceUniDecode (dropWhile (\<lambda>c. \<not> url_special c) data))"

section \<open>Whitespace, case, nulls\<close>

definition isLatinSpace :: "char \<Rightarrow> bool" where
  "isLatinSpace c \<longleftrightarrow> byte c \<in> {9, 10, 11, 12, 13, 32, 133, 160}"

fun doCompressWhitespace :: "bool \<Rightarrow> string \<Rightarrow> string" where
  "doCompressWhitespace inWhiteSpace [] = []"
| "doCompressWhitespace inWhiteSpace (c # rest) =
     (if isLatinSpace c then
        if inWhiteSpace then doCompressWhitespace inWhiteSpace rest
        else CHR '' '' # doCompressWhitespace True rest
      else c # doCompressWhitespace False rest)"

definition compressWhitespace :: transformation where
  "compressWhitespace value =
     ok (takeWhile (\<lambda>c. \<not> isLatinSpace c) value
         @ doCompressWhitespace False (dropWhile (\<lambda>c. \<not> isLatinSpace c) value))"

definition removeWhitespace :: transformation where
  "removeWhitespace data =
     ok (concat (map (\<lambda>(r, _). if IsSpace r then [] else EncodeRune r) (runes data)))"

definition lowerCase :: transformation where
  "lowerCase data = ok (ToLower data)"

definition removeNulls :: transformation where
  "removeNulls data = ok (ReplaceByte data (CHR 0x00) [])"

definition replaceNulls :: transformation where
  "replaceNulls data = ok (ReplaceByte data (CHR 0x00) '' '')"

definition none :: transformation where
  "none data = ok data"

definition length_t :: transformation where
  "length_t data = ok (Itoa (int (length data)))"

definition cmd_removed :: "char \<Rightarrow> bool" where
  "cmd_removed a \<longleftrightarrow> a = CHR 0x22 \<or> a = CHR 0x27 \<or> a = CHR 0x5C \<or> a = CHR ''^''"

definition cmd_space :: "char \<Rightarrow> bool" where
  "cmd_space a \<longleftrightarrow> a = CHR '' '' \<or> a = CHR '','' \<or> a = CHR '';'' \<or> byte a = 9 \<or> byte a = 13 \<or> byte a = 10"

definition needsTransform :: "char \<Rightarrow> bool" where
  "needsTransform c \<longleftrightarrow> in_range (CHR ''A'') (CHR ''Z'') c \<or> cmd_removed c \<or> cmd_space c
     \<or> c = CHR ''/'' \<or> c = CHR ''(''"

fun doCMDLine :: "string \<Rightarrow> bool \<Rightarrow> string \<Rightarrow> string" where
  "doCMDLine ret space [] = ret"
| "doCMDLine ret space (a # rest) =
     (if cmd_removed a then doCMDLine ret space rest
      else if cmd_space a then
        if \<not> space then doCMDLine (ret @ '' '') True rest else doCMDLine ret space rest
      else if a = CHR ''/'' \<or> a = CHR ''('' then
        doCMDLine ((if space then butlast ret else ret) @ [a]) False rest
      else doCMDLine (ret @ [lower_ascii a]) False rest)"

definition cmdLine :: transformation where
  "cmdLine data =
     (if \<exists>c\<in>set data. needsTransform c
      then ok (doCMDLine (takeWhile (\<lambda>c. \<not> needsTransform c) data) False
            (dropWhile (\<lambda>c. \<not> needsTransform c) data))
      else ok data)"

section \<open>Comments\<close>

fun doReplaceComments :: "bool \<Rightarrow> string \<Rightarrow> string" where
  "doReplaceComments incomment [] = (if incomment then '' '' else [])"
| "doReplaceComments False (c # rest) =
     (case rest of
        d # rest' \<Rightarrow>
          if c = CHR ''/'' \<and> d = CHR ''*'' then doReplaceComments True rest'
          else c # doReplaceComments False rest
      | [] \<Rightarrow> c # doReplaceComments False rest)"
| "doReplaceComments True (c # rest) =
     (case rest of
        d # rest' \<Rightarrow>
          if c = CHR ''*'' \<and> d = CHR ''/'' then CHR '' '' # doReplaceComments False rest'
          else doReplaceComments True rest
      | [] \<Rightarrow> doReplaceComments True rest)"

definition replaceComments :: transformation where
  "replaceComments data = ok (doReplaceComments False data)"

text \<open>
  After the end of a comment the code copies the next byte of its padded input unread: the byte
  after the comment, or the padding NUL when the comment ends the input.
\<close>

definition next_or_pad :: "string \<Rightarrow> char" where
  "next_or_pad s = (case s of c # _ \<Rightarrow> c | [] \<Rightarrow> CHR 0x00)"

function doRemoveComments :: "bool \<Rightarrow> string \<Rightarrow> string" where
  "doRemoveComments incomment s =
     (if s = [] then (if incomment then '' '' else [])
      else if \<not> incomment then
        if HasPrefix s ''/*'' then doRemoveComments True (drop 2 s)
        else if HasPrefix s ''<!--'' then doRemoveComments True (drop 4 s)
        else if HasPrefix s ''--'' then []
        else if hd s = CHR ''#'' then []
        else hd s # doRemoveComments False (tl s)
      else
        if HasPrefix s ''*/'' then next_or_pad (drop 2 s) # doRemoveComments False (drop 3 s)
        else if HasPrefix s ''-->'' then next_or_pad (drop 3 s) # doRemoveComments False (drop 4 s)
        else doRemoveComments True (tl s))"
  by pat_completeness auto
termination
  by (relation "measure (\<lambda>(_, s). length s)") auto

declare doRemoveComments.simps [simp del]

definition removeComments :: transformation where
  "removeComments value = ok (doRemoveComments False value)"

text \<open>The loop keeps the bytes before the index; erasing at the index leaves the index alone.\<close>

function doRemoveCommentsChar :: "string \<Rightarrow> string" where
  "doRemoveCommentsChar s =
     (if s = [] then []
      else if HasPrefix s ''/*'' then doRemoveCommentsChar (drop 2 s)
      else if HasPrefix s ''*/'' then doRemoveCommentsChar (drop 2 s)
      else if HasPrefix s ''<!--'' then doRemoveCommentsChar (drop 4 s)
      else if HasPrefix s ''-->'' then doRemoveCommentsChar (drop 3 s)
      else if HasPrefix s ''--'' then doRemoveCommentsChar (drop 2 s)
      else if hd s = CHR ''#'' then doRemoveCommentsChar (tl s)
      else hd s # doRemoveCommentsChar (tl s))"
  by pat_completeness auto
termination
  by (relation "measure length") auto

declare doRemoveCommentsChar.simps [simp del]

definition removeCommentsChar :: transformation where
  "removeCommentsChar data = ok (doRemoveCommentsChar data)"

end
