(* ===== verification/Transform_Decode.thy ===== *)
theory Transform_Decode
  imports Transformations
begin

text \<open>
  The decoders of the package \<^verbatim>\<open>transformations\<close> (CSS, C and JavaScript escapes,
  Base64, UTF-8), the path normalisers, and the registry that maps names to transformations.
\<close>

section \<open>CSS escapes\<close>

definition isspace :: "char \<Rightarrow> bool" where
  "isspace c \<longleftrightarrow> byte c \<in> {32, 12, 10, 9, 13, 11}"

definition xsingle2c :: "char \<Rightarrow> char" where
  "xsingle2c c = char_of (unat (x2c_digit c))"

text \<open>
  The byte for \<open>j\<close> hexadecimal digits at the front of \<open>t\<close>; \<open>t\<close> is the input
  after the backslash.
\<close>

definition css_hex :: "nat \<Rightarrow> string \<Rightarrow> char" where
  "css_hex j t =
     (if j = 1 then xsingle2c (t ! 0)
      else
        let d = X2c (t ! (j - 2)) (t ! (j - 1));
            fullcheck = (j = 4 \<or> (j = 5 \<and> t ! 0 = CHR ''0'') \<or>
              (j = 6 \<and> t ! 0 = CHR ''0'' \<and> t ! 1 = CHR ''0''))
        in if fullcheck then full_width (t ! (j - 3)) (t ! (j - 4)) d else d)"

function cssDecodeInplace :: "string \<Rightarrow> string" where
  "cssDecodeInplace s =
     (case s of
        [] \<Rightarrow> []
      | c # t \<Rightarrow>
          if c = CHR 0x5C then
            if t = [] then []
            else
              let j = length (takeWhile ValidHex (take 6 t)) in
              if j > 0 then
                let rest = drop j t;
                    rest = (if rest \<noteq> [] \<and> isspace (hd rest) then tl rest else rest)
                in css_hex j t # cssDecodeInplace rest
              else if hd t = CHR 0x0A then cssDecodeInplace (tl t)
              else hd t # cssDecodeInplace (tl t)
          else c # cssDecodeInplace t)"
  by pat_completeness auto
termination
  by (relation "measure length") auto

declare cssDecodeInplace.simps [simp del]

definition cssDecode :: transformation where
  "cssDecode data =
     ok (takeWhile (\<lambda>c. c \<noteq> CHR 0x5C) data @ cssDecodeInplace (dropWhile (\<lambda>c. c \<noteq> CHR 0x5C) data))"

section \<open>C escape sequences\<close>

definition isODigit :: "char \<Rightarrow> bool" where
  "isODigit c \<longleftrightarrow> in_range (CHR ''0'') (CHR ''7'') c"

text \<open>The conversion \<open>int8(b)\<close> of a byte.\<close>

definition int8 :: "nat \<Rightarrow> int" where
  "int8 b = (if b < 128 then int b else int b - 256)"

text \<open>The switch on the byte after the backslash; -1 when it is no simple escape.\<close>

definition simple_escape :: "char \<Rightarrow> int" where
  "simple_escape e =
     (if e = CHR ''a'' then 7 else if e = CHR ''b'' then 8 else if e = CHR ''f'' then 12
      else if e = CHR ''n'' then 10 else if e = CHR ''r'' then 13 else if e = CHR ''t'' then 9
      else if e = CHR ''v'' then 11 else if e = CHR 0x5C then 92 else if e = CHR ''?'' then 63
      else if e = CHR 0x27 then 39 else if e = CHR 0x22 then 34 else -1)"

text \<open>The loop that collects octal digits: the first byte always, then while the next is a digit.\<close>

fun octal_buf :: "nat \<Rightarrow> string \<Rightarrow> string" where
  "octal_buf n [] = []"
| "octal_buf n (c # cs) =
     (if n = 0 then []
      else c # (case cs of d # _ \<Rightarrow> if isODigit d then octal_buf (n - 1) cs else [] | [] \<Rightarrow> []))"

text \<open>
  From the suffix that starts with the backslash and has a byte \<open>e\<close> after it: the value of
  the variable \<open>c\<close> and the suffix at the advanced index.
\<close>

definition escape_code :: "char \<Rightarrow> string \<Rightarrow> string \<Rightarrow> int \<times> string" where
  "escape_code e rest s =
     (if simple_escape e \<noteq> -1 then (simple_escape e, rest)
      else if e = CHR ''x'' \<or> e = CHR ''X'' then
        (case rest of
           h1 # h2 # rest' \<Rightarrow>
             if ValidHex h1 \<and> ValidHex h2 then (int8 (byte (X2c h1 h2)), rest') else (-1, s)
         | _ \<Rightarrow> (-1, s))
      else if isODigit e then
        let buf = octal_buf 3 (e # rest) in
        (int8 (fst (ParseUint buf 8 8)), drop (length buf) (e # rest))
      else (-1, s))"

lemma escape_code_suffix:
  assumes "escape_code e rest s = (c, s')" "s = b # e # rest"
  shows "length s' \<le> length s \<and> (c \<noteq> -1 \<longrightarrow> length s' < length s)"
  using assms by (auto simp: escape_code_def Let_def split: if_splits list.splits)

text \<open>
  When the value is -1 the code copies the byte after the current one, at the advanced index;
  past the end of the input this is a panic.
\<close>

function doEscapeSeqDecode :: "string \<Rightarrow> string go" where
  "doEscapeSeqDecode [] = Some []"
| "doEscapeSeqDecode [c] = Some [c]"
| "doEscapeSeqDecode (b # e # rest) =
     (if b = CHR 0x5C then
        (case escape_code e rest (b # e # rest) of (c, s') \<Rightarrow>
           if c = -1 then
             (case s' of
                _ # x # s'' \<Rightarrow> map_option (\<lambda>r. x # r) (doEscapeSeqDecode s'')
              | _ \<Rightarrow> None)
           else map_option (\<lambda>r. char_of (nat (c mod 256)) # r) (doEscapeSeqDecode s'))
      else map_option (\<lambda>r. b # r) (doEscapeSeqDecode (e # rest)))"
  by pat_completeness auto
termination
  by (relation "measure length")
    (auto dest!: escape_code_suffix [OF sym])

declare doEscapeSeqDecode.simps(3) [simp del]

definition escapeSeqDecode :: transformation where
  "escapeSeqDecode input =
     map_option (\<lambda>r. (takeWhile (\<lambda>c. c \<noteq> CHR 0x5C) input @ r, None))
       (doEscapeSeqDecode (dropWhile (\<lambda>c. c \<noteq> CHR 0x5C) input))"

section \<open>JavaScript escapes\<close>

text \<open>
  The loop over \<open>buf[j] = input[i+j]\<close>, which starts at the backslash itself:
  \<open>s\<close> is the suffix that starts with the backslash.
\<close>

fun js_octal_j :: "nat \<Rightarrow> nat \<Rightarrow> string \<Rightarrow> nat" where
  "js_octal_j 0 j s = j"
| "js_octal_j (Suc fuel) j s =
     (if 1 + j < length s then
        (if \<not> isODigit (s ! (j + 1)) then j + 1 else js_octal_j fuel (j + 1) s)
      else j)"

definition js_octal :: "string \<Rightarrow> char \<times> nat" where
  "js_octal s =
     (let j = js_octal_j 3 0 s;
          buf = take j s;
          j' = (if j = 3 \<and> byte (buf ! 0) > byte (CHR ''3'') then 2 else j);
          buf' = take j' buf
      in (char_of (nat (fst (ParseInt buf' 8 8) mod 256)), 1 + j'))"

definition js_simple :: "char \<Rightarrow> char" where
  "js_simple e =
     (if e = CHR ''a'' then CHR 0x07 else if e = CHR ''b'' then CHR 0x08
      else if e = CHR ''f'' then CHR 0x0C else if e = CHR ''n'' then CHR 0x0A
      else if e = CHR ''r'' then CHR 0x0D else if e = CHR ''t'' then CHR 0x09
      else if e = CHR ''v'' then CHR 0x0B else e)"

definition js_unicode :: "string \<Rightarrow> bool" where
  "js_unicode s \<longleftrightarrow> 5 < length s \<and> s ! 1 = CHR ''u'' \<and> ValidHex (s ! 2) \<and> ValidHex (s ! 3)
     \<and> ValidHex (s ! 4) \<and> ValidHex (s ! 5)"

definition js_hex :: "string \<Rightarrow> bool" where
  "js_hex s \<longleftrightarrow> 3 < length s \<and> s ! 1 = CHR ''x'' \<and> ValidHex (s ! 2) \<and> ValidHex (s ! 3)"

function doJsDecode :: "string \<Rightarrow> string" where
  "doJsDecode s =
     (if s = [] then []
      else if hd s = CHR 0x5C then
        if js_unicode s then full_width (s ! 2) (s ! 3) (X2c (s ! 4) (s ! 5)) # doJsDecode (drop 6 s)
        else if js_hex s then X2c (s ! 2) (s ! 3) # doJsDecode (drop 4 s)
        else if 1 < length s \<and> isODigit (s ! 1) then
          fst (js_octal s) # doJsDecode (drop (snd (js_octal s)) s)
        else if 1 < length s then js_simple (s ! 1) # doJsDecode (drop 2 s)
        else s
      else hd s # doJsDecode (tl s))"
  by pat_completeness auto
termination
  by (relation "measure length") (auto simp: js_unicode_def js_hex_def js_octal_def Let_def)

declare doJsDecode.simps [simp del]

definition jsDecode :: transformation where
  "jsDecode data =
     ok (takeWhile (\<lambda>c. c \<noteq> CHR 0x5C) data @ doJsDecode (dropWhile (\<lambda>c. c \<noteq> CHR 0x5C) data))"

section \<open>Base64\<close>

definition base64DecMap :: "nat list" where
  "base64DecMap = [
    127, 127, 127, 127, 127, 127, 127, 127, 127, 127,
    127, 127, 127, 127, 127, 127, 127, 127, 127, 127,
    127, 127, 127, 127, 127, 127, 127, 127, 127, 127,
    127, 127, 127, 127, 127, 127, 127, 127, 127, 127,
    127, 127, 127, 62, 127, 127, 127, 63, 52, 53,
    54, 55, 56, 57, 58, 59, 60, 61, 127, 127,
    127, 64, 127, 127, 127, 0, 1, 2, 3, 4,
    5, 6, 7, 8, 9, 10, 11, 12, 13, 14,
    15, 16, 17, 18, 19, 20, 21, 22, 23, 24,
    25, 127, 127, 127, 127, 127, 127, 26, 27, 28,
    29, 30, 31, 32, 33, 34, 35, 36, 37, 38,
    39, 40, 41, 42, 43, 44, 45, 46, 47, 48,
    49, 50, 51, 127, 127, 127, 127, 127]"

lemma dropWhile_Cons_shorter: "dropWhile P s = c # r \<Longrightarrow> length r < length s"
  using length_dropWhile_le [of P s] by simp

text \<open>
  The first pass: the number \<open>n\<close> of symbols and the number \<open>j\<close> of equal signs,
  or \<^const>\<open>None\<close> when the input is returned as it is. The spaces skipped before a byte
  are \<open>x\<close>.
\<close>

function base64_check :: "nat \<Rightarrow> nat \<Rightarrow> string \<Rightarrow> (nat \<times> nat) option" where
  "base64_check j n s =
     (let x = length (takeWhile (\<lambda>c. c = CHR '' '') s);
          s = dropWhile (\<lambda>c. c = CHR '' '') s
      in case s of
           [] \<Rightarrow> Some (j, n)
         | c # rest \<Rightarrow>
             if c = CHR 0x0D \<and> rest \<noteq> [] \<and> hd rest = CHR 0x0A then base64_check j n rest
             else if c = CHR 0x0A then base64_check j n rest
             else if x \<noteq> 0 then None
             else
               let j' = (if c = CHR ''='' then j + 1 else j) in
               if c = CHR ''='' \<and> j' > 2 then None
               else if byte c > 127 \<or> base64DecMap ! byte c = 127 then None
               else if base64DecMap ! byte c < 64 \<and> j' \<noteq> 0 then None
               else base64_check j' (n + 1) rest)"
  by pat_completeness auto
termination
  by (relation "measure (\<lambda>(_, _, s). length s)")
    (simp_all, (erule dropWhile_Cons_shorter [OF sym])+)

declare base64_check.simps [simp del]

text \<open>The second pass; \<open>x\<close> is a 64-bit int of which the low 24 bits are used.\<close>

fun base64_emit :: "int \<Rightarrow> nat \<Rightarrow> 64 word \<Rightarrow> string \<Rightarrow> string" where
  "base64_emit j n x [] = []"
| "base64_emit j n x (c # rest) =
     (if c = CHR 0x0D \<or> c = CHR 0x0A \<or> c = CHR '' '' then base64_emit j n x rest
      else
        let j' = (if base64DecMap ! byte c = 64 then j - 1 else j);
            x' = push_bit 6 x OR of_nat (base64DecMap ! byte c mod 64)
        in if n + 1 = 4 then
             (if j' > 0 then [char_of (unat (drop_bit 16 x') mod 256)] else [])
             @ (if j' > 1 then [char_of (unat (drop_bit 8 x') mod 256)] else [])
             @ (if j' > 2 then [char_of (unat x' mod 256)] else [])
             @ base64_emit j' 0 x' rest
           else base64_emit j' (n + 1) x' rest)"

definition doBase64decode :: "string \<Rightarrow> string" where
  "doBase64decode src =
     (if src = [] then src
      else case base64_check 0 0 src of
        None \<Rightarrow> src
      | Some (j, n) \<Rightarrow>
          if int (length src) < int ((n * 6 + 7) div 8) - int j then src
          else base64_emit 3 0 0 src)"

definition base64decode :: transformation where
  "base64decode data = (let res = doBase64decode data in if res = [] then ok data else ok res)"

section \<open>Hexadecimal and UTF-8\<close>

definition hexEncode :: transformation where
  "hexEncode data = ok (concat (map (\<lambda>c. [c2x (byte c div 16), c2x (byte c mod 16)]) data))"

text \<open>\<open>strconv.AppendUint(res, c, 16)\<close>.\<close>

fun nat_to_hex :: "nat \<Rightarrow> string" where
  "nat_to_hex n = (if n < 16 then [c2x n] else nat_to_hex (n div 16) @ [c2x (n mod 16)])"

declare nat_to_hex.simps [simp del]

definition numHexDigits :: "nat \<Rightarrow> nat" where
  "numHexDigits c = (if c \<le> 15 then 1 else if c \<le> 255 then 2 else if c \<le> 4095 then 3 else 4)"

definition doUTF8ToUnicode :: "string \<Rightarrow> string" where
  "doUTF8ToUnicode s = concat (map (\<lambda>(c, _).
     if c < 128 then [char_of c]
     else ''%u'' @ replicate (4 - numHexDigits c) (CHR ''0'') @ nat_to_hex c) (runes s))"

definition utf8ToUnicode :: transformation where
  "utf8ToUnicode str =
     (let pre = takeWhile (\<lambda>(c, _). c < 128) (runes str);
          pos = length (concat (map snd pre))
      in if length pre = length (runes str) then ok str
         else ok (take pos str @ doUTF8ToUnicode (drop pos str)))"

section \<open>Paths\<close>

text \<open>
  The algorithm of \<^verbatim>\<open>filepath.Clean\<close> on Unix, and of its copy \<open>clean\<close> with
  the backslash as separator. The lazy buffer is the list of the bytes written so far;
  \<open>backtrack\<close> is the loop that removes the last element.
\<close>

fun backtrack :: "char \<Rightarrow> nat \<Rightarrow> string \<Rightarrow> nat \<Rightarrow> nat" where
  "backtrack sep dotdot out 0 = 0"
| "backtrack sep dotdot out (Suc w) =
     (if w > dotdot \<and> out ! w \<noteq> sep then backtrack sep dotdot out w else w)"

function clean_loop :: "char \<Rightarrow> bool \<Rightarrow> nat \<Rightarrow> string \<Rightarrow> string \<Rightarrow> string" where
  "clean_loop sep rooted dotdot out path =
     (case path of
        [] \<Rightarrow> out
      | c # rest \<Rightarrow>
          if c = sep then clean_loop sep rooted dotdot out rest
          else if c = CHR ''.'' \<and> (rest = [] \<or> hd rest = sep) then
            clean_loop sep rooted dotdot out rest
          else if c = CHR ''.'' \<and> hd rest = CHR ''.'' \<and> (tl rest = [] \<or> hd (tl rest) = sep) then
            if length out > dotdot then
              clean_loop sep rooted dotdot (take (backtrack sep dotdot out (length out)) out) (tl rest)
            else if \<not> rooted then
              let out' = (if out \<noteq> [] then out @ [sep] else out) @ ''..'' in
              clean_loop sep rooted (length out') out' (tl rest)
            else clean_loop sep rooted dotdot out (tl rest)
          else
            let out' = (if rooted \<and> length out \<noteq> 1 \<or> \<not> rooted \<and> out \<noteq> [] then out @ [sep] else out) in
            clean_loop sep rooted dotdot (out' @ takeWhile (\<lambda>x. x \<noteq> sep) path)
              (dropWhile (\<lambda>x. x \<noteq> sep) path))"
  by pat_completeness auto
termination
  by (relation "measure (\<lambda>(_, _, _, _, path). length path)")
    (auto simp: le_imp_less_Suc length_dropWhile_le)

declare clean_loop.simps [simp del]

definition clean_path :: "char \<Rightarrow> string \<Rightarrow> string" where
  "clean_path sep path =
     (let rooted = (path \<noteq> [] \<and> hd path = sep);
          out = (if rooted then clean_loop sep True 1 [sep] (tl path)
                 else clean_loop sep False 0 [] path)
      in if out = [] then ''.'' else out)"

definition normalisePath :: transformation where
  "normalisePath data =
     (if data = [] then ok data
      else
        let cl = clean_path (CHR ''/'') data in
        if cl = ''.'' then ok []
        else if last data = CHR ''/'' then ok (cl @ ''/'')
        else ok cl)"

definition isSlash :: "char \<Rightarrow> bool" where
  "isSlash c \<longleftrightarrow> c = CHR 0x5C \<or> c = CHR ''/''"

text \<open>The search for the end of the server and share names of a UNC path, from index \<open>n\<close>.\<close>

function unc_len :: "string \<Rightarrow> nat \<Rightarrow> nat" where
  "unc_len path n =
     (if n < length path - 1 then
        if isSlash (path ! n) then
          if \<not> isSlash (path ! (n + 1)) then
            if path ! (n + 1) = CHR ''.'' then 0
            else (n + 1) + length (takeWhile (\<lambda>c. \<not> isSlash c) (drop (n + 1) path))
          else 0
        else unc_len path (n + 1)
      else 0)"
  by pat_completeness auto
termination
  by (relation "measure (\<lambda>(path, n). length path - n)") auto

declare unc_len.simps [simp del]

definition volumeNameLen :: "string \<Rightarrow> nat" where
  "volumeNameLen path =
     (if length path < 2 then 0
      else
        let c = path ! 0 in
        if path ! 1 = CHR '':'' \<and> (in_range (CHR ''a'') (CHR ''z'') c \<or> in_range (CHR ''A'') (CHR ''Z'') c)
        then 2
        else if length path \<ge> 5 \<and> isSlash (path ! 0) \<and> isSlash (path ! 1) \<and> \<not> isSlash (path ! 2)
          \<and> path ! 2 \<noteq> CHR ''.'' then unc_len path 3
        else 0)"

definition clean_win :: "string \<Rightarrow> string" where
  "clean_win originalPath =
     (let volLen = volumeNameLen originalPath; path = drop volLen originalPath in
      if path = [] then
        if volLen > 1 \<and> originalPath ! 1 \<noteq> CHR '':'' then originalPath
        else originalPath @ ''.''
      else take volLen originalPath @ clean_path (CHR 0x5C) path)"

definition normalisePathWin :: transformation where
  "normalisePathWin data =
     (let cl = ReplaceByte (clean_win data) (CHR 0x5C) ''/'' in
      if cl = ''.'' then ok []
      else
        let cl = (if length data \<ge> 2 \<and> HasPrefix cl ''./'' then drop 2 cl else cl) in
        if data = [] then None
        else if last data = CHR 0x5C then ok (cl @ ''/'')
        else ok cl)"

section \<open>The registry\<close>

record extern =
  html_UnescapeString :: "string \<Rightarrow> string"
  md5_Sum :: "string \<Rightarrow> string"
  sha1_Sum :: "string \<Rightarrow> string"

definition htmlEntityDecode :: "extern \<Rightarrow> transformation" where
  "htmlEntityDecode ext data = ok (html_UnescapeString ext data)"

definition md5T :: "extern \<Rightarrow> transformation" where
  "md5T ext data = (if data = [] then ok (md5_Sum ext []) else ok (md5_Sum ext data))"

definition sha1T :: "extern \<Rightarrow> transformation" where
  "sha1T ext data = (if data = [] then ok (sha1_Sum ext []) else ok (sha1_Sum ext data))"

definition transformations :: "extern \<Rightarrow> (string \<times> transformation) list" where
  "transformations ext = map (\<lambda>(n, t). (ToLower n, t)) [
    (''base64Decode'', base64decode),
    (''cmdLine'', cmdLine),
    (''compressWhitespace'', compressWhitespace),
    (''cssDecode'', cssDecode),
    (''escapeSeqDecode'', escapeSeqDecode),
    (''hexEncode'', hexEncode),
    (''htmlEntityDecode'', htmlEntityDecode ext),
    (''jsDecode'', jsDecode),
    (''length'', length_t),
    (''lowercase'', lowerCase),
    (''md5'', md5T ext),
    (''none'', none),
    (''normalisePath'', normalisePath),
    (''normalisePathWin'', normalisePathWin),
    (''normalizePath'', normalisePath),
    (''normalizePathWin'', normalisePathWin),
    (''removeComments'', removeComments),
    (''removeCommentsChar'', removeCommentsChar),
    (''removeNulls'', removeNulls),
    (''removeWhitespace'', removeWhitespace),
    (''replaceComments'', replaceComments),
    (''replaceNulls'', replaceNulls),
    (''sha1'', sha1T ext),
    (''urlDecode'', urlDecode),
    (''urlDecodeUni'', urlDecodeUni),
    (''urlEncode'', urlEncode),
    (''utf8toUnicode'', utf8ToUnicode)]"

definition GetTransformation :: "extern \<Rightarrow> string \<Rightarrow> string + transformation" where
  "GetTransformation ext name =
     (case map_of (transformations ext) (ToLower name) of
        Some t \<Rightarrow> Inr t
      | None \<Rightarrow> Inl (''invalid transformation name '' @ name))"

end
