(* ===== verification/Transform_Props.thy ===== *)
theory Transform_Props
  imports Transform_Decode
begin

text \<open>
  What the transformations do: the two URL decoders of the code base agree, decoding inverts
  encoding for URLs and Base64, whitespace compression, and the inputs on which the C and
  JavaScript decoders misbehave.
\<close>

section \<open>URL encoding\<close>

lemma doURLDecode_escape:
  "doURLDecode (CHR ''%'' # a # b # r) =
     (if ValidHex a \<and> ValidHex b then X2c a b # doURLDecode r
      else CHR ''%'' # doURLDecode (a # b # r))"
  by (simp add: doURLDecode.simps(2) [of "CHR ''%''"])

lemma doURLDecode_short:
  "length r < 2 \<Longrightarrow> doURLDecode (CHR ''%'' # r) = CHR ''%'' # doURLDecode r"
  by (cases r; cases "tl r") (auto simp: doURLDecode.simps(2) [of "CHR ''%''"])

lemma doURLDecode_other:
  "c \<noteq> CHR ''%'' \<Longrightarrow> doURLDecode (c # r) = (if c = CHR ''+'' then CHR '' '' else c) # doURLDecode r"
  by (simp add: doURLDecode.simps(2))

lemmas doURLDecode_steps = doURLDecode_escape doURLDecode_short doURLDecode_other

lemma doURLDecode_eq: "doURLDecode s = QueryUnescape s"
proof (induction s rule: length_induct)
  case (1 s)
  show ?case
  proof (cases s)
    case (Cons c r)
    have IH: "doURLDecode t = QueryUnescape t" if "length t < length s" for t
      using "1.IH" that by blast
    show ?thesis
    proof (cases "c = CHR ''%'' \<and> 2 \<le> length r")
      case True
      then obtain a b r' where r: "r = a # b # r'"
        by (auto simp: neq_Nil_conv Suc_le_length_iff numeral_2_eq_2)
      show ?thesis using True IH [of r'] IH [of r] unfolding Cons r
        by (simp add: doURLDecode_steps QueryUnescape_escape)
    next
      case False
      then show ?thesis using IH [of r] unfolding Cons
        by (cases "c = CHR ''%''") (simp_all add: doURLDecode_steps QueryUnescape_short QueryUnescape_other)
    qed
  qed simp
qed

lemma doURLDecode_span:
  "takeWhile (\<lambda>c. \<not> url_special c) s @ doURLDecode (dropWhile (\<lambda>c. \<not> url_special c) s) = doURLDecode s"
  by (induction s) (auto simp: doURLDecode_other url_special_def)

lemma nibble_cases:
  assumes "n < (16::nat)"
  shows "n \<in> {0, 1, 2, 3, 4, 5, 6, 7, 8, 9, 10, 11, 12, 13, 14, 15}"
  using assms by (simp, arith)

lemma c2x_hex: "n < 16 \<Longrightarrow> ValidHex (c2x n) \<and> hexval (c2x n) = n"
  by (drule nibble_cases) (auto simp: c2x_def ValidHex_def in_range_def hexval_def)

lemma X2c_c2x: "X2c (c2x (byte c div 16)) (c2x (byte c mod 16)) = c"
proof -
  have "byte c div 16 < 16" by (simp add: less_mult_imp_div_less)
  moreover have "byte c mod 16 < 16" by simp
  moreover have "byte c div 16 * 16 + byte c mod 16 = byte c" by simp
  ultimately show ?thesis by (simp add: X2c_hexval c2x_hex)
qed

lemma url_plain_not_special: "url_plain c \<Longrightarrow> c \<noteq> CHR ''%'' \<and> c \<noteq> CHR ''+''"
  by (auto simp: url_plain_def)

lemma doURLDecode_doURLEncode: "doURLDecode (doURLEncode s) = s"
proof (induction s)
  case Nil
  then show ?case by simp
next
  case (Cons c s)
  have hex: "ValidHex (c2x (byte c div 16))" "ValidHex (c2x (byte c mod 16))"
    using c2x_hex by (simp_all add: less_mult_imp_div_less)
  show ?case
    using Cons hex url_plain_not_special [of c]
    by (auto simp: doURLDecode_steps X2c_c2x)
qed

section \<open>Whitespace\<close>

text \<open>No two adjacent whitespace bytes, and the only whitespace byte is the space.\<close>

fun compressed :: "string \<Rightarrow> bool" where
  "compressed [] = True"
| "compressed [c] = (isLatinSpace c \<longrightarrow> c = CHR '' '')"
| "compressed (c # d # s) =
     ((isLatinSpace c \<longrightarrow> c = CHR '' '' \<and> \<not> isLatinSpace d) \<and> compressed (d # s))"

lemma space_is_space [simp]: "isLatinSpace (CHR '' '')"
  by (simp add: isLatinSpace_def)

lemma doCompressWhitespace_span:
  "takeWhile (\<lambda>c. \<not> isLatinSpace c) s @ doCompressWhitespace False (dropWhile (\<lambda>c. \<not> isLatinSpace c) s)
     = doCompressWhitespace False s"
  by (induction s) auto

lemma doCompressWhitespace_True_hd:
  "doCompressWhitespace True s = d # r \<Longrightarrow> \<not> isLatinSpace d"
  by (induction s) (auto split: if_splits)

lemma compressed_Cons:
  "compressed (c # s) \<longleftrightarrow>
     compressed s \<and> (isLatinSpace c \<longrightarrow> c = CHR '' '' \<and> (s = [] \<or> \<not> isLatinSpace (hd s)))"
  by (cases s) auto

lemma compressed_doCompressWhitespace: "compressed (doCompressWhitespace b s)"
proof (induction b s rule: doCompressWhitespace.induct)
  case (1 b)
  then show ?case by simp
next
  case (2 b c rest)
  show ?case
  proof (cases "isLatinSpace c")
    case True
    have "doCompressWhitespace True rest = [] \<or> \<not> isLatinSpace (hd (doCompressWhitespace True rest))"
      using doCompressWhitespace_True_hd by (cases "doCompressWhitespace True rest") auto
    with True 2 show ?thesis by (auto simp: compressed_Cons)
  next
    case False
    with 2 show ?thesis by (simp add: compressed_Cons)
  qed
qed

lemma doCompressWhitespace_id: "compressed s \<Longrightarrow> doCompressWhitespace False s = s"
proof (induction s rule: compressed.induct)
  case (3 c d s)
  then show ?case by (cases "isLatinSpace c") auto
qed auto

lemma doCompressWhitespace_words:
  "filter (\<lambda>c. \<not> isLatinSpace c) (doCompressWhitespace b s) = filter (\<lambda>c. \<not> isLatinSpace c) s"
  by (induction b s rule: doCompressWhitespace.induct) auto

section \<open>Base64\<close>

unbundle bit_operations_syntax

text \<open>The standard encoder, as the specification the decoder is measured against.\<close>

definition b64_sym :: "nat \<Rightarrow> char" where
  "b64_sym n = ''ABCDEFGHIJKLMNOPQRSTUVWXYZabcdefghijklmnopqrstuvwxyz0123456789+/'' ! n"

fun b64_encode :: "string \<Rightarrow> string" where
  "b64_encode [] = []"
| "b64_encode [a] = [b64_sym (byte a div 4), b64_sym (byte a mod 4 * 16), CHR ''='', CHR ''='']"
| "b64_encode [a, b] = [b64_sym (byte a div 4), b64_sym (byte a mod 4 * 16 + byte b div 16),
     b64_sym (byte b mod 16 * 4), CHR ''='']"
| "b64_encode (a # b # c # r) = [b64_sym (byte a div 4), b64_sym (byte a mod 4 * 16 + byte b div 16),
     b64_sym (byte b mod 16 * 4 + byte c div 64), b64_sym (byte c mod 64)] @ b64_encode r"

definition b64_sym_ok :: "nat \<Rightarrow> bool" where
  "b64_sym_ok n \<longleftrightarrow> byte (b64_sym n) \<le> 127 \<and> base64DecMap ! byte (b64_sym n) = n \<and>
     b64_sym n \<noteq> CHR '' '' \<and> b64_sym n \<noteq> CHR 0x0D \<and> b64_sym n \<noteq> CHR 0x0A \<and> b64_sym n \<noteq> CHR ''=''"

lemma b64_sym_ok_all: "list_all b64_sym_ok [0..<64]"
  by (simp add: b64_sym_ok_def b64_sym_def base64DecMap_def upt_rec)

lemma b64_symD: "n < 64 \<Longrightarrow> b64_sym_ok n"
  using b64_sym_ok_all by (simp add: list_all_iff)

lemma b64_eq: "base64DecMap ! 61 = 64"
  by (simp add: base64DecMap_def)

lemma check_sym:
  assumes "n < 64"
  shows "base64_check 0 k (b64_sym n # s) = base64_check 0 (k + 1) s"
  using b64_symD [OF assms] assms
  by (subst base64_check.simps) (auto simp: b64_sym_ok_def)

lemma check_eq:
  "j < 2 \<Longrightarrow> base64_check j k (CHR ''='' # s) = base64_check (j + 1) (k + 1) s"
  by (subst base64_check.simps) (simp add: b64_eq)

lemma check_nil: "base64_check j k [] = Some (j, k)"
  by (subst base64_check.simps) simp

lemma sextets:
  "byte a div 4 < 64" "byte a mod 4 * 16 < 64" "byte a mod 4 * 16 + byte b div 16 < 64"
  "byte b mod 16 * 4 < 64" "byte b mod 16 * 4 + byte c div 64 < 64" "byte c mod 64 < 64"
proof -
  have a: "byte a < 256" "byte b < 256" "byte c < 256" by simp_all
  have "byte b div 16 < 16" "byte c div 64 < 4" using a by (auto simp: less_mult_imp_div_less)
  moreover have "byte a mod 4 < 4" "byte b mod 16 < 16" by simp_all
  ultimately show "byte a mod 4 * 16 + byte b div 16 < 64" "byte b mod 16 * 4 + byte c div 64 < 64"
    "byte a mod 4 * 16 < 64" "byte b mod 16 * 4 < 64"
    by linarith+
  show "byte a div 4 < 64" using a by (auto simp: less_mult_imp_div_less)
qed simp

lemmas check_syms = check_sym [OF sextets(1)] check_sym [OF sextets(2)] check_sym [OF sextets(3)]
  check_sym [OF sextets(4)] check_sym [OF sextets(5)] check_sym [OF sextets(6)]

lemma check_encode:
  "\<exists>j. base64_check 0 k (b64_encode s) = Some (j, k + length (b64_encode s))"
proof (induction s arbitrary: k rule: b64_encode.induct)
  case 1
  then show ?case by (simp only: b64_encode.simps check_nil) simp
next
  case (2 a)
  then show ?case by (simp only: b64_encode.simps check_syms check_eq check_nil) (simp add: check_eq check_nil)
next
  case (3 a b)
  then show ?case by (simp only: b64_encode.simps check_syms check_eq check_nil) (simp add: check_eq check_nil)
next
  case (4 a b c r)
  from "4.IH" [of "k + 1 + 1 + 1 + 1"] show ?case
    by (simp only: b64_encode.simps append.simps check_syms) simp
qed

text \<open>Appending six bits at the bottom.\<close>

lemma push6: "n < 64 \<Longrightarrow> push_bit 6 x OR of_nat n = x * 64 + (of_nat n :: 64 word)"
proof -
  assume n: "n < 64"
  have "push_bit 6 x OR of_nat n = push_bit 6 x + (of_nat n :: 64 word)"
  proof (rule disjunctive_add [symmetric])
    fix i
    have "\<not> bit n i" if "6 \<le> i"
    proof -
      have "n = take_bit 6 n" using n by (simp add: take_bit_eq_mod)
      then show ?thesis using that by (metis bit_take_bit_iff not_le)
    qed
    then show "\<not> bit (push_bit 6 x) i \<or> \<not> bit (of_nat n :: 64 word) i"
      by (auto simp: bit_push_bit_iff bit_of_nat_iff)
  qed
  then show ?thesis by (simp add: push_bit_eq_mult)
qed

lemma low24:
  assumes "N < 2 ^ 24"
  shows "unat (x * 2 ^ 24 + of_nat N :: 64 word) mod 2 ^ 24 = N"
proof -
  have "unat (x * 2 ^ 24 + of_nat N :: 64 word) = (unat x * 2 ^ 24 + N) mod 2 ^ 64"
    by (simp add: unat_word_ariths unat_of_nat mod_simps)
  then have "unat (x * 2 ^ 24 + of_nat N :: 64 word) mod 2 ^ 24 = (unat x * 2 ^ 24 + N) mod 2 ^ 24"
    by (simp add: mod_mod_cancel)
  then show ?thesis using assms by simp
qed

definition emit_bytes :: "int \<Rightarrow> 64 word \<Rightarrow> string" where
  "emit_bytes j x =
     (if j > 0 then [char_of (unat (drop_bit 16 x) mod 256)] else [])
     @ (if j > 1 then [char_of (unat (drop_bit 8 x) mod 256)] else [])
     @ (if j > 2 then [char_of (unat x mod 256)] else [])"

lemma emit_sym:
  assumes "n < 64"
  shows "base64_emit j m x (b64_sym n # s) =
    (let x' = x * 64 + of_nat n in
     if m + 1 = 4 then emit_bytes j x' @ base64_emit j 0 x' s else base64_emit j (m + 1) x' s)"
  using b64_symD [OF assms] assms by (simp add: b64_sym_ok_def push6 Let_def emit_bytes_def)

lemma emit_eq:
  "base64_emit j m x (CHR ''='' # s) =
    (let x' = x * 64 in
     if m + 1 = 4 then emit_bytes (j - 1) x' @ base64_emit (j - 1) 0 x' s
     else base64_emit (j - 1) (m + 1) x' s)"
  using push6 [of 0 x] by (simp add: b64_eq Let_def emit_bytes_def)

lemma emit_bytes_value:
  assumes "a < 256" "b < 256" "c < 256" "x' = x * 2 ^ 24 + of_nat (a * 65536 + b * 256 + c)"
  shows "emit_bytes j x' = (if j > 0 then [char_of a] else []) @ (if j > 1 then [char_of b] else [])
    @ (if j > 2 then [char_of c] else [])"
proof -
  let ?N = "a * 65536 + b * 256 + c"
  have "?N < 2 ^ 24" using assms(1-3) by simp
  from low24 [OF this, of x] have u: "unat x' mod 2 ^ 24 = ?N" by (simp add: assms(4))
  have split: "unat x' = unat x' div 2 ^ 24 * 2 ^ 24 + ?N"
    by (subst u [symmetric]) (rule div_mult_mod_eq [symmetric])
  define q where "q = unat x' div 2 ^ 24"
  have x: "unat x' = q * 16777216 + ?N" using split by (simp add: q_def)
  have k: "(k * 256 + r) mod 256 = r" "(k * 256 + r) div 256 = k" if "r < 256" for k r :: nat
    using that by simp_all
  have x1: "unat x' = (q * 65536 + a * 256 + b) * 256 + c" by (simp add: x)
  have x2: "q * 65536 + a * 256 + b = (q * 256 + a) * 256 + b" by simp
  have "unat x' mod 256 = c" unfolding x1 by (rule k(1) [OF assms(3)])
  moreover have d8: "unat x' div 256 = (q * 256 + a) * 256 + b"
    unfolding x1 k(2) [OF assms(3)] by (rule x2)
  moreover have "unat (drop_bit 8 x') = unat x' div 256"
    by (simp only: unat_drop_bit_eq) (simp add: drop_bit_eq_div)
  moreover have "unat (drop_bit 16 x') = unat x' div 256 div 256"
    by (simp only: unat_drop_bit_eq) (simp add: drop_bit_eq_div div_mult2_eq [symmetric])
  ultimately show ?thesis
    unfolding emit_bytes_def by (simp only: k assms(1,2))
qed

lemma join_bytes:
  fixes a b c :: nat
  shows "((a div 4 * 64 + (a mod 4 * 16 + b div 16)) * 64 + (b mod 16 * 4 + c div 64)) * 64 + c mod 64
    = a * 65536 + b * 256 + c"
proof -
  define a1 a2 b1 b2 c1 c2 where d: "a1 = a div 4" "a2 = a mod 4" "b1 = b div 16" "b2 = b mod 16"
    "c1 = c div 64" "c2 = c mod 64"
  have abc: "a = a1 * 4 + a2" "b = b1 * 16 + b2" "c = c1 * 64 + c2" by (simp_all add: d)
  show ?thesis unfolding d [symmetric] by (simp add: abc)
qed

lemma shift4:
  "(((x * 64 + of_nat p) * 64 + of_nat q) * 64 + of_nat r) * 64 + of_nat s
     = x * 2 ^ 24 + (of_nat (((p * 64 + q) * 64 + r) * 64 + s) :: 64 word)"
  by (simp add: algebra_simps)

lemma emit_encode:
  "base64_emit 3 0 x (b64_encode s) = s"
proof (induction s arbitrary: x rule: b64_encode.induct)
  case 1
  then show ?case by simp
next
  case (2 a)
  have "((x * 64 + of_nat (byte a div 4)) * 64 + of_nat (byte a mod 4 * 16)) * 64 * 64
      = x * 2 ^ 24 + (of_nat (byte a * 65536 + 0 * 256 + 0) :: 64 word)"
    (is "?l = _")
  proof -
    let ?p = "byte a div 4" and ?q = "byte a mod 4 * 16"
    have "?l = (((x * 64 + of_nat ?p) * 64 + of_nat ?q) * 64 + of_nat 0) * 64 + of_nat 0" by simp
    also have "\<dots> = x * 2 ^ 24 + of_nat (((?p * 64 + ?q) * 64 + 0) * 64 + 0)" by (rule shift4)
    also have "((?p * 64 + ?q) * 64 + 0) * 64 + 0 = byte a * 65536 + 0 * 256 + 0"
      using join_bytes [of "byte a" 0 0] by simp
    finally show ?thesis .
  qed
  from emit_bytes_value [OF _ _ _ this] show ?case
    unfolding b64_encode.simps emit_sym [OF sextets(1)] emit_sym [OF sextets(2)] emit_eq Let_def
    by simp
next
  case (3 a b)
  have "(((x * 64 + of_nat (byte a div 4)) * 64 + of_nat (byte a mod 4 * 16 + byte b div 16)) * 64
      + of_nat (byte b mod 16 * 4)) * 64
      = x * 2 ^ 24 + (of_nat (byte a * 65536 + byte b * 256 + 0) :: 64 word)"
    (is "?l = _")
  proof -
    let ?p = "byte a div 4" and ?q = "byte a mod 4 * 16 + byte b div 16" and ?r = "byte b mod 16 * 4"
    have "?l = (((x * 64 + of_nat ?p) * 64 + of_nat ?q) * 64 + of_nat ?r) * 64 + of_nat 0"
      by simp
    also have "\<dots> = x * 2 ^ 24 + of_nat (((?p * 64 + ?q) * 64 + ?r) * 64 + 0)" by (rule shift4)
    also have "((?p * 64 + ?q) * 64 + ?r) * 64 + 0 = byte a * 65536 + byte b * 256 + 0"
      using join_bytes [of "byte a" "byte b" 0] by simp
    finally show ?thesis .
  qed
  from emit_bytes_value [OF _ _ _ this] show ?case
    unfolding b64_encode.simps emit_sym [OF sextets(1)] emit_sym [OF sextets(3)]
      emit_sym [OF sextets(4)] emit_eq Let_def
    by simp
next
  case (4 a b c r)
  have "(((x * 64 + of_nat (byte a div 4)) * 64 + of_nat (byte a mod 4 * 16 + byte b div 16)) * 64
      + of_nat (byte b mod 16 * 4 + byte c div 64)) * 64 + of_nat (byte c mod 64)
      = x * 2 ^ 24 + (of_nat (byte a * 65536 + byte b * 256 + byte c) :: 64 word)"
    unfolding shift4 join_bytes ..
  from emit_bytes_value [OF _ _ _ this] 4 show ?case
    unfolding b64_encode.simps append.simps emit_sym [OF sextets(1)] emit_sym [OF sextets(3)]
      emit_sym [OF sextets(5)] emit_sym [OF sextets(6)] Let_def
    by simp
qed

lemma doBase64decode_encode: "s \<noteq> [] \<Longrightarrow> doBase64decode (b64_encode s) = s"
proof -
  assume "s \<noteq> []"
  then have ne: "b64_encode s \<noteq> []" by (cases s rule: b64_encode.cases) auto
  obtain j where c: "base64_check 0 0 (b64_encode s) = Some (j, length (b64_encode s))"
    using check_encode [of 0 s] by auto
  have "(n * 6 + 7) div 8 \<le> n" for n :: nat by (simp add: less_Suc_eq_le [symmetric] div_less_iff_less_mult)
  then have "int ((length (b64_encode s) * 6 + 7) div 8) \<le> int (length (b64_encode s))"
    by (simp only: of_nat_le_iff)
  then have "\<not> int (length (b64_encode s)) < int ((length (b64_encode s) * 6 + 7) div 8) - int j"
    by linarith
  with ne c show ?thesis by (simp add: doBase64decode_def emit_encode)
qed

section \<open>JavaScript octal escapes\<close>

lemma ParseUint_bad: "ParseUint (CHR 0x5C # t) b n = (0, Some ErrSyntax)"
  by (simp add: ParseUint_def digit_val_def in_range_def)

lemma js_octal_nul:
  assumes "isODigit d"
  shows "fst (js_octal (CHR 0x5C # d # r)) = CHR 0x00"
proof -
  let ?s = "CHR 0x5C # d # r"
  have j: "js_octal_j 3 0 ?s \<noteq> 0" using assms by (simp add: numeral_3_eq_3)
  have cut: "\<exists>t. take (if P then 2 else j) (take j ?s) = CHR 0x5C # t" if "j \<noteq> 0" for j and P
    using that by (cases j; cases P) auto
  obtain t where "take (if js_octal_j 3 0 ?s = 3 \<and> byte (take (js_octal_j 3 0 ?s) ?s ! 0) > byte (CHR ''3'')
      then 2 else js_octal_j 3 0 ?s) (take (js_octal_j 3 0 ?s) ?s) = CHR 0x5C # t"
    using cut [OF j] by blast
  then show ?thesis unfolding js_octal_def Let_def fst_conv by (simp only: ParseInt_def) (simp add: ParseUint_bad char_of_def)
qed

section \<open>Properties\<close>

text \<open>
  The transformation \<open>urlDecode\<close> and the decoder \<open>QueryUnescape\<close> of the query
  parser, written independently (one with table arithmetic on validated digits, one with two
  switch statements), compute the same function.
\<close>

theorem urlDecode_QueryUnescape: "urlDecode s = Some (QueryUnescape s, None)"
  unfolding urlDecode_def doURLDecode_span by (simp add: doURLDecode_eq)

text \<open>C36. Decoding a URL-encoded string gives the string back, for every byte string.\<close>

theorem urlDecode_urlEncode: "urlEncode s \<bind> (\<lambda>(e, _). urlDecode e) = Some (s, None)"
  by (simp add: urlEncode_def urlDecode_def doURLDecode_span doURLDecode_doURLEncode)

text \<open>
  \<open>compressWhitespace\<close> never fails, leaves every non-whitespace byte in place and
  order, produces no two adjacent whitespace bytes and no whitespace but the space, and leaves
  a string that is already in this form alone.
\<close>

theorem compressWhitespace_spec:
  "\<exists>r. compressWhitespace s = Some (r, None) \<and> compressed r \<and>
     filter (\<lambda>c. \<not> isLatinSpace c) r = filter (\<lambda>c. \<not> isLatinSpace c) s \<and>
     compressWhitespace r = Some (r, None)"
  by (simp add: compressWhitespace_def doCompressWhitespace_span compressed_doCompressWhitespace
      doCompressWhitespace_words doCompressWhitespace_id)

text \<open>
  \<open>escapeSeqDecode\<close> panics on a text that ends in a \<^verbatim>\<open>\xff\<close> escape: the
  byte 255 becomes -1 as an \<^verbatim>\<open>int8\<close>, which the code takes for "not recognised", and
  it then reads past the end of the input.
\<close>

theorem escapeSeqDecode_xff:
  assumes "CHR 0x5C \<notin> set u"
  shows "escapeSeqDecode (u @ [CHR 0x5C, CHR ''x'', CHR ''f'', CHR ''f'']) = None"
proof -
  have f: "ValidHex (CHR ''f'')" "hexval (CHR ''f'') = 15"
    by (simp_all add: ValidHex_def in_range_def hexval_def)
  have "escape_code (CHR ''x'') ''ff'' (CHR 0x5C # ''xff'') = (-1, [])"
    by (simp add: escape_code_def simple_escape_def f X2c_hexval int8_def)
  then have "doEscapeSeqDecode (CHR 0x5C # ''xff'') = None"
    by (simp add: doEscapeSeqDecode.simps(3))
  moreover have "dropWhile (\<lambda>c. c \<noteq> CHR 0x5C) (u @ CHR 0x5C # ''xff'') = CHR 0x5C # ''xff''"
    using assms by (induction u) auto
  ultimately show ?thesis by (simp add: escapeSeqDecode_def)
qed

theorem escapeSeqDecode_xff_witness: "escapeSeqDecode (''a='' @ [CHR 0x5C, CHR ''x'', CHR ''f'', CHR ''f'']) = None"
  using escapeSeqDecode_xff [of "''a=''"] by simp

text \<open>
  \<open>base64decode\<close> inverts the standard Base64 encoding of every byte string (the empty
  string included), padding and all.
\<close>

theorem base64decode_encode: "base64decode (b64_encode s) = Some (s, None)"
proof (cases "s = []")
  case True
  then show ?thesis by (simp add: base64decode_def doBase64decode_def)
next
  case False
  then show ?thesis by (simp add: base64decode_def doBase64decode_encode)
qed

text \<open>
  \<open>jsDecode\<close> turns every octal escape into a NUL byte: its digit loop copies the
  backslash itself into the buffer it parses, so the parse fails and the value is 0.
\<close>

theorem jsDecode_octal:
  assumes "isODigit d" "CHR 0x5C \<notin> set u"
  shows "\<exists>r'. jsDecode (u @ CHR 0x5C # d # r) = Some (u @ CHR 0x00 # r', None)"
proof -
  let ?s = "CHR 0x5C # d # r"
  have "\<not> js_unicode ?s" "\<not> js_hex ?s"
    using assms(1) by (auto simp: js_unicode_def js_hex_def isODigit_def in_range_def)
  then have "doJsDecode ?s = CHR 0x00 # doJsDecode (drop (snd (js_octal ?s)) ?s)"
    using assms(1) by (subst doJsDecode.simps) (simp add: js_octal_nul)
  moreover have "takeWhile (\<lambda>c. c \<noteq> CHR 0x5C) (u @ ?s) = u" "dropWhile (\<lambda>c. c \<noteq> CHR 0x5C) (u @ ?s) = ?s"
    using assms(2) by (induction u) auto
  ultimately show ?thesis by (simp add: jsDecode_def)
qed

theorem jsDecode_octal_witness: "\<exists>r'. jsDecode (''a'' @ CHR 0x5C # ''101'') = Some (''a'' @ CHR 0x00 # r', None)"
  using jsDecode_octal [of "CHR ''1''" "''a''" "''01''"] by (simp add: isODigit_def in_range_def)

end
