(* ===== verification/Lazy_Buf.thy ===== *)
theory Lazy_Buf
  imports Transform_Decode "HOL-Library.Monad_Syntax"
begin

text \<open>
  The lazy buffer of \<open>clean\<close> (src/transformations/normalise_path_win.go), which shares the
  bytes of the path until the output differs from it, and \<open>clean\<close> over it with every
  index checked: an index out of range is a panic, \<^const>\<open>None\<close>.

  The transformation's model \<open>clean_win\<close> keeps the output as a list. Here the two are related:
  \<open>lb_content\<close> is what a buffer holds, each operation is the list operation on it, and
  \<open>clean\<close> on the buffer returns what \<open>clean_win\<close> says, on every path. The part that is not
  obvious is that no write leaves the buffer, which is as long as the path: an element is preceded
  by a separator in the output only if one was read before it.
\<close>

section \<open>The buffer\<close>

record lazybuf =
  lb_path :: string
  lb_buf :: "string option"
  lb_w :: nat
  lb_volAndPath :: string
  lb_volLen :: nat

definition lb_bytes :: "lazybuf \<Rightarrow> string" where
  "lb_bytes b = (case lb_buf b of Some buf \<Rightarrow> buf | None \<Rightarrow> lb_path b)"

definition lb_new :: "nat \<Rightarrow> string \<Rightarrow> lazybuf" where
  "lb_new vol path = \<lparr>lb_path = drop vol path, lb_buf = None, lb_w = 0, lb_volAndPath = path, lb_volLen = vol\<rparr>"

definition lb_index :: "lazybuf \<Rightarrow> nat \<Rightarrow> char go" where
  "lb_index b i = (if i < length (lb_bytes b) then Some (lb_bytes b ! i) else None)"

text \<open>\<open>b.buf[b.w] = c; b.w++\<close>\<close>

definition lb_store :: "char \<Rightarrow> string \<Rightarrow> lazybuf \<Rightarrow> lazybuf go" where
  "lb_store c buf b =
     (if lb_w b < length buf then Some (b\<lparr>lb_buf := Some (buf[lb_w b := c]), lb_w := lb_w b + 1\<rparr>)
      else None)"

definition lb_append :: "char \<Rightarrow> lazybuf \<Rightarrow> lazybuf go" where
  "lb_append c b =
     (case lb_buf b of
        Some buf \<Rightarrow> lb_store c buf b
      | None \<Rightarrow>
          if lb_w b < length (lb_path b) \<and> lb_path b ! lb_w b = c then Some (b\<lparr>lb_w := lb_w b + 1\<rparr>)
          else lb_store c (take (lb_w b) (lb_path b) @ replicate (length (lb_path b) - lb_w b) (CHR 0x00)) b)"

definition lb_string :: "lazybuf \<Rightarrow> string" where
  "lb_string b =
     (case lb_buf b of
        None \<Rightarrow> take (lb_volLen b + lb_w b) (lb_volAndPath b)
      | Some buf \<Rightarrow> take (lb_volLen b) (lb_volAndPath b) @ take (lb_w b) buf)"

section \<open>Cleaning a path\<close>

definition isPathSeparator :: "char \<Rightarrow> bool" where
  "isPathSeparator c \<longleftrightarrow> c = CHR 0x5C"

text \<open>
  \<open>out.w--; for out.w > dotdot && !isPathSeparator(out.index(out.w)) { out.w-- }\<close>: the
  position where the loop stops.
\<close>

fun lb_backtrack :: "nat \<Rightarrow> lazybuf \<Rightarrow> nat \<Rightarrow> nat go" where
  "lb_backtrack dotdot b 0 = Some 0"
| "lb_backtrack dotdot b (Suc w) =
     (if w > dotdot then
        do { c \<leftarrow> lb_index b w; if isPathSeparator c then Some w else lb_backtrack dotdot b w }
      else Some w)"

text \<open>The loop; \<open>path\<close> is what is left to read, \<open>path[r:]\<close> of the source.\<close>

function lb_clean_loop :: "bool \<Rightarrow> nat \<Rightarrow> lazybuf \<Rightarrow> string \<Rightarrow> lazybuf go" where
  "lb_clean_loop rooted dotdot out path =
     (case path of
        [] \<Rightarrow> Some out
      | c # rest \<Rightarrow>
          if isPathSeparator c then lb_clean_loop rooted dotdot out rest
          else if c = CHR ''.'' \<and> (rest = [] \<or> isPathSeparator (hd rest)) then
            lb_clean_loop rooted dotdot out rest
          else if c = CHR ''.'' \<and> hd rest = CHR ''.'' \<and> (tl rest = [] \<or> isPathSeparator (hd (tl rest))) then
            if lb_w out > dotdot then
              do { w \<leftarrow> lb_backtrack dotdot out (lb_w out);
                   lb_clean_loop rooted dotdot (out\<lparr>lb_w := w\<rparr>) (tl rest) }
            else if \<not> rooted then
              do { out \<leftarrow> (if lb_w out > 0 then lb_append (CHR 0x5C) out else Some out);
                   out \<leftarrow> lb_append (CHR ''.'') out;
                   out \<leftarrow> lb_append (CHR ''.'') out;
                   lb_clean_loop rooted (lb_w out) out (tl rest) }
            else lb_clean_loop rooted dotdot out (tl rest)
          else
            do { out \<leftarrow> (if rooted \<and> lb_w out \<noteq> 1 \<or> \<not> rooted \<and> lb_w out \<noteq> 0
                        then lb_append (CHR 0x5C) out else Some out);
                 out \<leftarrow> foreach (takeWhile (\<lambda>x. \<not> isPathSeparator x) path) lb_append out;
                 lb_clean_loop rooted dotdot out (dropWhile (\<lambda>x. \<not> isPathSeparator x) path) })"
  by pat_completeness auto
termination
  by (relation "measure (\<lambda>(_, _, _, path). length path)")
    (auto simp: le_imp_less_Suc length_dropWhile_le)

declare lb_clean_loop.simps [simp del]

text \<open>\<open>clean\<close>; \<^verbatim>\<open>filepath.FromSlash\<close> is the identity where the separator is a slash.\<close>

definition lb_clean :: "string \<Rightarrow> string go" where
  "lb_clean originalPath =
     (let volLen = volumeNameLen originalPath; path = drop volLen originalPath in
      if path = [] then
        if volLen > 1 \<and> originalPath ! 1 \<noteq> CHR '':'' then Some originalPath
        else Some (originalPath @ ''.'')
      else
        let rooted = isPathSeparator (hd path); out = lb_new volLen originalPath in
        do { out \<leftarrow> (if rooted
                    then do { out \<leftarrow> lb_append (CHR 0x5C) out; lb_clean_loop rooted 1 out (tl path) }
                    else lb_clean_loop rooted 0 out path);
             out \<leftarrow> (if lb_w out = 0 then lb_append (CHR ''.'') out else Some out);
             Some (lb_string out) })"

section \<open>The buffer as a list\<close>

definition lb_content :: "lazybuf \<Rightarrow> string" where
  "lb_content b = take (lb_w b) (lb_bytes b)"

definition lb_wf :: "lazybuf \<Rightarrow> bool" where
  "lb_wf b \<longleftrightarrow> length (lb_bytes b) = length (lb_path b) \<and> lb_w b \<le> length (lb_path b)"

text \<open>The fields that no operation writes.\<close>

definition lb_same :: "lazybuf \<Rightarrow> lazybuf \<Rightarrow> bool" where
  "lb_same b b' \<longleftrightarrow> lb_path b' = lb_path b \<and> lb_volAndPath b' = lb_volAndPath b \<and> lb_volLen b' = lb_volLen b"

lemma lb_same_refl [simp]: "lb_same b b"
  by (simp add: lb_same_def)

lemma lb_same_trans: "lb_same a b \<Longrightarrow> lb_same b c \<Longrightarrow> lb_same a c"
  by (simp add: lb_same_def)

lemma length_lb_content: "lb_wf b \<Longrightarrow> length (lb_content b) = lb_w b"
  by (simp add: lb_wf_def lb_content_def)

lemma lb_content_empty: "lb_wf b \<Longrightarrow> lb_content b = [] \<longleftrightarrow> lb_w b = 0"
  using length_lb_content[of b] by auto

text \<open>\<open>b'\<close> is \<open>b\<close> with the bytes \<open>xs\<close> written.\<close>

definition lb_written :: "string \<Rightarrow> lazybuf \<Rightarrow> lazybuf \<Rightarrow> bool" where
  "lb_written xs b b' \<longleftrightarrow> lb_wf b' \<and> lb_same b b' \<and> lb_content b' = lb_content b @ xs"

lemma lb_written_w: "lb_written xs b b' \<Longrightarrow> lb_wf b \<Longrightarrow> lb_w b' = lb_w b + length xs"
  using length_lb_content[of b'] length_lb_content[of b] by (simp add: lb_written_def)

lemma lb_written_trans: "lb_written xs a b \<Longrightarrow> lb_written ys b c \<Longrightarrow> lb_written (xs @ ys) a c"
  unfolding lb_written_def by (auto intro: lb_same_trans)

lemma lb_store_written:
  assumes "lb_wf b" "lb_w b < length (lb_path b)" "length buf = length (lb_path b)"
    "take (lb_w b) buf = lb_content b"
  shows "\<exists>b'. lb_store c buf b = Some b' \<and> lb_written [c] b b'"
  using assms by (auto simp: lb_store_def lb_written_def lb_wf_def lb_same_def lb_content_def lb_bytes_def
      take_Suc_conv_app_nth)

lemma lb_append_written:
  assumes "lb_wf b" "lb_w b < length (lb_path b)"
  shows "\<exists>b'. lb_append c b = Some b' \<and> lb_written [c] b b'"
proof (cases "lb_buf b")
  case None
  show ?thesis
  proof (cases "lb_path b ! lb_w b = c")
    case True
    then have "lb_written [c] b (b\<lparr>lb_w := lb_w b + 1\<rparr>)"
      using None assms by (simp add: lb_written_def lb_wf_def lb_same_def lb_content_def lb_bytes_def
          take_Suc_conv_app_nth)
    then show ?thesis
      using None assms True by (simp add: lb_append_def)
  next
    case False
    then show ?thesis
      using None assms lb_store_written[of b "take (lb_w b) (lb_path b) @ replicate (length (lb_path b) - lb_w b) (CHR 0x00)" c]
      by (simp add: lb_append_def lb_content_def lb_bytes_def)
  qed
next
  case (Some buf)
  then show ?thesis
    using assms lb_store_written[of b buf c]
    by (simp add: lb_append_def lb_content_def lb_bytes_def lb_wf_def)
qed

lemma lb_append_all_written:
  assumes "lb_wf b" "lb_w b + length xs \<le> length (lb_path b)"
  shows "\<exists>b'. foreach xs lb_append b = Some b' \<and> lb_written xs b b'"
  using assms
proof (induction xs arbitrary: b)
  case Nil
  then show ?case
    by (simp add: lb_written_def)
next
  case (Cons x xs)
  then obtain b1 where b1: "lb_append x b = Some b1" "lb_written [x] b b1"
    using lb_append_written[of b x] by auto
  then have "lb_wf b1" "lb_w b1 + length xs \<le> length (lb_path b1)"
    using Cons.prems lb_written_w[of "[x]" b b1] by (auto simp: lb_written_def lb_same_def)
  then obtain b2 where "foreach xs lb_append b1 = Some b2" "lb_written xs b1 b2"
    using Cons.IH by blast
  then show ?case
    using b1 lb_written_trans[of "[x]" b b1 xs b2] by auto
qed

lemma lb_index_content: "lb_wf b \<Longrightarrow> i < lb_w b \<Longrightarrow> lb_index b i = Some (lb_content b ! i)"
  by (simp add: lb_index_def lb_wf_def lb_content_def)

lemma lb_backtrack_list:
  "lb_wf b \<Longrightarrow> w \<le> lb_w b \<Longrightarrow> lb_backtrack d b w = Some (backtrack (CHR 0x5C) d (lb_content b) w)"
  by (induction w) (auto simp: lb_index_content isPathSeparator_def)

lemma backtrack_less: "0 < w \<Longrightarrow> backtrack sep d out w < w"
proof (induction w)
  case (Suc w)
  then show ?case
    by (cases w) auto
qed simp

lemma lb_truncate:
  assumes "lb_wf b" "w \<le> lb_w b"
  shows "lb_wf (b\<lparr>lb_w := w\<rparr>)" "lb_same b (b\<lparr>lb_w := w\<rparr>)" "lb_content (b\<lparr>lb_w := w\<rparr>) = take w (lb_content b)"
  using assms by (auto simp: lb_wf_def lb_same_def lb_content_def lb_bytes_def min_def split: option.splits)

lemma lb_string_content:
  "lb_path b = drop (lb_volLen b) (lb_volAndPath b) \<Longrightarrow> lb_string b = take (lb_volLen b) (lb_volAndPath b) @ lb_content b"
  by (cases "lb_buf b") (auto simp: lb_string_def lb_content_def lb_bytes_def take_add)

section \<open>The loop on the buffer\<close>

text \<open>
  The output is no longer than what has been read, and shorter unless it holds the leading separator
  only, nothing is left, or a separator comes next.
\<close>

definition lb_room :: "bool \<Rightarrow> lazybuf \<Rightarrow> string \<Rightarrow> bool" where
  "lb_room rooted b rest \<longleftrightarrow>
     lb_w b + length rest \<le> length (lb_path b) \<and>
     (lb_w b = (if rooted then 1 else 0) \<or> lb_w b + length rest < length (lb_path b) \<or>
      rest = [] \<or> hd rest = CHR 0x5C)"

lemma lb_room_drop: "lb_room rooted b (c # rest) \<Longrightarrow> lb_room rooted b rest"
  by (auto simp: lb_room_def)

lemma lb_room_drop2: "lb_room rooted b (c # d # rest) \<Longrightarrow> lb_room rooted b rest"
  by (auto simp: lb_room_def)

text \<open>The result of a run: a buffer that holds \<open>xs\<close>.\<close>

definition lb_holds :: "lazybuf \<Rightarrow> string \<Rightarrow> lazybuf go \<Rightarrow> bool" where
  "lb_holds b xs res \<longleftrightarrow> (\<exists>b'. res = Some b' \<and> lb_wf b' \<and> lb_same b b' \<and> lb_content b' = xs)"

lemma lb_holds_same: "lb_same a b \<Longrightarrow> lb_holds b xs res \<Longrightarrow> lb_holds a xs res"
  unfolding lb_holds_def by (auto intro: lb_same_trans)

text \<open>A separator, if one is needed, and an element.\<close>

lemma lb_element:
  assumes "lb_wf b" "lb_room rooted b rest" "rest \<noteq> []" "hd rest \<noteq> CHR 0x5C"
    "needs = (rooted \<and> lb_w b \<noteq> 1 \<or> \<not> rooted \<and> lb_w b \<noteq> 0)" "length xs + length left = length rest"
    "left = [] \<or> hd left = CHR 0x5C"
  shows "\<exists>b1 b2. (if needs then lb_append (CHR 0x5C) b else Some b) = Some b1 \<and>
    foreach xs lb_append b1 = Some b2 \<and>
    lb_written ((if needs then [CHR 0x5C] else []) @ xs) b b2 \<and> lb_room rooted b2 left"
proof -
  have "\<exists>b1. (if needs then lb_append (CHR 0x5C) b else Some b) = Some b1 \<and>
      lb_written (if needs then [CHR 0x5C] else []) b b1"
    using assms lb_append_written[of b "CHR 0x5C"]
    by (cases needs) (auto simp: lb_room_def lb_written_def split: if_splits)
  then obtain b1 where b1: "(if needs then lb_append (CHR 0x5C) b else Some b) = Some b1"
      "lb_written (if needs then [CHR 0x5C] else []) b b1"
    by blast
  have path: "lb_path b1 = lb_path b" and wf: "lb_wf b1"
    using b1(2) by (auto simp: lb_written_def lb_same_def)
  have w1: "lb_w b1 = lb_w b + (if needs then 1 else 0)"
    using lb_written_w[OF b1(2) assms(1)] by simp
  have fits: "lb_w b1 + length rest \<le> length (lb_path b)"
    using assms w1 by (auto simp: lb_room_def split: if_splits)
  then obtain b2 where b2: "foreach xs lb_append b1 = Some b2" "lb_written xs b1 b2"
    using lb_append_all_written[of b1 xs] wf path assms(6) by auto
  have "lb_w b2 = lb_w b1 + length xs" "lb_path b2 = lb_path b"
    using lb_written_w[OF b2(2) wf] b2(2) path by (auto simp: lb_written_def lb_same_def)
  then have "lb_room rooted b2 left"
    using fits assms(6,7) by (auto simp: lb_room_def)
  then show ?thesis
    using b1 b2 lb_written_trans[OF b1(2) b2(2)] by blast
qed

text \<open>The two loops on a parent element and on any other element.\<close>

lemmas loop_eqs = lb_clean_loop.simps clean_loop.simps

lemma loops_skip:
  assumes "c = CHR 0x5C \<or> c = CHR ''.'' \<and> (rest = [] \<or> hd rest = CHR 0x5C)"
  shows "lb_clean_loop rooted d b (c # rest) = lb_clean_loop rooted d b rest"
    and "clean_loop (CHR 0x5C) rooted d out (c # rest) = clean_loop (CHR 0x5C) rooted d out rest"
  using assms by (subst loop_eqs, force simp: isPathSeparator_def)+

lemma loops_pop:
  assumes "left = [] \<or> hd left = CHR 0x5C" "lb_w b > d" "length out > d"
  shows "lb_clean_loop rooted d b (CHR ''.'' # CHR ''.'' # left) =
      do { w \<leftarrow> lb_backtrack d b (lb_w b); lb_clean_loop rooted d (b\<lparr>lb_w := w\<rparr>) left }"
    and "clean_loop (CHR 0x5C) rooted d out (CHR ''.'' # CHR ''.'' # left) =
      clean_loop (CHR 0x5C) rooted d (take (backtrack (CHR 0x5C) d out (length out)) out) left"
  using assms by (subst loop_eqs, simp add: isPathSeparator_def)+

lemma loops_root:
  assumes "left = [] \<or> hd left = CHR 0x5C" "\<not> lb_w b > d" "\<not> length out > d"
  shows "lb_clean_loop True d b (CHR ''.'' # CHR ''.'' # left) = lb_clean_loop True d b left"
    and "clean_loop (CHR 0x5C) True d out (CHR ''.'' # CHR ''.'' # left) = clean_loop (CHR 0x5C) True d out left"
  using assms by (subst loop_eqs, simp add: isPathSeparator_def)+

lemma foreach_two: "foreach [x, y] f b = do { b \<leftarrow> f x b; f y b }"
  by (simp split: option.split)

lemma loops_dots:
  assumes "left = [] \<or> hd left = CHR 0x5C" "\<not> lb_w b > d" "\<not> length out > d"
  shows "lb_clean_loop False d b (CHR ''.'' # CHR ''.'' # left) =
      do { b \<leftarrow> (if lb_w b > 0 then lb_append (CHR 0x5C) b else Some b);
           b \<leftarrow> foreach ''..'' lb_append b; lb_clean_loop False (lb_w b) b left }"
    and "clean_loop (CHR 0x5C) False d out (CHR ''.'' # CHR ''.'' # left) =
      (let out' = (if out \<noteq> [] then out @ [CHR 0x5C] else out) @ ''..''
       in clean_loop (CHR 0x5C) False (length out') out' left)"
  using assms by (subst loop_eqs, simp add: isPathSeparator_def foreach_two del: foreach.simps)+

definition real_element :: "char \<Rightarrow> string \<Rightarrow> bool" where
  "real_element c rest \<longleftrightarrow> c \<noteq> CHR 0x5C \<and> \<not> (c = CHR ''.'' \<and> (rest = [] \<or> hd rest = CHR 0x5C)) \<and>
     \<not> (c = CHR ''.'' \<and> hd rest = CHR ''.'' \<and> (tl rest = [] \<or> hd (tl rest) = CHR 0x5C))"

lemma loops_element:
  assumes "real_element c rest"
  shows "lb_clean_loop rooted d b (c # rest) =
      do { b \<leftarrow> (if rooted \<and> lb_w b \<noteq> 1 \<or> \<not> rooted \<and> lb_w b \<noteq> 0 then lb_append (CHR 0x5C) b else Some b);
           b \<leftarrow> foreach (takeWhile (\<lambda>x. x \<noteq> CHR 0x5C) (c # rest)) lb_append b;
           lb_clean_loop rooted d b (dropWhile (\<lambda>x. x \<noteq> CHR 0x5C) (c # rest)) }"
    and "clean_loop (CHR 0x5C) rooted d out (c # rest) =
      (let out' = (if rooted \<and> length out \<noteq> 1 \<or> \<not> rooted \<and> out \<noteq> [] then out @ [CHR 0x5C] else out)
       in clean_loop (CHR 0x5C) rooted d (out' @ takeWhile (\<lambda>x. x \<noteq> CHR 0x5C) (c # rest))
            (dropWhile (\<lambda>x. x \<noteq> CHR 0x5C) (c # rest)))"
proof -
  have c: "c \<noteq> CHR 0x5C" and dot: "\<not> (c = CHR ''.'' \<and> (rest = [] \<or> hd rest = CHR 0x5C))"
    and up: "\<not> (c = CHR ''.'' \<and> hd rest = CHR ''.'' \<and> (tl rest = [] \<or> hd (tl rest) = CHR 0x5C))"
    using assms unfolding real_element_def by blast+
  show "lb_clean_loop rooted d b (c # rest) =
      do { b \<leftarrow> (if rooted \<and> lb_w b \<noteq> 1 \<or> \<not> rooted \<and> lb_w b \<noteq> 0 then lb_append (CHR 0x5C) b else Some b);
           b \<leftarrow> foreach (takeWhile (\<lambda>x. x \<noteq> CHR 0x5C) (c # rest)) lb_append b;
           lb_clean_loop rooted d b (dropWhile (\<lambda>x. x \<noteq> CHR 0x5C) (c # rest)) }"
    by (subst lb_clean_loop.simps) (simp only: list.case isPathSeparator_def c dot up if_False)
  show "clean_loop (CHR 0x5C) rooted d out (c # rest) =
      (let out' = (if rooted \<and> length out \<noteq> 1 \<or> \<not> rooted \<and> out \<noteq> [] then out @ [CHR 0x5C] else out)
       in clean_loop (CHR 0x5C) rooted d (out' @ takeWhile (\<lambda>x. x \<noteq> CHR 0x5C) (c # rest))
            (dropWhile (\<lambda>x. x \<noteq> CHR 0x5C) (c # rest)))"
    by (subst clean_loop.simps) (simp only: list.case c dot up if_False)
qed

text \<open>One step of each kind, given that the loop refines from the next position.\<close>

definition refines_from :: "bool \<Rightarrow> nat \<Rightarrow> lazybuf \<Rightarrow> string \<Rightarrow> bool" where
  "refines_from rooted d b path \<longleftrightarrow>
     lb_holds b (clean_loop (CHR 0x5C) rooted d (lb_content b) path) (lb_clean_loop rooted d b path)"

lemma refine_pop:
  assumes wf: "lb_wf b" and room: "lb_room rooted b (CHR ''.'' # CHR ''.'' # left)"
    and left: "left = [] \<or> hd left = CHR 0x5C" and w: "lb_w b > d"
    and IH: "\<And>b d. lb_wf b \<Longrightarrow> lb_room rooted b left \<Longrightarrow> refines_from rooted d b left"
  shows "refines_from rooted d b (CHR ''.'' # CHR ''.'' # left)"
proof -
  let ?w = "backtrack (CHR 0x5C) d (lb_content b) (lb_w b)"
  let ?b = "b\<lparr>lb_w := ?w\<rparr>"
  have less: "?w < lb_w b"
    using w by (intro backtrack_less) simp
  then have "lb_room rooted ?b left"
    using room by (auto simp: lb_room_def)
  moreover note tr = lb_truncate[OF wf less_imp_le[OF less]]
  ultimately have "lb_holds b (clean_loop (CHR 0x5C) rooted d (lb_content ?b) left) (lb_clean_loop rooted d ?b left)"
    using IH[of ?b d] lb_holds_same by (simp add: refines_from_def)
  then show ?thesis
    using tr lb_backtrack_list[OF wf order_refl, of d] length_lb_content[OF wf] w
    by (simp add: refines_from_def loops_pop[OF left w, of "lb_content b"])
qed

lemma refine_dots:
  assumes wf: "lb_wf b" and room: "lb_room False b (CHR ''.'' # CHR ''.'' # left)"
    and left: "left = [] \<or> hd left = CHR 0x5C" and w: "\<not> lb_w b > d"
    and IH: "\<And>b d. lb_wf b \<Longrightarrow> lb_room False b left \<Longrightarrow> refines_from False d b left"
  shows "refines_from False d b (CHR ''.'' # CHR ''.'' # left)"
proof -
  obtain b1 b2 where b: "(if lb_w b > 0 then lb_append (CHR 0x5C) b else Some b) = Some b1"
      "foreach ''..'' lb_append b1 = Some b2" "lb_room False b2 left"
      "lb_written ((if lb_w b > 0 then [CHR 0x5C] else []) @ ''..'') b b2"
    using lb_element[OF wf room, of "lb_w b > 0" "''..''" left] left by auto
  then have "lb_wf b2" "lb_same b b2"
      "lb_content b2 = (if lb_content b \<noteq> [] then lb_content b @ [CHR 0x5C] else lb_content b) @ ''..''"
    using lb_content_empty[OF wf] by (auto simp: lb_written_def)
  then show ?thesis
    using IH[of b2 "lb_w b2"] b(1,2,3) lb_holds_same[of b b2] length_lb_content[of b2]
      loops_dots[OF left w, of "lb_content b"] length_lb_content[OF wf] w
    by (simp add: refines_from_def Let_def)
qed

lemma refine_element:
  assumes wf: "lb_wf b" and room: "lb_room rooted b (c # rest)" and elem: "real_element c rest"
    and IH: "\<And>b d. lb_wf b \<Longrightarrow> lb_room rooted b (dropWhile (\<lambda>x. x \<noteq> CHR 0x5C) (c # rest)) \<Longrightarrow>
      refines_from rooted d b (dropWhile (\<lambda>x. x \<noteq> CHR 0x5C) (c # rest))"
  shows "refines_from rooted d b (c # rest)"
proof -
  let ?xs = "takeWhile (\<lambda>x. x \<noteq> CHR 0x5C) (c # rest)" and ?left = "dropWhile (\<lambda>x. x \<noteq> CHR 0x5C) (c # rest)"
  let ?needs = "rooted \<and> lb_w b \<noteq> 1 \<or> \<not> rooted \<and> lb_w b \<noteq> 0"
  have len: "length ?xs + length ?left = length (c # rest)"
    by (metis length_append takeWhile_dropWhile_id)
  have left: "?left = [] \<or> hd ?left = CHR 0x5C"
    using hd_dropWhile[of "\<lambda>x. x \<noteq> CHR 0x5C" "c # rest"] by blast
  have "c \<noteq> CHR 0x5C"
    using elem by (simp add: real_element_def)
  then obtain b1 b2 where b: "(if ?needs then lb_append (CHR 0x5C) b else Some b) = Some b1"
      "foreach ?xs lb_append b1 = Some b2" "lb_room rooted b2 ?left"
      "lb_written ((if ?needs then [CHR 0x5C] else []) @ ?xs) b b2"
    using lb_element[OF wf room _ _ refl len left] by (metis list.distinct(1) list.sel(1))
  have b2: "lb_wf b2" "lb_same b b2"
      "lb_content b2 = (if rooted \<and> length (lb_content b) \<noteq> 1 \<or> \<not> rooted \<and> lb_content b \<noteq> []
         then lb_content b @ [CHR 0x5C] else lb_content b) @ ?xs"
    using b(4) lb_content_empty[OF wf] length_lb_content[OF wf] unfolding lb_written_def by auto
  have "lb_clean_loop rooted d b (c # rest) = lb_clean_loop rooted d b2 ?left"
    by (simp only: loops_element(1)[OF elem] b(1,2) bind.bind_lunit)
  then show ?thesis
    using lb_holds_same[OF b2(2)] IH[OF b2(1) b(3), of d] 
    by (simp only: refines_from_def loops_element(2)[OF elem] Let_def b2(3))
qed

lemma lb_clean_loop_list:
  "lb_wf b \<Longrightarrow> lb_room rooted b path \<Longrightarrow> refines_from rooted d b path"
proof (induction "length path" arbitrary: d b path rule: less_induct)
  case less
  note IH = less.hyps and wf = less.prems(1) and room = less.prems(2)
  show ?case
  proof (cases path)
    case Nil
    then show ?thesis
      using wf by (simp add: refines_from_def lb_holds_def lb_clean_loop.simps clean_loop.simps)
  next
    case (Cons c rest)
    consider (skip) "c = CHR 0x5C \<or> c = CHR ''.'' \<and> (rest = [] \<or> hd rest = CHR 0x5C)"
      | (up) left where "c = CHR ''.''" "rest = CHR ''.'' # left" "left = [] \<or> hd left = CHR 0x5C"
      | (elem) "real_element c rest"
      unfolding real_element_def by (cases rest) auto
    then show ?thesis
    proof cases
      case skip
      then show ?thesis
        using IH[of rest b d] wf room Cons lb_room_drop[of rooted b c rest]
        by (simp add: refines_from_def loops_skip)
    next
      case up
      have IH': "lb_wf b \<Longrightarrow> lb_room rooted b left \<Longrightarrow> refines_from rooted d b left" for b d
        using IH[of left] up Cons by simp
      show ?thesis
      proof (cases "lb_w b > d")
        case True
        then show ?thesis
          using refine_pop[OF wf _ up(3) _ IH'] room Cons up by simp
      next
        case False
        then show ?thesis
          using refine_dots[OF wf _ up(3) False] IH'[OF wf, of d] IH' room Cons up length_lb_content[OF wf]
            loops_root[OF up(3) False, of "lb_content b"] lb_room_drop2[of rooted b]
          by (cases rooted) (auto simp: refines_from_def)
      qed
    next
      case elem
      have "length (dropWhile (\<lambda>x. x \<noteq> CHR 0x5C) (c # rest)) < length path"
        using elem Cons by (simp add: real_element_def le_imp_less_Suc length_dropWhile_le)
      then show ?thesis
        using refine_element[OF wf _ elem] IH room Cons by blast
    qed
  qed
qed


section \<open>The whole function\<close>

lemma lb_new_simps [simp]: "lb_wf (lb_new vol path)" "lb_content (lb_new vol path) = []"
  "lb_path (lb_new vol path) = drop vol path" "lb_w (lb_new vol path) = 0"
  by (simp_all add: lb_new_def lb_wf_def lb_content_def lb_bytes_def)

text \<open>The leading separator and the loop, and the dot for an empty output.\<close>

lemma lb_run:
  fixes path :: string and vol :: nat
  defines "b \<equiv> lb_new vol path" and "p \<equiv> drop vol path"
  assumes "p \<noteq> []"
  shows "lb_holds b (if hd p = CHR 0x5C then clean_loop (CHR 0x5C) True 1 [CHR 0x5C] (tl p)
       else clean_loop (CHR 0x5C) False 0 [] p)
     (if hd p = CHR 0x5C then do { b \<leftarrow> lb_append (CHR 0x5C) b; lb_clean_loop True 1 b (tl p) }
      else lb_clean_loop False 0 b p)"
proof (cases "hd p = CHR 0x5C")
  case True
  obtain b1 where b1: "lb_append (CHR 0x5C) b = Some b1" "lb_written [CHR 0x5C] b b1"
    using lb_append_written[of b "CHR 0x5C"] assms by auto
  then have "lb_wf b1" "lb_room True b1 (tl p)" "lb_same b b1" "lb_content b1 = [CHR 0x5C]"
    using lb_written_w[OF b1(2)] assms by (auto simp: lb_written_def lb_room_def lb_same_def)
  then show ?thesis
    using lb_clean_loop_list[of b1 True "tl p" 1] lb_holds_same[of b b1] b1(1) True
    by (simp add: refines_from_def)
next
  case False
  have "lb_room False b p"
    by (simp add: lb_room_def b_def p_def)
  then show ?thesis
    using lb_clean_loop_list[of b False p 0] False by (simp add: refines_from_def b_def)
qed

lemma lb_finish:
  assumes "lb_wf b" "lb_path b \<noteq> []"
  shows "\<exists>b'. (if lb_w b = 0 then lb_append (CHR ''.'') b else Some b) = Some b' \<and> lb_same b b' \<and>
    lb_content b' = (if lb_content b = [] then ''.'' else lb_content b)"
  using lb_append_written[OF assms(1), of "CHR ''.''"] lb_content_empty[OF assms(1)] assms(2)
  by (auto simp: lb_written_def)

lemma lb_clean_bind:
  assumes "drop (volumeNameLen path) path \<noteq> []"
  shows "lb_clean path =
    (let b = lb_new (volumeNameLen path) path; p = drop (volumeNameLen path) path in
     do { b \<leftarrow> (if hd p = CHR 0x5C then do { b \<leftarrow> lb_append (CHR 0x5C) b; lb_clean_loop True 1 b (tl p) }
               else lb_clean_loop False 0 b p);
          b \<leftarrow> (if lb_w b = 0 then lb_append (CHR ''.'') b else Some b);
          Some (lb_string b) })"
  using assms by (simp add: lb_clean_def isPathSeparator_def Let_def)

text \<open>
  C19. On every path \<open>clean\<close> over the lazy buffer returns, without an index out of range, and it
  returns what the list algorithm \<open>clean_win\<close> does: the buffer that shares the bytes of the path
  and is allocated once, at the length of the path, is never written beyond its end, although the
  output has separators and dots that are not copies of the input at the same position.
\<close>

theorem clean_refines: "lb_clean path = Some (clean_win path)"
proof (cases "drop (volumeNameLen path) path = []")
  case True
  then show ?thesis
    by (simp add: lb_clean_def clean_win_def)
next
  case False
  let ?vol = "volumeNameLen path"
  let ?p = "drop ?vol path"
  let ?out = "if hd ?p = CHR 0x5C then clean_loop (CHR 0x5C) True 1 [CHR 0x5C] (tl ?p)
     else clean_loop (CHR 0x5C) False 0 [] ?p"
  obtain b1 where b1: "lb_wf b1" "lb_same (lb_new ?vol path) b1" "lb_content b1 = ?out"
      "(if hd ?p = CHR 0x5C then do { b \<leftarrow> lb_append (CHR 0x5C) (lb_new ?vol path); lb_clean_loop True 1 b (tl ?p) }
        else lb_clean_loop False 0 (lb_new ?vol path) ?p) = Some b1"
    using lb_run[OF False] unfolding lb_holds_def by blast
  obtain b2 where b2: "(if lb_w b1 = 0 then lb_append (CHR ''.'') b1 else Some b1) = Some b2" "lb_same b1 b2"
      "lb_content b2 = (if ?out = [] then ''.'' else ?out)"
    using lb_finish[OF b1(1)] b1(2,3) False by (auto simp: lb_same_def)
  have "lb_string b2 = take ?vol path @ (if ?out = [] then ''.'' else ?out)"
    using lb_string_content[of b2] b2(2,3) b1(2) by (simp add: lb_same_def lb_new_def)
  moreover have "lb_clean path = Some (lb_string b2)"
    by (simp only: lb_clean_bind[OF False] Let_def b1(4) b2(1) bind.bind_lunit)
  ultimately show ?thesis
    using False by (simp add: clean_win_def clean_path_def Let_def)
qed

end
