(* ===== verification/Types.thy ===== *)
theory Types
  imports Go_Unicode
begin

text \<open>
  The package \<^verbatim>\<open>types\<close> (src/types) and the data of
  \<^verbatim>\<open>internal/corazarules\<close>: phases, severities, engine states, interruptions and
  the records that carry a match. A parser that returns a Go error returns \<^const>\<open>Inl\<close>
  with the message; \<^const>\<open>Inr\<close> is success.
\<close>

section \<open>Severity\<close>

type_synonym RuleSeverity = int

abbreviation (input) RuleSeverityEmergency :: RuleSeverity where "RuleSeverityEmergency \<equiv> 0"
abbreviation (input) RuleSeverityAlert :: RuleSeverity where "RuleSeverityAlert \<equiv> 1"
abbreviation (input) RuleSeverityCritical :: RuleSeverity where "RuleSeverityCritical \<equiv> 2"
abbreviation (input) RuleSeverityError :: RuleSeverity where "RuleSeverityError \<equiv> 3"
abbreviation (input) RuleSeverityWarning :: RuleSeverity where "RuleSeverityWarning \<equiv> 4"
abbreviation (input) RuleSeverityNotice :: RuleSeverity where "RuleSeverityNotice \<equiv> 5"
abbreviation (input) RuleSeverityInfo :: RuleSeverity where "RuleSeverityInfo \<equiv> 6"
abbreviation (input) RuleSeverityDebug :: RuleSeverity where "RuleSeverityDebug \<equiv> 7"

definition severity_String :: "RuleSeverity \<Rightarrow> string" where
  "severity_String rs =
     (if rs = RuleSeverityEmergency then ''emergency''
      else if rs = RuleSeverityAlert then ''alert''
      else if rs = RuleSeverityCritical then ''critical''
      else if rs = RuleSeverityError then ''error''
      else if rs = RuleSeverityWarning then ''warning''
      else if rs = RuleSeverityNotice then ''notice''
      else if rs = RuleSeverityInfo then ''info''
      else if rs = RuleSeverityDebug then ''debug''
      else ''unknown'')"

definition ParseRuleSeverity :: "string \<Rightarrow> string + RuleSeverity" where
  "ParseRuleSeverity input =
     (if length input = 1 then
        (case Atoi input of
           (_, Some _) \<Rightarrow> Inl (''strconv.Atoi: parsing '' @ input)
         | (s, None) \<Rightarrow>
             if s < 0 \<or> s > 7 then Inl (''invalid severity: '' @ Itoa s) else Inr s)
      else
        let l = ToLower input in
        if l = ''emergency'' then Inr RuleSeverityEmergency
        else if l = ''alert'' then Inr RuleSeverityAlert
        else if l = ''critical'' then Inr RuleSeverityCritical
        else if l = ''error'' then Inr RuleSeverityError
        else if l = ''warning'' then Inr RuleSeverityWarning
        else if l = ''notice'' then Inr RuleSeverityNotice
        else if l = ''info'' then Inr RuleSeverityInfo
        else if l = ''debug'' then Inr RuleSeverityDebug
        else Inl (''unknown severity: '' @ input))"

text \<open>The idiom \<open>v, _ := types.ParseRuleSeverity(s)\<close>: every error path returns 0.\<close>

definition severity_or_zero :: "string \<Rightarrow> RuleSeverity" where
  "severity_or_zero s = (case ParseRuleSeverity s of Inl _ \<Rightarrow> 0 | Inr v \<Rightarrow> v)"

section \<open>Phases\<close>

type_synonym RulePhase = int

abbreviation (input) PhaseRequestHeaders :: RulePhase where "PhaseRequestHeaders \<equiv> 1"
abbreviation (input) PhaseRequestBody :: RulePhase where "PhaseRequestBody \<equiv> 2"
abbreviation (input) PhaseResponseHeaders :: RulePhase where "PhaseResponseHeaders \<equiv> 3"
abbreviation (input) PhaseResponseBody :: RulePhase where "PhaseResponseBody \<equiv> 4"
abbreviation (input) PhaseLogging :: RulePhase where "PhaseLogging \<equiv> 5"

definition ParseRulePhase :: "string \<Rightarrow> string + RulePhase" where
  "ParseRulePhase phase =
     (let i = (if phase = ''request'' then 2
               else if phase = ''response'' then 4
               else if phase = ''logging'' then 5
               else atoi_val phase)
      in if i > 5 \<or> i < 1 then Inl (''invalid phase '' @ phase) else Inr i)"

section \<open>Engine states\<close>

datatype AuditEngineStatus = AuditEngineOn | AuditEngineOff | AuditEngineRelevantOnly

definition ParseAuditEngineStatus :: "string \<Rightarrow> string + AuditEngineStatus" where
  "ParseAuditEngineStatus as =
     (let l = ToLower as in
      if l = ''on'' then Inr AuditEngineOn
      else if l = ''off'' then Inr AuditEngineOff
      else if l = ''relevantonly'' then Inr AuditEngineRelevantOnly
      else Inl (''invalid audit engine status: '' @ as))"

datatype RuleEngineStatus = RuleEngineOn | RuleEngineDetectionOnly | RuleEngineOff

definition ParseRuleEngineStatus :: "string \<Rightarrow> string + RuleEngineStatus" where
  "ParseRuleEngineStatus re =
     (let l = ToLower re in
      if l = ''on'' then Inr RuleEngineOn
      else if l = ''detectiononly'' then Inr RuleEngineDetectionOnly
      else if l = ''off'' then Inr RuleEngineOff
      else Inl (''invalid rule engine status: '' @ re))"

fun engine_String :: "RuleEngineStatus \<Rightarrow> string" where
  "engine_String RuleEngineOn = ''on''"
| "engine_String RuleEngineDetectionOnly = ''DetectionOnly''"
| "engine_String RuleEngineOff = ''off''"

datatype RequestBodyLimitAction =
  RequestBodyLimitActionProcessPartial | RequestBodyLimitActionReject

definition ParseRequestBodyLimitAction :: "string \<Rightarrow> string + RequestBodyLimitAction" where
  "ParseRequestBodyLimitAction rbla =
     (let l = ToLower rbla in
      if l = ''processpartial'' then Inr RequestBodyLimitActionProcessPartial
      else if l = ''reject'' then Inr RequestBodyLimitActionReject
      else Inl (''invalid request body limit action: '' @ rbla))"

section \<open>Interruptions, options, matches\<close>

record Interruption =
  it_RuleID :: int
  it_Action :: string
  it_Status :: int
  it_Data :: string

record BodyBufferOptions =
  TmpPath :: string
  MemoryLimit :: int

record AnchoredVar =
  av_Name :: string
  av_Value :: string

datatype ArgumentType = ArgumentInvalid | ArgumentGET | ArgumentPOST | ArgumentPATH

text \<open>\<open>variables.RuleVariable\<close> is a byte; its constants are in the theory Variables.\<close>

type_synonym RuleVariable = nat

record MatchData =
  md_VariableName :: string
  md_Variable :: RuleVariable
  md_Key :: string
  md_Value :: string
  md_Message :: string
  md_Data :: string

text \<open>The zero value \<open>&corazarules.MatchData{}\<close>.\<close>

definition zero_MatchData :: MatchData where
  "zero_MatchData = \<lparr>md_VariableName = [], md_Variable = 0, md_Key = [], md_Value = [],
     md_Message = [], md_Data = []\<rparr>"

definition IsNil :: "MatchData \<Rightarrow> bool" where
  "IsNil m \<longleftrightarrow> m = zero_MatchData"

record RuleMetadata =
  ID :: int
  File :: string
  Line :: int
  Rev :: string
  Severity :: RuleSeverity
  Version :: string
  Tags :: "string list"
  Maturity :: int
  Accuracy :: int
  Operator :: string
  Phase :: RulePhase
  Raw :: string
  SecMark :: string

record MatchedRule =
  mr_Message :: string
  mr_Data :: string
  mr_URI :: string
  mr_TransactionID :: string
  mr_Disruptive :: bool
  mr_ServerIPAddress :: string
  mr_ClientIPAddress :: string
  mr_MatchedDatas :: "MatchData list"
  mr_Rule :: RuleMetadata

section \<open>Lemmas\<close>

lemma ParseRulePhase_range: "ParseRulePhase s = Inr p \<Longrightarrow> 1 \<le> p \<and> p \<le> 5"
  by (auto simp: ParseRulePhase_def Let_def split: if_splits)

lemma ParseRuleSeverity_range: "ParseRuleSeverity s = Inr v \<Longrightarrow> 0 \<le> v \<and> v \<le> 7"
  by (auto simp: ParseRuleSeverity_def Let_def split: if_splits prod.splits option.splits)

lemma severity_or_zero_range: "0 \<le> severity_or_zero s \<and> severity_or_zero s \<le> 7"
  by (auto simp: severity_or_zero_def split: sum.splits dest: ParseRuleSeverity_range)

lemma severity_cases:
  assumes "0 \<le> (v::int)" "v \<le> 7"
  obtains "v = 0" | "v = 1" | "v = 2" | "v = 3" | "v = 4" | "v = 5" | "v = 6" | "v = 7"
  using assms by linarith

text \<open>Both spellings of a severity, its number and its name, parse to that severity.\<close>

lemma severity_roundtrip_number:
  assumes "0 \<le> v" "v \<le> 7"
  shows "ParseRuleSeverity (Itoa v) = Inr v"
proof -
  have len: "length (Itoa v) = 1" using assms by (simp add: Itoa_def nat_to_dec.simps)
  have "Atoi (Itoa v) = (v, None)" using assms by (intro Atoi_Itoa) (simp add: int64_range_def)
  with len assms show ?thesis by (simp add: ParseRuleSeverity_def)
qed

lemma severity_roundtrip_name:
  assumes "0 \<le> v" "v \<le> 7"
  shows "ParseRuleSeverity (severity_String v) = Inr v"
  using assms
  by (rule severity_cases)
    (simp_all add: ParseRuleSeverity_def severity_String_def ToLower_def is_ascii_def lower_ascii_def
      in_range_def)

lemma severity_or_zero_Itoa: "0 \<le> v \<Longrightarrow> v \<le> 7 \<Longrightarrow> severity_or_zero (Itoa v) = v"
  by (simp add: severity_or_zero_def severity_roundtrip_number)

end
