(* ===== verification/Variables.thy ===== *)
theory Variables
  imports Types
begin

text \<open>
  The package \<^verbatim>\<open>types/variables\<close> (src/types/variables/variables.go): the
  variable identifiers, which Go numbers with iota, their names, and the parser of names.
\<close>

section \<open>Identifiers\<close>

abbreviation (input) Unknown :: RuleVariable where "Unknown \<equiv> 0"
abbreviation (input) ResponseContentType :: RuleVariable where "ResponseContentType \<equiv> 1"
abbreviation (input) UniqueID :: RuleVariable where "UniqueID \<equiv> 2"
abbreviation (input) ArgsCombinedSize :: RuleVariable where "ArgsCombinedSize \<equiv> 3"
abbreviation (input) AuthType :: RuleVariable where "AuthType \<equiv> 4"
abbreviation (input) FilesCombinedSize :: RuleVariable where "FilesCombinedSize \<equiv> 5"
abbreviation (input) FullRequest :: RuleVariable where "FullRequest \<equiv> 6"
abbreviation (input) FullRequestLength :: RuleVariable where "FullRequestLength \<equiv> 7"
abbreviation (input) InboundDataError :: RuleVariable where "InboundDataError \<equiv> 8"
abbreviation (input) MatchedVar :: RuleVariable where "MatchedVar \<equiv> 9"
abbreviation (input) MatchedVarName :: RuleVariable where "MatchedVarName \<equiv> 10"
abbreviation (input) MultipartBoundaryQuoted :: RuleVariable where "MultipartBoundaryQuoted \<equiv> 11"
abbreviation (input) MultipartBoundaryWhitespace :: RuleVariable where "MultipartBoundaryWhitespace \<equiv> 12"
abbreviation (input) MultipartCrlfLfLines :: RuleVariable where "MultipartCrlfLfLines \<equiv> 13"
abbreviation (input) MultipartDataAfter :: RuleVariable where "MultipartDataAfter \<equiv> 14"
abbreviation (input) MultipartDataBefore :: RuleVariable where "MultipartDataBefore \<equiv> 15"
abbreviation (input) MultipartFileLimitExceeded :: RuleVariable where "MultipartFileLimitExceeded \<equiv> 16"
abbreviation (input) MultipartHeaderFolding :: RuleVariable where "MultipartHeaderFolding \<equiv> 17"
abbreviation (input) MultipartInvalidHeaderFolding :: RuleVariable where "MultipartInvalidHeaderFolding \<equiv> 18"
abbreviation (input) MultipartInvalidPart :: RuleVariable where "MultipartInvalidPart \<equiv> 19"
abbreviation (input) MultipartInvalidQuoting :: RuleVariable where "MultipartInvalidQuoting \<equiv> 20"
abbreviation (input) MultipartLfLine :: RuleVariable where "MultipartLfLine \<equiv> 21"
abbreviation (input) MultipartMissingSemicolon :: RuleVariable where "MultipartMissingSemicolon \<equiv> 22"
abbreviation (input) MultipartStrictError :: RuleVariable where "MultipartStrictError \<equiv> 23"
abbreviation (input) MultipartUnmatchedBoundary :: RuleVariable where "MultipartUnmatchedBoundary \<equiv> 24"
abbreviation (input) OutboundDataError :: RuleVariable where "OutboundDataError \<equiv> 25"
abbreviation (input) PathInfo :: RuleVariable where "PathInfo \<equiv> 26"
abbreviation (input) QueryString :: RuleVariable where "QueryString \<equiv> 27"
abbreviation (input) RemoteAddr :: RuleVariable where "RemoteAddr \<equiv> 28"
abbreviation (input) RemoteHost :: RuleVariable where "RemoteHost \<equiv> 29"
abbreviation (input) RemotePort :: RuleVariable where "RemotePort \<equiv> 30"
abbreviation (input) ReqbodyError :: RuleVariable where "ReqbodyError \<equiv> 31"
abbreviation (input) ReqbodyErrorMsg :: RuleVariable where "ReqbodyErrorMsg \<equiv> 32"
abbreviation (input) ReqbodyProcessorError :: RuleVariable where "ReqbodyProcessorError \<equiv> 33"
abbreviation (input) ReqbodyProcessorErrorMsg :: RuleVariable where "ReqbodyProcessorErrorMsg \<equiv> 34"
abbreviation (input) ReqbodyProcessor :: RuleVariable where "ReqbodyProcessor \<equiv> 35"
abbreviation (input) RequestBasename :: RuleVariable where "RequestBasename \<equiv> 36"
abbreviation (input) RequestBody :: RuleVariable where "RequestBody \<equiv> 37"
abbreviation (input) RequestBodyLength :: RuleVariable where "RequestBodyLength \<equiv> 38"
abbreviation (input) RequestFilename :: RuleVariable where "RequestFilename \<equiv> 39"
abbreviation (input) RequestLine :: RuleVariable where "RequestLine \<equiv> 40"
abbreviation (input) RequestMethod :: RuleVariable where "RequestMethod \<equiv> 41"
abbreviation (input) RequestProtocol :: RuleVariable where "RequestProtocol \<equiv> 42"
abbreviation (input) RequestURI :: RuleVariable where "RequestURI \<equiv> 43"
abbreviation (input) RequestURIRaw :: RuleVariable where "RequestURIRaw \<equiv> 44"
abbreviation (input) ResponseBody :: RuleVariable where "ResponseBody \<equiv> 45"
abbreviation (input) ResponseContentLength :: RuleVariable where "ResponseContentLength \<equiv> 46"
abbreviation (input) ResponseProtocol :: RuleVariable where "ResponseProtocol \<equiv> 47"
abbreviation (input) ResponseStatus :: RuleVariable where "ResponseStatus \<equiv> 48"
abbreviation (input) ServerAddr :: RuleVariable where "ServerAddr \<equiv> 49"
abbreviation (input) ServerName :: RuleVariable where "ServerName \<equiv> 50"
abbreviation (input) ServerPort :: RuleVariable where "ServerPort \<equiv> 51"
abbreviation (input) Sessionid :: RuleVariable where "Sessionid \<equiv> 52"
abbreviation (input) HighestSeverity :: RuleVariable where "HighestSeverity \<equiv> 53"
abbreviation (input) StatusLine :: RuleVariable where "StatusLine \<equiv> 54"
abbreviation (input) InboundErrorData :: RuleVariable where "InboundErrorData \<equiv> 55"
abbreviation (input) Duration :: RuleVariable where "Duration \<equiv> 56"
abbreviation (input) ResponseHeadersNames :: RuleVariable where "ResponseHeadersNames \<equiv> 57"
abbreviation (input) RequestHeadersNames :: RuleVariable where "RequestHeadersNames \<equiv> 58"
abbreviation (input) Userid :: RuleVariable where "Userid \<equiv> 59"
abbreviation (input) Args :: RuleVariable where "Args \<equiv> 60"
abbreviation (input) ArgsGet :: RuleVariable where "ArgsGet \<equiv> 61"
abbreviation (input) ArgsPost :: RuleVariable where "ArgsPost \<equiv> 62"
abbreviation (input) ArgsPath :: RuleVariable where "ArgsPath \<equiv> 63"
abbreviation (input) FilesSizes :: RuleVariable where "FilesSizes \<equiv> 64"
abbreviation (input) FilesNames :: RuleVariable where "FilesNames \<equiv> 65"
abbreviation (input) FilesTmpContent :: RuleVariable where "FilesTmpContent \<equiv> 66"
abbreviation (input) MultipartFilename :: RuleVariable where "MultipartFilename \<equiv> 67"
abbreviation (input) MultipartName :: RuleVariable where "MultipartName \<equiv> 68"
abbreviation (input) MatchedVarsNames :: RuleVariable where "MatchedVarsNames \<equiv> 69"
abbreviation (input) MatchedVars :: RuleVariable where "MatchedVars \<equiv> 70"
abbreviation (input) Files :: RuleVariable where "Files \<equiv> 71"
abbreviation (input) RequestCookies :: RuleVariable where "RequestCookies \<equiv> 72"
abbreviation (input) RequestHeaders :: RuleVariable where "RequestHeaders \<equiv> 73"
abbreviation (input) ResponseHeaders :: RuleVariable where "ResponseHeaders \<equiv> 74"
abbreviation (input) Geo :: RuleVariable where "Geo \<equiv> 75"
abbreviation (input) RequestCookiesNames :: RuleVariable where "RequestCookiesNames \<equiv> 76"
abbreviation (input) FilesTmpNames :: RuleVariable where "FilesTmpNames \<equiv> 77"
abbreviation (input) ArgsNames :: RuleVariable where "ArgsNames \<equiv> 78"
abbreviation (input) ArgsGetNames :: RuleVariable where "ArgsGetNames \<equiv> 79"
abbreviation (input) ArgsPostNames :: RuleVariable where "ArgsPostNames \<equiv> 80"
abbreviation (input) TX :: RuleVariable where "TX \<equiv> 81"
abbreviation (input) Rule :: RuleVariable where "Rule \<equiv> 82"
abbreviation (input) JSON :: RuleVariable where "JSON \<equiv> 83"
abbreviation (input) Env :: RuleVariable where "Env \<equiv> 84"
abbreviation (input) IP :: RuleVariable where "IP \<equiv> 85"
abbreviation (input) UrlencodedError :: RuleVariable where "UrlencodedError \<equiv> 86"
abbreviation (input) ResponseArgs :: RuleVariable where "ResponseArgs \<equiv> 87"
abbreviation (input) ResponseXML :: RuleVariable where "ResponseXML \<equiv> 88"
abbreviation (input) RequestXML :: RuleVariable where "RequestXML \<equiv> 89"
abbreviation (input) XML :: RuleVariable where "XML \<equiv> 90"
abbreviation (input) MultipartPartHeaders :: RuleVariable where "MultipartPartHeaders \<equiv> 91"

section \<open>Names\<close>

definition rulemap :: "(RuleVariable \<times> string) list" where
  "rulemap = [
    (Unknown, ''UNKNOWN''),
    (UrlencodedError, ''URLENCODED_ERROR''),
    (ResponseContentType, ''RESPONSE_CONTENT_TYPE''),
    (UniqueID, ''UNIQUE_ID''),
    (ArgsCombinedSize, ''ARGS_COMBINED_SIZE''),
    (AuthType, ''AUTH_TYPE''),
    (FilesCombinedSize, ''FILES_COMBINED_SIZE''),
    (FullRequest, ''FULL_REQUEST''),
    (FullRequestLength, ''FULL_REQUEST_LENGTH''),
    (InboundDataError, ''INBOUND_DATA_ERROR''),
    (MatchedVar, ''MATCHED_VAR''),
    (MatchedVarName, ''MATCHED_VAR_NAME''),
    (MultipartBoundaryQuoted, ''MULTIPART_BOUNDARY_QUOTED''),
    (MultipartBoundaryWhitespace, ''MULTIPART_BOUNDARY_WHITESPACE''),
    (MultipartCrlfLfLines, ''MULTIPART_CRLF_LF_LINES''),
    (MultipartDataAfter, ''MULTIPART_DATA_AFTER''),
    (MultipartDataBefore, ''MULTIPART_DATA_BEFORE''),
    (MultipartFileLimitExceeded, ''MULTIPART_FILE_LIMIT_EXCEEDED''),
    (MultipartHeaderFolding, ''MULTIPART_HEADER_FOLDING''),
    (MultipartInvalidHeaderFolding, ''MULTIPART_INVALID_HEADER_FOLDING''),
    (MultipartInvalidPart, ''MULTIPART_INVALID_PART''),
    (MultipartInvalidQuoting, ''MULTIPART_INVALID_QUOTING''),
    (MultipartLfLine, ''MULTIPART_LF_LINE''),
    (MultipartMissingSemicolon, ''MULTIPART_MISSING_SEMICOLON''),
    (MultipartStrictError, ''MULTIPART_STRICT_ERROR''),
    (MultipartUnmatchedBoundary, ''MULTIPART_UNMATCHED_BOUNDARY''),
    (OutboundDataError, ''OUTBOUND_DATA_ERROR''),
    (PathInfo, ''PATH_INFO''),
    (QueryString, ''QUERY_STRING''),
    (RemoteAddr, ''REMOTE_ADDR''),
    (RemoteHost, ''REMOTE_HOST''),
    (RemotePort, ''REMOTE_PORT''),
    (ReqbodyError, ''REQBODY_ERROR''),
    (ReqbodyErrorMsg, ''REQBODY_ERROR_MSG''),
    (ReqbodyProcessorError, ''REQBODY_PROCESSOR_ERROR''),
    (ReqbodyProcessorErrorMsg, ''REQBODY_PROCESSOR_ERROR_MSG''),
    (ReqbodyProcessor, ''REQBODY_PROCESSOR''),
    (RequestBasename, ''REQUEST_BASENAME''),
    (RequestBody, ''REQUEST_BODY''),
    (RequestBodyLength, ''REQUEST_BODY_LENGTH''),
    (RequestFilename, ''REQUEST_FILENAME''),
    (RequestLine, ''REQUEST_LINE''),
    (RequestMethod, ''REQUEST_METHOD''),
    (RequestProtocol, ''REQUEST_PROTOCOL''),
    (RequestURI, ''REQUEST_URI''),
    (RequestURIRaw, ''REQUEST_URI_RAW''),
    (ResponseBody, ''RESPONSE_BODY''),
    (ResponseContentLength, ''RESPONSE_CONTENT_LENGTH''),
    (ResponseProtocol, ''RESPONSE_PROTOCOL''),
    (ResponseStatus, ''RESPONSE_STATUS''),
    (ServerAddr, ''SERVER_ADDR''),
    (ServerName, ''SERVER_NAME''),
    (ServerPort, ''SERVER_PORT''),
    (Sessionid, ''SESSIONID''),
    (HighestSeverity, ''HIGHEST_SEVERITY''),
    (StatusLine, ''STATUS_LINE''),
    (InboundErrorData, ''INBOUND_ERROR_DATA''),
    (Duration, ''DURATION''),
    (ResponseHeadersNames, ''RESPONSE_HEADERS_NAMES''),
    (RequestHeadersNames, ''REQUEST_HEADERS_NAMES''),
    (Userid, ''USERID''),
    (Args, ''ARGS''),
    (ArgsGet, ''ARGS_GET''),
    (ArgsPost, ''ARGS_POST''),
    (ArgsPath, ''ARGS_PATH''),
    (FilesSizes, ''FILES_SIZES''),
    (FilesNames, ''FILES_NAMES''),
    (FilesTmpContent, ''FILES_TMP_CONTENT''),
    (MultipartFilename, ''MULTIPART_FILENAME''),
    (MultipartName, ''MULTIPART_NAME''),
    (MatchedVarsNames, ''MATCHED_VARS_NAMES''),
    (MatchedVars, ''MATCHED_VARS''),
    (Files, ''FILES''),
    (RequestCookies, ''REQUEST_COOKIES''),
    (RequestHeaders, ''REQUEST_HEADERS''),
    (ResponseHeaders, ''RESPONSE_HEADERS''),
    (Geo, ''GEO''),
    (RequestCookiesNames, ''REQUEST_COOKIES_NAMES''),
    (FilesTmpNames, ''FILES_TMPNAMES''),
    (ArgsNames, ''ARGS_NAMES''),
    (ArgsGetNames, ''ARGS_GET_NAMES''),
    (ArgsPostNames, ''ARGS_POST_NAMES''),
    (TX, ''TX''),
    (Rule, ''RULE''),
    (XML, ''XML''),
    (JSON, ''JSON''),
    (Env, ''ENV''),
    (IP, ''IP''),
    (RequestXML, ''REQUEST_XML''),
    (ResponseXML, ''RESPONSE_XML''),
    (ResponseArgs, ''RESPONSE_ARGS''),
    (MultipartPartHeaders, ''MULTIPART_PART_HEADERS'')]"

definition variable_Name :: "RuleVariable \<Rightarrow> string" where
  "variable_Name v = (case map_of rulemap v of Some name \<Rightarrow> name | None \<Rightarrow> ''INVALID_VARIABLE'')"

text \<open>The reverse map that \<open>init\<close> builds; the names are distinct, so its order of filling is irrelevant.\<close>

definition rulemapRev :: "(string \<times> RuleVariable) list" where
  "rulemapRev = map (\<lambda>(k, v). (v, k)) rulemap"

definition variables_Parse :: "string \<Rightarrow> string + RuleVariable" where
  "variables_Parse v = (case map_of rulemapRev (ToUpper v) of
       Some r \<Rightarrow> Inr r
     | None \<Rightarrow> Inl ''unknown variable'')"

section \<open>Lemmas\<close>

lemma rulemap_sorted: "sort (map fst rulemap) = [0..<92]"
  by code_simp

lemma rulemap_dom: "distinct (map fst rulemap) \<and> set (map fst rulemap) = {0..<92}"
  by (metis rulemap_sorted distinct_sort distinct_upt set_sort set_upt)

text \<open>Distinctness of the names, through a numeric fingerprint of each.\<close>

definition name_hash :: "string \<Rightarrow> int" where
  "name_hash n = foldl (\<lambda>h c. (h * 31 + of_char c) mod 1000003) 0 n"

lemma rulemap_hashes: "map name_hash (map snd rulemap) = [
    319904, 494254, 568683, 335522, 346646, 7139, 137782, 755962, 817666, 562981, 713657,
    844055, 477862, 207549, 853596, 751312, 588757, 905124, 932955, 519444, 172768, 300456,
    478008, 473409, 59027, 220935, 503484, 218734, 780879, 662144, 881719, 120013, 68703,
    379696, 703487, 975458, 236815, 723348, 544360, 821962, 454333, 836794, 275760, 50983,
    810110, 263897, 549465, 944857, 611546, 254520, 542921, 927587, 790, 61478, 296961, 949391,
    895677, 920707, 588231, 961403, 259254, 17495, 852017, 690231, 676796, 27959, 159548,
    766315, 851735, 766322, 474464, 123384, 896273, 295131, 368340, 450939, 70449, 898260,
    20713, 126840, 84947, 306401, 2692, 526966, 87031, 286818, 68813, 2343, 812841, 877522,
    522644, 146685]"
  by code_simp

lemma rulemap_names_distinct: "distinct (map snd rulemap)"
proof -
  have "distinct (map name_hash (map snd rulemap))"
    unfolding rulemap_hashes by simp
  then show ?thesis using distinct_map by blast
qed

lemma rulemap_names_upper: "list_all (\<lambda>c. byte c < 97) (concat (map snd rulemap))"
  by (simp add: rulemap_def)

lemma ToUpper_id: "list_all (\<lambda>c. byte c < 97) n \<Longrightarrow> ToUpper n = n"
proof -
  assume n: "list_all (\<lambda>c. byte c < 97) n"
  then have "is_ascii n" by (auto simp: is_ascii_def list_all_iff)
  moreover have "map upper_ascii n = n"
    using n by (intro map_idI) (auto simp: upper_ascii_def in_range_def list_all_iff)
  ultimately show ?thesis by (simp add: ToUpper_def)
qed

lemma map_of_rulemapRev:
  assumes "(v, n) \<in> set rulemap"
  shows "map_of rulemapRev n = Some v"
proof (rule map_of_is_SomeI)
  show "distinct (map fst rulemapRev)"
    using rulemap_names_distinct by (simp add: rulemapRev_def case_prod_beta comp_def)
  show "(n, v) \<in> set rulemapRev" using assms by (force simp: rulemapRev_def)
qed

lemma variable_Name_in: "v < 92 \<Longrightarrow> (v, variable_Name v) \<in> set rulemap"
proof -
  assume "v < 92"
  then have "v \<in> set (map fst rulemap)" using rulemap_dom by auto
  then obtain n where "map_of rulemap v = Some n"
    by (metis map_of_eq_None_iff not_None_eq set_map)
  then show ?thesis by (simp add: variable_Name_def map_of_SomeD)
qed

lemma variables_Parse_name: "v < 92 \<Longrightarrow> ToUpper s = variable_Name v \<Longrightarrow> variables_Parse s = Inr v"
  using map_of_rulemapRev [OF variable_Name_in [of v]] by (simp add: variables_Parse_def)

lemma ToUpper_variable_Name: "v < 92 \<Longrightarrow> ToUpper (variable_Name v) = variable_Name v"
  using rulemap_names_upper variable_Name_in [of v]
  by (intro ToUpper_id) (force simp: list_all_iff)

lemma variable_roundtrip: "v < 92 \<Longrightarrow> variables_Parse (variable_Name v) = Inr v"
  by (simp add: variables_Parse_name ToUpper_variable_Name)

lemma variables_Parse_sound:
  assumes "variables_Parse s = Inr v"
  shows "v < 92 \<and> ToUpper s = variable_Name v"
proof -
  have "map_of rulemapRev (ToUpper s) = Some v"
    using assms by (auto simp: variables_Parse_def split: option.splits)
  then have vin: "(v, ToUpper s) \<in> set rulemap"
    by (auto simp: rulemapRev_def dest!: map_of_SomeD)
  then have "v \<in> set (map fst rulemap)" by force
  then have "v < 92" using rulemap_dom by auto
  moreover have "variable_Name v = ToUpper s"
    using vin rulemap_dom by (simp add: variable_Name_def)
  ultimately show ?thesis by simp
qed

section \<open>Properties\<close>

text \<open>
  The parser of variable names accepts exactly the names of the 92 variables, in any case,
  and returns the variable with that name.
\<close>

theorem variables_Parse_iff: "variables_Parse s = Inr v \<longleftrightarrow> v < 92 \<and> ToUpper s = variable_Name v"
  using variables_Parse_sound variables_Parse_name by blast

end
