(* ===== verification/Collection.thy ===== *)
theory Collection
  imports Variables
begin

text \<open>
  The package \<^verbatim>\<open>collection\<close> (src/collection): the key-value store \<open>Map\<close>, the
  single value \<open>Simple\<close>, and the views \<open>Proxy\<close>, \<open>SizeProxy\<close> and
  \<open>TranslationProxy\<close> over several maps, with the interface \<open>Collection\<close> they
  implement. Operations that mutate a collection return the new one.
\<close>

section \<open>Map\<close>

record Map =
  m_data :: "(string \<times> AnchoredVar list) list"
  m_name :: string
  m_variable :: RuleVariable

definition NewMap :: "RuleVariable \<Rightarrow> Map" where
  "NewMap v = \<lparr>m_data = [], m_name = variable_Name v, m_variable = v\<rparr>"

definition anchored_match :: "Map \<Rightarrow> AnchoredVar \<Rightarrow> MatchData" where
  "anchored_match c a = \<lparr>md_VariableName = m_name c, md_Variable = m_variable c,
     md_Key = av_Name a, md_Value = av_Value a, md_Message = [], md_Data = []\<rparr>"

definition Map_Get :: "Map \<Rightarrow> string \<Rightarrow> string list" where
  "Map_Get c key = map av_Value (map_get (m_data c) key)"

definition Map_keys :: "key_order \<Rightarrow> Map \<Rightarrow> string list" where
  "Map_keys ord c = ord (map fst (m_data c))"

definition Map_keysRx :: "key_order \<Rightarrow> Map \<Rightarrow> Regexp \<Rightarrow> string list" where
  "Map_keysRx ord c rx = filter (MatchString rx) (ord (map fst (m_data c)))"

definition Map_FindRegex :: "key_order \<Rightarrow> Map \<Rightarrow> Regexp \<Rightarrow> MatchData list" where
  "Map_FindRegex ord c key =
     concat (map (\<lambda>k. if MatchString key k then map (anchored_match c) (map_get (m_data c) k) else [])
       (ord (map fst (m_data c))))"

definition Map_FindAll :: "key_order \<Rightarrow> Map \<Rightarrow> MatchData list" where
  "Map_FindAll ord c =
     concat (map (\<lambda>k. map (anchored_match c) (map_get (m_data c) k)) (ord (map fst (m_data c))))"

definition Map_FindString :: "key_order \<Rightarrow> Map \<Rightarrow> string \<Rightarrow> MatchData list" where
  "Map_FindString ord c key =
     (if key = [] then Map_FindAll ord c
      else (case map_of (m_data c) key of
          Some e \<Rightarrow> map (anchored_match c) e
        | None \<Rightarrow> []))"

definition Map_AddCS :: "Map \<Rightarrow> string \<Rightarrow> string \<Rightarrow> string \<Rightarrow> Map" where
  "Map_AddCS c key vKey vVal = c\<lparr>m_data :=
     AList.update key (map_get (m_data c) key @ [\<lparr>av_Name = vKey, av_Value = vVal\<rparr>]) (m_data c)\<rparr>"

definition Map_Add :: "Map \<Rightarrow> string \<Rightarrow> string \<Rightarrow> Map" where
  "Map_Add c key value = Map_AddCS c key key value"

definition Map_AddUniqueCS :: "Map \<Rightarrow> string \<Rightarrow> string \<Rightarrow> string \<Rightarrow> Map" where
  "Map_AddUniqueCS c key vKey vVal =
     (case map_of (m_data c) key of
        None \<Rightarrow> Map_AddCS c key vKey vVal
      | Some vs \<Rightarrow> if vVal \<in> set (map av_Value vs) then c else Map_AddCS c key vKey vVal)"

definition Map_AddUnique :: "Map \<Rightarrow> string \<Rightarrow> string \<Rightarrow> Map" where
  "Map_AddUnique c key value = Map_AddUniqueCS c key key value"

definition Map_SetCS :: "Map \<Rightarrow> string \<Rightarrow> string \<Rightarrow> string list \<Rightarrow> Map" where
  "Map_SetCS c key vKey values = c\<lparr>m_data :=
     AList.update key (map (\<lambda>v. \<lparr>av_Name = vKey, av_Value = v\<rparr>) values) (m_data c)\<rparr>"

definition Map_Set :: "Map \<Rightarrow> string \<Rightarrow> string list \<Rightarrow> Map" where
  "Map_Set c key values = Map_SetCS c key key values"

text \<open>
  The index is a natural number: the callers pass 0, and a negative index panics. For a missing
  key the code first stores the value and then goes on, so with an index above 0 the value is
  stored twice.
\<close>

definition Map_SetIndexCS :: "Map \<Rightarrow> string \<Rightarrow> nat \<Rightarrow> string \<Rightarrow> string \<Rightarrow> Map" where
  "Map_SetIndexCS c key index vKey value =
     (let vVal = \<lparr>av_Name = vKey, av_Value = value\<rparr>;
          cur = (case map_of (m_data c) key of None \<Rightarrow> [vVal] | Some vs \<Rightarrow> vs)
      in if length cur \<le> index
         then c\<lparr>m_data := AList.update key (cur @ [vVal]) (m_data c)\<rparr>
         else c\<lparr>m_data := AList.update key (cur[index := vVal]) (m_data c)\<rparr>)"

definition Map_SetIndex :: "Map \<Rightarrow> string \<Rightarrow> nat \<Rightarrow> string \<Rightarrow> Map" where
  "Map_SetIndex c key index value = Map_SetIndexCS c key index key value"

definition Map_Remove :: "Map \<Rightarrow> string \<Rightarrow> Map" where
  "Map_Remove c key = c\<lparr>m_data := AList.delete key (m_data c)\<rparr>"

definition Map_Reset :: "Map \<Rightarrow> Map" where
  "Map_Reset c = c\<lparr>m_data := []\<rparr>"

definition Map_Data :: "Map \<Rightarrow> (string \<times> string list) list" where
  "Map_Data c = map (\<lambda>(k, v). (k, map av_Value v)) (m_data c)"

section \<open>Simple\<close>

record Simple =
  s_data :: string
  s_name :: string
  s_variable :: RuleVariable

definition NewSimple :: "RuleVariable \<Rightarrow> Simple" where
  "NewSimple v = \<lparr>s_data = [], s_name = variable_Name v, s_variable = v\<rparr>"

definition Simple_FindAll :: "Simple \<Rightarrow> MatchData list" where
  "Simple_FindAll c = [\<lparr>md_VariableName = s_name c, md_Variable = s_variable c, md_Key = [],
     md_Value = s_data c, md_Message = [], md_Data = []\<rparr>]"

definition Simple_FindRegex :: "Simple \<Rightarrow> Regexp \<Rightarrow> MatchData list" where
  "Simple_FindRegex c key = Simple_FindAll c"

definition Simple_FindString :: "Simple \<Rightarrow> string \<Rightarrow> MatchData list" where
  "Simple_FindString c key = Simple_FindAll c"

definition Simple_Int :: "Simple \<Rightarrow> int" where
  "Simple_Int c = fst (ParseInt (s_data c) 10 32)"

definition Simple_Set :: "Simple \<Rightarrow> string \<Rightarrow> Simple" where
  "Simple_Set c value = c\<lparr>s_data := value\<rparr>"

definition Simple_Reset :: "Simple \<Rightarrow> Simple" where
  "Simple_Reset c = c\<lparr>s_data := []\<rparr>"

section \<open>Views over several maps\<close>

text \<open>The three proxies have the same fields: the maps, a name and a variable.\<close>

record Proxy =
  p_data :: "Map list"
  p_name :: string
  p_variable :: RuleVariable

definition NewProxy :: "RuleVariable \<Rightarrow> Map list \<Rightarrow> Proxy" where
  "NewProxy v ms = \<lparr>p_data = ms, p_name = variable_Name v, p_variable = v\<rparr>"

definition Proxy_FindRegex :: "key_order \<Rightarrow> Proxy \<Rightarrow> Regexp \<Rightarrow> MatchData list" where
  "Proxy_FindRegex ord c key = concat (map (\<lambda>m. Map_FindRegex ord m key) (p_data c))"

definition Proxy_FindString :: "key_order \<Rightarrow> Proxy \<Rightarrow> string \<Rightarrow> MatchData list" where
  "Proxy_FindString ord c key = concat (map (\<lambda>m. Map_FindString ord m key) (p_data c))"

definition Proxy_FindAll :: "key_order \<Rightarrow> Proxy \<Rightarrow> MatchData list" where
  "Proxy_FindAll ord c = concat (map (Map_FindAll ord) (p_data c))"

definition Proxy_Get :: "Proxy \<Rightarrow> string \<Rightarrow> string list" where
  "Proxy_Get c key = concat (map (\<lambda>m. Map_Get m key) (p_data c))"

fun merge_data :: "(string \<times> string list) list \<Rightarrow> (string \<times> string list) list \<Rightarrow>
    (string \<times> string list) list" where
  "merge_data res [] = res"
| "merge_data res ((k, v) # kvs) = merge_data (AList.update k (map_get res k @ v) res) kvs"

definition Proxy_Data :: "Proxy \<Rightarrow> (string \<times> string list) list" where
  "Proxy_Data c = foldl (\<lambda>res m. merge_data res (Map_Data m)) [] (p_data c)"

definition SizeProxy_Size :: "Proxy \<Rightarrow> int" where
  "SizeProxy_Size c =
     (\<Sum>m\<leftarrow>p_data c. \<Sum>(k, vs)\<leftarrow>m_data m. \<Sum>v\<leftarrow>vs. int (length (av_Value v)))"

definition SizeProxy_FindAll :: "Proxy \<Rightarrow> MatchData list" where
  "SizeProxy_FindAll c = [\<lparr>md_VariableName = p_name c, md_Variable = p_variable c, md_Key = [],
     md_Value = Itoa (SizeProxy_Size c), md_Message = [], md_Data = []\<rparr>]"

text \<open>
  In the loops of the translation proxy the loop variable shadows the proxy, so the match
  carries the name and the variable of the underlying map.
\<close>

definition name_match :: "Map \<Rightarrow> string \<Rightarrow> MatchData" where
  "name_match m k = \<lparr>md_VariableName = m_name m, md_Variable = m_variable m, md_Key = [],
     md_Value = k, md_Message = [], md_Data = []\<rparr>"

definition TranslationProxy_FindRegex :: "key_order \<Rightarrow> Proxy \<Rightarrow> Regexp \<Rightarrow> MatchData list" where
  "TranslationProxy_FindRegex ord c key =
     concat (map (\<lambda>m. map (name_match m) (Map_keysRx ord m key)) (p_data c))"

fun translation_find :: "Map list \<Rightarrow> string \<Rightarrow> MatchData list" where
  "translation_find [] key = []"
| "translation_find (m # ms) key =
     (if Map_Get m key \<noteq> [] then [name_match m key] else translation_find ms key)"

definition TranslationProxy_FindString :: "Proxy \<Rightarrow> string \<Rightarrow> MatchData list" where
  "TranslationProxy_FindString c key = translation_find (p_data c) key"

definition TranslationProxy_FindAll :: "key_order \<Rightarrow> Proxy \<Rightarrow> MatchData list" where
  "TranslationProxy_FindAll ord c =
     concat (map (\<lambda>m. map (name_match m) (Map_keys ord m)) (p_data c))"

definition TranslationProxy_Data :: "key_order \<Rightarrow> Proxy \<Rightarrow> string list" where
  "TranslationProxy_Data ord c = concat (map (Map_keys ord) (p_data c))"

definition TranslationProxy_Get :: "Proxy \<Rightarrow> nat \<Rightarrow> string" where
  "TranslationProxy_Get c index =
     (if index < length (p_data c)
      then (case Map_Get (p_data c ! index) [] of v # _ \<Rightarrow> v | [] \<Rightarrow> [])
      else [])"

section \<open>The interface\<close>

text \<open>The dynamic types of a value of the Go interface \<open>collection.Collection\<close>.\<close>

datatype Collection =
    CMap Map
  | CSimple Simple
  | CProxy Proxy
  | CSizeProxy Proxy
  | CTranslationProxy Proxy

fun FindRegex :: "key_order \<Rightarrow> Collection \<Rightarrow> Regexp \<Rightarrow> MatchData list" where
  "FindRegex ord (CMap c) rx = Map_FindRegex ord c rx"
| "FindRegex ord (CSimple c) rx = Simple_FindRegex c rx"
| "FindRegex ord (CProxy c) rx = Proxy_FindRegex ord c rx"
| "FindRegex ord (CSizeProxy c) rx = SizeProxy_FindAll c"
| "FindRegex ord (CTranslationProxy c) rx = TranslationProxy_FindRegex ord c rx"

fun FindString :: "key_order \<Rightarrow> Collection \<Rightarrow> string \<Rightarrow> MatchData list" where
  "FindString ord (CMap c) key = Map_FindString ord c key"
| "FindString ord (CSimple c) key = Simple_FindString c key"
| "FindString ord (CProxy c) key = Proxy_FindString ord c key"
| "FindString ord (CSizeProxy c) key = SizeProxy_FindAll c"
| "FindString ord (CTranslationProxy c) key = TranslationProxy_FindString c key"

fun FindAll :: "key_order \<Rightarrow> Collection \<Rightarrow> MatchData list" where
  "FindAll ord (CMap c) = Map_FindAll ord c"
| "FindAll ord (CSimple c) = Simple_FindAll c"
| "FindAll ord (CProxy c) = Proxy_FindAll ord c"
| "FindAll ord (CSizeProxy c) = SizeProxy_FindAll c"
| "FindAll ord (CTranslationProxy c) = TranslationProxy_FindAll ord c"

section \<open>Well-formed maps\<close>

definition Map_wf :: "Map \<Rightarrow> bool" where
  "Map_wf c \<longleftrightarrow> distinct (map fst (m_data c))"

lemma Map_wf_New [inv_intros]: "Map_wf (NewMap v)"
  by (simp add: Map_wf_def NewMap_def)

lemma Map_wf_AddCS [inv_intros]: "Map_wf c \<Longrightarrow> Map_wf (Map_AddCS c k n v)"
  by (simp add: Map_wf_def Map_AddCS_def distinct_update)

lemma Map_wf_AddUniqueCS [inv_intros]: "Map_wf c \<Longrightarrow> Map_wf (Map_AddUniqueCS c k n v)"
  by (simp add: Map_AddUniqueCS_def Map_wf_AddCS split: option.splits)

lemma Map_wf_SetCS [inv_intros]: "Map_wf c \<Longrightarrow> Map_wf (Map_SetCS c k n vs)"
  by (simp add: Map_wf_def Map_SetCS_def distinct_update)

lemma Map_wf_SetIndexCS [inv_intros]: "Map_wf c \<Longrightarrow> Map_wf (Map_SetIndexCS c k i n v)"
  by (simp add: Map_wf_def Map_SetIndexCS_def Let_def distinct_update)

lemma Map_wf_Remove [inv_intros]: "Map_wf c \<Longrightarrow> Map_wf (Map_Remove c k)"
  by (simp add: Map_wf_def Map_Remove_def distinct_delete)

lemma Map_wf_Reset [inv_intros]: "Map_wf (Map_Reset c)"
  by (simp add: Map_wf_def Map_Reset_def)

lemma Map_tag [frame_simps]:
  "m_variable (Map_AddCS c k n v) = m_variable c" "m_name (Map_AddCS c k n v) = m_name c"
  "m_variable (Map_AddUniqueCS c k n v) = m_variable c" "m_name (Map_AddUniqueCS c k n v) = m_name c"
  "m_variable (Map_SetCS c k n vs) = m_variable c" "m_name (Map_SetCS c k n vs) = m_name c"
  "m_variable (Map_SetIndexCS c k i n v) = m_variable c" "m_name (Map_SetIndexCS c k i n v) = m_name c"
  "m_variable (Map_Remove c k) = m_variable c" "m_name (Map_Remove c k) = m_name c"
  "m_variable (Map_Reset c) = m_variable c" "m_name (Map_Reset c) = m_name c"
  by (simp_all add: Map_AddCS_def Map_AddUniqueCS_def Map_SetCS_def Map_SetIndexCS_def Let_def
      Map_Remove_def Map_Reset_def split: option.splits)

section \<open>The store interface\<close>

text \<open>
  What the transaction relies on when it stores headers, arguments and variables: a multimap
  from keys to lists of values, where adding appends at the end of the key's list.
\<close>

locale multimap =
  fixes add :: "'m \<Rightarrow> string \<Rightarrow> string \<Rightarrow> string \<Rightarrow> 'm"
    and set_values :: "'m \<Rightarrow> string \<Rightarrow> string \<Rightarrow> string list \<Rightarrow> 'm"
    and remove :: "'m \<Rightarrow> string \<Rightarrow> 'm"
    and reset :: "'m \<Rightarrow> 'm"
    and get :: "'m \<Rightarrow> string \<Rightarrow> string list"
    and invar :: "'m \<Rightarrow> bool"
  assumes get_add: "get (add m k n v) k' = (if k = k' then get m k @ [v] else get m k')"
    and get_set: "get (set_values m k n vs) k' = (if k = k' then vs else get m k')"
    and get_remove: "get (remove m k) k' = (if k = k' then [] else get m k')"
    and get_reset: "get (reset m) k' = []"
    and invar_add: "invar m \<Longrightarrow> invar (add m k n v)"
    and invar_set: "invar m \<Longrightarrow> invar (set_values m k n vs)"
    and invar_remove: "invar m \<Longrightarrow> invar (remove m k)"
    and invar_reset: "invar (reset m)"
begin

definition add_all :: "'m \<Rightarrow> (string \<times> string \<times> string) list \<Rightarrow> 'm" where
  "add_all m kvs = foldl (\<lambda>m (k, n, v). add m k n v) m kvs"

lemma get_add_all:
  "get (add_all m kvs) k = get m k @ map (\<lambda>(_, _, v). v) (filter (\<lambda>(k', _, _). k' = k) kvs)"
  by (induction kvs arbitrary: m) (auto simp: add_all_def get_add)

lemma invar_add_all: "invar m \<Longrightarrow> invar (add_all m kvs)"
  by (induction kvs arbitrary: m) (auto simp: add_all_def invar_add)

lemma set_then_remove: "get (remove (set_values m k n vs) k) k' = get (remove m k) k'"
  by (simp add: get_remove get_set)

end

interpretation map_store: multimap Map_AddCS Map_SetCS Map_Remove Map_Reset Map_Get Map_wf
proof
  show "Map_Get (Map_AddCS m k n v) k' = (if k = k' then Map_Get m k @ [v] else Map_Get m k')"
    for m k n v k' by (simp add: Map_Get_def Map_AddCS_def)
  show "Map_Get (Map_SetCS m k n vs) k' = (if k = k' then vs else Map_Get m k')"
    for m k n vs k' by (simp add: Map_Get_def Map_SetCS_def comp_def)
  show "Map_Get (Map_Remove m k) k' = (if k = k' then [] else Map_Get m k')"
    for m k k' by (simp add: Map_Get_def Map_Remove_def)
  show "Map_Get (Map_Reset m) k' = []" for m k' by (simp add: Map_Get_def Map_Reset_def)
qed (auto intro: inv_intros)

lemma Map_Get_SetIndex0:
  "Map_Get (Map_SetIndexCS c k 0 n v) k' =
     (if k = k' then v # tl (Map_Get c k) else Map_Get c k')"
proof -
  have "Map_SetIndexCS c k 0 n v = c\<lparr>m_data := AList.update k
      (\<lparr>av_Name = n, av_Value = v\<rparr> # tl (map_get (m_data c) k)) (m_data c)\<rparr>"
    by (auto simp: Map_SetIndexCS_def map_get_def Let_def neq_Nil_conv split: option.splits)
  then show ?thesis by (simp add: Map_Get_def map_tl)
qed

lemma Map_Get_New [simp]: "Map_Get (NewMap v) k = []"
  by (simp add: Map_Get_def NewMap_def)

section \<open>The search interface\<close>

text \<open>
  What the evaluation of a rule target relies on: whatever a key or a regular expression
  selects is part of the whole collection.
\<close>

locale searchable =
  fixes find_regex :: "key_order \<Rightarrow> 'c \<Rightarrow> Regexp \<Rightarrow> MatchData list"
    and find_string :: "key_order \<Rightarrow> 'c \<Rightarrow> string \<Rightarrow> MatchData list"
    and find_all :: "key_order \<Rightarrow> 'c \<Rightarrow> MatchData list"
  assumes string_sub: "range_order ord \<Longrightarrow> set (find_string ord c k) \<subseteq> set (find_all ord c)"
    and regex_sub: "range_order ord \<Longrightarrow> set (find_regex ord c rx) \<subseteq> set (find_all ord c)"
begin

definition select :: "key_order \<Rightarrow> 'c \<Rightarrow> Regexp option \<Rightarrow> string \<Rightarrow> MatchData list" where
  "select ord c rx key = (case rx of
       None \<Rightarrow> if key = [] then find_all ord c else find_string ord c key
     | Some r \<Rightarrow> find_regex ord c r)"

lemma select_sub: "range_order ord \<Longrightarrow> set (select ord c rx key) \<subseteq> set (find_all ord c)"
  using string_sub regex_sub by (simp add: select_def split: option.splits)

end

lemma map_of_SomeD_keys: "map_of m k = Some v \<Longrightarrow> k \<in> set (map fst m)"
  by (force dest: map_of_SomeD)

lemma Map_string_sub:
  assumes "range_order ord"
  shows "set (Map_FindString ord c k) \<subseteq> set (Map_FindAll ord c)"
proof (cases "k = [] \<or> map_of (m_data c) k = None")
  case True
  then show ?thesis by (auto simp: Map_FindString_def)
next
  case False
  then obtain vs where vs: "map_of (m_data c) k = Some vs" by auto
  then have "k \<in> set (ord (map fst (m_data c)))"
    using range_order_set [OF assms] map_of_SomeD_keys [OF vs] by blast
  moreover have "map_get (m_data c) k = vs" using vs by (simp add: map_get_def)
  ultimately have "anchored_match c ` set vs \<subseteq> set (Map_FindAll ord c)"
    using UN_upper [of k "set (ord (map fst (m_data c)))"
        "\<lambda>k. anchored_match c ` set (map_get (m_data c) k)"]
    by (simp add: Map_FindAll_def)
  with False vs show ?thesis by (simp add: Map_FindString_def)
qed

lemma Map_regex_sub: "set (Map_FindRegex ord c rx) \<subseteq> set (Map_FindAll ord c)"
  by (auto simp: Map_FindRegex_def Map_FindAll_def split: if_splits)

interpretation map_search: searchable Map_FindRegex Map_FindString Map_FindAll
  by unfold_locales (rule Map_string_sub, assumption, rule Map_regex_sub)

lemma translation_find_sub:
  assumes "range_order ord"
  shows "set (translation_find ms key) \<subseteq> (\<Union>m\<in>set ms. name_match m ` set (Map_keys ord m))"
proof (induction ms)
  case Nil
  then show ?case by simp
next
  case (Cons m ms)
  have "key \<in> set (Map_keys ord m)" if "Map_Get m key \<noteq> []"
  proof -
    from that obtain vs where "map_of (m_data m) key = Some vs"
      by (auto simp: Map_Get_def map_get_def split: option.splits)
    then show ?thesis
      unfolding Map_keys_def range_order_set [OF assms] by (rule map_of_SomeD_keys)
  qed
  with Cons show ?case by auto
qed

interpretation collection_search: searchable FindRegex FindString FindAll
proof
  fix ord :: key_order and c :: Collection and k :: string
  assume ord: "range_order ord"
  show "set (FindString ord c k) \<subseteq> set (FindAll ord c)"
  proof (cases c)
    case (CMap m)
    then show ?thesis using map_search.string_sub [OF ord] by simp
  next
    case (CProxy p)
    then show ?thesis using map_search.string_sub [OF ord]
      by (simp add: Proxy_FindString_def Proxy_FindAll_def UN_mono)
  next
    case (CTranslationProxy p)
    then show ?thesis using translation_find_sub [OF ord, of "p_data p" k]
      by (auto simp: TranslationProxy_FindString_def TranslationProxy_FindAll_def)
  qed (simp_all add: Simple_FindString_def)
next
  fix ord :: key_order and c :: Collection and rx :: Regexp
  show "set (FindRegex ord c rx) \<subseteq> set (FindAll ord c)"
  proof (cases c)
    case (CMap m)
    then show ?thesis using Map_regex_sub by simp
  next
    case (CProxy p)
    then show ?thesis using Map_regex_sub [of ord _ rx]
      by (simp add: Proxy_FindRegex_def Proxy_FindAll_def UN_mono)
  next
    case (CTranslationProxy p)
    then show ?thesis
      by (auto simp: TranslationProxy_FindRegex_def TranslationProxy_FindAll_def Map_keysRx_def
          Map_keys_def)
  qed (simp_all add: Simple_FindRegex_def)
qed

section \<open>What a search returns\<close>

lemma mset_concat_map: "mset xs = mset ys \<Longrightarrow> mset (concat (map f xs)) = mset (concat (map f ys))"
proof -
  have "mset (concat (map f zs)) = (\<Sum>x\<in>#mset zs. mset (f x))" for zs
    by (induction zs) auto
  then show "mset xs = mset ys \<Longrightarrow> mset (concat (map f xs)) = mset (concat (map f ys))" by simp
qed

lemma map_get_key: "distinct (map fst m) \<Longrightarrow> (k, v) \<in> set m \<Longrightarrow> map_get m k = v"
  by (simp add: map_get_def)

lemma sum_list_update_append:
  "distinct (map fst m) \<Longrightarrow>
     (\<Sum>(k, vs)\<leftarrow>AList.update k (map_get m k @ [a]) m. \<Sum>v\<leftarrow>vs. f v)
       = (\<Sum>(k, vs)\<leftarrow>m. \<Sum>v\<leftarrow>vs. f v) + (f a :: int)"
proof (induction m)
  case Nil
  then show ?case by simp
next
  case (Cons kv m)
  obtain k1 vs1 where kv: "kv = (k1, vs1)" by (cases kv)
  show ?case
  proof (cases "k1 = k")
    case True
    then show ?thesis by (simp add: kv map_get_def)
  next
    case False
    then have "map_get (kv # m) k = map_get m k" by (simp add: kv map_get_def)
    with False Cons show ?thesis by (simp add: kv)
  qed
qed

definition Map_size :: "Map \<Rightarrow> int" where
  "Map_size m = (\<Sum>(k, vs)\<leftarrow>m_data m. \<Sum>v\<leftarrow>vs. int (length (av_Value v)))"

lemma SizeProxy_Size_eq: "SizeProxy_Size c = (\<Sum>m\<leftarrow>p_data c. Map_size m)"
  by (simp add: SizeProxy_Size_def Map_size_def)

lemma Map_size_AddCS:
  "Map_wf m \<Longrightarrow> Map_size (Map_AddCS m k n v) = Map_size m + int (length v)"
  unfolding Map_size_def Map_AddCS_def Map_wf_def
  using sum_list_update_append [of "m_data m" "\<lambda>v. int (length (av_Value v))" k
      "\<lparr>av_Name = n, av_Value = v\<rparr>"]
  by simp

section \<open>Properties\<close>

text \<open>
  Whatever order the runtime picks for ranging over the Go map, \<open>FindAll\<close> returns each
  stored value exactly once, tagged with the collection's name and variable and with the
  original spelling of its key.
\<close>

theorem Map_FindAll_complete:
  assumes "range_order ord" "Map_wf c"
  shows "mset (Map_FindAll ord c) = mset (concat (map (\<lambda>(k, vs). map (anchored_match c) vs) (m_data c)))"
proof -
  have "mset (Map_FindAll ord c)
      = mset (concat (map (\<lambda>k. map (anchored_match c) (map_get (m_data c) k)) (map fst (m_data c))))"
    unfolding Map_FindAll_def
    by (rule mset_concat_map) (use assms(1) in \<open>simp add: range_order_def\<close>)
  also have "map (\<lambda>k. map (anchored_match c) (map_get (m_data c) k)) (map fst (m_data c))
      = map (\<lambda>(k, vs). map (anchored_match c) vs) (m_data c)"
    using assms(2) by (auto simp: Map_wf_def map_get_key)
  finally show ?thesis .
qed

theorem Map_FindAll_complete_witness:
  "mset (Map_FindAll rev (Map_AddCS (Map_AddCS (NewMap 0) ''a'' ''A'' ''1'') ''b'' ''B'' ''2''))
     = mset [anchored_match (NewMap 0) \<lparr>av_Name = ''A'', av_Value = ''1''\<rparr>,
             anchored_match (NewMap 0) \<lparr>av_Name = ''B'', av_Value = ''2''\<rparr>]"
proof -
  let ?c = "Map_AddCS (Map_AddCS (NewMap 0) ''a'' ''A'' ''1'') ''b'' ''B'' ''2''"
  have "range_order rev" by (simp add: range_order_def)
  moreover have "Map_wf ?c" by (intro inv_intros)
  ultimately show ?thesis using Map_FindAll_complete [of rev ?c]
    by (simp add: Map_AddCS_def NewMap_def map_get_def anchored_match_def)
qed

text \<open>
  A search by a non-empty key after \<open>AddCS\<close> returns what it returned before, with the
  added value at the end when the keys are equal.
\<close>

theorem Map_FindString_AddCS:
  assumes "k \<noteq> []"
  shows "Map_FindString ord (Map_AddCS c k n v) k' =
     (if k' = k then Map_FindString ord c k @ [anchored_match c \<lparr>av_Name = n, av_Value = v\<rparr>]
      else if k' = [] then Map_FindAll ord (Map_AddCS c k n v)
      else Map_FindString ord c k')"
  using assms
  by (auto simp: Map_FindString_def Map_AddCS_def update_conv map_get_def anchored_match_def
      split: option.splits)

theorem Map_FindString_AddCS_witness:
  "Map_FindString (\<lambda>ks. ks) (Map_AddCS (NewMap 0) ''a'' ''A'' ''1'') ''a''
     = [anchored_match (NewMap 0) \<lparr>av_Name = ''A'', av_Value = ''1''\<rparr>]"
proof -
  have "Map_FindString (\<lambda>ks. ks) (NewMap 0) ''a'' = []"
    by (simp add: Map_FindString_def NewMap_def)
  then show ?thesis
    using Map_FindString_AddCS [of "''a''" "\<lambda>ks. ks" "NewMap 0" "''A''" "''1''" "''a''"] by simp
qed

end
