(* ===== verification/Tx_Variables.thy ===== *)
theory Tx_Variables
  imports Collection
begin

text \<open>
  The variables of a transaction: \<open>TransactionVariables\<close>, its constructor and reset,
  and \<open>Transaction.Collection\<close> (src/internal/corazawaf/transaction.go).

  The Go struct has one pointer field per variable, and each collection carries the tag of its
  variable. The model keeps the collections in two functions from tags, \<open>tv_simple\<close> for
  the \<open>Simple\<close> fields and \<open>tv_map\<close> for the \<open>Map\<close> fields; the field
  \<open>remoteAddr\<close> is \<open>tv_simple tv RemoteAddr\<close>. The proxies hold pointers to the
  argument maps, so they are computed from them. The field \<open>xml\<close> is the pointer
  \<open>requestXML\<close>. The entries at tags that have no field are never read.
\<close>

record TransactionVariables =
  tv_simple :: "RuleVariable \<Rightarrow> Simple"
  tv_map :: "RuleVariable \<Rightarrow> Map"

definition simple_variables :: "RuleVariable list" where
  "simple_variables = [
    ResponseContentType, UniqueID, AuthType, FilesCombinedSize, FullRequest, FullRequestLength,
    InboundDataError, MatchedVar, MatchedVarName, MultipartBoundaryQuoted,
    MultipartBoundaryWhitespace, MultipartCrlfLfLines, MultipartDataAfter, MultipartDataBefore,
    MultipartFileLimitExceeded, MultipartHeaderFolding, MultipartInvalidHeaderFolding,
    MultipartInvalidPart, MultipartInvalidQuoting, MultipartLfLine, MultipartMissingSemicolon,
    MultipartStrictError, MultipartUnmatchedBoundary, OutboundDataError, PathInfo, QueryString,
    RemoteAddr, RemoteHost, RemotePort, ReqbodyError, ReqbodyErrorMsg, ReqbodyProcessorError,
    ReqbodyProcessorErrorMsg, ReqbodyProcessor, RequestBasename, RequestBody,
    RequestBodyLength, RequestFilename, RequestLine, RequestMethod, RequestProtocol,
    RequestURI, RequestURIRaw, ResponseBody, ResponseContentLength, ResponseProtocol,
    ResponseStatus, ServerAddr, ServerName, ServerPort, Sessionid, HighestSeverity, StatusLine,
    InboundErrorData, Duration, Userid, UrlencodedError]"

definition map_variables :: "RuleVariable list" where
  "map_variables = [
    ResponseHeadersNames, RequestHeadersNames, ArgsGet, ArgsPost, ArgsPath, FilesSizes,
    FilesNames, FilesTmpContent, MultipartFilename, MultipartName, MatchedVarsNames,
    MatchedVars, Files, RequestCookies, RequestHeaders, ResponseHeaders, Geo,
    RequestCookiesNames, FilesTmpNames, TX, Rule, Env, IP, ResponseXML, RequestXML,
    MultipartPartHeaders]"

definition NewTransactionVariables :: TransactionVariables where
  "NewTransactionVariables = \<lparr>tv_simple = NewSimple, tv_map = NewMap\<rparr>"

definition tv_reset :: "TransactionVariables \<Rightarrow> TransactionVariables" where
  "tv_reset tv = tv\<lparr>tv_simple := (\<lambda>v. Simple_Reset (tv_simple tv v)),
     tv_map := (\<lambda>v. Map_Reset (tv_map tv v))\<rparr>"

definition get_simple :: "TransactionVariables \<Rightarrow> RuleVariable \<Rightarrow> string" where
  "get_simple tv v = s_data (tv_simple tv v)"

definition set_simple :: "RuleVariable \<Rightarrow> string \<Rightarrow> TransactionVariables \<Rightarrow> TransactionVariables" where
  "set_simple v x tv = tv\<lparr>tv_simple := (tv_simple tv)(v := Simple_Set (tv_simple tv v) x)\<rparr>"

definition upd_map :: "RuleVariable \<Rightarrow> (Map \<Rightarrow> Map) \<Rightarrow> TransactionVariables \<Rightarrow> TransactionVariables" where
  "upd_map v f tv = tv\<lparr>tv_map := (tv_map tv)(v := f (tv_map tv v))\<rparr>"

definition argsCombinedSize :: "TransactionVariables \<Rightarrow> Proxy" where
  "argsCombinedSize tv = NewProxy ArgsCombinedSize [tv_map tv ArgsGet, tv_map tv ArgsPost]"

definition args_proxy :: "TransactionVariables \<Rightarrow> Proxy" where
  "args_proxy tv = NewProxy Args [tv_map tv ArgsGet, tv_map tv ArgsPost, tv_map tv ArgsPath]"

definition argsNames_proxy :: "TransactionVariables \<Rightarrow> Proxy" where
  "argsNames_proxy tv = NewProxy ArgsNames [tv_map tv ArgsGet, tv_map tv ArgsPost, tv_map tv ArgsPath]"

text \<open>\<open>Transaction.Collection\<close>; \<^const>\<open>None\<close> is the nil interface.\<close>

definition tx_Collection :: "TransactionVariables \<Rightarrow> RuleVariable \<Rightarrow> Collection option" where
  "tx_Collection tv idx =
     (if idx \<in> set simple_variables then Some (CSimple (tv_simple tv idx))
      else if idx \<in> set map_variables then Some (CMap (tv_map tv idx))
      else if idx = ArgsCombinedSize then Some (CSizeProxy (argsCombinedSize tv))
      else if idx = Args then Some (CProxy (args_proxy tv))
      else if idx = ArgsNames then Some (CTranslationProxy (argsNames_proxy tv))
      else if idx = ArgsGetNames then
        Some (CTranslationProxy (NewProxy ArgsGetNames [tv_map tv ArgsGet]))
      else if idx = ArgsPostNames then
        Some (CTranslationProxy (NewProxy ArgsPostNames [tv_map tv ArgsPost]))
      else if idx = XML then Some (CMap (tv_map tv RequestXML))
      else None)"

section \<open>Invariant: tags and distinct keys\<close>

definition tv_wf :: "TransactionVariables \<Rightarrow> bool" where
  "tv_wf tv \<longleftrightarrow>
     (\<forall>v. s_name (tv_simple tv v) = variable_Name v \<and> s_variable (tv_simple tv v) = v) \<and>
     (\<forall>v. m_name (tv_map tv v) = variable_Name v \<and> m_variable (tv_map tv v) = v \<and>
        Map_wf (tv_map tv v))"

lemma tv_wf_New [inv_intros]: "tv_wf NewTransactionVariables"
  by (simp add: tv_wf_def NewTransactionVariables_def NewSimple_def Map_wf_New)
    (simp add: NewMap_def)

lemma tv_wf_set_simple [inv_intros]: "tv_wf tv \<Longrightarrow> tv_wf (set_simple v x tv)"
  by (simp add: tv_wf_def set_simple_def Simple_Set_def)

lemma tv_wf_upd_map [inv_intros]:
  assumes "tv_wf tv"
    and "\<And>m. Map_wf m \<Longrightarrow> Map_wf (f m) \<and> m_name (f m) = m_name m \<and> m_variable (f m) = m_variable m"
  shows "tv_wf (upd_map v f tv)"
  using assms by (simp add: tv_wf_def upd_map_def)

lemma tv_wf_AddCS [inv_intros]: "tv_wf tv \<Longrightarrow> tv_wf (upd_map v (\<lambda>m. Map_AddCS m k n x) tv)"
  by (rule tv_wf_upd_map) (auto simp: frame_simps intro: inv_intros)

lemma tv_wf_AddUniqueCS [inv_intros]: "tv_wf tv \<Longrightarrow> tv_wf (upd_map v (\<lambda>m. Map_AddUniqueCS m k n x) tv)"
  by (rule tv_wf_upd_map) (auto simp: frame_simps intro: inv_intros)

lemma tv_wf_Set [inv_intros]: "tv_wf tv \<Longrightarrow> tv_wf (upd_map v (\<lambda>m. Map_Set m k xs) tv)"
  by (rule tv_wf_upd_map) (auto simp: frame_simps Map_Set_def intro: inv_intros)

lemma tv_wf_SetIndex [inv_intros]: "tv_wf tv \<Longrightarrow> tv_wf (upd_map v (\<lambda>m. Map_SetIndex m k i x) tv)"
  by (rule tv_wf_upd_map) (auto simp: frame_simps Map_SetIndex_def intro: inv_intros)

lemma tv_wf_Remove [inv_intros]: "tv_wf tv \<Longrightarrow> tv_wf (upd_map v (\<lambda>m. Map_Remove m k) tv)"
  by (rule tv_wf_upd_map) (auto simp: frame_simps intro: inv_intros)

lemma tv_wf_Reset [inv_intros]: "tv_wf tv \<Longrightarrow> tv_wf (upd_map v Map_Reset tv)"
  by (rule tv_wf_upd_map) (auto simp: frame_simps intro: inv_intros)

section \<open>Lemmas\<close>

lemma get_set_simple [simp]:
  "get_simple (set_simple v x tv) w = (if w = v then x else get_simple tv w)"
  by (simp add: get_simple_def set_simple_def Simple_Set_def)

lemma tv_map_set_simple [simp]: "tv_map (set_simple v x tv) = tv_map tv"
  by (simp add: set_simple_def)

lemma tv_simple_upd_map [simp]: "tv_simple (upd_map v f tv) = tv_simple tv"
  by (simp add: upd_map_def)

lemma get_simple_upd_map [simp]: "get_simple (upd_map v f tv) w = get_simple tv w"
  by (simp add: get_simple_def)

lemma tv_map_upd_map [simp]:
  "tv_map (upd_map v f tv) w = (if w = v then f (tv_map tv w) else tv_map tv w)"
  by (simp add: upd_map_def)

text \<open>Resetting well-tagged variables gives the variables of a new transaction.\<close>

lemma tv_reset_New:
  assumes "tv_wf tv"
  shows "tv_reset tv = NewTransactionVariables"
proof -
  have "Simple_Reset (tv_simple tv v) = NewSimple v" for v
    using assms by (simp add: tv_wf_def Simple_Reset_def NewSimple_def)
  moreover have "Map_Reset (tv_map tv v) = NewMap v" for v
    using assms by (simp add: tv_wf_def Map_Reset_def NewMap_def)
  ultimately show ?thesis by (simp add: tv_reset_def NewTransactionVariables_def)
qed

text \<open>Every variable but \<open>UNKNOWN\<close>, \<open>JSON\<close> and \<open>RESPONSE_ARGS\<close> has a collection.\<close>

lemma collection_defined: "\<forall>v\<in>set (remove1 0 [0..<92]). v \<notin> {JSON, ResponseArgs} \<longrightarrow>
    v \<in> set simple_variables \<union> set map_variables \<union>
      {ArgsCombinedSize, Args, ArgsNames, ArgsGetNames, ArgsPostNames, XML}"
  by code_simp

lemma tx_Collection_None:
  assumes "v < 92"
  shows "tx_Collection tv v = None \<longleftrightarrow> v \<in> {Unknown, JSON, ResponseArgs}"
proof
  assume "tx_Collection tv v = None"
  then show "v \<in> {Unknown, JSON, ResponseArgs}"
    using collection_defined assms by (auto simp: tx_Collection_def split: if_splits)
next
  assume "v \<in> {Unknown, JSON, ResponseArgs}"
  then show "tx_Collection tv v = None"
    by (auto simp: tx_Collection_def simple_variables_def map_variables_def)
qed

lemma tx_Collection_TX [simp]: "tx_Collection tv TX = Some (CMap (tv_map tv TX))"
  by (simp add: tx_Collection_def simple_variables_def map_variables_def)

lemma tx_Collection_simple:
  "v \<in> set simple_variables \<Longrightarrow> tx_Collection tv v = Some (CSimple (tv_simple tv v))"
  by (simp add: tx_Collection_def)

end
