(* ===== verification/Macro.thy ===== *)
theory Macro
  imports Tx_Variables
begin

text \<open>
  The package \<^verbatim>\<open>macro\<close> (src/macro/macro.go): the compiler from text with
  \<^verbatim>\<open>%{VAR.key}\<close> references to tokens, and the expansion of the tokens against the
  variables of a transaction. The loop of the compiler walks over the suffix of the input that
  is still to be read. A \<^verbatim>\<open>%\<close> as the last byte makes the code index past the
  end of its input, which is a panic (\<^const>\<open>None\<close>); an unknown variable is an error
  (\<^const>\<open>Inl\<close>).
\<close>

section \<open>Tokens and expansion\<close>

record macroToken =
  mt_text :: string
  mt_variable :: "RuleVariable option"
  mt_key :: string

record macro =
  mc_original :: string
  mc_tokens :: "macroToken list"

definition first_or :: "string list \<Rightarrow> string \<Rightarrow> string" where
  "first_or c text = (case c of v # _ \<Rightarrow> v | [] \<Rightarrow> text)"

definition expandToken :: "TransactionVariables \<Rightarrow> macroToken \<Rightarrow> string" where
  "expandToken tv token =
     (case mt_variable token of
        None \<Rightarrow> mt_text token
      | Some v \<Rightarrow>
          (case tx_Collection tv v of
             Some (CMap col) \<Rightarrow> first_or (Map_Get col (mt_key token)) (mt_text token)
           | Some (CSimple col) \<Rightarrow> s_data col
           | Some (CProxy col) \<Rightarrow> first_or (Proxy_Get col (mt_key token)) (mt_text token)
           | Some (CTranslationProxy col) \<Rightarrow>
               (let c = TranslationProxy_Get col 0 in if c \<noteq> [] then c else mt_text token)
           | _ \<Rightarrow> mt_text token))"

definition Expand :: "TransactionVariables \<Rightarrow> macro \<Rightarrow> string" where
  "Expand tv m =
     (case mc_tokens m of
        [token] \<Rightarrow> expandToken tv token
      | tokens \<Rightarrow> concat (map (expandToken tv) tokens))"

section \<open>Compilation\<close>

definition text_token :: "string \<Rightarrow> macroToken" where
  "text_token t = \<lparr>mt_text = t, mt_variable = None, mt_key = []\<rparr>"

definition flush_text :: "string \<Rightarrow> macroToken list" where
  "flush_text currentToken = (if currentToken \<noteq> [] then [text_token currentToken] else [])"

definition close_macro :: "string \<Rightarrow> string + macroToken" where
  "close_macro currentToken =
     (let (varName, key, _) = Cut currentToken (CHR ''.'') in
      case variables_Parse varName of
        Inl _ \<Rightarrow> Inl (''invalid variable '' @ varName)
      | Inr v \<Rightarrow> Inr \<lparr>mt_text = currentToken, mt_variable = Some v, mt_key = ToLower key\<rparr>)"

fun compile_loop :: "bool \<Rightarrow> string \<Rightarrow> macroToken list \<Rightarrow> string \<Rightarrow>
    (string + macroToken list) go" where
  "compile_loop ismacro currentToken tokens [] = Some (Inr (tokens @ flush_text currentToken))"
| "compile_loop ismacro currentToken tokens [c] =
     (if c = CHR ''%'' then None
      else if ismacro \<and> c = CHR ''}'' then
        (case close_macro currentToken of
           Inl err \<Rightarrow> Some (Inl err)
         | Inr token \<Rightarrow> Some (Inr (tokens @ [token])))
      else Some (Inr (tokens @ flush_text (currentToken @ [c]))))"
| "compile_loop ismacro currentToken tokens (c # d # rest) =
     (if c = CHR ''%'' \<and> d = CHR ''{'' then
        compile_loop True [] (tokens @ flush_text currentToken) rest
      else if ismacro \<and> c = CHR ''}'' then
        (case close_macro currentToken of
           Inl err \<Rightarrow> Some (Inl err)
         | Inr token \<Rightarrow> compile_loop False [] (tokens @ [token]) (d # rest))
      else compile_loop ismacro (currentToken @ [c]) tokens (d # rest))"

definition NewMacro :: "string \<Rightarrow> (string + macro) go" where
  "NewMacro data =
     (case compile_loop False [] [] data of
        None \<Rightarrow> None
      | Some (Inl err) \<Rightarrow> Some (Inl err)
      | Some (Inr tokens) \<Rightarrow> Some (Inr \<lparr>mc_original = data, mc_tokens = tokens\<rparr>))"

definition macro_String :: "macro \<Rightarrow> string" where
  "macro_String m = mc_original m"

definition IsExpandable :: "macro \<Rightarrow> bool" where
  "IsExpandable m \<longleftrightarrow> length (mc_tokens m) > 1"

section \<open>Lemmas\<close>

lemma Expand_concat: "Expand tv m = concat (map (expandToken tv) (mc_tokens m))"
  by (simp add: Expand_def split: list.splits)

lemma expand_flush_text [simp]: "concat (map (expandToken tv) (flush_text t)) = t"
  by (simp add: flush_text_def text_token_def expandToken_def)

lemma compile_loop_panic:
  "compile_loop b cur toks s = None \<Longrightarrow> s \<noteq> [] \<and> last s = CHR ''%''"
  by (induction b cur toks s rule: compile_loop.induct) (auto split: if_splits sum.splits)

lemma compile_loop_last_percent:
  "s \<noteq> [] \<Longrightarrow> last s = CHR ''%'' \<Longrightarrow> \<nexists>toks'. compile_loop b cur toks s = Some (Inr toks')"
  by (induction b cur toks s rule: compile_loop.induct) (auto split: if_splits sum.splits)

text \<open>Reading a literal that holds no \<^verbatim>\<open>%\<close> outside a reference appends it to the pending text.\<close>

lemma compile_loop_literal:
  "CHR ''%'' \<notin> set u \<Longrightarrow> compile_loop False cur toks (u @ s) = compile_loop False (cur @ u) toks s"
proof (induction u arbitrary: cur)
  case Nil
  then show ?case by simp
next
  case (Cons c u)
  then show ?case by (cases "u @ s") (auto dest: sym)
qed

lemma compile_loop_reference:
  "CHR ''%'' \<notin> set u \<Longrightarrow> CHR ''}'' \<notin> set u \<Longrightarrow>
     compile_loop True cur toks (u @ CHR ''}'' # s) = compile_loop True (cur @ u) toks (CHR ''}'' # s)"
proof (induction u arbitrary: cur)
  case Nil
  then show ?case by simp
next
  case (Cons c u)
  then show ?case by (cases "u @ CHR ''}'' # s") auto
qed

lemma compile_loop_close:
  assumes "close_macro cur = Inr token"
  shows "compile_loop True cur toks (CHR ''}'' # s) = compile_loop False [] (toks @ [token]) s"
  using assms by (cases s) (simp_all add: flush_text_def)

section \<open>Macro texts and their meaning\<close>

text \<open>
  The texts a rule author writes: literals, and references to a variable, with a key behind a dot or
  without one. \<open>render\<close> prints them.
\<close>

datatype segment = Literal string | Reference string "string option"

fun inner_text :: "string \<Rightarrow> string option \<Rightarrow> string" where
  "inner_text name None = name"
| "inner_text name (Some key) = name @ ''.'' @ key"

fun render :: "segment \<Rightarrow> string" where
  "render (Literal t) = t"
| "render (Reference name key) = ''%{'' @ inner_text name key @ ''}''"

fun segment_ok :: "segment \<Rightarrow> bool" where
  "segment_ok (Literal t) \<longleftrightarrow> CHR ''%'' \<notin> set t"
| "segment_ok (Reference name key) \<longleftrightarrow>
     (\<exists>v. variables_Parse name = Inr v \<and> v \<in> set (simple_variables @ map_variables @ [Args])) \<and>
     CHR ''%'' \<notin> set (inner_text name key) \<and> CHR ''}'' \<notin> set (inner_text name key) \<and> CHR ''.'' \<notin> set name"

text \<open>
  What a reference stands for, in terms of the state of the variables. A variable with one value
  stands for that value, whatever the key. Of a collection it is the first value under the key in
  lower case, where ARGS are the arguments of the query, then of the body, then of the path. When there
  is none, it is the text between the braces.
\<close>

definition stored_values :: "TransactionVariables \<Rightarrow> RuleVariable \<Rightarrow> string \<Rightarrow> string list" where
  "stored_values tv v key =
     (if v \<in> set simple_variables then [s_data (tv_simple tv v)]
      else if v = Args then concat (map (\<lambda>m. Map_Get (tv_map tv m) key) [ArgsGet, ArgsPost, ArgsPath])
      else Map_Get (tv_map tv v) key)"

fun segment_value :: "TransactionVariables \<Rightarrow> segment \<Rightarrow> string" where
  "segment_value tv (Literal t) = t"
| "segment_value tv (Reference name key) =
     (let vs = stored_values tv (projr (variables_Parse name)) (ToLower (case key of None \<Rightarrow> [] | Some k \<Rightarrow> k))
      in if vs = [] then inner_text name key else hd vs)"

lemma close_macro_reference:
  assumes "variables_Parse name = Inr v" "CHR ''.'' \<notin> set name"
  shows "close_macro (inner_text name key)
    = Inr \<lparr>mt_text = inner_text name key, mt_variable = Some v, mt_key = ToLower (case key of None \<Rightarrow> [] | Some k \<Rightarrow> k)\<rparr>"
  using assms by (cases key) (simp_all add: close_macro_def Cut_found Cut_not_found)

lemma first_or_hd: "first_or vs text = (if vs = [] then text else hd vs)"
  by (cases vs) (simp_all add: first_or_def)

lemma args_not_stored: "Args \<notin> set simple_variables" "Args \<notin> set map_variables"
  by (simp_all add: simple_variables_def map_variables_def)

lemma simple_not_map: "v \<in> set map_variables \<Longrightarrow> v \<notin> set simple_variables"
proof -
  have "list_all (\<lambda>v. v \<notin> set simple_variables) map_variables" by code_simp
  then show "v \<in> set map_variables \<Longrightarrow> v \<notin> set simple_variables" by (simp add: list_all_iff)
qed

lemma expandToken_stored:
  assumes "v \<in> set (simple_variables @ map_variables @ [Args])"
  shows "expandToken tv \<lparr>mt_text = text, mt_variable = Some v, mt_key = key\<rparr> =
    (let vs = stored_values tv v key in if vs = [] then text else hd vs)"
proof -
  consider "v \<in> set simple_variables" | "v \<in> set map_variables" "v \<notin> set simple_variables" "v \<noteq> Args" | "v = Args"
    using assms simple_not_map args_not_stored by fastforce
  then show ?thesis
  proof cases
    case 3
    with args_not_stored show ?thesis
      by (simp add: expandToken_def tx_Collection_def stored_values_def first_or_hd args_proxy_def NewProxy_def Proxy_Get_def)
  qed (simp_all add: expandToken_def tx_Collection_def stored_values_def first_or_hd)
qed

lemma compile_loop_segments:
  assumes "\<forall>x\<in>set segs. segment_ok x"
  shows "\<exists>toks'. compile_loop False cur toks (concat (map render segs)) = Some (Inr toks') \<and>
    concat (map (expandToken tv) toks')
      = concat (map (expandToken tv) toks) @ cur @ concat (map (segment_value tv) segs)"
  using assms
proof (induction segs arbitrary: cur toks)
  case Nil
  then show ?case by simp
next
  case (Cons x segs)
  show ?case
  proof (cases x)
    case (Literal t)
    with Cons.IH [of "cur @ t" toks] Cons.prems show ?thesis by (simp add: compile_loop_literal)
  next
    case (Reference name key)
    with Cons.prems obtain v where v: "variables_Parse name = Inr v" "v \<in> set (simple_variables @ map_variables @ [Args])"
      and ok: "CHR ''%'' \<notin> set (inner_text name key)" "CHR ''}'' \<notin> set (inner_text name key)" "CHR ''.'' \<notin> set name"
      by auto
    let ?tok = "\<lparr>mt_text = inner_text name key, mt_variable = Some v, mt_key = ToLower (case key of None \<Rightarrow> [] | Some k \<Rightarrow> k)\<rparr>"
    have "compile_loop False cur toks (concat (map render (x # segs)))
        = compile_loop True [] (toks @ flush_text cur) (inner_text name key @ CHR ''}'' # concat (map render segs))"
      by (simp add: Reference)
    also have "\<dots> = compile_loop False [] (toks @ flush_text cur @ [?tok]) (concat (map render segs))"
      unfolding compile_loop_reference [OF ok(1,2)]
      by (simp add: compile_loop_close [OF close_macro_reference [OF v(1) ok(3)], simplified])
    finally show ?thesis
      using Cons.IH [of "[]" "toks @ flush_text cur @ [?tok]"] Cons.prems
      by (simp add: Reference v(1) expandToken_stored [OF v(2)])
  qed
qed

section \<open>Properties\<close>

text \<open>
  C35. A text made of literals (without percent signs) and of references, with or without a key, to
  ARGS or to known variables that have a value or a collection of their own, compiles, and its
  expansion leaves the literals alone and replaces each reference by the value that the variable holds:
  its value, or the first value under the lower-case key. A reference to a key that has no value
  is replaced by its text without the percent sign and the braces.
\<close>

theorem NewMacro_Expand:
  assumes "\<forall>x\<in>set segs. segment_ok x"
  shows "\<exists>m. NewMacro (concat (map render segs)) = Some (Inr m) \<and>
    Expand tv m = concat (map (segment_value tv) segs)"
  using compile_loop_segments [OF assms, of "[]" "[]" tv]
  by (auto simp: NewMacro_def Expand_concat)

lemma Parse_tx: "variables_Parse ''tx'' = Inr TX"
  by (rule variables_Parse_name)
    (simp_all add: variable_Name_def rulemap_def ToUpper_def is_ascii_def upper_ascii_def in_range_def
      char_of_def bit_Suc_0_iff)

theorem NewMacro_Expand_witness:
  "\<exists>m. NewMacro ''score %{tx.a} of'' = Some (Inr m) \<and>
    Expand (upd_map TX (\<lambda>m. Map_AddCS m ''a'' ''a'' ''5'') NewTransactionVariables) m = ''score 5 of''"
proof -
  let ?tv = "upd_map TX (\<lambda>m. Map_AddCS m ''a'' ''a'' ''5'') NewTransactionVariables"
  let ?segs = "[Literal ''score '', Reference ''tx'' (Some ''a''), Literal '' of'']"
  have "\<forall>x\<in>set ?segs. segment_ok x" by (simp add: Parse_tx map_variables_def)
  from NewMacro_Expand [OF this, of ?tv] show ?thesis
    by (simp add: Parse_tx stored_values_def simple_variables_def Map_Get_def Map_AddCS_def NewTransactionVariables_def
        NewMap_def map_get_def ToLower_def is_ascii_def lower_ascii_def in_range_def)
qed

text \<open>
  Compilation panics only on a text whose last byte is a percent sign, and it does panic on
  a text whose only percent sign is its last byte: the bound check before \<open>input[i+1]\<close>
  compares \<open>i\<close> with \<open>len(input)\<close> and is always true.
\<close>

theorem NewMacro_panics:
  "(NewMacro s = None \<longrightarrow> s \<noteq> [] \<and> last s = CHR ''%'') \<and>
   (CHR ''%'' \<notin> set t \<longrightarrow> NewMacro (t @ ''%'') = None)"
proof
  show "NewMacro s = None \<longrightarrow> s \<noteq> [] \<and> last s = CHR ''%''"
    using compile_loop_panic [of False "[]" "[]" s] by (auto simp: NewMacro_def split: option.splits sum.splits)
  show "CHR ''%'' \<notin> set t \<longrightarrow> NewMacro (t @ ''%'') = None"
    using compile_loop_literal [of t "[]" "[]" "''%''"] by (simp add: NewMacro_def)
qed

theorem NewMacro_panics_witness: "NewMacro ''100%'' = None \<and> last ''100%'' = CHR ''%''"
  using NewMacro_panics [of "''100%''" "''100''"] by simp

end
