(* ===== verification/Body_Buffer.thy ===== *)
theory Body_Buffer
  imports Types
begin

text \<open>
  The body buffer (src/internal/corazawaf/body_buffer.go): bytes are kept in memory up to
  \<open>MemoryLimit\<close>, then everything moves to a temporary file. Builds for TinyGo
  (\<open>environment.IsTinyGo\<close>) have no files and cut the body at the limit instead.

  The calls of the package \<^verbatim>\<open>os\<close> that can fail are the parameter \<open>OS\<close>:
  \<open>CreateTemp_err\<close>, \<open>Close_err\<close>, \<open>Remove_err\<close> are their errors and
  \<open>File_Write\<close> says how many bytes a write to the file takes, and its error. An open
  temporary file is its contents and its offset. A \<^verbatim>\<open>bytes.Buffer\<close> is its
  unread part.
\<close>

section \<open>State\<close>

record OS =
  CreateTemp_err :: "string option"
  File_Write :: "string \<Rightarrow> nat \<times> string option"
  Close_err :: "string option"
  Remove_err :: "string option"

definition os_ok :: OS where
  "os_ok = \<lparr>CreateTemp_err = None, File_Write = (\<lambda>d. (length d, None)),
     Close_err = None, Remove_err = None\<rparr>"

record TempFile =
  tf_contents :: string
  tf_offset :: nat

record BodyBuffer =
  bb_options :: BodyBufferOptions
  bb_buffer :: string
  bb_writer :: "TempFile option"
  bb_length :: int

definition NewBodyBuffer :: "BodyBufferOptions \<Rightarrow> BodyBuffer" where
  "NewBodyBuffer options =
     \<lparr>bb_options = options, bb_buffer = [], bb_writer = None, bb_length = 0\<rparr>"

definition Size :: "BodyBuffer \<Rightarrow> int" where
  "Size br = bb_length br"

section \<open>Operations\<close>

text \<open>Writing to the open file at its offset, which is at the end in every use.\<close>

definition file_write :: "OS \<Rightarrow> string \<Rightarrow> TempFile \<Rightarrow> nat \<times> string option \<times> TempFile" where
  "file_write os d f =
     (let (n, err) = File_Write os d; w = take n d; o' = tf_offset f in
      (n, err, \<lparr>tf_contents = take o' (tf_contents f) @ w @ drop (o' + length w) (tf_contents f),
                tf_offset = o' + length w\<rparr>))"

text \<open>The branch that opens the temporary file and dumps the buffer into it.\<close>

definition spill :: "OS \<Rightarrow> BodyBuffer \<Rightarrow> string option \<times> BodyBuffer" where
  "spill os br =
     (case bb_writer br of
        Some _ \<Rightarrow> (None, br)
      | None \<Rightarrow>
          (case CreateTemp_err os of
             Some err \<Rightarrow> (Some err, br)
           | None \<Rightarrow>
               (let (_, err, f) = file_write os (bb_buffer br) \<lparr>tf_contents = [], tf_offset = 0\<rparr> in
                case err of
                  Some e \<Rightarrow> (Some e, br\<lparr>bb_writer := Some f\<rparr>)
                | None \<Rightarrow> (None, br\<lparr>bb_writer := Some f, bb_buffer := []\<rparr>))))"

text \<open>\<open>BodyBuffer.Write\<close>: the count, the error and the new buffer.\<close>

definition Write :: "bool \<Rightarrow> OS \<Rightarrow> string \<Rightarrow> BodyBuffer \<Rightarrow> (int \<times> string option \<times> BodyBuffer) go" where
  "Write isTinyGo os data br =
     (if data = [] then Some (0, None, br)
      else
        let l = int (length data) + bb_length br in
        if l > MemoryLimit (bb_options br) then
          if isTinyGo then
            let maxWritingDataLen = MemoryLimit (bb_options br) - bb_length br in
            if maxWritingDataLen = 0 then Some (0, None, br)
            else if maxWritingDataLen < 0 then None
            else Some (maxWritingDataLen, None,
              br\<lparr>bb_length := MemoryLimit (bb_options br),
                 bb_buffer := bb_buffer br @ take (nat maxWritingDataLen) data\<rparr>)
          else
            (case spill os br of
               (Some err, br') \<Rightarrow> Some (0, Some err, br')
             | (None, br') \<Rightarrow>
                 (case bb_writer br' of
                    None \<Rightarrow> None
                  | Some f \<Rightarrow>
                      let (n, err, f') = file_write os data f in
                      Some (int n, err, br'\<lparr>bb_length := l, bb_writer := Some f'\<rparr>)))
        else Some (int (length data), None,
          br\<lparr>bb_length := l, bb_buffer := bb_buffer br @ data\<rparr>))"

text \<open>
  \<open>bodyBufferReader.Read\<close> into a slice of \<open>k\<close> bytes: the bytes read, whether
  \<^verbatim>\<open>io.EOF\<close> is returned, and the new position.
\<close>

definition Read :: "bool \<Rightarrow> BodyBuffer \<Rightarrow> nat \<Rightarrow> nat \<Rightarrow> (string \<times> bool \<times> nat) go" where
  "Read isTinyGo br pos k =
     (case (isTinyGo, bb_writer br) of
        (False, Some f) \<Rightarrow>
          (let got = take k (drop pos (tf_contents f)) in
           Some (got, length got < k, pos + length got))
      | _ \<Rightarrow>
          (let buf = bb_buffer br;
               n = (if pos + k > length buf then int (length buf) - int pos else int k)
           in if n = 0 then Some ([], True, pos)
              else if n < 0 then None
              else Some (take (nat n) (drop pos buf), False, pos + nat n)))"

text \<open>
  \<open>BodyBuffer.WriteTo\<close>: the bytes handed to the writer \<open>w\<close> (which is taken to
  accept them), whether \<^verbatim>\<open>io.EOF\<close> is returned, and the new buffer. The memory
  branch drains the buffer; the file branch reads from the file's offset.
\<close>

definition WriteTo :: "BodyBuffer \<Rightarrow> string \<times> bool \<times> BodyBuffer" where
  "WriteTo br =
     (case bb_writer br of
        None \<Rightarrow> (bb_buffer br, False, br\<lparr>bb_buffer := []\<rparr>)
      | Some f \<Rightarrow>
          (let got = take (nat (bb_length br)) (drop (tf_offset f) (tf_contents f)) in
           if got = [] \<and> bb_length br > 0 then ([], True, br)
           else (got, False, br\<lparr>bb_writer := Some (f\<lparr>tf_offset := tf_offset f + length got\<rparr>)\<rparr>)))"

definition Reset :: "bool \<Rightarrow> OS \<Rightarrow> BodyBuffer \<Rightarrow> string option \<times> BodyBuffer" where
  "Reset isTinyGo os br =
     (let br = br\<lparr>bb_buffer := [], bb_length := 0\<rparr> in
      if \<not> isTinyGo \<and> bb_writer br \<noteq> None then
        let br = br\<lparr>bb_writer := None\<rparr> in
        (case Close_err os of Some err \<Rightarrow> (Some err, br) | None \<Rightarrow> (Remove_err os, br))
      else (None, br))"

section \<open>Content and invariant\<close>

definition content :: "BodyBuffer \<Rightarrow> string" where
  "content br = (case bb_writer br of None \<Rightarrow> bb_buffer br | Some f \<Rightarrow> tf_contents f)"

definition bb_wf :: "BodyBuffer \<Rightarrow> bool" where
  "bb_wf br \<longleftrightarrow> bb_length br = int (length (content br)) \<and>
     (case bb_writer br of
        None \<Rightarrow> True
      | Some f \<Rightarrow> bb_buffer br = [] \<and> tf_offset f = length (tf_contents f) \<and>
          bb_length br > MemoryLimit (bb_options br))"

lemma bb_wf_New [inv_intros]: "bb_wf (NewBodyBuffer opts)"
  by (simp add: bb_wf_def NewBodyBuffer_def content_def)

lemma content_New [simp]: "content (NewBodyBuffer opts) = []"
  by (simp add: NewBodyBuffer_def content_def)

lemma Size_content: "bb_wf br \<Longrightarrow> Size br = int (length (content br))"
  by (simp add: bb_wf_def Size_def)

lemma Reset_New: "Reset False os br = (err, br') \<Longrightarrow> br' = NewBodyBuffer (bb_options br)"
  by (auto simp: Reset_def NewBodyBuffer_def Let_def split: if_splits option.splits)

lemma file_write_ok:
  "file_write os_ok d f = (n, err, f') \<Longrightarrow> tf_offset f = length (tf_contents f) \<Longrightarrow>
     n = length d \<and> err = None \<and> tf_contents f' = tf_contents f @ d \<and>
     tf_offset f' = length (tf_contents f')"
  by (auto simp: file_write_def os_ok_def)

lemma spill_ok:
  assumes "spill os_ok br = (err, br')" "bb_wf br"
  shows "err = None \<and> bb_buffer br' = [] \<and> bb_length br' = bb_length br \<and>
    bb_options br' = bb_options br \<and>
    (\<exists>f. bb_writer br' = Some f \<and> tf_contents f = content br \<and> tf_offset f = length (tf_contents f))"
proof (cases "bb_writer br")
  case None
  with assms show ?thesis
    by (auto simp: spill_def file_write_def os_ok_def bb_wf_def content_def)
next
  case (Some f)
  with assms show ?thesis by (auto simp: spill_def bb_wf_def content_def)
qed

text \<open>Writing with a working file system appends the data, in memory or on disk.\<close>

lemma Write_appends:
  assumes "bb_wf br"
  obtains br' where "Write False os_ok data br = Some (int (length data), None, br')"
    "bb_wf br'" "content br' = content br @ data" "bb_options br' = bb_options br"
proof (cases "data = []")
  case True
  with assms that show ?thesis by (simp add: Write_def)
next
  case ne: False
  show ?thesis
  proof (cases "int (length data) + bb_length br > MemoryLimit (bb_options br)")
    case True
    obtain err b1 where s: "spill os_ok br = (err, b1)" by fastforce
    from spill_ok [OF s assms] obtain f where b1: "err = None" "bb_buffer b1 = []"
      "bb_writer b1 = Some f" "tf_contents f = content br" "tf_offset f = length (tf_contents f)"
      "bb_length b1 = bb_length br" "bb_options b1 = bb_options br"
      by auto
    obtain n e f' where w: "file_write os_ok data f = (n, e, f')" by (metis prod_cases3)
    have f': "n = length data \<and> e = None \<and> tf_contents f' = tf_contents f @ data \<and>
        tf_offset f' = length (tf_contents f')"
      using file_write_ok [OF w] b1 by simp
    have "Write False os_ok data br = Some (int (length data), None,
        b1\<lparr>bb_length := int (length data) + bb_length br, bb_writer := Some f'\<rparr>)"
      using ne True s b1 w f' by (simp add: Write_def)
    then show ?thesis
      by (rule that) (use b1 f' assms True in \<open>simp_all add: bb_wf_def content_def\<close>)
  next
    case False
    then have m: "Write False os_ok data br = Some (int (length data), None,
        br\<lparr>bb_length := int (length data) + bb_length br, bb_buffer := bb_buffer br @ data\<rparr>)"
      using ne by (simp add: Write_def)
    have "bb_writer br = None"
      using False assms by (auto simp: bb_wf_def split: option.splits)
    with assms show ?thesis by (intro that [OF m]) (simp_all add: bb_wf_def content_def)
  qed
qed

section \<open>Copying into a buffer\<close>

text \<open>What a reader of the buffer returns up to the end of file.\<close>

definition reader_content :: "bool \<Rightarrow> BodyBuffer \<Rightarrow> string" where
  "reader_content tiny br = (if tiny then bb_buffer br else content br)"

text \<open>
  \<^verbatim>\<open>io.Copy\<close> from a reader that yields \<open>src\<close>: 32 KiB at a time, until a write
  fails or is short; the number of bytes written, the error and the buffer.
\<close>

function io_Copy :: "bool \<Rightarrow> OS \<Rightarrow> string \<Rightarrow> BodyBuffer \<Rightarrow> (int \<times> string option \<times> BodyBuffer) go" where
  "io_Copy tiny os src dst =
     (if src = [] then Some (0, None, dst)
      else
        let chunk = take 32768 src in
        (case Write tiny os chunk dst of
           None \<Rightarrow> None
         | Some (n, err, dst') \<Rightarrow>
             if err \<noteq> None then Some (n, err, dst')
             else if n \<noteq> int (length chunk) then Some (n, Some ''short write'', dst')
             else
               (case io_Copy tiny os (drop 32768 src) dst' of
                  None \<Rightarrow> None
                | Some (m, err, dst') \<Rightarrow> Some (n + m, err, dst'))))"
  by pat_completeness auto
termination
  by (relation "measure (\<lambda>(_, _, src, _). length src)") auto

declare io_Copy.simps [simp del]

text \<open>
  A reader as a source of bytes: its length when it has a method \<open>Len\<close>, its bytes, and the
  error that it ends with (\<^const>\<open>None\<close> for \<^verbatim>\<open>io.EOF\<close>).
\<close>

record reader =
  rd_Len :: "int option"
  rd_data :: string
  rd_err :: "string option"

text \<open>\<^verbatim>\<open>io.CopyN\<close>: an error of the reader is seen only when it is asked for more than its bytes.\<close>

definition io_CopyN :: "bool \<Rightarrow> OS \<Rightarrow> reader \<Rightarrow> int \<Rightarrow> BodyBuffer \<Rightarrow> (int \<times> string option \<times> BodyBuffer) go" where
  "io_CopyN tiny os r n dst =
     do { (w, err, dst) \<leftarrow> io_Copy tiny os (take (nat n) (rd_data r)) dst;
          let err = (if err = None \<and> int (length (rd_data r)) < n then rd_err r else err);
          Some (if w = n then (n, None, dst)
                else if w < n \<and> err = None then (w, Some ''EOF'', dst)
                else (w, err, dst)) }"

lemma spill_options: "bb_options (snd (spill os br)) = bb_options br"
  by (auto simp: spill_def Let_def split: option.splits prod.splits)

lemma Write_options: "Write tiny os data br = Some (n, err, br') \<Longrightarrow> bb_options br' = bb_options br"
  using spill_options [of os br]
  by (auto simp: Write_def Let_def split: if_splits option.splits prod.splits)

lemma io_Copy_step:
  assumes "io_Copy tiny os src dst = Some (n, err, dst')" "src \<noteq> []"
  obtains n1 e1 d1 where "Write tiny os (take 32768 src) dst = Some (n1, e1, d1)" "dst' = d1"
  | n1 d1 m where "Write tiny os (take 32768 src) dst = Some (n1, None, d1)"
      "io_Copy tiny os (drop 32768 src) d1 = Some (m, err, dst')"
proof -
  obtain n1 e1 d1 where w: "Write tiny os (take 32768 src) dst = Some (n1, e1, d1)"
    using assms by (cases "Write tiny os (take 32768 src) dst") (auto simp: io_Copy.simps [of tiny os src dst] Let_def)
  show ?thesis
  proof (cases "e1 = None \<and> n1 = int (length (take 32768 src))")
    case True
    with assms w show ?thesis
      by (cases "io_Copy tiny os (drop 32768 src) d1")
        (auto simp: io_Copy.simps [of tiny os src dst] Let_def intro: that(2))
  next
    case False
    with assms w have "dst' = d1" by (auto simp: io_Copy.simps [of tiny os src dst] Let_def split: if_splits)
    with w show ?thesis by (rule that(1))
  qed
qed

lemma io_Copy_options: "io_Copy tiny os src dst = Some (n, err, dst') \<Longrightarrow> bb_options dst' = bb_options dst"
proof (induction src arbitrary: dst n rule: length_induct)
  case (1 src)
  show ?case
  proof (cases "src = []")
    case True
    with "1.prems" show ?thesis by (simp add: io_Copy.simps)
  next
    case False
    then have less: "length (drop 32768 src) < length src" by simp
    from "1.prems" False show ?thesis
    proof (cases rule: io_Copy_step)
      case (2 n1 d1 m)
      with "1.IH" less have "bb_options dst' = bb_options d1" by blast
      with Write_options [OF 2(1)] show ?thesis by simp
    qed (auto dest: Write_options)
  qed
qed

lemma io_CopyN_options: "io_CopyN tiny os r k dst = Some (n, err, dst') \<Longrightarrow> bb_options dst' = bb_options dst"
  by (auto simp: io_CopyN_def Let_def split: if_splits dest!: io_Copy_options)

lemma io_Copy_ok:
  "bb_wf dst \<Longrightarrow> \<exists>dst'. io_Copy False os_ok src dst = Some (int (length src), None, dst') \<and> bb_wf dst' \<and>
     content dst' = content dst @ src"
proof (induction src arbitrary: dst rule: length_induct)
  case (1 src)
  show ?case
  proof (cases "src = []")
    case True
    with "1.prems" show ?thesis by (simp add: io_Copy.simps)
  next
    case False
    obtain d1 where d1: "Write False os_ok (take 32768 src) dst =
        Some (int (length (take 32768 src)), None, d1)" "bb_wf d1"
        "content d1 = content dst @ take 32768 src"
      using Write_appends [OF "1.prems"] by blast
    have "length (drop 32768 src) < length src" using False by simp
    with "1.IH" d1(2) obtain d2 where d2: "io_Copy False os_ok (drop 32768 src) d1 =
        Some (int (length (drop 32768 src)), None, d2)" "bb_wf d2"
        "content d2 = content d1 @ drop 32768 src" by blast
    have "int (length (take 32768 src)) + int (length (drop 32768 src)) = int (length src)" by simp
    with d1 d2 False show ?thesis by (subst io_Copy.simps) (auto simp: Let_def)
  qed
qed

text \<open>On TinyGo the buffer stays in memory and keeps the first \<open>MemoryLimit\<close> bytes.\<close>

definition tiny_wf :: "BodyBuffer \<Rightarrow> bool" where
  "tiny_wf br \<longleftrightarrow> bb_writer br = None \<and> bb_length br = int (length (bb_buffer br)) \<and>
     bb_length br \<le> MemoryLimit (bb_options br)"

lemma tiny_fits: "tiny_wf br \<Longrightarrow> length (bb_buffer br) \<le> nat (MemoryLimit (bb_options br))"
  unfolding tiny_wf_def by linarith

lemma Write_tiny:
  assumes "tiny_wf br"
  obtains n br' where "Write True os data br = Some (n, None, br')" "tiny_wf br'"
    "bb_buffer br' = take (nat (MemoryLimit (bb_options br))) (bb_buffer br @ data)"
    "bb_options br' = bb_options br" "n = int (length (bb_buffer br')) - int (length (bb_buffer br))"
proof -
  let ?lim = "MemoryLimit (bb_options br)"
  have len: "length (bb_buffer br) \<le> nat ?lim" using assms by (rule tiny_fits)
  consider "data = []" | "data \<noteq> []" "int (length data) + bb_length br \<le> ?lim"
    | "data \<noteq> []" "int (length data) + bb_length br > ?lim" "?lim = bb_length br"
    | "data \<noteq> []" "int (length data) + bb_length br > ?lim" "?lim > bb_length br"
    using assms by (auto simp: tiny_wf_def) linarith
  then show ?thesis
  proof cases
    case 1
    with assms len show ?thesis by (intro that [of 0 br]) (simp_all add: Write_def)
  next
    case 2
    with assms len show ?thesis
      by (intro that [of "int (length data)" "br\<lparr>bb_length := int (length data) + bb_length br,
            bb_buffer := bb_buffer br @ data\<rparr>"]) (simp_all add: Write_def tiny_wf_def)
  next
    case 3
    with assms show ?thesis by (intro that [of 0 br]) (simp_all add: Write_def tiny_wf_def)
  next
    case 4
    with assms len show ?thesis
      by (intro that [of "?lim - bb_length br" "br\<lparr>bb_length := ?lim,
            bb_buffer := bb_buffer br @ take (nat (?lim - bb_length br)) data\<rparr>"])
        (simp_all add: Write_def tiny_wf_def nat_diff_distrib)
  qed
qed

section \<open>The interface\<close>

text \<open>
  What the transaction relies on: a byte store that appends what is written, reports its size,
  and is empty after a reset. The lemmas on sequences of writes hold for every such store.
\<close>

locale byte_store =
  fixes put :: "string \<Rightarrow> 'b \<Rightarrow> 'b option"
    and view :: "'b \<Rightarrow> string"
    and invar :: "'b \<Rightarrow> bool"
    and cap :: "'b \<Rightarrow> string \<Rightarrow> string"
  assumes put_ok: "invar b \<Longrightarrow> \<exists>b'. put d b = Some b' \<and> invar b' \<and> view b' = cap b (view b @ d) \<and> cap b' = cap b"
    and cap_cap: "cap b (cap b u @ v) = cap b (u @ v)"
    and cap_view: "invar b \<Longrightarrow> cap b (view b) = view b"
begin

lemma put_all:
  assumes "invar b"
  shows "\<exists>b'. foreach ds put b = Some b' \<and> invar b' \<and> view b' = cap b (view b @ concat ds) \<and> cap b' = cap b"
  using assms
proof (induction ds arbitrary: b)
  case Nil
  then show ?case by (simp add: cap_view)
next
  case (Cons d ds)
  then obtain b1 where b1: "put d b = Some b1" "invar b1" "view b1 = cap b (view b @ d)" "cap b1 = cap b"
    using put_ok by blast
  from Cons.IH [OF b1(2)] b1 show ?case by (auto simp: cap_cap)
qed

end

definition put_disk :: "string \<Rightarrow> BodyBuffer \<Rightarrow> BodyBuffer option" where
  "put_disk d br = map_option (snd \<circ> snd) (Write False os_ok d br)"

definition put_tiny :: "string \<Rightarrow> BodyBuffer \<Rightarrow> BodyBuffer option" where
  "put_tiny d br = map_option (snd \<circ> snd) (Write True os_ok d br)"

interpretation disk: byte_store put_disk content bb_wf "\<lambda>br u. u"
proof
  fix b d
  assume "bb_wf b"
  then obtain b' where "Write False os_ok d b = Some (int (length d), None, b')"
    "bb_wf b'" "content b' = content b @ d"
    by (rule Write_appends)
  then show "\<exists>b'. put_disk d b = Some b' \<and> bb_wf b' \<and> content b' = content b @ d \<and> (\<lambda>u. u) = (\<lambda>u. u)"
    by (simp add: put_disk_def)
qed simp_all

interpretation tiny: byte_store put_tiny bb_buffer tiny_wf
  "\<lambda>br. take (nat (MemoryLimit (bb_options br)))"
proof
  fix b d
  assume "tiny_wf b"
  then obtain n b' where "Write True os_ok d b = Some (n, None, b')" "tiny_wf b'"
    "bb_buffer b' = take (nat (MemoryLimit (bb_options b))) (bb_buffer b @ d)"
    "bb_options b' = bb_options b"
    by (rule Write_tiny)
  then show "\<exists>b'. put_tiny d b = Some b' \<and> tiny_wf b' \<and>
      bb_buffer b' = take (nat (MemoryLimit (bb_options b))) (bb_buffer b @ d) \<and>
      take (nat (MemoryLimit (bb_options b'))) = take (nat (MemoryLimit (bb_options b)))"
    by (simp add: put_tiny_def)
next
  show "tiny_wf b \<Longrightarrow> take (nat (MemoryLimit (bb_options b))) (bb_buffer b) = bb_buffer b" for b
    by (simp add: tiny_fits)
qed (simp add: min_def)

section \<open>Reading back\<close>

text \<open>A sequence of reads with slices of the given sizes, as \<^verbatim>\<open>io.Copy\<close> issues them.\<close>

fun read_seq :: "bool \<Rightarrow> BodyBuffer \<Rightarrow> nat \<Rightarrow> nat list \<Rightarrow> (string list \<times> nat) go" where
  "read_seq isTinyGo br pos [] = Some ([], pos)"
| "read_seq isTinyGo br pos (k # ks) =
     do { (got, eof, pos') \<leftarrow> Read isTinyGo br pos k;
          (gots, pos'') \<leftarrow> read_seq isTinyGo br pos' ks;
          Some (got # gots, pos'') }"

lemma Read_content:
  assumes "pos \<le> length (content br)"
  shows "\<exists>eof. Read False br pos k = Some (take k (drop pos (content br)), eof,
    pos + length (take k (drop pos (content br))))"
proof (cases "bb_writer br")
  case None
  then show ?thesis using assms
    by (auto simp: Read_def content_def Let_def min_def nat_diff_distrib)
next
  case (Some f)
  then show ?thesis by (simp add: Read_def content_def Let_def)
qed

lemma read_seq_content:
  "pos \<le> length (content br) \<Longrightarrow>
     \<exists>outs pos'. read_seq False br pos ks = Some (outs, pos') \<and>
       concat outs = take (sum_list ks) (drop pos (content br))"
proof (induction ks arbitrary: pos)
  case Nil
  then show ?case by simp
next
  case (Cons k ks)
  let ?got = "take k (drop pos (content br))"
  obtain eof where r: "Read False br pos k = Some (?got, eof, pos + length ?got)"
    using Read_content [OF Cons.prems] by blast
  have "pos + length ?got \<le> length (content br)" using Cons.prems by simp
  from Cons.IH [OF this] obtain outs pos' where
    o: "read_seq False br (pos + length ?got) ks = Some (outs, pos')"
      "concat outs = take (sum_list ks) (drop (pos + length ?got) (content br))"
    by blast
  have "?got @ take (sum_list ks) (drop (pos + length ?got) (content br))
      = take (k + sum_list ks) (drop pos (content br))"
    by (cases "k \<le> length (drop pos (content br))") (simp_all add: take_add min_def add.commute)
  with r o show ?case by simp
qed

section \<open>Properties\<close>

text \<open>
  C34. Whatever the memory limit, a fresh body buffer to which chunks are written reports the
  total number of bytes as its size, and a reader over it returns exactly the written bytes in
  order, however the reads are sized, whether the bytes are still in memory or have moved to
  the temporary file.
\<close>

theorem BodyBuffer_write_read:
  "\<exists>br. foreach ds put_disk (NewBodyBuffer opts) = Some br \<and>
     Size br = int (length (concat ds)) \<and>
     (\<exists>outs pos. read_seq False br 0 ks = Some (outs, pos) \<and>
        concat outs = take (sum_list ks) (concat ds))"
proof -
  obtain br where br: "foreach ds put_disk (NewBodyBuffer opts) = Some br" "bb_wf br"
    "content br = concat ds"
    using disk.put_all [OF bb_wf_New, of ds opts] by auto
  then show ?thesis using read_seq_content [of 0 br ks] by (auto simp: Size_content)
qed

text \<open>
  On TinyGo a fresh body buffer keeps the first \<open>MemoryLimit\<close> bytes of what is
  written to it, and no write panics.
\<close>

theorem BodyBuffer_tiny_prefix:
  assumes "0 \<le> MemoryLimit opts"
  shows "\<exists>br. foreach ds put_tiny (NewBodyBuffer opts) = Some br \<and>
    bb_buffer br = take (nat (MemoryLimit opts)) (concat ds)"
proof -
  have "tiny_wf (NewBodyBuffer opts)" using assms by (simp add: tiny_wf_def NewBodyBuffer_def)
  from tiny.put_all [OF this, of ds] show ?thesis by (auto simp: NewBodyBuffer_def)
qed

theorem BodyBuffer_tiny_prefix_witness:
  "\<exists>br. foreach [''ab'', ''cd''] put_tiny (NewBodyBuffer \<lparr>TmpPath = [], MemoryLimit = 3\<rparr>) = Some br \<and>
    bb_buffer br = ''abc''"
  using BodyBuffer_tiny_prefix [of "\<lparr>TmpPath = [], MemoryLimit = 3\<rparr>" "[''ab'', ''cd'']"] by simp

text \<open>
  Once the body has moved to the temporary file, \<open>WriteTo\<close> hands over nothing and
  returns \<^verbatim>\<open>io.EOF\<close>: it reads from the file's offset, which the writes left
  at the end.
\<close>

theorem WriteTo_after_spill:
  assumes "bb_wf br" "bb_writer br \<noteq> None" "content br \<noteq> []"
  shows "WriteTo br = ([], True, br)"
  using assms by (auto simp: WriteTo_def bb_wf_def content_def split: option.splits)

theorem WriteTo_after_spill_witness:
  "\<exists>br. put_disk ''ab'' (NewBodyBuffer \<lparr>TmpPath = [], MemoryLimit = 1\<rparr>) = Some br \<and>
     content br = ''ab'' \<and> WriteTo br = ([], True, br)"
proof -
  obtain br where br: "put_disk ''ab'' (NewBodyBuffer \<lparr>TmpPath = [], MemoryLimit = 1\<rparr>) = Some br"
    "bb_wf br" "content br = ''ab''"
    using disk.put_ok [OF bb_wf_New] by fastforce
  moreover from br(1) have "bb_writer br \<noteq> None"
    by (auto simp: put_disk_def Write_def NewBodyBuffer_def spill_def os_ok_def file_write_def)
  ultimately show ?thesis using WriteTo_after_spill [of br] by auto
qed

end
