(* ===== verification/Transaction.thy ===== *)
theory Transaction
  imports Macro Strings_Util Body_Buffer
begin

text \<open>
  The transaction (src/internal/corazawaf/transaction.go): its state and the operations that
  feed it with data and read its variables. The rule evaluation is in the theories Rule and
  Rule_Group, the phases in the theory Phases.

  The record has the fields of the Go struct. \<open>tx.WAF\<close> is an argument of the operations
  that use it, since nothing writes to it while a transaction runs, with one exception: the
  action \<open>nolog\<close> clears the field \<open>Audit\<close> of a rule of the WAF, which is why
  \<open>AuditCleared\<close> keeps the identities of these rules. The fields \<open>ErrorLog\<close> and
  \<open>AuditWrites\<close> record the calls to the error callback and to the audit log writer.
  The stop watches, the timestamp and the debug logger are left out: nothing but log lines
  depends on them. The unused field \<open>bodyProcessor\<close> is left out as well.
\<close>

section \<open>Targets and the transformation cache (rule.go, rulegroup.go)\<close>

record ruleVariableException =
  ex_KeyStr :: string
  ex_KeyRx :: "Regexp option"

record ruleVariableParams =
  rv_Name :: string
  rv_Count :: bool
  rv_Variable :: RuleVariable
  rv_KeyRx :: "Regexp option"
  rv_KeyStr :: string
  rv_Exceptions :: "ruleVariableException list"

text \<open>
  The key of the cache holds the address of the bytes of the argument's key. As the comment at
  the Go type says, within a phase the address and the bytes determine each other; the model
  uses the bytes.
\<close>

record transformationKey =
  ck_argKey :: string
  ck_argIndex :: nat
  ck_argVariable :: RuleVariable
  ck_transformationsID :: int

record transformationValue =
  cv_args :: "string list"
  cv_errs :: "string list"

type_synonym cache = "transformationKey \<rightharpoonup> transformationValue"

section \<open>State\<close>

record Transaction =
  tx_id :: string
  matchedRules :: "MatchedRule list"
  interruption :: "Interruption option"
  Logdata :: string
  SkipAfter :: string
  AuditEngine :: AuditEngineStatus
  AuditLogParts :: string
  ForceRequestBodyVariable :: bool
  RequestBodyAccess :: bool
  RequestBodyLimit :: int
  ResponseBodyAccess :: bool
  ResponseBodyLimit :: int
  RuleEngine :: RuleEngineStatus
  HashEngine :: bool
  HashEnforcement :: bool
  LastPhase :: RulePhase
  requestBodyBuffer :: BodyBuffer
  ResponseBodyBuffer :: BodyBuffer
  ruleRemoveByID :: "int list"
  ruleRemoveTargetByID :: "int \<Rightarrow> ruleVariableParams list"
  Skip :: int
  Capture :: bool
  audit :: bool
  variables :: TransactionVariables
  transformationCache :: cache
  AuditCleared :: "nat list"
  ErrorLog :: "MatchedRule list"
  AuditWrites :: nat

abbreviation var :: "Transaction \<Rightarrow> RuleVariable \<Rightarrow> string" where
  "var tx v \<equiv> get_simple (variables tx) v"

abbreviation col :: "Transaction \<Rightarrow> RuleVariable \<Rightarrow> Map" where
  "col tx v \<equiv> tv_map (variables tx) v"

definition set_var :: "RuleVariable \<Rightarrow> string \<Rightarrow> Transaction \<Rightarrow> Transaction" where
  "set_var v x tx = tx\<lparr>variables := set_simple v x (variables tx)\<rparr>"

definition upd_col :: "RuleVariable \<Rightarrow> (Map \<Rightarrow> Map) \<Rightarrow> Transaction \<Rightarrow> Transaction" where
  "upd_col v f tx = tx\<lparr>variables := upd_map v f (variables tx)\<rparr>"

section \<open>Operations\<close>

definition Interrupt :: "Interruption \<Rightarrow> Transaction \<Rightarrow> Transaction" where
  "Interrupt it tx = (if RuleEngine tx = RuleEngineOn then tx\<lparr>interruption := Some it\<rparr> else tx)"

definition IsInterrupted :: "Transaction \<Rightarrow> bool" where
  "IsInterrupted tx \<longleftrightarrow> interruption tx \<noteq> None"

definition IsRuleEngineOff :: "Transaction \<Rightarrow> bool" where
  "IsRuleEngineOff tx \<longleftrightarrow> RuleEngine tx = RuleEngineOff"

text \<open>\<open>for k, vr := range values { names.AddUniqueCS; for v := range vr { cookies.AddCS } }\<close>\<close>

definition add_cookie :: "string \<Rightarrow> string list \<Rightarrow> Transaction \<Rightarrow> Transaction" where
  "add_cookie k vr tx =
     (let kl = ToLower k;
          tx = upd_col RequestCookiesNames (\<lambda>m. Map_AddUniqueCS m kl k kl) tx
      in fold (\<lambda>v. upd_col RequestCookies (\<lambda>m. Map_AddCS m kl k v)) vr tx)"

definition AddRequestHeader :: "key_order \<Rightarrow> string \<Rightarrow> string \<Rightarrow> Transaction \<Rightarrow> Transaction" where
  "AddRequestHeader ord key value tx =
     (if key = [] then tx
      else
        let keyl = ToLower key;
            tx = upd_col RequestHeadersNames (\<lambda>m. Map_AddUniqueCS m keyl key keyl) tx;
            tx = upd_col RequestHeaders (\<lambda>m. Map_AddCS m keyl key value) tx
        in if keyl = ''content-type'' then
             let val = ToLower value in
             if val = ''application/x-www-form-urlencoded'' then set_var ReqbodyProcessor ''URLENCODED'' tx
             else if HasPrefix val ''multipart/form-data'' then set_var ReqbodyProcessor ''MULTIPART'' tx
             else tx
           else if keyl = ''cookie'' then
             let values = ParseQuery value (CHR '';'') in
             fold (\<lambda>k. add_cookie k (map_get values k)) (ord (map fst values)) tx
           else tx)"

definition AddResponseHeader :: "string \<Rightarrow> string \<Rightarrow> Transaction \<Rightarrow> Transaction" where
  "AddResponseHeader key value tx =
     (if key = [] then tx
      else
        let keyl = ToLower key;
            tx = upd_col ResponseHeadersNames (\<lambda>m. Map_AddUniqueCS m keyl key keyl) tx;
            tx = upd_col ResponseHeaders (\<lambda>m. Map_AddCS m keyl key value) tx
        in if keyl = ''content-type'' then
             let (name, _, _) = Cut value (CHR '';'') in set_var ResponseContentType name tx
           else tx)"

definition CaptureField :: "int \<Rightarrow> string \<Rightarrow> Transaction \<Rightarrow> Transaction" where
  "CaptureField index value tx =
     (if Capture tx then upd_col TX (\<lambda>m. Map_SetIndex m (Itoa index) 0 value) tx else tx)"

definition resetCaptures :: "Transaction \<Rightarrow> Transaction" where
  "resetCaptures tx =
     fold (\<lambda>i. upd_col TX (\<lambda>m. Map_SetIndex m (EncodeRune i) 0 [])) [48..<58] tx"

definition tx_matchVariable :: "MatchData \<Rightarrow> Transaction \<Rightarrow> Transaction" where
  "tx_matchVariable match tx =
     (let (varName, varNamel) =
            (if md_Key match \<noteq> [] then
               (md_VariableName match @ '':'' @ md_Key match,
                md_VariableName match @ '':'' @ ToLower (md_Key match))
             else (md_VariableName match, md_VariableName match));
          tx = set_var MatchedVarName [] tx;
          tx = upd_col MatchedVars (\<lambda>m. Map_AddCS m varNamel varName (md_Value match)) tx;
          tx = set_var MatchedVar (md_Value match) tx;
          tx = upd_col MatchedVarsNames (\<lambda>m. Map_AddCS m varNamel varName varName) tx
      in set_var MatchedVarName varName tx)"

subsection \<open>GetField\<close>

definition excepted :: "ruleVariableException list \<Rightarrow> MatchData \<Rightarrow> ruleVariableException list" where
  "excepted exs c =
     filter (\<lambda>ex. let lkey = ToLower (md_Key c) in
        (case ex_KeyRx ex of None \<Rightarrow> False | Some rx \<Rightarrow> MatchString rx lkey)
        \<or> ToLower (ex_KeyStr ex) = lkey) exs"

text \<open>The list \<open>rmi\<close>: the index of each match, once per exception that applies to it.\<close>

fun removal_indices :: "nat \<Rightarrow> ruleVariableException list \<Rightarrow> MatchData list \<Rightarrow> nat list" where
  "removal_indices i exs [] = []"
| "removal_indices i exs (c # cs) =
     replicate (length (excepted exs c)) i @ removal_indices (Suc i) exs cs"

text \<open>The body of the loop over \<open>rmi\<close>; slicing to a negative length panics.\<close>

definition remove_match :: "nat \<Rightarrow> MatchData list \<Rightarrow> MatchData list go" where
  "remove_match i matches =
     (if length matches < i + 1 then (if i = 0 then None else Some (take (i - 1) matches))
      else Some (take i matches @ drop (i + 1) matches))"

definition find_matches :: "key_order \<Rightarrow> Collection \<Rightarrow> ruleVariableParams \<Rightarrow> MatchData list" where
  "find_matches ord c rv =
     (case rv_KeyRx rv of
        None \<Rightarrow> if rv_KeyStr rv = [] then FindAll ord c else FindString ord c (rv_KeyStr rv)
      | Some rx \<Rightarrow> FindRegex ord c rx)"

definition count_match :: "ruleVariableParams \<Rightarrow> nat \<Rightarrow> MatchData" where
  "count_match rv n = \<lparr>md_VariableName = variable_Name (rv_Variable rv), md_Variable = rv_Variable rv,
     md_Key = rv_KeyStr rv, md_Value = Itoa (int n), md_Message = [], md_Data = []\<rparr>"

definition GetField :: "key_order \<Rightarrow> ruleVariableParams \<Rightarrow> Transaction \<Rightarrow> MatchData list go" where
  "GetField ord rv tx =
     (case tx_Collection (variables tx) (rv_Variable rv) of
        None \<Rightarrow> Some []
      | Some c \<Rightarrow>
          do { let ms = find_matches ord c rv;
               ms \<leftarrow> foreach (rev (removal_indices 0 (rv_Exceptions rv) ms)) remove_match ms;
               Some (if rv_Count rv then [count_match rv (length ms)] else ms) })"

subsection \<open>Removing rules and targets, connection, arguments, URI\<close>

definition RemoveRuleTargetByID :: "int \<Rightarrow> RuleVariable \<Rightarrow> string \<Rightarrow> Transaction \<Rightarrow> Transaction" where
  "RemoveRuleTargetByID rid variable key tx =
     (let c = \<lparr>rv_Name = [], rv_Count = False, rv_Variable = variable, rv_KeyRx = None,
               rv_KeyStr = key, rv_Exceptions = []\<rparr>
      in tx\<lparr>ruleRemoveTargetByID :=
           (ruleRemoveTargetByID tx)(rid := ruleRemoveTargetByID tx rid @ [c])\<rparr>)"

definition RemoveRuleByID :: "int \<Rightarrow> Transaction \<Rightarrow> Transaction" where
  "RemoveRuleByID rid tx = tx\<lparr>ruleRemoveByID := ruleRemoveByID tx @ [rid]\<rparr>"

definition ProcessConnection :: "string \<Rightarrow> int \<Rightarrow> string \<Rightarrow> int \<Rightarrow> Transaction \<Rightarrow> Transaction" where
  "ProcessConnection client cPort server sPort tx =
     (let p = Itoa cPort;
          p2 = Itoa sPort;
          tx = set_var RemoteAddr client tx;
          tx = set_var RemotePort p tx;
          tx = set_var ServerAddr server tx
      in set_var ServerPort p2 tx)"

definition AddArgument :: "ArgumentType \<Rightarrow> string \<Rightarrow> string \<Rightarrow> Transaction \<Rightarrow> Transaction" where
  "AddArgument argType key value tx =
     (let add = (\<lambda>vals. upd_col vals (\<lambda>m. Map_AddCS m (ToLower key) key value) tx) in
      case argType of
        ArgumentGET \<Rightarrow> add ArgsGet
      | ArgumentPOST \<Rightarrow> add ArgsPost
      | ArgumentPATH \<Rightarrow> add ArgsPath
      | ArgumentInvalid \<Rightarrow> tx)"

definition ExtractArguments :: "key_order \<Rightarrow> ArgumentType \<Rightarrow> string \<Rightarrow> Transaction \<Rightarrow> Transaction" where
  "ExtractArguments ord orig uri tx =
     (let data = ParseQuery uri (CHR ''&'') in
      fold (\<lambda>k. fold (\<lambda>v. AddArgument orig k v) (map_get data k)) (ord (map fst data)) tx)"

text \<open>
  What \<open>ProcessURI\<close> uses of the result of \<^verbatim>\<open>url.Parse\<close> (package
  \<^verbatim>\<open>net/url\<close>); the parser is a parameter.
\<close>

record URL =
  RawQuery :: string
  URL_Path :: string
  URL_String :: string

type_synonym url_parser = "string \<Rightarrow> string + URL"

definition after_last_slash :: "string \<Rightarrow> string" where
  "after_last_slash path = rev (takeWhile (\<lambda>c. c \<noteq> CHR ''/'' \<and> c \<noteq> CHR 0x5C) (rev path))"

text \<open>
  \<open>offset := strings.LastIndexAny(path, "/\")\<close> with the test that something follows the
  offset: the part after the last slash when there is one and it is not empty, else the path.
\<close>

definition basename :: "string \<Rightarrow> string" where
  "basename path =
     (let b = after_last_slash path in
      if length b < length path \<and> b \<noteq> [] then b else path)"

definition ProcessURI :: "url_parser \<Rightarrow> key_order \<Rightarrow> string \<Rightarrow> string \<Rightarrow> string \<Rightarrow>
    Transaction \<Rightarrow> Transaction" where
  "ProcessURI url_Parse ord uri method httpVersion tx =
     (let tx = set_var RequestMethod method tx;
          tx = set_var RequestProtocol httpVersion tx;
          tx = set_var RequestURIRaw uri tx;
          tx = set_var RequestLine (method @ '' '' @ uri @ '' '' @ httpVersion) tx;
          (uri, _, _) = Cut uri (CHR ''#'');
          (path, query, tx) =
            (case url_Parse uri of
               Inl err \<Rightarrow>
                 (uri, [], set_var RequestURI uri (set_var UrlencodedError err tx))
             | Inr parsedURL \<Rightarrow>
                 (URL_Path parsedURL, RawQuery parsedURL,
                  set_var RequestURI (URL_String parsedURL)
                    (ExtractArguments ord ArgumentGET (RawQuery parsedURL) tx)));
          tx = set_var RequestBasename (basename path) tx;
          tx = set_var RequestFilename path tx
      in set_var QueryString query tx)"

definition generateReqbodyError :: "string \<Rightarrow> Transaction \<Rightarrow> Transaction" where
  "generateReqbodyError err tx =
     (let tx = set_var ReqbodyError ''1'' tx;
          tx = set_var ReqbodyErrorMsg (var tx ReqbodyProcessor @ '': '' @ err) tx;
          tx = set_var ReqbodyProcessorError ''1'' tx
      in set_var ReqbodyProcessorErrorMsg err tx)"

section \<open>Frame: operations that only touch the variables\<close>

definition only_vars :: "Transaction \<Rightarrow> Transaction \<Rightarrow> bool" where
  "only_vars tx tx' \<longleftrightarrow> tx' = tx\<lparr>variables := variables tx'\<rparr>"

lemma only_vars_refl [simp, inv_intros]: "only_vars tx tx"
  by (simp add: only_vars_def)

lemma only_vars_trans [trans]:
  assumes "only_vars t1 t2" "only_vars t2 t3"
  shows "only_vars t1 t3"
proof -
  from assms have "t3 = (t1\<lparr>variables := variables t2\<rparr>)\<lparr>variables := variables t3\<rparr>"
    unfolding only_vars_def by metis
  then show ?thesis by (simp add: only_vars_def)
qed

lemma only_vars_set_var [inv_intros]: "only_vars t1 t2 \<Longrightarrow> only_vars t1 (set_var v x t2)"
  by (erule only_vars_trans) (simp add: only_vars_def set_var_def)

lemma only_vars_upd_col [inv_intros]: "only_vars t1 t2 \<Longrightarrow> only_vars t1 (upd_col v f t2)"
  by (erule only_vars_trans) (simp add: only_vars_def upd_col_def)

lemma only_vars_fold:
  assumes "\<And>x t. only_vars t1 t \<Longrightarrow> only_vars t1 (f x t)" "only_vars t1 t2"
  shows "only_vars t1 (fold f xs t2)"
  using assms(2) by (induction xs arbitrary: t2) (auto intro: assms(1))

lemma only_varsD:
  assumes "only_vars tx tx'"
  shows "interruption tx' = interruption tx" "LastPhase tx' = LastPhase tx"
    "RuleEngine tx' = RuleEngine tx" "RequestBodyLimit tx' = RequestBodyLimit tx"
    "requestBodyBuffer tx' = requestBodyBuffer tx" "ResponseBodyBuffer tx' = ResponseBodyBuffer tx"
    "ruleRemoveByID tx' = ruleRemoveByID tx" "SkipAfter tx' = SkipAfter tx" "Skip tx' = Skip tx"
    "matchedRules tx' = matchedRules tx" "transformationCache tx' = transformationCache tx"
    "audit tx' = audit tx" "ErrorLog tx' = ErrorLog tx" "Capture tx' = Capture tx"
    "AuditCleared tx' = AuditCleared tx" "AuditWrites tx' = AuditWrites tx"
    "RequestBodyAccess tx' = RequestBodyAccess tx"
  by (subst assms [unfolded only_vars_def], simp)+

lemma only_vars_add_cookie [inv_intros]: "only_vars t1 t2 \<Longrightarrow> only_vars t1 (add_cookie k vr t2)"
  unfolding add_cookie_def Let_def by (intro only_vars_fold inv_intros)

lemma only_vars_AddRequestHeader [inv_intros]:
  "only_vars t1 t2 \<Longrightarrow> only_vars t1 (AddRequestHeader ord k v t2)"
  unfolding AddRequestHeader_def Let_def
  by (simp add: inv_intros split: if_splits) (intro impI only_vars_fold inv_intros)

lemma only_vars_AddResponseHeader [inv_intros]:
  "only_vars t1 t2 \<Longrightarrow> only_vars t1 (AddResponseHeader k v t2)"
  unfolding AddResponseHeader_def Let_def by (auto intro!: inv_intros split: prod.splits)

lemma only_vars_CaptureField [inv_intros]: "only_vars t1 t2 \<Longrightarrow> only_vars t1 (CaptureField i v t2)"
  unfolding CaptureField_def by (auto intro!: inv_intros)

lemma only_vars_resetCaptures [inv_intros]: "only_vars t1 t2 \<Longrightarrow> only_vars t1 (resetCaptures t2)"
  unfolding resetCaptures_def by (intro only_vars_fold inv_intros)

lemma only_vars_tx_matchVariable [inv_intros]:
  "only_vars t1 t2 \<Longrightarrow> only_vars t1 (tx_matchVariable m t2)"
  unfolding tx_matchVariable_def Let_def by (auto intro!: inv_intros split: prod.splits)

lemma only_vars_ProcessConnection [inv_intros]:
  "only_vars t1 t2 \<Longrightarrow> only_vars t1 (ProcessConnection c p s q t2)"
  unfolding ProcessConnection_def Let_def by (intro inv_intros)

lemma only_vars_AddArgument [inv_intros]: "only_vars t1 t2 \<Longrightarrow> only_vars t1 (AddArgument a k v t2)"
  unfolding AddArgument_def Let_def by (cases a) (auto intro!: inv_intros)

lemma only_vars_ExtractArguments [inv_intros]:
  "only_vars t1 t2 \<Longrightarrow> only_vars t1 (ExtractArguments ord a q t2)"
  unfolding ExtractArguments_def Let_def by (intro only_vars_fold inv_intros)

lemma only_vars_ProcessURI [inv_intros]:
  "only_vars t1 t2 \<Longrightarrow> only_vars t1 (ProcessURI up ord u m h t2)"
  unfolding ProcessURI_def Let_def
  by (auto intro!: inv_intros split: prod.splits sum.splits)

lemma only_vars_generateReqbodyError [inv_intros]:
  "only_vars t1 t2 \<Longrightarrow> only_vars t1 (generateReqbodyError e t2)"
  unfolding generateReqbodyError_def Let_def by (intro inv_intros)

section \<open>Invariant of the variables\<close>

definition tx_wf :: "Transaction \<Rightarrow> bool" where
  "tx_wf tx \<longleftrightarrow> tv_wf (variables tx)"

lemma tx_wf_set_var [inv_intros]: "tx_wf tx \<Longrightarrow> tx_wf (set_var v x tx)"
  by (simp add: tx_wf_def set_var_def tv_wf_set_simple)

lemma tx_wf_upd_col [inv_intros]:
  "tx_wf tx \<Longrightarrow> tx_wf (upd_col v (\<lambda>m. Map_AddCS m k n x) tx)"
  "tx_wf tx \<Longrightarrow> tx_wf (upd_col v (\<lambda>m. Map_AddUniqueCS m k n x) tx)"
  "tx_wf tx \<Longrightarrow> tx_wf (upd_col v (\<lambda>m. Map_Set m k xs) tx)"
  "tx_wf tx \<Longrightarrow> tx_wf (upd_col v (\<lambda>m. Map_SetIndex m k i x) tx)"
  "tx_wf tx \<Longrightarrow> tx_wf (upd_col v (\<lambda>m. Map_Remove m k) tx)"
  "tx_wf tx \<Longrightarrow> tx_wf (upd_col v Map_Reset tx)"
  by (simp_all add: tx_wf_def upd_col_def inv_intros)

lemma tx_wf_fold:
  assumes "\<And>x t. tx_wf t \<Longrightarrow> tx_wf (f x t)" "tx_wf t"
  shows "tx_wf (fold f xs t)"
  using assms(2) by (induction xs arbitrary: t) (auto intro: assms(1))

lemma tx_wf_add_cookie [inv_intros]: "tx_wf tx \<Longrightarrow> tx_wf (add_cookie k vr tx)"
  unfolding add_cookie_def Let_def by (intro tx_wf_fold inv_intros)

lemma tx_wf_AddRequestHeader [inv_intros]: "tx_wf tx \<Longrightarrow> tx_wf (AddRequestHeader ord k v tx)"
  unfolding AddRequestHeader_def Let_def
  by (simp add: inv_intros split: if_splits) (intro impI tx_wf_fold inv_intros)

lemma tx_wf_AddResponseHeader [inv_intros]: "tx_wf tx \<Longrightarrow> tx_wf (AddResponseHeader k v tx)"
  unfolding AddResponseHeader_def Let_def by (auto intro!: inv_intros split: prod.splits)

lemma tx_wf_CaptureField [inv_intros]: "tx_wf tx \<Longrightarrow> tx_wf (CaptureField i v tx)"
  unfolding CaptureField_def by (auto intro!: inv_intros)

lemma tx_wf_resetCaptures [inv_intros]: "tx_wf tx \<Longrightarrow> tx_wf (resetCaptures tx)"
  unfolding resetCaptures_def by (intro tx_wf_fold inv_intros)

lemma tx_wf_tx_matchVariable [inv_intros]: "tx_wf tx \<Longrightarrow> tx_wf (tx_matchVariable m tx)"
  unfolding tx_matchVariable_def Let_def by (auto intro!: inv_intros split: prod.splits)

lemma tx_wf_ProcessConnection [inv_intros]: "tx_wf tx \<Longrightarrow> tx_wf (ProcessConnection c p s q tx)"
  unfolding ProcessConnection_def Let_def by (intro inv_intros)

lemma tx_wf_AddArgument [inv_intros]: "tx_wf tx \<Longrightarrow> tx_wf (AddArgument a k v tx)"
  unfolding AddArgument_def Let_def by (cases a) (auto intro!: inv_intros)

lemma tx_wf_ExtractArguments [inv_intros]: "tx_wf tx \<Longrightarrow> tx_wf (ExtractArguments ord a q tx)"
  unfolding ExtractArguments_def Let_def by (intro tx_wf_fold inv_intros)

lemma tx_wf_ProcessURI [inv_intros]: "tx_wf tx \<Longrightarrow> tx_wf (ProcessURI up ord u m h tx)"
  unfolding ProcessURI_def Let_def by (auto intro!: inv_intros split: prod.splits sum.splits)

lemma tx_wf_generateReqbodyError [inv_intros]: "tx_wf tx \<Longrightarrow> tx_wf (generateReqbodyError e tx)"
  unfolding generateReqbodyError_def Let_def by (intro inv_intros)

lemma tx_wf_update [simp]:
  "tx_wf (tx\<lparr>interruption := i\<rparr>) = tx_wf tx" "tx_wf (tx\<lparr>LastPhase := p\<rparr>) = tx_wf tx"
  "tx_wf (tx\<lparr>SkipAfter := s\<rparr>) = tx_wf tx" "tx_wf (tx\<lparr>Skip := n\<rparr>) = tx_wf tx"
  "tx_wf (tx\<lparr>Capture := b\<rparr>) = tx_wf tx" "tx_wf (tx\<lparr>transformationCache := c\<rparr>) = tx_wf tx"
  "tx_wf (tx\<lparr>requestBodyBuffer := bb\<rparr>) = tx_wf tx" "tx_wf (tx\<lparr>ResponseBodyBuffer := bb\<rparr>) = tx_wf tx"
  "tx_wf (tx\<lparr>matchedRules := mrs\<rparr>) = tx_wf tx" "tx_wf (tx\<lparr>audit := b\<rparr>) = tx_wf tx"
  "tx_wf (tx\<lparr>ErrorLog := mrs\<rparr>) = tx_wf tx" "tx_wf (tx\<lparr>Logdata := s\<rparr>) = tx_wf tx"
  "tx_wf (tx\<lparr>AuditCleared := ps\<rparr>) = tx_wf tx" "tx_wf (tx\<lparr>ruleRemoveByID := ids\<rparr>) = tx_wf tx"
  "tx_wf (tx\<lparr>ruleRemoveTargetByID := tg\<rparr>) = tx_wf tx" "tx_wf (tx\<lparr>RuleEngine := re\<rparr>) = tx_wf tx"
  "tx_wf (tx\<lparr>AuditEngine := ae\<rparr>) = tx_wf tx" "tx_wf (tx\<lparr>AuditLogParts := s\<rparr>) = tx_wf tx"
  "tx_wf (tx\<lparr>ForceRequestBodyVariable := b\<rparr>) = tx_wf tx"
  "tx_wf (tx\<lparr>RequestBodyAccess := b\<rparr>) = tx_wf tx" "tx_wf (tx\<lparr>RequestBodyLimit := n\<rparr>) = tx_wf tx"
  "tx_wf (tx\<lparr>AuditWrites := k\<rparr>) = tx_wf tx"
  by (simp_all add: tx_wf_def)

lemma tx_wf_Interrupt [inv_intros]: "tx_wf tx \<Longrightarrow> tx_wf (Interrupt it tx)"
  by (simp add: Interrupt_def)

lemma tx_wf_RemoveRuleTargetByID [inv_intros]: "tx_wf tx \<Longrightarrow> tx_wf (RemoveRuleTargetByID i v k tx)"
  by (simp add: RemoveRuleTargetByID_def)

lemma tx_wf_RemoveRuleByID [inv_intros]: "tx_wf tx \<Longrightarrow> tx_wf (RemoveRuleByID i tx)"
  by (simp add: RemoveRuleByID_def)

section \<open>Lookups after updates\<close>

lemma var_set_var [simp]: "var (set_var v x tx) w = (if w = v then x else var tx w)"
  by (simp add: set_var_def)

lemma col_set_var [simp]: "col (set_var v x tx) = col tx"
  by (simp add: set_var_def)

lemma var_upd_col [simp]: "var (upd_col v f tx) w = var tx w"
  by (simp add: upd_col_def)

lemma col_upd_col [simp]: "col (upd_col v f tx) w = (if w = v then f (col tx w) else col tx w)"
  by (simp add: upd_col_def)

lemma col_fold_upd_other:
  assumes "\<And>x t. col (f x t) w = col t w"
  shows "col (fold f xs tx) w = col tx w"
  by (induction xs arbitrary: tx) (simp_all add: assms)

lemma Map_Get_AddCS [simp]:
  "Map_Get (Map_AddCS m k n v) k' = (if k' = k then Map_Get m k @ [v] else Map_Get m k')"
  by (simp add: Map_Get_def Map_AddCS_def)

section \<open>GetField and the exceptions\<close>

definition kept :: "ruleVariableException list \<Rightarrow> MatchData \<Rightarrow> bool" where
  "kept exs c \<longleftrightarrow> excepted exs c = []"

lemma remove_matches:
  assumes "\<forall>c\<in>set cs. length (excepted exs c) \<le> 1" "length ps = n"
  shows "foreach (rev (removal_indices n exs cs)) remove_match (ps @ cs)
    = Some (ps @ filter (kept exs) cs)"
  using assms
proof (induction n exs cs arbitrary: ps rule: removal_indices.induct)
  case (1 i exs)
  then show ?case by simp
next
  case (2 i exs c cs)
  have IH: "foreach (rev (removal_indices (Suc i) exs cs)) remove_match (ps @ c # cs)
      = Some (ps @ c # filter (kept exs) cs)"
    using "2.IH" [of "ps @ [c]"] "2.prems" by simp
  have "length (excepted exs c) \<le> 1" using "2.prems" by simp
  then consider "excepted exs c = []" | "length (excepted exs c) = 1"
    by (metis length_0_conv less_one nat_less_le)
  then show ?case
  proof cases
    case 1
    then have "kept exs c" by (simp add: kept_def)
    with 1 show ?thesis by (simp add: IH)
  next
    case 2
    then have "\<not> kept exs c" by (auto simp: kept_def)
    moreover have "remove_match i (ps @ c # filter (kept exs) cs) = Some (ps @ filter (kept exs) cs)"
      using "2.prems" by (simp add: remove_match_def)
    ultimately show ?thesis using 2 by (simp add: foreach_append IH)
  qed
qed

section \<open>Arguments\<close>

lemma Map_Get_fold_AddArgument:
  "Map_Get (col (fold (\<lambda>v. AddArgument ArgumentGET k v) vs tx) ArgsGet) k'
     = Map_Get (col tx ArgsGet) k' @ (if ToLower k = k' then vs else [])"
  by (induction vs arbitrary: tx) (auto simp: AddArgument_def)

lemma Map_Get_fold_arguments:
  "Map_Get (col (fold (\<lambda>k. fold (\<lambda>v. AddArgument ArgumentGET k v) (vals k)) ks tx) ArgsGet) k'
     = Map_Get (col tx ArgsGet) k' @ concat (map vals (filter (\<lambda>k. ToLower k = k') ks))"
  by (induction ks arbitrary: tx) (auto simp: Map_Get_fold_AddArgument)

lemma parse_query_loop_keys:
  "set (map fst (parse_query_loop q sep m)) = set (map fst m) \<union> fst ` set (query_fields q sep) \<and>
   (distinct (map fst m) \<longrightarrow> distinct (map fst (parse_query_loop q sep m)))"
proof (induction q sep m rule: parse_query_loop.induct)
  case (1 q sep m)
  obtain key rest where nf: "next_field q sep = (key, rest)" by fastforce
  obtain k1 v1 where sf: "split_field key = (k1, v1)" by fastforce
  show ?case
  proof (cases "q = []")
    case True
    then show ?thesis by (simp add: parse_query_loop.simps [of "[]"])
  next
    case False
    note step = parse_query_loop.simps [of q sep m]
    show ?thesis
    proof (cases "key = []")
      case True
      with False nf "1.IH"(1) [OF False nf [symmetric] refl True] show ?thesis
        by (simp add: step query_fields_next [OF nf False])
    next
      case key: False
      from "1.IH"(2) [OF False nf [symmetric] refl key sf [symmetric] refl] False nf key sf
      show ?thesis
        by (auto simp: step query_fields_next [OF nf False] dom_update distinct_update)
    qed
  qed
qed

lemma ParseQuery_keys:
  "set (map fst (ParseQuery q sep)) = fst ` set (query_fields q sep)"
  "distinct (map fst (ParseQuery q sep))"
  using parse_query_loop_keys [of q sep "[]"] by (simp_all add: ParseQuery_def)

text \<open>Grouping the fields of a list by key and concatenating the groups gives the list back, as a multiset.\<close>

lemma mset_group:
  assumes "distinct ks" "fst ` set fs \<subseteq> set ks"
  shows "mset (concat (map (\<lambda>k. map snd (filter (\<lambda>(k', _). k' = k) fs)) (filter P ks)))
    = mset (map snd (filter (\<lambda>(k, _). P k) fs))"
  using assms
proof (induction fs)
  case Nil
  then show ?case by (induction ks) auto
next
  case (Cons f fs)
  obtain k v where f: "f = (k, v)" by (cases f)
  have split: "mset (concat (map (\<lambda>k'. map snd (filter (\<lambda>(k1, _). k1 = k') ((k, v) # fs))) ks'))
      = mset (concat (map (\<lambda>k'. map snd (filter (\<lambda>(k1, _). k1 = k') fs)) ks'))
        + (if k \<in> set ks' then {#v#} else {#})" if "distinct ks'" for ks'
    using that by (induction ks') auto
  have "k \<in> set (filter P ks) \<longleftrightarrow> P k" using Cons.prems f by auto
  then show ?case
    using Cons split [of "filter P ks"] by (simp add: f)
qed

section \<open>Properties\<close>

text \<open>A transaction with empty variables, for the witnesses.\<close>

definition blank_tx :: Transaction where
  "blank_tx = \<lparr>tx_id = ''id'', matchedRules = [], interruption = None, Logdata = [], SkipAfter = [],
     AuditEngine = AuditEngineOff, AuditLogParts = [], ForceRequestBodyVariable = False,
     RequestBodyAccess = True, RequestBodyLimit = 4, ResponseBodyAccess = False,
     ResponseBodyLimit = 4, RuleEngine = RuleEngineOn, HashEngine = False, HashEnforcement = False,
     LastPhase = 0, requestBodyBuffer = NewBodyBuffer \<lparr>TmpPath = [], MemoryLimit = 2\<rparr>,
     ResponseBodyBuffer = NewBodyBuffer \<lparr>TmpPath = [], MemoryLimit = 2\<rparr>,
     ruleRemoveByID = [], ruleRemoveTargetByID = (\<lambda>_. []), Skip = 0, Capture = False,
     audit = False, variables = NewTransactionVariables, transformationCache = (\<lambda>_. None),
     AuditCleared = [], ErrorLog = [], AuditWrites = 0\<rparr>"

lemma tx_wf_blank: "tx_wf blank_tx"
  by (simp add: tx_wf_def blank_tx_def tv_wf_New)

lemma Map_Get_blank [simp]: "Map_Get (col blank_tx v) k = []"
  by (simp add: blank_tx_def NewTransactionVariables_def NewMap_def Map_Get_def)

text \<open>
  C27. When at most one exception applies to each match, \<open>GetField\<close> returns the matches of
  the target's collection that no exception names, in their order, or their number when the
  target asks for a count; the index arithmetic of the removal loop does not panic.
\<close>

theorem GetField_exceptions:
  assumes "tx_Collection (variables tx) (rv_Variable rv) = Some c"
    and "\<forall>m\<in>set (find_matches ord c rv). length (excepted (rv_Exceptions rv) m) \<le> 1"
  shows "GetField ord rv tx =
    (let ms = filter (kept (rv_Exceptions rv)) (find_matches ord c rv) in
     Some (if rv_Count rv then [count_match rv (length ms)] else ms))"
  using remove_matches [OF assms(2), of "[]" 0] by (simp add: GetField_def assms(1) Let_def)

definition args_tx :: Transaction where
  "args_tx = AddArgument ArgumentGET ''b'' ''2'' (AddArgument ArgumentGET ''a'' ''1'' blank_tx)"

definition target_of :: "RuleVariable \<Rightarrow> string list \<Rightarrow> ruleVariableParams" where
  "target_of v exs = \<lparr>rv_Name = [], rv_Count = False, rv_Variable = v, rv_KeyRx = None, rv_KeyStr = [],
     rv_Exceptions = map (\<lambda>k. \<lparr>ex_KeyStr = k, ex_KeyRx = None\<rparr>) exs\<rparr>"

lemma ToLower_ab: "ToLower ''a'' = ''a''" "ToLower ''b'' = ''b''"
  by (simp_all add: ToLower_def is_ascii_def lower_ascii_def in_range_def)

lemma target_of_Collection:
  "tx_Collection tv (rv_Variable (target_of ArgsGet exs)) = Some (CMap (tv_map tv ArgsGet))"
  by (simp add: target_of_def tx_Collection_def simple_variables_def map_variables_def)

lemma find_args_tx: "find_matches (\<lambda>ks. ks) (CMap (col args_tx ArgsGet)) (target_of ArgsGet exs) =
  [anchored_match (NewMap ArgsGet) \<lparr>av_Name = ''a'', av_Value = ''1''\<rparr>,
   anchored_match (NewMap ArgsGet) \<lparr>av_Name = ''b'', av_Value = ''2''\<rparr>]"
  by (simp add: find_matches_def target_of_def args_tx_def AddArgument_def ToLower_ab blank_tx_def
      NewTransactionVariables_def upd_col_def Map_AddCS_def Map_FindAll_def map_get_def
      anchored_match_def NewMap_def)

theorem GetField_exceptions_witness:
  "GetField (\<lambda>ks. ks) (target_of ArgsGet [''a'']) args_tx
     = Some [anchored_match (NewMap ArgsGet) \<lparr>av_Name = ''b'', av_Value = ''2''\<rparr>]"
  using GetField_exceptions [OF target_of_Collection, of "\<lambda>ks. ks" args_tx "[''a'']"]
  by (simp add: find_args_tx)
    (simp add: target_of_def kept_def excepted_def anchored_match_def ToLower_ab)

text \<open>
  When the only match of a target is named by two exceptions (for instance one written in
  the rule and one added by \<^verbatim>\<open>ctl:ruleRemoveTargetById\<close>), its index is removed
  twice and the second removal slices to a negative length: \<open>GetField\<close> panics.
\<close>

theorem GetField_double_exception:
  assumes "tx_Collection (variables tx) (rv_Variable rv) = Some c"
    and "find_matches ord c rv = [m]" "length (excepted (rv_Exceptions rv) m) = 2"
  shows "GetField ord rv tx = None"
  using assms by (simp add: GetField_def remove_match_def numeral_2_eq_2)

theorem GetField_double_exception_witness:
  "GetField (\<lambda>ks. ks) (target_of ArgsGet [''a'', ''A'']) (AddArgument ArgumentGET ''a'' ''1'' blank_tx) = None"
proof -
  have f: "find_matches (\<lambda>ks. ks) (CMap (col (AddArgument ArgumentGET ''a'' ''1'' blank_tx) ArgsGet))
      (target_of ArgsGet [''a'', ''A''])
      = [anchored_match (NewMap ArgsGet) \<lparr>av_Name = ''a'', av_Value = ''1''\<rparr>]"
    by (simp add: find_matches_def target_of_def AddArgument_def ToLower_ab blank_tx_def
      NewTransactionVariables_def upd_col_def Map_AddCS_def Map_FindAll_def map_get_def
      anchored_match_def NewMap_def)
  from GetField_double_exception [OF target_of_Collection f] show ?thesis
    by (simp add: target_of_def excepted_def anchored_match_def ToLower_ab)
      (simp add: ToLower_def is_ascii_def lower_ascii_def in_range_def char_of_def bit_Suc_0_iff)
qed

text \<open>
  C39. \<open>ExtractArguments\<close> adds to ARGS_GET, under the lower-case key, exactly the decoded
  values of the query string's fields whose key has that lower-case form, each as often as it
  occurs, whatever the order in which the parsed map is ranged over.
\<close>

theorem ExtractArguments_values:
  assumes "range_order ord"
  shows "mset (Map_Get (col (ExtractArguments ord ArgumentGET q tx) ArgsGet) k) =
    mset (Map_Get (col tx ArgsGet) k) +
    mset (map snd (filter (\<lambda>(k', _). ToLower k' = k) (query_fields q (CHR ''&''))))"
proof -
  let ?fs = "query_fields q (CHR ''&'')"
  let ?ks = "ord (map fst (ParseQuery q (CHR ''&'')))"
  have vals: "map_get (ParseQuery q (CHR ''&'')) k' = map snd (filter (\<lambda>(k1, _). k1 = k') ?fs)" for k'
    by (simp add: ParseQuery_def parse_query_loop_get)
  have "distinct ?ks" "fst ` set ?fs \<subseteq> set ?ks"
    using range_order_distinct [OF assms ParseQuery_keys(2)] range_order_set [OF assms]
      ParseQuery_keys(1) [of q "CHR ''&''"] by auto
  from mset_group [OF this] show ?thesis
    by (simp add: ExtractArguments_def Map_Get_fold_arguments vals)
qed

theorem ExtractArguments_values_witness:
  "mset (Map_Get (col (ExtractArguments rev ArgumentGET ''a=1&b=2&a=3'' blank_tx) ArgsGet) ''a'')
     = {#''1'', ''3''#}"
proof -
  have "range_order rev" by (simp add: range_order_def)
  moreover have "query_fields ''a=1&b=2&a=3'' (CHR ''&'')
      = [(''a'', ''1''), (''b'', ''2''), (''a'', ''3'')]"
    by (simp add: query_fields_def split_field_def QueryUnescape_other)
  ultimately show ?thesis
    using ExtractArguments_values [of rev "''a=1&b=2&a=3''" blank_tx "''a''"]
    by (simp add: ToLower_ab)
qed

text \<open>
  Adding a GET or POST argument makes ARGS_COMBINED_SIZE grow by the length of the value.
\<close>

theorem AddArgument_combined_size:
  assumes "tx_wf tx" "a = ArgumentGET \<or> a = ArgumentPOST"
  shows "SizeProxy_Size (argsCombinedSize (variables (AddArgument a k v tx)))
    = SizeProxy_Size (argsCombinedSize (variables tx)) + int (length v)"
proof -
  have "Map_wf (col tx w)" for w using assms(1) by (simp add: tx_wf_def tv_wf_def)
  from assms(2) show ?thesis
    by (auto simp: SizeProxy_Size_eq argsCombinedSize_def NewProxy_def AddArgument_def
        Map_size_AddCS \<open>Map_wf (col tx _)\<close>)
qed

theorem AddArgument_combined_size_witness:
  "SizeProxy_Size (argsCombinedSize (variables (AddArgument ArgumentPOST ''k'' ''abc'' blank_tx))) = 3"
  using AddArgument_combined_size [OF tx_wf_blank, of ArgumentPOST "''k''" "''abc''"]
  by (simp add: SizeProxy_Size_eq argsCombinedSize_def NewProxy_def blank_tx_def
      NewTransactionVariables_def NewMap_def Map_size_def)

text \<open>
  After \<open>AddRequestHeader\<close> the values of REQUEST_HEADERS under the lower-case name are
  the previous ones followed by the new value, and every other header is as before, also for
  the headers that set the body processor or the cookies.
\<close>

theorem AddRequestHeader_lookup:
  assumes "key \<noteq> []"
  shows "Map_Get (col (AddRequestHeader ord key value tx) RequestHeaders) k =
    Map_Get (col tx RequestHeaders) k @ (if k = ToLower key then [value] else [])"
proof -
  have "col (add_cookie k' vr t) RequestHeaders = col t RequestHeaders" for k' vr t
    unfolding add_cookie_def Let_def by (subst col_fold_upd_other) simp_all
  then have "col (fold (\<lambda>k. add_cookie k (f k)) ks t) RequestHeaders = col t RequestHeaders" for f ks t
    by (rule col_fold_upd_other)
  with assms show ?thesis by (auto simp: AddRequestHeader_def Let_def)
qed

theorem AddRequestHeader_lookup_witness:
  "Map_Get (col (AddRequestHeader (\<lambda>ks. ks) ''Cookie'' ''a=b'' blank_tx) RequestHeaders) ''cookie'' = [''a=b'']"
  using AddRequestHeader_lookup [of "''Cookie''" "\<lambda>ks. ks" "''a=b''" blank_tx "''cookie''"]
  by (simp add: ToLower_def is_ascii_def lower_ascii_def in_range_def char_of_def bit_Suc_0_iff)

end
