(* ===== verification/Operators.thy ===== *)
theory Operators
  imports Transaction Transform_Decode
begin

text \<open>
  The package \<^verbatim>\<open>operators\<close> (src/operators): the factories that build an operator
  from its argument and the evaluation of each operator against a value. Operators may capture
  fields of the transaction, so the evaluation returns the transaction as well.

  What lies outside the sources is the parameter \<open>libs\<close>: the regular expression compiler,
  the Aho-Corasick matcher (the matches it iterates over, as start and end positions),
  libinjection, the CIDR parser (a subnet is the predicate "contains the address parsed from
  this string"), the resolver and the execution of a command.
\<close>

section \<open>Libraries and options\<close>

record libs =
  regexp_Compile :: "string \<Rightarrow> string + Regexp"
  aho_Build :: "string list \<Rightarrow> string \<Rightarrow> (nat \<times> nat) list"
  IsSQLi :: "string \<Rightarrow> bool \<times> string"
  IsXSS :: "string \<Rightarrow> bool"
  ParseCIDR :: "string \<Rightarrow> (string \<Rightarrow> bool) option"
  run_command :: "string \<Rightarrow> string \<Rightarrow> bool"
  LookupHost :: "string \<Rightarrow> string list option"
  LookupTXT :: "string \<Rightarrow> string list option"
  lookup_timeout :: "string \<Rightarrow> bool"

datatype read_result = Content string | NotExist | ReadError string

record OperatorOptions =
  Arguments :: string
  Path :: "string list"
  Root :: "string \<Rightarrow> read_result"
  Datasets :: "(string \<times> string list) list"

section \<open>Operators\<close>

datatype nid_fn = NidCl | NidUs

datatype operator =
    op_beginsWith macro
  | op_contains macro
  | op_detectSQLi
  | op_detectXSS
  | op_endsWith macro
  | op_eq macro
  | op_ge macro
  | op_gt macro
  | op_inspectFile string
  | op_ipMatch "(string \<Rightarrow> bool) list"
  | op_le macro
  | op_lt macro
  | op_noMatch
  | op_pm "string \<Rightarrow> (nat \<times> nat) list"
  | op_rbl string
  | op_restpath Regexp
  | op_rx Regexp
  | op_streq macro
  | op_unconditionalMatch
  | op_validateByteRange "bool list"
  | op_validateNid nid_fn Regexp
  | op_validateURLEncoding
  | op_validateUtf8Encoding
  | op_within macro

section \<open>Evaluation\<close>

text \<open>\<open>pmEvaluate\<close>: without capturing one match is enough; with it, up to ten are stored.\<close>

definition slice :: "string \<Rightarrow> nat \<Rightarrow> nat \<Rightarrow> string go" where
  "slice s a b = (if a \<le> b \<and> b \<le> length s then Some (take (b - a) (drop a s)) else None)"

fun pm_capture :: "nat \<Rightarrow> string \<Rightarrow> (nat \<times> nat) list \<Rightarrow> Transaction \<Rightarrow> (bool \<times> Transaction) go" where
  "pm_capture numMatches value [] tx = Some (numMatches > 0, tx)"
| "pm_capture numMatches value ((a, b) # ms) tx =
     do { f \<leftarrow> slice value a b;
          let tx = CaptureField (int numMatches) f tx;
          if numMatches + 1 = 10 then Some (True, tx)
          else pm_capture (numMatches + 1) value ms tx }"

definition pmEvaluate :: "(string \<Rightarrow> (nat \<times> nat) list) \<Rightarrow> Transaction \<Rightarrow> string \<Rightarrow>
    (bool \<times> Transaction) go" where
  "pmEvaluate matcher tx value =
     (if \<not> Capture tx then Some (matcher value \<noteq> [], tx)
      else pm_capture 0 value (matcher value) tx)"

text \<open>The loop of \<open>rx\<close> over the submatches stops at index 9.\<close>

fun rx_capture :: "nat \<Rightarrow> string list \<Rightarrow> Transaction \<Rightarrow> Transaction" where
  "rx_capture i [] tx = tx"
| "rx_capture i (c # cs) tx = (if i = 9 then tx else rx_capture (i + 1) cs (CaptureField (int i) c tx))"

definition rxEvaluate :: "Regexp \<Rightarrow> Transaction \<Rightarrow> string \<Rightarrow> bool \<times> Transaction" where
  "rxEvaluate re tx value =
     (if Capture tx then
        let match = FindStringSubmatch re value in
        if match = [] then (False, tx) else (True, rx_capture 0 match tx)
      else (MatchString re value, tx))"

fun restpath_args :: "nat \<Rightarrow> string list \<Rightarrow> string list \<Rightarrow> Transaction \<Rightarrow> Transaction go" where
  "restpath_args i [] match tx = Some tx"
| "restpath_args i (m # ms) match tx =
     (if i \<noteq> 0 \<and> m \<noteq> [] then
        if i < length match
        then restpath_args (i + 1) ms match (upd_col ArgsPath (\<lambda>c. Map_SetIndex c m 0 (match ! i)) tx)
        else None
      else restpath_args (i + 1) ms match tx)"

definition restpathEvaluate :: "Regexp \<Rightarrow> Transaction \<Rightarrow> string \<Rightarrow> (bool \<times> Transaction) go" where
  "restpathEvaluate re tx value =
     (let match = FindStringSubmatch re value in
      if match = [] then Some (False, tx)
      else map_option (\<lambda>tx. (True, tx)) (restpath_args 0 (SubexpNames re) match tx))"

text \<open>
  On a timeout the goroutine of \<open>rbl\<close> may still run and set TX:httpbl_msg later; a lookup that timed out is
  taken to leave the transaction alone.
\<close>

definition rblEvaluate :: "libs \<Rightarrow> string \<Rightarrow> Transaction \<Rightarrow> string \<Rightarrow> bool \<times> Transaction" where
  "rblEvaluate lb service tx ipAddr =
     (let addr = ipAddr @ ''.'' @ service in
      if lookup_timeout lb addr then (False, tx)
      else case LookupHost lb addr of
        None \<Rightarrow> (False, tx)
      | Some res \<Rightarrow>
          if res \<noteq> [] then
            (case LookupTXT lb addr of
               None \<Rightarrow> (False, tx)
             | Some [] \<Rightarrow> (True, tx)
             | Some (status # _) \<Rightarrow>
                 (True, CaptureField 0 status (upd_col TX (\<lambda>m. Map_Set m ''httpbl_msg'' [status]) tx)))
          else (True, tx))"

fun byteRangeEvaluate :: "bool list \<Rightarrow> string \<Rightarrow> bool" where
  "byteRangeEvaluate validBytes [] = False"
| "byteRangeEvaluate validBytes (c # cs) =
     (if \<not> validBytes ! byte c then True else byteRangeEvaluate validBytes cs)"

fun validateURLEncodingInternal :: "string \<Rightarrow> int" where
  "validateURLEncodingInternal [] = 1"
| "validateURLEncodingInternal (c # rest) =
     (if c = CHR ''%'' then
        (case rest of
           c1 # c2 # rest' \<Rightarrow>
             if ValidHex c1 \<and> ValidHex c2 then validateURLEncodingInternal rest' else -2
         | _ \<Rightarrow> -3)
      else validateURLEncodingInternal rest)"

definition validateURLEncodingEvaluate :: "string \<Rightarrow> bool" where
  "validateURLEncodingEvaluate value =
     (if value = [] then False else validateURLEncodingInternal value \<noteq> 1)"

text \<open>The check digit loop of \<open>nidCl\<close> over the decimal digits of \<open>rut\<close>.\<close>

function nid_sum :: "nat \<Rightarrow> int \<Rightarrow> int \<Rightarrow> int" where
  "nid_sum rut factor acc =
     (if rut = 0 then acc
      else nid_sum (rut div 10) (if factor = 7 then 2 else factor + 1)
             (acc + int (rut mod 10) * factor))"
  by pat_completeness auto
termination
  by (relation "measure (\<lambda>(rut, _, _). rut)") auto

declare nid_sum.simps [simp del]

definition is_digit :: "char \<Rightarrow> bool" where
  "is_digit c \<longleftrightarrow> in_range (CHR ''0'') (CHR ''9'') c"

text \<open>After the regular expression removed everything else, no digit may be left: a panic.\<close>

definition nidCl :: "string \<Rightarrow> bool go" where
  "nidCl nid =
     (if length nid < 8 then Some False
      else
        let nid = filter (\<lambda>c. is_digit c \<or> c = CHR ''k'') (ToLower nid) in
        if nid = [] then None
        else
          let rut = nat (atoi_val (butlast nid));
              dv = [last nid];
              val = nid_sum rut 2 0 mod 11;
              ndv = (if val = 0 then ''0'' else if val = 1 then ''k'' else Itoa (11 - val))
          in Some (ndv = dv))"

fun nid_flags :: "bool \<Rightarrow> bool \<Rightarrow> int \<Rightarrow> string \<Rightarrow> bool \<times> bool" where
  "nid_flags sequence equals prev [] = (sequence, equals)"
| "nid_flags sequence equals prev (d # ds) =
     (let curr = int (byte d) - 48 in
      nid_flags (if curr \<noteq> prev + 1 then False else sequence)
        (if prev \<noteq> curr then False else equals) curr ds)"

definition nidUs :: "string \<Rightarrow> bool" where
  "nidUs nid =
     (let nid = filter is_digit nid in
      if length nid < 9 then False
      else
        let area = atoi_val (take 3 nid);
            group = atoi_val (take 2 (drop 3 nid));
            serial = atoi_val (take 4 (drop 5 nid))
        in if area = 0 \<or> group = 0 \<or> serial = 0 \<or> area \<ge> 740 \<or> area = 666 then False
           else
             let (sequence, equals) = nid_flags True True (int (byte (hd nid)) - 48) (tl nid)
             in \<not> (sequence \<or> equals))"

fun nid_call :: "nid_fn \<Rightarrow> string \<Rightarrow> bool go" where
  "nid_call NidCl m = nidCl m"
| "nid_call NidUs m = Some (nidUs m)"

fun validateNidEvaluate :: "nid_fn \<Rightarrow> nat \<Rightarrow> string list list \<Rightarrow> bool \<Rightarrow> Transaction \<Rightarrow>
    (bool \<times> Transaction) go" where
  "validateNidEvaluate fn i [] res tx = Some (res, tx)"
| "validateNidEvaluate fn i (m # ms) res tx =
     (if i \<ge> 10 then Some (res, tx)
      else
        case m of
          [] \<Rightarrow> None
        | m0 # _ \<Rightarrow>
            do { r \<leftarrow> nid_call fn m0;
                 if r then validateNidEvaluate fn (i + 1) ms True (CaptureField (int i) m0 tx)
                 else validateNidEvaluate fn (i + 1) ms res tx })"

text \<open>The operators that only compare the value with an expanded macro, and the ones without a loop.\<close>

definition beginsWith_Evaluate :: "macro \<Rightarrow> Transaction \<Rightarrow> string \<Rightarrow> bool" where
  [simp]: "beginsWith_Evaluate m tx value = HasPrefix value (Expand (variables tx) m)"

definition contains_Evaluate :: "macro \<Rightarrow> Transaction \<Rightarrow> string \<Rightarrow> bool" where
  [simp]: "contains_Evaluate m tx value = Contains value (Expand (variables tx) m)"

definition endsWith_Evaluate :: "macro \<Rightarrow> Transaction \<Rightarrow> string \<Rightarrow> bool" where
  [simp]: "endsWith_Evaluate m tx value = HasSuffix value (Expand (variables tx) m)"

definition eq_Evaluate :: "macro \<Rightarrow> Transaction \<Rightarrow> string \<Rightarrow> bool" where
  [simp]: "eq_Evaluate m tx value = (atoi_val (Expand (variables tx) m) = atoi_val value)"

definition ge_Evaluate :: "macro \<Rightarrow> Transaction \<Rightarrow> string \<Rightarrow> bool" where
  [simp]: "ge_Evaluate m tx value = (atoi_val value \<ge> atoi_val (Expand (variables tx) m))"

definition gt_Evaluate :: "macro \<Rightarrow> Transaction \<Rightarrow> string \<Rightarrow> bool" where
  [simp]: "gt_Evaluate m tx value = (atoi_val (Expand (variables tx) m) < atoi_val value)"

definition le_Evaluate :: "macro \<Rightarrow> Transaction \<Rightarrow> string \<Rightarrow> bool" where
  [simp]: "le_Evaluate m tx value = (atoi_val value \<le> atoi_val (Expand (variables tx) m))"

definition lt_Evaluate :: "macro \<Rightarrow> Transaction \<Rightarrow> string \<Rightarrow> bool" where
  [simp]: "lt_Evaluate m tx value = (atoi_val value < atoi_val (Expand (variables tx) m))"

definition streq_Evaluate :: "macro \<Rightarrow> Transaction \<Rightarrow> string \<Rightarrow> bool" where
  [simp]: "streq_Evaluate m tx value = (Expand (variables tx) m = value)"

definition within_Evaluate :: "macro \<Rightarrow> Transaction \<Rightarrow> string \<Rightarrow> bool" where
  [simp]: "within_Evaluate m tx value = Contains (Expand (variables tx) m) value"

definition detectSQLi_Evaluate :: "libs \<Rightarrow> Transaction \<Rightarrow> string \<Rightarrow> bool \<times> Transaction" where
  [simp]: "detectSQLi_Evaluate lb tx value = (let (res, fingerprint) = IsSQLi lb value in
      if \<not> res then (False, tx) else (True, CaptureField 0 fingerprint tx))"

definition detectXSS_Evaluate :: "libs \<Rightarrow> Transaction \<Rightarrow> string \<Rightarrow> bool" where
  [simp]: "detectXSS_Evaluate lb tx value = IsXSS lb value"

definition inspectFile_Evaluate :: "libs \<Rightarrow> string \<Rightarrow> Transaction \<Rightarrow> string \<Rightarrow> bool" where
  [simp]: "inspectFile_Evaluate lb path tx value = run_command lb path value"

definition ipMatch_Evaluate :: "(string \<Rightarrow> bool) list \<Rightarrow> Transaction \<Rightarrow> string \<Rightarrow> bool" where
  [simp]: "ipMatch_Evaluate subnets tx value = (\<exists>subnet\<in>set subnets. subnet value)"

definition noMatch_Evaluate :: "Transaction \<Rightarrow> string \<Rightarrow> bool" where
  [simp]: "noMatch_Evaluate tx value = False"

definition unconditionalMatch_Evaluate :: "Transaction \<Rightarrow> string \<Rightarrow> bool" where
  [simp]: "unconditionalMatch_Evaluate tx value = True"

definition validateUtf8Encoding_Evaluate :: "Transaction \<Rightarrow> string \<Rightarrow> bool" where
  [simp]: "validateUtf8Encoding_Evaluate tx value = (\<not> ValidString value)"

fun operator_Evaluate :: "libs \<Rightarrow> operator \<Rightarrow> Transaction \<Rightarrow> string \<Rightarrow> (bool \<times> Transaction) go" where
  "operator_Evaluate lb (op_beginsWith m) tx value = Some (beginsWith_Evaluate m tx value, tx)"
| "operator_Evaluate lb (op_contains m) tx value = Some (contains_Evaluate m tx value, tx)"
| "operator_Evaluate lb (op_endsWith m) tx value = Some (endsWith_Evaluate m tx value, tx)"
| "operator_Evaluate lb (op_eq m) tx value = Some (eq_Evaluate m tx value, tx)"
| "operator_Evaluate lb (op_ge m) tx value = Some (ge_Evaluate m tx value, tx)"
| "operator_Evaluate lb (op_gt m) tx value = Some (gt_Evaluate m tx value, tx)"
| "operator_Evaluate lb (op_le m) tx value = Some (le_Evaluate m tx value, tx)"
| "operator_Evaluate lb (op_lt m) tx value = Some (lt_Evaluate m tx value, tx)"
| "operator_Evaluate lb (op_streq m) tx value = Some (streq_Evaluate m tx value, tx)"
| "operator_Evaluate lb (op_within m) tx value = Some (within_Evaluate m tx value, tx)"
| "operator_Evaluate lb op_detectSQLi tx value = Some (detectSQLi_Evaluate lb tx value)"
| "operator_Evaluate lb op_detectXSS tx value = Some (detectXSS_Evaluate lb tx value, tx)"
| "operator_Evaluate lb (op_inspectFile path) tx value = Some (inspectFile_Evaluate lb path tx value, tx)"
| "operator_Evaluate lb (op_ipMatch subnets) tx value = Some (ipMatch_Evaluate subnets tx value, tx)"
| "operator_Evaluate lb op_noMatch tx value = Some (noMatch_Evaluate tx value, tx)"
| "operator_Evaluate lb op_unconditionalMatch tx value = Some (unconditionalMatch_Evaluate tx value, tx)"
| "operator_Evaluate lb op_validateUtf8Encoding tx value = Some (validateUtf8Encoding_Evaluate tx value, tx)"
| "operator_Evaluate lb (op_pm matcher) tx value = pmEvaluate matcher tx value"
| "operator_Evaluate lb (op_rbl service) tx value = Some (rblEvaluate lb service tx value)"
| "operator_Evaluate lb (op_restpath re) tx value = restpathEvaluate re tx value"
| "operator_Evaluate lb (op_rx re) tx value = Some (rxEvaluate re tx value)"
| "operator_Evaluate lb (op_validateByteRange validBytes) tx value =
     Some (byteRangeEvaluate validBytes value, tx)"
| "operator_Evaluate lb (op_validateNid fn re) tx value =
     validateNidEvaluate fn 0 (FindAllStringSubmatch re value 11) False tx"
| "operator_Evaluate lb op_validateURLEncoding tx value = Some (validateURLEncodingEvaluate value, tx)"

section \<open>Factories\<close>

text \<open>
  A factory can fail with an error (\<^const>\<open>Inl\<close>), and can panic in the macro compiler
  (\<^const>\<open>None\<close>).
\<close>

definition macro_operator :: "(macro \<Rightarrow> operator) \<Rightarrow> OperatorOptions \<Rightarrow> (string + operator) go" where
  "macro_operator mk options =
     map_option (\<lambda>r. case r of Inl err \<Rightarrow> Inl err | Inr m \<Rightarrow> Inr (mk m)) (NewMacro (Arguments options))"

definition newBeginsWith :: "OperatorOptions \<Rightarrow> (string + operator) go" where
  [simp]: "newBeginsWith = macro_operator op_beginsWith"

definition newContains :: "OperatorOptions \<Rightarrow> (string + operator) go" where
  [simp]: "newContains = macro_operator op_contains"

definition newEndsWith :: "OperatorOptions \<Rightarrow> (string + operator) go" where
  [simp]: "newEndsWith = macro_operator op_endsWith"

definition newEq :: "OperatorOptions \<Rightarrow> (string + operator) go" where
  [simp]: "newEq = macro_operator op_eq"

definition newGE :: "OperatorOptions \<Rightarrow> (string + operator) go" where
  [simp]: "newGE = macro_operator op_ge"

definition newGT :: "OperatorOptions \<Rightarrow> (string + operator) go" where
  [simp]: "newGT = macro_operator op_gt"

definition newLE :: "OperatorOptions \<Rightarrow> (string + operator) go" where
  [simp]: "newLE = macro_operator op_le"

definition newLT :: "OperatorOptions \<Rightarrow> (string + operator) go" where
  [simp]: "newLT = macro_operator op_lt"

definition newStrEq :: "OperatorOptions \<Rightarrow> (string + operator) go" where
  [simp]: "newStrEq = macro_operator op_streq"

definition newWithin :: "OperatorOptions \<Rightarrow> (string + operator) go" where
  [simp]: "newWithin = macro_operator op_within"

definition newDetectSQLi :: "OperatorOptions \<Rightarrow> (string + operator) go" where
  [simp]: "newDetectSQLi options = Some (Inr op_detectSQLi)"

definition newDetectXSS :: "OperatorOptions \<Rightarrow> (string + operator) go" where
  [simp]: "newDetectXSS options = Some (Inr op_detectXSS)"

definition newNoMatch :: "OperatorOptions \<Rightarrow> (string + operator) go" where
  [simp]: "newNoMatch options = Some (Inr op_noMatch)"

definition newUnconditionalMatch :: "OperatorOptions \<Rightarrow> (string + operator) go" where
  [simp]: "newUnconditionalMatch options = Some (Inr op_unconditionalMatch)"

definition newGeoLookup :: "OperatorOptions \<Rightarrow> (string + operator) go" where
  [simp]: "newGeoLookup options = Some (Inr op_unconditionalMatch)"

definition newInspectFile :: "OperatorOptions \<Rightarrow> (string + operator) go" where
  [simp]: "newInspectFile options = Some (Inr (op_inspectFile (Arguments options)))"

definition newRBL :: "OperatorOptions \<Rightarrow> (string + operator) go" where
  [simp]: "newRBL options = Some (Inr (op_rbl (Arguments options)))"

definition newValidateURLEncoding :: "OperatorOptions \<Rightarrow> (string + operator) go" where
  [simp]: "newValidateURLEncoding options = Some (Inr op_validateURLEncoding)"

definition newValidateUTF8Encoding :: "OperatorOptions \<Rightarrow> (string + operator) go" where
  [simp]: "newValidateUTF8Encoding options = Some (Inr op_validateUtf8Encoding)"

definition ip_cidr :: "string \<Rightarrow> string" where
  "ip_cidr sb =
     (if Contains sb '':'' \<and> \<not> Contains sb ''/'' then sb @ ''/128''
      else if Contains sb ''.'' \<and> \<not> Contains sb ''/'' then sb @ ''/32''
      else sb)"

definition newIPMatch :: "libs \<Rightarrow> string \<Rightarrow> operator" where
  "newIPMatch lb data =
     op_ipMatch (List.map_filter (\<lambda>sb. let sb = TrimSpace sb in
        if sb = [] then None else ParseCIDR lb (ip_cidr sb)) (Split data (CHR '','')))"

definition newIPMatchFromDataset :: "libs \<Rightarrow> OperatorOptions \<Rightarrow> string + operator" where
  "newIPMatchFromDataset lb options =
     (case map_of (Datasets options) (Arguments options) of
        Some (d # ds) \<Rightarrow> Inr (newIPMatch lb (Join (d # ds) '',''))
      | _ \<Rightarrow> Inl (''dataset '' @ Arguments options @ '' not found''))"

text \<open>\<^verbatim>\<open>path.Join\<close> of two elements.\<close>

definition path_Join :: "string \<Rightarrow> string \<Rightarrow> string" where
  "path_Join p f =
     (if p = [] \<and> f = [] then []
      else clean_path (CHR ''/'') (if p = [] then f else if f = [] then p else p @ ''/'' @ f))"

fun load_paths :: "(string \<Rightarrow> read_result) \<Rightarrow> string \<Rightarrow> string list \<Rightarrow> string + string" where
  "load_paths root filepath [] = Inl ''file does not exist''"
| "load_paths root filepath (p # ps) =
     (case root (path_Join p filepath) of
        Content c \<Rightarrow> Inr c
      | NotExist \<Rightarrow> load_paths root filepath ps
      | ReadError e \<Rightarrow> Inl e)"

definition loadFromFile :: "string \<Rightarrow> string list \<Rightarrow> (string \<Rightarrow> read_result) \<Rightarrow> string + string" where
  "loadFromFile filepath paths root =
     (if HasPrefix filepath ''/'' then
        (case root filepath of
           Content c \<Rightarrow> Inr c
         | NotExist \<Rightarrow> Inl ''file does not exist''
         | ReadError e \<Rightarrow> Inl e)
      else if paths = [] then Inl ''empty paths''
      else load_paths root filepath paths)"

text \<open>
  The lines of a \<^verbatim>\<open>bufio.Scanner\<close>: without line ends, and nothing from a line
  that does not fit its buffer of 64 KiB on.
\<close>

definition drop_cr :: "string \<Rightarrow> string" where
  "drop_cr l = (if l \<noteq> [] \<and> last l = CHR 0x0D then butlast l else l)"

definition scan_lines :: "string \<Rightarrow> string list" where
  "scan_lines data =
     (let ls = Split data (CHR 0x0A);
          ls = (if last ls = [] then butlast ls else ls)
      in map drop_cr (takeWhile (\<lambda>l. length l < 65536) ls))"

definition data_lines :: "string \<Rightarrow> string list" where
  "data_lines data = filter (\<lambda>l. l \<noteq> [] \<and> hd l \<noteq> CHR ''#'') (map TrimSpace (scan_lines data))"

definition newIPMatchFromFile :: "libs \<Rightarrow> OperatorOptions \<Rightarrow> string + operator" where
  "newIPMatchFromFile lb options =
     (case loadFromFile (Arguments options) (Path options) (Root options) of
        Inl err \<Rightarrow> Inl err
      | Inr data \<Rightarrow> Inr (newIPMatch lb (concat (map (\<lambda>l. '','' @ l) (data_lines data)))))"

definition newPM :: "libs \<Rightarrow> OperatorOptions \<Rightarrow> operator" where
  "newPM lb options = op_pm (aho_Build lb (Split (ToLower (Arguments options)) (CHR '' '')))"

definition newPMFromDataset :: "libs \<Rightarrow> OperatorOptions \<Rightarrow> string + operator" where
  "newPMFromDataset lb options =
     (case map_of (Datasets options) (Arguments options) of
        Some ds \<Rightarrow> Inr (op_pm (aho_Build lb ds))
      | None \<Rightarrow> Inl (''dataset '' @ Arguments options @ '' not found''))"

definition newPMFromFile :: "libs \<Rightarrow> OperatorOptions \<Rightarrow> string + operator" where
  "newPMFromFile lb options =
     (case loadFromFile (Arguments options) (Path options) (Root options) of
        Inl err \<Rightarrow> Inl err
      | Inr data \<Rightarrow> Inr (op_pm (aho_Build lb (map ToLower (data_lines data)))))"

text \<open>
  The loop of \<open>newRESTPath\<close>: each token \<^verbatim>\<open>{name}\<close> of the (fixed) regular
  expression over the escaped path, replaced at its first occurrence by a named group.
\<close>

definition replace_first :: "string \<Rightarrow> string \<Rightarrow> string \<Rightarrow> string" where
  "replace_first s old new =
     (case Index s old of None \<Rightarrow> s | Some i \<Rightarrow> take i s @ new @ drop (i + length old) s)"

function path_tokens :: "string \<Rightarrow> string list" where
  "path_tokens s =
     (case s of
        [] \<Rightarrow> []
      | c # rest \<Rightarrow>
          if c = CHR ''{'' then
            let name = takeWhile (\<lambda>x. x \<noteq> CHR ''}'') rest;
                after = dropWhile (\<lambda>x. x \<noteq> CHR ''}'') rest
            in if name \<noteq> [] \<and> after \<noteq> [] then name # path_tokens (tl after) else path_tokens rest
          else path_tokens rest)"
  by pat_completeness auto
termination
proof (relation "measure length")
  fix s x21 x22 x xa
  assume "s = x21 # x22" "xa = dropWhile (\<lambda>x. x \<noteq> CHR ''}'') x22"
  then show "(tl xa, s) \<in> measure length"
    using length_dropWhile_le [of "\<lambda>x. x \<noteq> CHR ''}''" x22] by simp
qed auto

declare path_tokens.simps [simp del]

definition restpath_pattern :: "string \<Rightarrow> string" where
  "restpath_pattern args =
     (let data = ReplaceByte args (CHR ''/'') [CHR 0x5C, CHR ''/''] in
      fold (\<lambda>name d. replace_first d (''{'' @ name @ ''}'') (''(?P<'' @ name @ ''>.*)''))
        (path_tokens data) data)"

definition newRESTPath :: "libs \<Rightarrow> OperatorOptions \<Rightarrow> string + operator" where
  "newRESTPath lb options =
     (case regexp_Compile lb (restpath_pattern (Arguments options)) of
        Inl err \<Rightarrow> Inl err | Inr re \<Rightarrow> Inr (op_restpath re))"

definition newRX :: "libs \<Rightarrow> OperatorOptions \<Rightarrow> string + operator" where
  "newRX lb options =
     (case regexp_Compile lb (Arguments options) of Inl err \<Rightarrow> Inl err | Inr re \<Rightarrow> Inr (op_rx re))"

definition validateByte :: "int \<Rightarrow> bool" where
  "validateByte b \<longleftrightarrow> \<not> (b < 0 \<or> b > 255)"

definition parse_byte :: "string \<Rightarrow> string + nat" where
  "parse_byte s =
     (case Atoi s of
        (_, Some _) \<Rightarrow> Inl (''strconv.Atoi: parsing '' @ s)
      | (b, None) \<Rightarrow> if validateByte b then Inr (nat b) else Inl (''invalid byte '' @ Itoa b))"

definition set_bytes :: "nat \<Rightarrow> nat \<Rightarrow> bool list \<Rightarrow> bool list" where
  "set_bytes s e validBytes = fold (\<lambda>i vb. vb[i := True]) [s..<Suc e] validBytes"

definition byte_range :: "string \<Rightarrow> string + (nat \<times> nat)" where
  "byte_range br =
     (let (start, stop, found) = Cut (TrimSpace br) (CHR ''-'') in
      if \<not> found then
        (case parse_byte start of Inl err \<Rightarrow> Inl err | Inr b \<Rightarrow> Inr (b, b))
      else
        (case parse_byte start of
           Inl err \<Rightarrow> Inl err
         | Inr s \<Rightarrow> (case parse_byte stop of Inl err \<Rightarrow> Inl err | Inr e \<Rightarrow> Inr (s, e))))"

fun byte_ranges :: "string list \<Rightarrow> bool list \<Rightarrow> string + bool list" where
  "byte_ranges [] validBytes = Inr validBytes"
| "byte_ranges (br # brs) validBytes =
     (case byte_range br of
        Inl err \<Rightarrow> Inl err
      | Inr (s, e) \<Rightarrow> byte_ranges brs (set_bytes s e validBytes))"

definition newValidateByteRange :: "OperatorOptions \<Rightarrow> string + operator" where
  "newValidateByteRange options =
     (if Arguments options = [] then Inr op_unconditionalMatch
      else case byte_ranges (Split (Arguments options) (CHR '','')) (replicate 256 False) of
        Inl err \<Rightarrow> Inl err
      | Inr validBytes \<Rightarrow> Inr (op_validateByteRange validBytes))"

definition newValidateNID :: "libs \<Rightarrow> OperatorOptions \<Rightarrow> string + operator" where
  "newValidateNID lb options =
     (let (typ, expr, found) = Cut (Arguments options) (CHR '' '') in
      if \<not> found then Inl ''invalid @validateNid argument''
      else
        case (if typ = ''cl'' then Some NidCl else if typ = ''us'' then Some NidUs else None) of
          None \<Rightarrow> Inl ''invalid @validateNid argument''
        | Some fn \<Rightarrow>
            (case regexp_Compile lb expr of Inl err \<Rightarrow> Inl err | Inr re \<Rightarrow> Inr (op_validateNid fn re)))"

text \<open>
  The registry filled by the \<open>init\<close> functions, for builds other than TinyGo.
  \<open>pmFromDataset\<close> has a factory but is never registered.
\<close>

definition operators :: "libs \<Rightarrow> (string \<times> (OperatorOptions \<Rightarrow> (string + operator) go)) list" where
  "operators lb = [
    (''beginsWith'', newBeginsWith),
    (''contains'', newContains),
    (''detectSQLi'', newDetectSQLi),
    (''detectXSS'', newDetectXSS),
    (''endsWith'', newEndsWith),
    (''eq'', newEq),
    (''ge'', newGE),
    (''geoLookup'', newGeoLookup),
    (''gt'', newGT),
    (''inspectFile'', newInspectFile),
    (''ipMatch'', \<lambda>o'. Some (Inr (newIPMatch lb (Arguments o')))),
    (''ipMatchFromDataset'', \<lambda>o'. Some (newIPMatchFromDataset lb o')),
    (''ipMatchFromFile'', \<lambda>o'. Some (newIPMatchFromFile lb o')),
    (''le'', newLE),
    (''lt'', newLT),
    (''noMatch'', newNoMatch),
    (''pm'', \<lambda>o'. Some (Inr (newPM lb o'))),
    (''pmFromFile'', \<lambda>o'. Some (newPMFromFile lb o')),
    (''rbl'', newRBL),
    (''restpath'', \<lambda>o'. Some (newRESTPath lb o')),
    (''rx'', \<lambda>o'. Some (newRX lb o')),
    (''streq'', newStrEq),
    (''unconditionalMatch'', newUnconditionalMatch),
    (''validateByteRange'', \<lambda>o'. Some (newValidateByteRange o')),
    (''validateNid'', \<lambda>o'. Some (newValidateNID lb o')),
    (''validateUrlEncoding'', newValidateURLEncoding),
    (''validateUtf8Encoding'', newValidateUTF8Encoding),
    (''within'', newWithin)]"

definition operators_Get :: "libs \<Rightarrow> string \<Rightarrow> OperatorOptions \<Rightarrow> (string + operator) go" where
  "operators_Get lb name options =
     (case map_of (operators lb) name of
        Some op \<Rightarrow> op options
      | None \<Rightarrow> Some (Inl (''operator '' @ name @ '' not found'')))"

section \<open>Frame\<close>

text \<open>An operator changes nothing of the transaction but its variables, and keeps them well-formed.\<close>

lemma only_vars_wf_CaptureField:
  "only_vars tx t \<and> (tx_wf tx \<longrightarrow> tx_wf t) \<Longrightarrow>
     only_vars tx (CaptureField i v t) \<and> (tx_wf tx \<longrightarrow> tx_wf (CaptureField i v t))"
  by (auto intro: inv_intros)

lemma pm_capture_frame:
  "pm_capture n v ms t = Some (b, t') \<Longrightarrow> only_vars tx t \<and> (tx_wf tx \<longrightarrow> tx_wf t) \<Longrightarrow>
     only_vars tx t' \<and> (tx_wf tx \<longrightarrow> tx_wf t')"
proof (induction n v ms t rule: pm_capture.induct)
  case (1 n v t)
  then show ?case by simp
next
  case (2 n v a b ms t)
  then show ?case
    using only_vars_wf_CaptureField [OF "2.prems"(2)] by (auto simp: Let_def split: if_splits)
qed

lemma rx_capture_frame:
  "only_vars tx t \<and> (tx_wf tx \<longrightarrow> tx_wf t) \<Longrightarrow>
     only_vars tx (rx_capture i cs t) \<and> (tx_wf tx \<longrightarrow> tx_wf (rx_capture i cs t))"
  by (induction i cs t rule: rx_capture.induct) (auto intro: inv_intros)

lemma restpath_args_frame:
  "restpath_args i ns m t = Some t' \<Longrightarrow> only_vars tx t \<and> (tx_wf tx \<longrightarrow> tx_wf t) \<Longrightarrow>
     only_vars tx t' \<and> (tx_wf tx \<longrightarrow> tx_wf t')"
proof (induction i ns m t rule: restpath_args.induct)
  case (1 i m t)
  then show ?case by simp
next
  case (2 i n ns m t)
  then show ?case by (auto split: if_splits intro: inv_intros)
qed

lemma validateNid_frame:
  "validateNidEvaluate fn i ms r t = Some (b, t') \<Longrightarrow> only_vars tx t \<and> (tx_wf tx \<longrightarrow> tx_wf t) \<Longrightarrow>
     only_vars tx t' \<and> (tx_wf tx \<longrightarrow> tx_wf t')"
proof (induction fn i ms r t rule: validateNidEvaluate.induct)
  case (1 fn i r t)
  then show ?case by simp
next
  case (2 fn i m ms r t)
  show ?case
  proof (cases "i \<ge> 10 \<or> m = []")
    case True
    with "2.prems" show ?thesis by (cases m) (auto split: if_splits)
  next
    case False
    then obtain m0 m' where m: "m = m0 # m'" by (cases m) auto
    with "2.prems"(1) False obtain c where c: "nid_call fn m0 = Some c"
      and e: "(if c then validateNidEvaluate fn (i + 1) ms True (CaptureField (int i) m0 t)
        else validateNidEvaluate fn (i + 1) ms r t) = Some (b, t')"
      by auto
    from False have i: "\<not> 10 \<le> i" by simp
    show ?thesis
    proof (cases c)
      case True
      with "2.IH"(1) [OF i m c] e only_vars_wf_CaptureField [OF "2.prems"(2)] show ?thesis by simp
    next
      case False
      with "2.IH"(2) [OF i m c] e "2.prems"(2) show ?thesis by simp
    qed
  qed
qed

lemma operator_frame:
  assumes "operator_Evaluate lb op tx v = Some (b, tx')"
  shows "only_vars tx tx' \<and> (tx_wf tx \<longrightarrow> tx_wf tx')"
proof (cases op)
  case op_detectSQLi
  with assms show ?thesis by (auto split: prod.splits if_splits intro: inv_intros)
next
  case (op_pm m)
  with assms show ?thesis
    using pm_capture_frame [of 0 v "m v" tx b tx' tx] by (auto simp: pmEvaluate_def split: if_splits)
next
  case (op_rbl s)
  with assms show ?thesis
    by (auto simp: rblEvaluate_def Let_def split: if_splits option.splits list.splits intro: inv_intros)
next
  case (op_restpath re)
  with assms show ?thesis
    using restpath_args_frame [of 0 "SubexpNames re" "FindStringSubmatch re v" tx tx' tx]
    by (auto simp: restpathEvaluate_def Let_def split: if_splits)
next
  case (op_rx re)
  with assms show ?thesis
    using rx_capture_frame [of tx tx 0 "FindStringSubmatch re v"]
    by (auto simp: rxEvaluate_def Let_def split: if_splits)
next
  case (op_validateNid fn re)
  with assms show ?thesis
    using validateNid_frame [of fn 0 "FindAllStringSubmatch re v 11" False tx b tx' tx] by auto
qed (use assms in auto)

section \<open>Lemmas on single operators\<close>

lemma set_bytes_nth:
  "length vb = 256 \<Longrightarrow> i < 256 \<Longrightarrow> set_bytes s e vb ! i \<longleftrightarrow> vb ! i \<or> (s \<le> i \<and> i \<le> e)"
proof -
  assume len: "length vb = 256" and i: "i < 256"
  have "fold (\<lambda>i vb. vb[i := True]) js vb ! i \<longleftrightarrow> vb ! i \<or> i \<in> set js" if "length vb = 256" for js vb
    using that
  proof (induction js arbitrary: vb)
    case (Cons j js)
    from Cons.IH [of "vb[j := True]"] Cons.prems i show ?case by (cases "j = i") auto
  qed simp
  from this [OF len, of "[s..<Suc e]"] show ?thesis by (auto simp: set_bytes_def)
qed

lemma length_set_bytes [simp]: "length (set_bytes s e vb) = length vb"
proof -
  have "length (fold (\<lambda>i vb. vb[i := True]) js vb) = length vb" for js
    by (induction js arbitrary: vb) auto
  then show ?thesis by (simp add: set_bytes_def)
qed

definition in_ranges :: "string list \<Rightarrow> nat \<Rightarrow> bool" where
  "in_ranges brs b \<longleftrightarrow> (\<exists>br\<in>set brs. \<exists>s e. byte_range br = Inr (s, e) \<and> s \<le> b \<and> b \<le> e)"

lemma byte_ranges_nth:
  "byte_ranges brs vb = Inr vb' \<Longrightarrow> length vb = 256 \<Longrightarrow> b < 256 \<Longrightarrow>
     vb' ! b \<longleftrightarrow> vb ! b \<or> in_ranges brs b"
  by (induction brs vb rule: byte_ranges.induct)
    (auto simp: in_ranges_def set_bytes_nth split: sum.splits)

lemma byteRangeEvaluate_iff: "byteRangeEvaluate vb s \<longleftrightarrow> (\<exists>c\<in>set s. \<not> vb ! byte c)"
  by (induction s) auto

lemma Itoa_inj: "int64_range a \<Longrightarrow> int64_range b \<Longrightarrow> Itoa a = Itoa b \<longleftrightarrow> a = b"
  by (metis Atoi_Itoa fst_conv)

lemma Capture_CaptureField [simp]: "Capture (CaptureField i v tx) = Capture tx"
  by (simp add: CaptureField_def upd_col_def)

lemma rx_capture_values:
  assumes "Capture tx" "i \<le> 9" "k < 10"
  shows "Map_Get (col (rx_capture i ms tx) TX) (Itoa (int k)) =
    (if i \<le> k \<and> k < i + length ms \<and> k < 9 then ms ! (k - i) # tl (Map_Get (col tx TX) (Itoa (int k)))
     else Map_Get (col tx TX) (Itoa (int k)))"
  using assms
proof (induction i ms tx rule: rx_capture.induct)
  case (1 i tx)
  then show ?case by auto
next
  case (2 i c cs tx)
  have eq: "Itoa (int k) = Itoa (int i) \<longleftrightarrow> k = i"
    using "2.prems" by (subst Itoa_inj) (auto simp: int64_range_def)
  show ?case
  proof (cases "i = 9")
    case True
    with "2.prems" show ?thesis by auto
  next
    case False
    with 2 have IH: "Map_Get (col (rx_capture (i + 1) cs (CaptureField (int i) c tx)) TX) (Itoa (int k)) =
      (if i + 1 \<le> k \<and> k < i + 1 + length cs \<and> k < 9
       then cs ! (k - (i + 1)) # tl (Map_Get (col (CaptureField (int i) c tx) TX) (Itoa (int k)))
       else Map_Get (col (CaptureField (int i) c tx) TX) (Itoa (int k)))"
      by simp
    have cap: "Map_Get (col (CaptureField (int i) c tx) TX) (Itoa (int k)) =
      (if k = i then c # tl (Map_Get (col tx TX) (Itoa (int k))) else Map_Get (col tx TX) (Itoa (int k)))"
      using "2.prems"(1) by (simp add: CaptureField_def Map_SetIndex_def Map_Get_SetIndex0 eq [symmetric])
    have step: "rx_capture i (c # cs) tx = rx_capture (i + 1) cs (CaptureField (int i) c tx)"
      using False by simp
    show ?thesis unfolding step IH cap using False "2.prems"(2) by (auto simp: nth_Cons')
  qed
qed

lemma validateURL_steps:
  "validateURLEncodingInternal (c # r) = validateURLEncodingInternal r" if "c \<noteq> CHR ''%''"
  using that by simp

lemma url_plain_not_percent: "url_plain c \<Longrightarrow> c \<noteq> CHR ''%''"
  by (auto simp: url_plain_def)

lemma nibble_hex: "n < 16 \<Longrightarrow> ValidHex (c2x n)"
proof -
  assume "n < (16::nat)"
  then have "n \<in> {0, 1, 2, 3, 4, 5, 6, 7, 8, 9, 10, 11, 12, 13, 14, 15}" by (simp, arith)
  then show ?thesis by (auto simp: c2x_def ValidHex_def in_range_def)
qed

lemma validateURL_encoded: "validateURLEncodingInternal (doURLEncode s) = 1"
proof (induction s)
  case Nil
  then show ?case by simp
next
  case (Cons c s)
  have "ValidHex (c2x (byte c div 16))" "ValidHex (c2x (byte c mod 16))"
    by (simp_all add: nibble_hex less_mult_imp_div_less)
  then show ?case using Cons url_plain_not_percent [of c] by auto
qed

lemma validateURL_truncated:
  "CHR ''%'' \<notin> set u \<Longrightarrow> length x < 2 \<Longrightarrow> validateURLEncodingInternal (u @ CHR ''%'' # x) = -3"
proof (induction u)
  case Nil
  then show ?case by (cases x; cases "tl x") auto
next
  case (Cons c u)
  then show ?case by auto
qed

section \<open>Properties\<close>

text \<open>
  An accepted argument of \<^verbatim>\<open>@validateByteRange\<close> is a list of bytes and
  ranges, and the operator built from it matches a value exactly when some byte of the value is
  in none of them.
\<close>

theorem validateByteRange_spec:
  assumes "newValidateByteRange options = Inr op" "Arguments options \<noteq> []"
  shows "operator_Evaluate lb op tx value =
    Some (\<exists>c\<in>set value. \<not> in_ranges (Split (Arguments options) (CHR '','')) (byte c), tx)"
proof -
  obtain vb where vb: "byte_ranges (Split (Arguments options) (CHR '','')) (replicate 256 False) = Inr vb"
    "op = op_validateByteRange vb"
    using assms by (auto simp: newValidateByteRange_def split: sum.splits)
  have "vb ! byte c \<longleftrightarrow> in_ranges (Split (Arguments options) (CHR '','')) (byte c)" for c
    using byte_ranges_nth [OF vb(1), of "byte c"] by simp
  then show ?thesis by (simp add: vb(2) byteRangeEvaluate_iff)
qed

lemma byte_range_32_126: "byte_range ''32-126'' = Inr (32, 126)"
  by (simp add: byte_range_def TrimSpace_def runes_Cons DecodeRune_def IsSpace_def Cut_def parse_byte_def
      Atoi_def ParseInt_def ParseUint_def digit_val_def in_range_def validateByte_def)

text \<open>Concrete libraries and options for the witnesses.\<close>

definition no_libs :: libs where
  "no_libs = \<lparr>regexp_Compile = (\<lambda>_. Inl ''error''), aho_Build = (\<lambda>_ _. []), IsSQLi = (\<lambda>_. (False, [])),
     IsXSS = (\<lambda>_. False), ParseCIDR = (\<lambda>_. None), run_command = (\<lambda>_ _. False),
     LookupHost = (\<lambda>_. None), LookupTXT = (\<lambda>_. None), lookup_timeout = (\<lambda>_. False)\<rparr>"

definition some_options :: "string \<Rightarrow> OperatorOptions" where
  "some_options args = \<lparr>Arguments = args, Path = [], Root = (\<lambda>_. NotExist), Datasets = []\<rparr>"

theorem validateByteRange_spec_witness:
  "\<exists>op. newValidateByteRange (some_options ''32-126'') = Inr op \<and>
     operator_Evaluate no_libs op blank_tx ''ab'' = Some (False, blank_tx) \<and>
     operator_Evaluate no_libs op blank_tx [CHR ''a'', CHR 0x0A] = Some (True, blank_tx)"
proof -
  have split: "Split ''32-126'' (CHR '','') = [''32-126'']" by simp
  obtain op where op: "newValidateByteRange (some_options ''32-126'') = Inr op"
    unfolding newValidateByteRange_def some_options_def by (simp add: byte_range_32_126)
  moreover have "Arguments (some_options ''32-126'') = ''32-126''" by (simp add: some_options_def)
  ultimately show ?thesis
    using validateByteRange_spec [OF op, of no_libs blank_tx "''ab''"]
      validateByteRange_spec [OF op, of no_libs blank_tx "[CHR ''a'', CHR 0x0A]"]
    by (simp add: in_ranges_def byte_range_32_126)
qed

text \<open>
  When a rule captures, \<^verbatim>\<open>@rx\<close> stores the submatches in TX:0 to TX:8 and
  leaves TX:9 alone, however many groups the expression has.
\<close>

theorem rx_captures:
  assumes "Capture tx" "FindStringSubmatch re value = ms" "ms \<noteq> []"
  shows "\<exists>tx'. operator_Evaluate lb (op_rx re) tx value = Some (True, tx') \<and>
    (\<forall>k<10. Map_Get (col tx' TX) (Itoa (int k)) =
      (if k < length ms \<and> k < 9 then ms ! k # tl (Map_Get (col tx TX) (Itoa (int k)))
       else Map_Get (col tx TX) (Itoa (int k))))"
  using assms rx_capture_values [OF assms(1), of 0 _ ms] by (simp add: rxEvaluate_def)

theorem rx_captures_witness:
  "\<exists>tx'. operator_Evaluate no_libs (op_rx \<lparr>MatchString = (\<lambda>_. True), FindStringSubmatch = (\<lambda>s. replicate 12 s),
      SubexpNames = [], FindAllStringSubmatch = (\<lambda>_ _. [])\<rparr>) (blank_tx\<lparr>Capture := True\<rparr>) ''v'' = Some (True, tx') \<and>
     Map_Get (col tx' TX) (Itoa 8) = [''v''] \<and> Map_Get (col tx' TX) (Itoa 9) = []"
proof -
  let ?re = "\<lparr>MatchString = (\<lambda>_. True), FindStringSubmatch = (\<lambda>s. replicate 12 s),
      SubexpNames = [], FindAllStringSubmatch = (\<lambda>_ _. [])\<rparr>"
  have "FindStringSubmatch ?re ''v'' = replicate 12 ''v''" by simp
  from rx_captures [OF _ this, of "blank_tx\<lparr>Capture := True\<rparr>" no_libs] obtain tx' where
    tx': "operator_Evaluate no_libs (op_rx ?re) (blank_tx\<lparr>Capture := True\<rparr>) ''v'' = Some (True, tx')"
    "\<And>k. k < 10 \<Longrightarrow> Map_Get (col tx' TX) (Itoa (int k)) =
      (if k < 12 \<and> k < 9 then replicate 12 ''v'' ! k # tl (Map_Get (col blank_tx TX) (Itoa (int k)))
       else Map_Get (col blank_tx TX) (Itoa (int k)))"
    by auto
  show ?thesis using tx'(1) tx'(2) [of 8] tx'(2) [of 9] by auto
qed

text \<open>
  \<^verbatim>\<open>@validateUrlEncoding\<close> accepts everything the transformation
  \<open>urlEncode\<close> produces, and rejects a text whose first percent sign is followed by fewer
  than two bytes.
\<close>

theorem validateUrlEncoding_spec:
  "operator_Evaluate lb op_validateURLEncoding tx (doURLEncode s) = Some (False, tx) \<and>
   (CHR ''%'' \<notin> set u \<and> length x < 2 \<longrightarrow>
     operator_Evaluate lb op_validateURLEncoding tx (u @ CHR ''%'' # x) = Some (True, tx))"
  by (simp add: validateURLEncodingEvaluate_def validateURL_encoded validateURL_truncated)

theorem validateUrlEncoding_spec_witness:
  "operator_Evaluate no_libs op_validateURLEncoding blank_tx ''a%4'' = Some (True, blank_tx)"
  using validateUrlEncoding_spec [of no_libs blank_tx "[]" "''a''" "''4''"] by simp

text \<open>
  \<^verbatim>\<open>@validateNid cl\<close> panics on a match of at least eight bytes that contains
  neither a digit nor the letter k: the code slices the empty string.
\<close>

theorem nidCl_panics:
  assumes "8 \<le> length nid" "\<forall>c\<in>set (ToLower nid). \<not> is_digit c \<and> c \<noteq> CHR ''k''"
  shows "nidCl nid = None"
proof -
  have "filter (\<lambda>c. is_digit c \<or> c = CHR ''k'') (ToLower nid) = []"
    using assms(2) by (simp add: filter_empty_conv)
  with assms(1) show ?thesis by (simp add: nidCl_def)
qed

theorem nidCl_panics_witness: "nidCl ''--------'' = None"
  by (rule nidCl_panics) (simp_all add: ToLower_def is_ascii_def lower_ascii_def in_range_def is_digit_def)

text \<open>
  The numeric operators are consistent: for every macro, value and transaction exactly one
  of \<^verbatim>\<open>@lt\<close>, \<^verbatim>\<open>@eq\<close>, \<^verbatim>\<open>@gt\<close> matches,
  \<^verbatim>\<open>@le\<close> is the negation of \<^verbatim>\<open>@gt\<close> and
  \<^verbatim>\<open>@ge\<close> the negation of \<^verbatim>\<open>@lt\<close>, also on values that are
  not numbers or are out of range.
\<close>

theorem numeric_operators:
  "\<exists>l e g. operator_Evaluate lb (op_lt m) tx v = Some (l, tx) \<and>
     operator_Evaluate lb (op_eq m) tx v = Some (e, tx) \<and>
     operator_Evaluate lb (op_gt m) tx v = Some (g, tx) \<and>
     operator_Evaluate lb (op_le m) tx v = Some (\<not> g, tx) \<and>
     operator_Evaluate lb (op_ge m) tx v = Some (\<not> l, tx) \<and>
     (l \<longleftrightarrow> \<not> e \<and> \<not> g) \<and> \<not> (e \<and> g)"
  by auto

end
