(* ===== verification/Actions.thy ===== *)
theory Actions
  imports Operators
begin

text \<open>
  Rules, the WAF configuration and the actions (src/internal/corazawaf/rule.go and waf.go,
  src/rules/action.go, src/actions): the records, and what each action does when a rule
  evaluates it. The initialisation of the actions is in the theory Action_Init.

  A Go rule links to the next rule of its chain; here a rule of the rule group is the pair of the
  parent and the list of its chained rules. \<open>r_ptr\<close> is the identity of the rule object. The
  field \<open>Audit\<close> of a rule is the only one that evaluation writes to (action
  \<open>nolog\<close>): its current value is \<open>rule_Audit\<close>.
\<close>

section \<open>Actions\<close>

datatype ActionType = ActionTypeMetadata | ActionTypeDisruptive | ActionTypeData
  | ActionTypeNondisruptive | ActionTypeFlow

datatype ctlFunctionType =
    ctlUnknown | ctlRuleRemoveTargetByID | ctlRuleRemoveTargetByTag | ctlRuleRemoveTargetByMsg
  | ctlAuditEngine | ctlAuditLogParts | ctlForceRequestBodyVariable | ctlRequestBodyAccess
  | ctlRequestBodyLimit | ctlRuleEngine | ctlRuleRemoveByID | ctlRuleRemoveByMsg
  | ctlRuleRemoveByTag | ctlHashEngine | ctlHashEnforcement | ctlRequestBodyProcessor
  | ctlResponseBodyAccess | ctlResponseBodyLimit | ctlDebugLogLevel

record ctlFn =
  ctl_action :: ctlFunctionType
  ctl_value :: string
  ctl_collection :: RuleVariable
  ctl_colKey :: string

record setvarFn =
  sv_key :: "macro option"
  sv_value :: "macro option"
  sv_collection :: RuleVariable
  sv_isRemove :: bool

datatype action =
    act_allow int
  | act_append macro
  | act_auditlog
  | act_block
  | act_capture
  | act_chain
  | act_ctl ctlFn
  | act_deny
  | act_drop
  | act_exec
  | act_expirevar string int string
  | act_id
  | act_initcol string string
  | act_log
  | act_logdata
  | act_maturity
  | act_msg
  | act_multiMatch
  | act_noauditlog
  | act_nolog
  | act_pass
  | act_phase
  | act_prepend macro
  | act_redirect string
  | act_rev
  | act_setenv string macro
  | act_setvar setvarFn
  | act_severity
  | act_skip int
  | act_skipAfter string
  | act_status
  | act_t
  | act_tag
  | act_ver

fun action_Type :: "action \<Rightarrow> ActionType" where
  "action_Type (act_allow a) = ActionTypeDisruptive"
| "action_Type (act_append m) = ActionTypeNondisruptive"
| "action_Type act_auditlog = ActionTypeNondisruptive"
| "action_Type act_block = ActionTypeDisruptive"
| "action_Type act_capture = ActionTypeNondisruptive"
| "action_Type act_chain = ActionTypeFlow"
| "action_Type (act_ctl c) = ActionTypeNondisruptive"
| "action_Type act_deny = ActionTypeDisruptive"
| "action_Type act_drop = ActionTypeDisruptive"
| "action_Type act_exec = ActionTypeNondisruptive"
| "action_Type (act_expirevar c n k) = ActionTypeNondisruptive"
| "action_Type act_id = ActionTypeMetadata"
| "action_Type (act_initcol c k) = ActionTypeNondisruptive"
| "action_Type act_log = ActionTypeNondisruptive"
| "action_Type act_logdata = ActionTypeNondisruptive"
| "action_Type act_maturity = ActionTypeMetadata"
| "action_Type act_msg = ActionTypeMetadata"
| "action_Type act_multiMatch = ActionTypeNondisruptive"
| "action_Type act_noauditlog = ActionTypeNondisruptive"
| "action_Type act_nolog = ActionTypeNondisruptive"
| "action_Type act_pass = ActionTypeDisruptive"
| "action_Type act_phase = ActionTypeMetadata"
| "action_Type (act_prepend m) = ActionTypeNondisruptive"
| "action_Type (act_redirect t) = ActionTypeDisruptive"
| "action_Type act_rev = ActionTypeMetadata"
| "action_Type (act_setenv k m) = ActionTypeNondisruptive"
| "action_Type (act_setvar s) = ActionTypeNondisruptive"
| "action_Type act_severity = ActionTypeMetadata"
| "action_Type (act_skip n) = ActionTypeFlow"
| "action_Type (act_skipAfter s) = ActionTypeFlow"
| "action_Type act_status = ActionTypeData"
| "action_Type act_t = ActionTypeNondisruptive"
| "action_Type act_tag = ActionTypeMetadata"
| "action_Type act_ver = ActionTypeMetadata"

section \<open>Rules\<close>

record ruleActionParams =
  a_Name :: string
  a_Param :: string
  a_Function :: action

record ruleOperatorParams =
  o_Operator :: operator
  o_Function :: string
  o_Data :: string
  o_Negation :: bool

record ruleTransformationParams =
  t_Name :: string
  t_Function :: transformation

record Rule = RuleMetadata +
  r_ptr :: nat
  r_variables :: "ruleVariableParams list"
  r_operator :: "ruleOperatorParams option"
  r_transformations :: "ruleTransformationParams list"
  r_transformationsID :: int
  r_actions :: "ruleActionParams list"
  r_ParentID :: int
  r_Capture :: bool
  r_DisruptiveStatus :: int
  r_Msg :: "macro option"
  r_LogData :: "macro option"
  r_Log :: bool
  r_Audit :: bool
  r_MultiMatch :: bool
  r_Disruptive :: bool
  r_HasChain :: bool

type_synonym ChainedRule = "Rule \<times> Rule list"

definition rule_Audit :: "Rule \<Rightarrow> Transaction \<Rightarrow> bool" where
  "rule_Audit r tx \<longleftrightarrow> r_Audit r \<and> r_ptr r \<notin> set (AuditCleared tx)"

text \<open>\<open>rid := r.ID(); if rid == 0 { rid = r.ParentID() }\<close>\<close>

definition effective_id :: "Rule \<Rightarrow> int" where
  "effective_id r = (if ID r = 0 then r_ParentID r else ID r)"

section \<open>The WAF configuration\<close>

text \<open>The fields of the Go struct that the modelled code reads; \<open>w_ErrorLogCb\<close> says whether
  the callback is set, \<open>w_AuditLogWriter\<close> whether there is an audit log writer.\<close>

record WAF =
  w_Rules :: "ChainedRule list"
  w_AuditEngine :: AuditEngineStatus
  w_AuditLogParts :: string
  w_ContentInjection :: bool
  w_RequestBodyAccess :: bool
  w_RequestBodyLimit :: int
  w_RequestBodyInMemoryLimit :: int
  w_ResponseBodyAccess :: bool
  w_ResponseBodyLimit :: int
  w_RuleEngine :: RuleEngineStatus
  w_ResponseBodyMimeTypes :: "string list"
  w_AuditLogRelevantStatus :: "Regexp option"
  w_TmpDir :: string
  w_UploadDir :: string
  w_RequestBodyLimitAction :: RequestBodyLimitAction
  w_ErrorLogCb :: bool
  w_AuditLogWriter :: bool

text \<open>What evaluation needs of its surroundings: the order of map iteration, the libraries, the
  file system and the build.\<close>

record runtime =
  rt_ord :: key_order
  rt_libs :: libs
  rt_os :: OS
  rt_tiny :: bool

section \<open>Evaluation of the actions\<close>

definition disrupt :: "string \<Rightarrow> string \<Rightarrow> Rule \<Rightarrow> Transaction \<Rightarrow> Transaction" where
  "disrupt name data r tx =
     Interrupt \<lparr>it_RuleID = effective_id r, it_Action = name, it_Status = r_DisruptiveStatus r,
       it_Data = data\<rparr> tx"

definition append_Evaluate :: "runtime \<Rightarrow> WAF \<Rightarrow> macro \<Rightarrow> Transaction \<Rightarrow> Transaction go" where
  "append_Evaluate rt waf m tx =
     (if \<not> w_ContentInjection waf then Some tx
      else
        do { (_, _, b) \<leftarrow> Write (rt_tiny rt) (rt_os rt) (Expand (variables tx) m) (ResponseBodyBuffer tx);
             Some (tx\<lparr>ResponseBodyBuffer := b\<rparr>) })"

definition prepend_Evaluate :: "runtime \<Rightarrow> WAF \<Rightarrow> macro \<Rightarrow> Transaction \<Rightarrow> Transaction go" where
  "prepend_Evaluate rt waf m tx =
     (if \<not> w_ContentInjection waf then Some tx
      else
        do { let data = Expand (variables tx) m;
             let buf = NewBodyBuffer \<lparr>TmpPath = w_TmpDir waf, MemoryLimit = w_RequestBodyInMemoryLimit waf\<rparr>;
             (_, _, buf) \<leftarrow> Write (rt_tiny rt) (rt_os rt) data buf;
             (_, _, buf) \<leftarrow> io_Copy (rt_tiny rt) (rt_os rt) (reader_content (rt_tiny rt) (ResponseBodyBuffer tx)) buf;
             Some (tx\<lparr>ResponseBodyBuffer := buf\<rparr>) })"

text \<open>The tag of the map a variable names; the type assertion to \<open>*collection.Map\<close> panics otherwise.\<close>

definition map_tag :: "RuleVariable \<Rightarrow> RuleVariable option" where
  "map_tag v = (if v \<in> set map_variables then Some v else if v = XML then Some RequestXML else None)"

definition setvar_value :: "string \<Rightarrow> string \<Rightarrow> string option" where
  "setvar_value value res =
     (case value of
        [] \<Rightarrow> Some []
      | c # rest \<Rightarrow>
          if c = CHR ''+'' then
            (case (if rest = [] then (0, None) else Atoi rest) of
               (_, Some _) \<Rightarrow> None
             | (sm, None) \<Rightarrow>
                 (case (if res = [] then (0, None) else Atoi res) of
                    (_, Some _) \<Rightarrow> None
                  | (val, None) \<Rightarrow> Some (Itoa (wrap64 (sm + val)))))
          else if c = CHR ''-'' then
            (case Atoi res of
               (_, Some _) \<Rightarrow> None
             | (txv, None) \<Rightarrow> Some (Itoa (wrap64 (txv - atoi_val rest))))
          else Some value)"

definition evaluateTxCollection :: "setvarFn \<Rightarrow> string \<Rightarrow> string \<Rightarrow> Transaction \<Rightarrow> Transaction go" where
  "evaluateTxCollection a key value tx =
     (case map_tag (sv_collection a) of
        None \<Rightarrow> None
      | Some v \<Rightarrow>
          if sv_isRemove a then Some (upd_col v (\<lambda>m. Map_Remove m key) tx)
          else
            let res = first_or (Map_Get (col tx v) key) [] in
            (case setvar_value value res of
               None \<Rightarrow> Some tx
             | Some x \<Rightarrow> Some (upd_col v (\<lambda>m. Map_Set m key [x]) tx)))"

definition setvar_Evaluate :: "setvarFn \<Rightarrow> Transaction \<Rightarrow> Transaction go" where
  "setvar_Evaluate a tx =
     do { k \<leftarrow> sv_key a;
          let key = Expand (variables tx) k;
          v \<leftarrow> sv_value a;
          let value = Expand (variables tx) v;
          evaluateTxCollection a (ToLower key) value tx }"

definition parseOnOff :: "string \<Rightarrow> bool option" where
  "parseOnOff s = (let val = ToLower s in
     if val = ''on'' then Some True else if val = ''off'' then Some False else None)"

definition rangeToInts :: "ChainedRule list \<Rightarrow> string \<Rightarrow> string + int list" where
  "rangeToInts rules input =
     (if input = [] then Inl ''empty input''
      else
        let (in0, in1, found) = Cut input (CHR ''-'') in
        let bounds =
          (if found then
             (case Atoi in0 of
                (_, Some _) \<Rightarrow> Inl ''invalid syntax''
              | (s, None) \<Rightarrow>
                  (case Atoi in1 of (_, Some _) \<Rightarrow> Inl ''invalid syntax'' | (e, None) \<Rightarrow> Inr (s, e)))
           else (case Atoi input of (_, Some _) \<Rightarrow> Inl ''invalid syntax'' | (i, None) \<Rightarrow> Inr (i, i)))
        in case bounds of
             Inl err \<Rightarrow> Inl err
           | Inr (s, e) \<Rightarrow> Inr (filter (\<lambda>i. i \<ge> s \<and> i \<le> e) (map (\<lambda>r. ID (fst r)) rules)))"

definition msg_is :: "string \<Rightarrow> Rule \<Rightarrow> bool" where
  "msg_is v r = (case r_Msg r of None \<Rightarrow> False | Some m \<Rightarrow> macro_String m = v)"

definition ctl_Evaluate :: "WAF \<Rightarrow> ctlFn \<Rightarrow> Transaction \<Rightarrow> Transaction" where
  "ctl_Evaluate waf a tx =
     (let rules = map fst (w_Rules waf);
          remove_target = (\<lambda>r. RemoveRuleTargetByID (ID r) (ctl_collection a) (ctl_colKey a))
      in case ctl_action a of
           ctlRuleRemoveTargetByID \<Rightarrow>
             (case rangeToInts (w_Rules waf) (ctl_value a) of
                Inl _ \<Rightarrow> tx
              | Inr ids \<Rightarrow> fold (\<lambda>i. RemoveRuleTargetByID i (ctl_collection a) (ctl_colKey a)) ids tx)
         | ctlRuleRemoveTargetByTag \<Rightarrow>
             fold remove_target (filter (\<lambda>r. InSlice (ctl_value a) (Tags r)) rules) tx
         | ctlRuleRemoveTargetByMsg \<Rightarrow> fold remove_target (filter (msg_is (ctl_value a)) rules) tx
         | ctlAuditEngine \<Rightarrow>
             (case ParseAuditEngineStatus (ctl_value a) of Inl _ \<Rightarrow> tx | Inr ae \<Rightarrow> tx\<lparr>AuditEngine := ae\<rparr>)
         | ctlAuditLogParts \<Rightarrow> tx\<lparr>AuditLogParts := ctl_value a\<rparr>
         | ctlForceRequestBodyVariable \<Rightarrow>
             (case parseOnOff (ctl_value a) of None \<Rightarrow> tx | Some b \<Rightarrow> tx\<lparr>ForceRequestBodyVariable := b\<rparr>)
         | ctlRequestBodyAccess \<Rightarrow>
             (case parseOnOff (ctl_value a) of None \<Rightarrow> tx | Some b \<Rightarrow> tx\<lparr>RequestBodyAccess := b\<rparr>)
         | ctlRequestBodyLimit \<Rightarrow>
             (case ParseInt (ctl_value a) 10 64 of
                (_, Some _) \<Rightarrow> tx
              | (limit, None) \<Rightarrow> tx\<lparr>RequestBodyLimit := limit\<rparr>)
         | ctlRuleEngine \<Rightarrow>
             (case ParseRuleEngineStatus (ctl_value a) of Inl _ \<Rightarrow> tx | Inr re \<Rightarrow> tx\<lparr>RuleEngine := re\<rparr>)
         | ctlRuleRemoveByID \<Rightarrow>
             (case Atoi (ctl_value a) of (_, Some _) \<Rightarrow> tx | (i, None) \<Rightarrow> RemoveRuleByID i tx)
         | ctlRuleRemoveByMsg \<Rightarrow>
             fold (\<lambda>r. RemoveRuleByID (ID r)) (filter (msg_is (ctl_value a)) rules) tx
         | ctlRuleRemoveByTag \<Rightarrow>
             fold (\<lambda>r. RemoveRuleByID (ID r)) (filter (\<lambda>r. InSlice (ctl_value a) (Tags r)) rules) tx
         | ctlRequestBodyProcessor \<Rightarrow> set_var ReqbodyProcessor (ToUpper (ctl_value a)) tx
         | _ \<Rightarrow> tx)"

definition deny_Evaluate :: "Rule \<Rightarrow> Transaction \<Rightarrow> Transaction" where
  [simp]: "deny_Evaluate r tx = disrupt ''deny'' [] r tx"

definition drop_Evaluate :: "Rule \<Rightarrow> Transaction \<Rightarrow> Transaction" where
  [simp]: "drop_Evaluate r tx = disrupt ''drop'' [] r tx"

definition redirect_Evaluate :: "string \<Rightarrow> Rule \<Rightarrow> Transaction \<Rightarrow> Transaction" where
  [simp]: "redirect_Evaluate target r tx = disrupt ''redirect'' target r tx"

definition logdata_Evaluate :: "Rule \<Rightarrow> Transaction \<Rightarrow> Transaction go" where
  [simp]: "logdata_Evaluate r tx =
     (case r_LogData r of None \<Rightarrow> None | Some m \<Rightarrow> Some (tx\<lparr>Logdata := Expand (variables tx) m\<rparr>))"

definition nolog_Evaluate :: "Rule \<Rightarrow> Transaction \<Rightarrow> Transaction" where
  [simp]: "nolog_Evaluate r tx = tx\<lparr>AuditCleared := r_ptr r # AuditCleared tx\<rparr>"

definition setenv_Evaluate :: "string \<Rightarrow> macro \<Rightarrow> Transaction \<Rightarrow> Transaction" where
  [simp]: "setenv_Evaluate key m tx =
     (let v = Expand (variables tx) m in upd_col Env (\<lambda>c. Map_Set c key [v]) tx)"

definition skip_Evaluate :: "int \<Rightarrow> Transaction \<Rightarrow> Transaction" where
  [simp]: "skip_Evaluate n tx = tx\<lparr>Skip := n\<rparr>"

definition skipafter_Evaluate :: "string \<Rightarrow> Transaction \<Rightarrow> Transaction" where
  [simp]: "skipafter_Evaluate s tx = tx\<lparr>SkipAfter := s\<rparr>"

text \<open>The actions that are not named here do nothing when they are evaluated.\<close>

fun action_Evaluate :: "runtime \<Rightarrow> WAF \<Rightarrow> Rule \<Rightarrow> action \<Rightarrow> Transaction \<Rightarrow> Transaction go" where
  "action_Evaluate rt waf r (act_append m) tx = append_Evaluate rt waf m tx"
| "action_Evaluate rt waf r (act_ctl c) tx = Some (ctl_Evaluate waf c tx)"
| "action_Evaluate rt waf r act_deny tx = Some (deny_Evaluate r tx)"
| "action_Evaluate rt waf r act_drop tx = Some (drop_Evaluate r tx)"
| "action_Evaluate rt waf r (act_redirect target) tx = Some (redirect_Evaluate target r tx)"
| "action_Evaluate rt waf r act_logdata tx = logdata_Evaluate r tx"
| "action_Evaluate rt waf r act_nolog tx = Some (nolog_Evaluate r tx)"
| "action_Evaluate rt waf r (act_prepend m) tx = prepend_Evaluate rt waf m tx"
| "action_Evaluate rt waf r (act_setenv key m) tx = Some (setenv_Evaluate key m tx)"
| "action_Evaluate rt waf r (act_setvar s) tx = setvar_Evaluate s tx"
| "action_Evaluate rt waf r (act_skip n) tx = Some (skip_Evaluate n tx)"
| "action_Evaluate rt waf r (act_skipAfter s) tx = Some (skipafter_Evaluate s tx)"
| "action_Evaluate rt waf r _ tx = Some tx"

end
