(* ===== verification/Rule_Eval.thy ===== *)
theory Rule_Eval
  imports Actions
begin

text \<open>
  Evaluation of one rule (src/internal/corazawaf/rule.go: \<open>doEvaluate\<close>,
  \<open>transformArg\<close>, \<open>matchVariable\<close>, \<open>executeOperator\<close>, the transformations) and
  \<open>Transaction.MatchRule\<close> (transaction.go).
\<close>

section \<open>Transformations and the cache\<close>

text \<open>A transformation that returns an error leaves the value and adds the error.\<close>

fun executeTransformations :: "ruleTransformationParams list \<Rightarrow> string \<Rightarrow> (string \<times> string list) go" where
  "executeTransformations [] value = Some (value, [])"
| "executeTransformations (t # ts) value =
     do { (v, err) \<leftarrow> t_Function t value;
          (case err of
             Some e \<Rightarrow> do { (w, errs) \<leftarrow> executeTransformations ts value; Some (w, e # errs) }
           | None \<Rightarrow> executeTransformations ts v) }"

text \<open>
  With \<open>multiMatch\<close> the code assigns the result to \<open>value\<close> before it looks at the
  error, and collects every value that came without one.
\<close>

fun multimatch_loop :: "ruleTransformationParams list \<Rightarrow> string \<Rightarrow> (string list \<times> string list) go" where
  "multimatch_loop [] value = Some ([], [])"
| "multimatch_loop (t # ts) value =
     do { (v, err) \<leftarrow> t_Function t value;
          (res, errs) \<leftarrow> multimatch_loop ts v;
          (case err of
             Some e \<Rightarrow> Some (res, e # errs)
           | None \<Rightarrow> Some (v # res, errs)) }"

definition executeTransformationsMultimatch :: "ruleTransformationParams list \<Rightarrow> string \<Rightarrow>
    (string list \<times> string list) go" where
  "executeTransformationsMultimatch ts value =
     do { (res, errs) \<leftarrow> multimatch_loop ts value; Some (value # res, errs) }"

text \<open>
  The key of the cache. The Go key holds the address of the bytes of the argument's key; here it holds the bytes. By the
  comment at \<open>transformationKey\<close> the two agree: within a phase, equal addresses mean equal contents, and equal
  contents equal addresses.
\<close>

definition cache_key :: "Rule \<Rightarrow> MatchData \<Rightarrow> nat \<Rightarrow> transformationKey" where
  "cache_key r arg argIdx = \<lparr>ck_argKey = md_Key arg, ck_argIndex = argIdx,
     ck_argVariable = md_Variable arg, ck_transformationsID = r_transformationsID r\<rparr>"

definition transformArg :: "Rule \<Rightarrow> MatchData \<Rightarrow> nat \<Rightarrow> cache \<Rightarrow> ((string list \<times> string list) \<times> cache) go" where
  "transformArg r arg argIdx cache =
     (if r_MultiMatch r then
        do { res \<leftarrow> executeTransformationsMultimatch (r_transformations r) (md_Value arg); Some (res, cache) }
      else if r_transformations r = [] then Some (([md_Value arg], []), cache)
      else if md_VariableName arg = ''TX'' then
        do { (v, errs) \<leftarrow> executeTransformations (r_transformations r) (md_Value arg);
             Some (([v], errs), cache) }
      else
        (case cache (cache_key r arg argIdx) of
           Some cached \<Rightarrow> Some ((cv_args cached, cv_errs cached), cache)
         | None \<Rightarrow>
             do { (v, errs) \<leftarrow> executeTransformations (r_transformations r) (md_Value arg);
                  Some (([v], errs),
                    cache(cache_key r arg argIdx \<mapsto> \<lparr>cv_args = [v], cv_errs = errs\<rparr>)) }))"

section \<open>Matching\<close>

definition actions_of :: "(ActionType \<Rightarrow> bool) \<Rightarrow> Rule \<Rightarrow> action list" where
  "actions_of p r = filter (\<lambda>a. p (action_Type a)) (map a_Function (r_actions r))"

definition rule_matchVariable :: "runtime \<Rightarrow> WAF \<Rightarrow> Rule \<Rightarrow> MatchData \<Rightarrow> Transaction \<Rightarrow> Transaction go" where
  "rule_matchVariable rt waf r m tx =
     foreach (actions_of (\<lambda>t. t = ActionTypeNondisruptive) r) (action_Evaluate rt waf r)
       (tx_matchVariable m tx)"

definition executeOperator :: "runtime \<Rightarrow> ruleOperatorParams \<Rightarrow> string \<Rightarrow> Transaction \<Rightarrow>
    (bool \<times> Transaction) go" where
  "executeOperator rt op data tx =
     do { (result, tx) \<leftarrow> operator_Evaluate (rt_libs rt) (o_Operator op) tx data;
          Some (if o_Negation op then \<not> result else result, tx) }"

definition expand_opt :: "Transaction \<Rightarrow> macro option \<Rightarrow> string" where
  "expand_opt tx m = (case m of None \<Rightarrow> [] | Some m \<Rightarrow> Expand (variables tx) m)"

text \<open>One transformed value: the body of the innermost loop.\<close>

definition match_value :: "runtime \<Rightarrow> WAF \<Rightarrow> Rule \<Rightarrow> ruleOperatorParams \<Rightarrow> ruleVariableParams \<Rightarrow>
    MatchData \<Rightarrow> string \<Rightarrow> MatchData list \<times> Transaction \<Rightarrow> (MatchData list \<times> Transaction) go" where
  "match_value rt waf r op v arg carg = (\<lambda>(mvs, tx).
     do { (match, tx) \<leftarrow> executeOperator rt op carg tx;
          if match then
            do { let mr = \<lparr>md_VariableName = variable_Name (rv_Variable v), md_Variable = md_Variable arg,
                   md_Key = md_Key arg, md_Value = carg, md_Message = [], md_Data = []\<rparr>;
                 tx \<leftarrow> rule_matchVariable rt waf r mr tx;
                 let mr = mr\<lparr>md_Message := expand_opt tx (r_Msg r), md_Data := expand_opt tx (r_LogData r)\<rparr>;
                 Some (mvs @ [mr], tx) }
          else Some (mvs, tx) })"

definition match_arg :: "runtime \<Rightarrow> WAF \<Rightarrow> Rule \<Rightarrow> ruleOperatorParams \<Rightarrow> ruleVariableParams \<Rightarrow>
    nat \<times> MatchData \<Rightarrow> MatchData list \<times> Transaction \<Rightarrow> (MatchData list \<times> Transaction) go" where
  "match_arg rt waf r op v = (\<lambda>(i, arg) (mvs, tx).
     do { ((args, _), cache) \<leftarrow> transformArg r arg i (transformationCache tx);
          foreach args (match_value rt waf r op v arg) (mvs, tx\<lparr>transformationCache := cache\<rparr>) })"

definition with_removed_targets :: "ruleVariableParams list \<Rightarrow> ruleVariableParams \<Rightarrow> ruleVariableParams" where
  "with_removed_targets ecol v = v\<lparr>rv_Exceptions := rv_Exceptions v @
     map (\<lambda>c. \<lparr>ex_KeyStr = rv_KeyStr c, ex_KeyRx = None\<rparr>)
       (filter (\<lambda>c. rv_Variable c = rv_Variable v) ecol)\<rparr>"

definition match_target :: "runtime \<Rightarrow> WAF \<Rightarrow> Rule \<Rightarrow> ruleOperatorParams \<Rightarrow> ruleVariableParams list \<Rightarrow>
    ruleVariableParams \<Rightarrow> MatchData list \<times> Transaction \<Rightarrow> (MatchData list \<times> Transaction) go" where
  "match_target rt waf r op ecol v = (\<lambda>(mvs, tx).
     do { values \<leftarrow> GetField (rt_ord rt) (with_removed_targets ecol v) tx;
          foreach (enumerate 0 values) (match_arg rt waf r op v) (mvs, tx) })"

text \<open>The RULE collection, set at the start of an evaluation.\<close>

definition set_rule_vars :: "Rule \<Rightarrow> Transaction \<Rightarrow> Transaction" where
  "set_rule_vars r tx =
     (let rule_set = (\<lambda>k v. upd_col Rule (\<lambda>m. Map_SetIndex m k 0 v));
          tx = rule_set ''id'' (Itoa (effective_id r)) tx;
          tx = (case r_Msg r of None \<Rightarrow> tx | Some m \<Rightarrow> rule_set ''msg'' (macro_String m) tx);
          tx = rule_set ''rev'' (Rev r) tx;
          tx = (case r_LogData r of None \<Rightarrow> tx | Some m \<Rightarrow> rule_set ''logdata'' (macro_String m) tx)
      in rule_set ''severity'' (severity_String (Severity r)) tx)"

text \<open>The first part of \<open>doEvaluate\<close>: the values the rule itself matches.\<close>

definition matchRuleValues :: "runtime \<Rightarrow> WAF \<Rightarrow> Rule \<Rightarrow> Transaction \<Rightarrow> (MatchData list \<times> Transaction) go" where
  "matchRuleValues rt waf r tx =
     (let tx = (if r_Capture r then tx\<lparr>Capture := True\<rparr> else tx);
          tx = set_rule_vars r tx
      in case r_operator r of
           None \<Rightarrow>
             do { tx \<leftarrow> rule_matchVariable rt waf r zero_MatchData tx; Some ([zero_MatchData], tx) }
         | Some op \<Rightarrow>
             foreach (r_variables r) (match_target rt waf r op (ruleRemoveTargetByID tx (ID r))) ([], tx))"

section \<open>MatchRule\<close>

fun first_message :: "MatchData list \<Rightarrow> string \<times> string" where
  "first_message [] = ([], [])"
| "first_message (md # mds) =
     (if md_Message md \<noteq> [] then (md_Message md, md_Data md) else first_message mds)"

definition matched_rule :: "Rule \<Rightarrow> MatchData list \<Rightarrow> Transaction \<Rightarrow> MatchedRule" where
  "matched_rule r mds tx = \<lparr>mr_Message = fst (first_message mds), mr_Data = snd (first_message mds),
     mr_URI = var tx RequestURI, mr_TransactionID = tx_id tx, mr_Disruptive = False,
     mr_ServerIPAddress = var tx ServerAddr, mr_ClientIPAddress = var tx RemoteAddr,
     mr_MatchedDatas = mds, mr_Rule = RuleMetadata.truncate r\<rparr>"

definition MatchRule :: "WAF \<Rightarrow> Rule \<Rightarrow> MatchData list \<Rightarrow> Transaction \<Rightarrow> Transaction" where
  "MatchRule waf r mds tx =
     (let tx = (if rule_Audit r tx then tx\<lparr>audit := True\<rparr> else tx);
          maxSeverity = severity_or_zero (var tx HighestSeverity);
          tx = (if Severity r > maxSeverity then set_var HighestSeverity (Itoa (Severity r)) tx else tx);
          mr = matched_rule r mds tx;
          tx = tx\<lparr>matchedRules := matchedRules tx @ [mr]\<rparr>
      in if w_ErrorLogCb waf \<and> r_Log r then tx\<lparr>ErrorLog := ErrorLog tx @ [mr]\<rparr> else tx)"

section \<open>doEvaluate\<close>

definition disruptive_actions :: "runtime \<Rightarrow> WAF \<Rightarrow> Rule \<Rightarrow> Transaction \<Rightarrow> Transaction go" where
  "disruptive_actions rt waf r tx =
     (if RuleEngine tx \<noteq> RuleEngineDetectionOnly then
        foreach (actions_of (\<lambda>t. t = ActionTypeDisruptive \<or> t = ActionTypeFlow) r)
          (action_Evaluate rt waf r) tx
      else Some tx)"

definition finish_parent :: "runtime \<Rightarrow> WAF \<Rightarrow> Rule \<Rightarrow> MatchData list \<Rightarrow> Transaction \<Rightarrow>
    (MatchData list \<times> Transaction) go" where
  "finish_parent rt waf r mvs tx =
     do { tx \<leftarrow> disruptive_actions rt waf r tx;
          Some (mvs, if ID r \<noteq> 0 then MatchRule waf r mvs tx else tx) }"

text \<open>
  \<open>doEvaluate\<close> of a rule with the list of the rules chained to it. \<open>evalChain\<close> is the
  loop over the chain: \<^const>\<open>None\<close> as its first result means that a chained rule did not
  match.
\<close>

function (sequential) doEvaluate :: "runtime \<Rightarrow> WAF \<Rightarrow> Rule \<Rightarrow> Rule list \<Rightarrow> Transaction \<Rightarrow> (MatchData list \<times> Transaction) go" and
  evalChain :: "runtime \<Rightarrow> WAF \<Rightarrow> Rule list \<Rightarrow> Transaction \<Rightarrow> (MatchData list option \<times> Transaction) go" where
  "doEvaluate rt waf r chain tx =
     (case matchRuleValues rt waf r tx of
        None \<Rightarrow> None
      | Some (mvs, tx1) \<Rightarrow>
          if mvs = [] \<or> r_ParentID r \<noteq> 0 then Some (mvs, tx1)
          else
            (case evalChain rt waf chain tx1 of
               None \<Rightarrow> None
             | Some (None, tx2) \<Rightarrow> Some ([], tx2)
             | Some (Some cvs, tx2) \<Rightarrow> finish_parent rt waf r (mvs @ cvs) tx2))"
| "evalChain rt waf [] tx = Some (Some [], tx)"
| "evalChain rt waf (nr # chain) tx =
     (case doEvaluate rt waf nr chain tx of
        None \<Rightarrow> None
      | Some (mvs, tx1) \<Rightarrow>
          if mvs = [] then Some (None, tx1)
          else
            (case evalChain rt waf chain tx1 of
               None \<Rightarrow> None
             | Some (cvs, tx2) \<Rightarrow> Some (map_option (\<lambda>c. mvs @ c) cvs, tx2)))"
  by pat_completeness auto
termination
  by (relation "measure (\<lambda>x. case x of Inl (_, _, _, chain, _) \<Rightarrow> 2 * length chain + 1
        | Inr (_, _, chain, _) \<Rightarrow> 2 * length chain)") auto

declare doEvaluate.simps [simp del] evalChain.simps(2) [simp del]

section \<open>What evaluation preserves\<close>

text \<open>
  The contract between the rule engine and the things it calls: a relation between the
  transaction before and after, reflexive and transitive, that every primitive step respects
  (changes of the variables, of the cache and of the capture flag, recording a match, and the
  actions that \<open>allowed\<close> admits). Then it holds across the evaluation of any rule whose
  actions are all admitted.
\<close>

definition rule_actions :: "Rule \<Rightarrow> action set" where
  "rule_actions r = a_Function ` set (r_actions r)"

lemma actions_of_iff: "a \<in> set (actions_of p r) \<longleftrightarrow> a \<in> rule_actions r \<and> p (action_Type a)"
  by (auto simp: actions_of_def rule_actions_def)

definition nondisruptive_ok :: "(action \<Rightarrow> bool) \<Rightarrow> Rule \<Rightarrow> bool" where
  "nondisruptive_ok allowed r \<longleftrightarrow>
     (\<forall>a\<in>rule_actions r. action_Type a = ActionTypeNondisruptive \<longrightarrow> allowed a)"

definition raise_severity :: "Rule \<Rightarrow> Transaction \<Rightarrow> Transaction" where
  "raise_severity r tx = (if Severity r > severity_or_zero (var tx HighestSeverity)
     then set_var HighestSeverity (Itoa (Severity r)) tx else tx)"

lemma MatchRule_eq:
  "MatchRule waf r mds tx =
     (let tx1 = raise_severity r tx; mr = matched_rule r mds tx1 in
      tx1\<lparr>audit := rule_Audit r tx \<or> audit tx1, matchedRules := matchedRules tx1 @ [mr],
         ErrorLog := ErrorLog tx1 @ (if w_ErrorLogCb waf \<and> r_Log r then [mr] else [])\<rparr>)"
  unfolding Let_def
  by (rule Transaction.Transaction.equality)
    (simp_all add: MatchRule_def raise_severity_def matched_rule_def Let_def set_var_def)

locale step_core =
  fixes R :: "Transaction \<Rightarrow> Transaction \<Rightarrow> bool"
    and allowed :: "action \<Rightarrow> bool"
    and rt :: runtime
    and waf :: WAF
  assumes R_refl: "R t t"
    and R_trans: "R t1 t2 \<Longrightarrow> R t2 t3 \<Longrightarrow> R t1 t3"
    and R_vars: "only_vars t1 t2 \<Longrightarrow> (tx_wf t1 \<longrightarrow> tx_wf t2) \<Longrightarrow> R t1 t2"
    and R_capture: "R t (t\<lparr>Capture := b\<rparr>)"
    and R_cache: "R t (t\<lparr>transformationCache := c\<rparr>)"
    and R_action: "allowed a \<Longrightarrow> action_Evaluate rt waf r a t = Some t' \<Longrightarrow> R t t'"
begin

lemma R_foreach:
  assumes "foreach xs f s = Some s'" "\<And>x s s'. x \<in> set xs \<Longrightarrow> f x s = Some s' \<Longrightarrow> R s s'"
  shows "R s s'"
  by (rule foreach_inv [OF assms(1), of "\<lambda>t. R s t"]) (auto intro: R_refl R_trans assms(2))

lemma R_foreach_pair:
  assumes "foreach xs f s = Some s'"
    and "\<And>x s s'. x \<in> set xs \<Longrightarrow> f x s = Some s' \<Longrightarrow> R (snd s) (snd s')"
  shows "R (snd s) (snd s')"
  by (rule foreach_inv [OF assms(1), of "\<lambda>t. R (snd s) (snd t)"]) (auto intro: R_refl R_trans assms(2))

lemma R_actions:
  assumes "foreach (actions_of p r) (action_Evaluate rt waf r) t = Some t'"
    and "\<forall>a\<in>rule_actions r. p (action_Type a) \<longrightarrow> allowed a"
  shows "R t t'"
  using assms(1)
proof (rule R_foreach)
  fix a s s'
  assume "a \<in> set (actions_of p r)" "action_Evaluate rt waf r a s = Some s'"
  then show "R s s'" using assms(2) actions_of_iff [of a p r] R_action by blast
qed

lemma R_rule_matchVariable:
  assumes "rule_matchVariable rt waf r m t = Some t'" "nondisruptive_ok allowed r"
  shows "R t t'"
proof (rule R_trans)
  show "R t (tx_matchVariable m t)"
    by (rule R_vars) (auto intro: inv_intros)
  show "R (tx_matchVariable m t) t'"
    using assms R_actions unfolding rule_matchVariable_def nondisruptive_ok_def by blast
qed

lemma R_executeOperator: "executeOperator rt op v t = Some (b, t') \<Longrightarrow> R t t'"
  unfolding executeOperator_def using operator_frame R_vars by fastforce

lemma R_match_value:
  assumes "match_value rt waf r op v arg carg s = Some s'" "nondisruptive_ok allowed r"
  shows "R (snd s) (snd s')"
proof -
  obtain mvs t where s: "s = (mvs, t)" by (cases s)
  from assms(1) obtain b t1 where b: "executeOperator rt op carg t = Some (b, t1)"
    unfolding match_value_def s by auto
  show ?thesis
  proof (cases b)
    case True
    with assms(1) b s obtain m t2 where "rule_matchVariable rt waf r m t1 = Some t2" "snd s' = t2"
      unfolding match_value_def by (auto simp: Let_def)
    with R_rule_matchVariable [OF _ assms(2)] R_executeOperator [OF b] s show ?thesis
      by (auto intro: R_trans)
  next
    case False
    with assms(1) b s R_executeOperator [OF b] show ?thesis unfolding match_value_def by auto
  qed
qed

lemma R_match_arg:
  assumes "match_arg rt waf r op v ia s = Some s'" "nondisruptive_ok allowed r"
  shows "R (snd s) (snd s')"
proof -
  obtain mvs t i arg where s: "s = (mvs, t)" "ia = (i, arg)" by (cases s; cases ia)
  from assms(1) obtain args c where f: "foreach args (match_value rt waf r op v arg)
      (mvs, t\<lparr>transformationCache := c\<rparr>) = Some s'"
    unfolding match_arg_def s by auto
  have "R (snd (mvs, t\<lparr>transformationCache := c\<rparr>)) (snd s')"
    by (rule R_foreach_pair [OF f]) (rule R_match_value [OF _ assms(2)])
  then show ?thesis using R_cache R_trans unfolding s by fastforce
qed

lemma R_match_target:
  assumes "match_target rt waf r op ecol v s = Some s'" "nondisruptive_ok allowed r"
  shows "R (snd s) (snd s')"
proof -
  obtain mvs t where s: "s = (mvs, t)" by (cases s)
  from assms(1) obtain vs where f: "foreach (enumerate 0 vs) (match_arg rt waf r op v) (mvs, t) = Some s'"
    unfolding match_target_def s by auto
  show ?thesis unfolding s by (rule R_foreach_pair [OF f]) (rule R_match_arg [OF _ assms(2)])
qed

lemma R_set_rule_vars: "R t (set_rule_vars r t)"
  unfolding set_rule_vars_def Let_def
  by (rule R_vars) (auto split: option.splits intro!: inv_intros)

lemma R_matchRuleValues:
  assumes "matchRuleValues rt waf r t = Some (mvs, t')" "nondisruptive_ok allowed r"
  shows "R t t'"
proof -
  let ?t = "set_rule_vars r (if r_Capture r then t\<lparr>Capture := True\<rparr> else t)"
  have "R t (if r_Capture r then t\<lparr>Capture := True\<rparr> else t)" by (simp add: R_refl R_capture)
  then have t: "R t ?t" using R_set_rule_vars R_trans by blast
  have "R ?t t'"
  proof (cases "r_operator r")
    case None
    with assms(1) have "rule_matchVariable rt waf r zero_MatchData ?t = Some t'"
      by (simp add: matchRuleValues_def Let_def)
    then show ?thesis using R_rule_matchVariable assms(2) by blast
  next
    case (Some op)
    with assms(1) have f: "foreach (r_variables r)
        (match_target rt waf r op (ruleRemoveTargetByID ?t (ID r))) ([], ?t) = Some (mvs, t')"
      by (simp add: matchRuleValues_def Let_def)
    have "R (snd ([] :: MatchData list, ?t)) (snd (mvs, t'))"
      by (rule R_foreach_pair [OF f]) (rule R_match_target [OF _ assms(2)])
    then show ?thesis by simp
  qed
  with t show ?thesis by (rule R_trans)
qed

text \<open>A chained rule has a parent, so its own disruptive actions are never run.\<close>

lemma R_evalChain_nondisruptive:
  "\<forall>r\<in>set chain. nondisruptive_ok allowed r \<and> r_ParentID r \<noteq> 0 \<Longrightarrow>
     evalChain rt waf chain t = Some (res, t') \<Longrightarrow> R t t'"
proof (induction chain arbitrary: t res t')
  case Nil
  then show ?case by (simp add: R_refl)
next
  case (Cons nr chain)
  from Cons.prems obtain mvs t1 where d: "matchRuleValues rt waf nr t = Some (mvs, t1)"
    "doEvaluate rt waf nr chain t = Some (mvs, t1)"
    by (auto simp: evalChain.simps doEvaluate.simps split: option.splits)
  have "R t t1" by (rule R_matchRuleValues [OF d(1)]) (use Cons.prems in simp)
  moreover have "R t1 t'"
    using Cons d by (auto simp: evalChain.simps R_refl split: if_splits option.splits)
  ultimately show ?case by (rule R_trans)
qed

end

text \<open>With the record of a match admitted too, the relation holds across whole rules.\<close>

locale step_relation = step_core +
  assumes R_match: "mr_MatchedDatas mr \<noteq> [] \<Longrightarrow> set es \<subseteq> {mr} \<Longrightarrow>
    R t (t\<lparr>audit := b, matchedRules := matchedRules t @ [mr], ErrorLog := ErrorLog t @ es\<rparr>)"
begin

lemma R_MatchRule:
  assumes "mds \<noteq> []"
  shows "R t (MatchRule waf r mds t)"
proof -
  have "R t (raise_severity r t)"
    unfolding raise_severity_def by (rule R_vars) (auto intro: inv_intros)
  moreover have "R (raise_severity r t) (MatchRule waf r mds t)"
    unfolding MatchRule_eq Let_def by (rule R_match) (auto simp: matched_rule_def assms)
  ultimately show ?thesis by (rule R_trans)
qed

lemma R_finish_parent:
  assumes "finish_parent rt waf r mvs t = Some (mvs', t')" "\<forall>a\<in>rule_actions r. allowed a" "mvs \<noteq> []"
  shows "R t t'"
proof -
  from assms(1) obtain t1 where t1: "disruptive_actions rt waf r t = Some t1"
    "t' = (if ID r \<noteq> 0 then MatchRule waf r mvs t1 else t1)"
    unfolding finish_parent_def by auto
  have "R t t1"
    using t1(1) R_actions assms(2) R_refl unfolding disruptive_actions_def
    by (auto split: if_splits)
  then show ?thesis using t1(2) R_MatchRule [OF assms(3)] R_trans by (auto split: if_splits)
qed

lemma R_doEvaluate_chain:
  assumes chain: "\<And>t res t'. evalChain rt waf chain t = Some (res, t') \<Longrightarrow> R t t'"
    and "\<forall>a\<in>rule_actions r. allowed a" "doEvaluate rt waf r chain t = Some (mvs, t')"
  shows "R t t'"
proof -
  from assms(3) obtain mvs1 t1 where m: "matchRuleValues rt waf r t = Some (mvs1, t1)"
    by (auto simp: doEvaluate.simps split: option.splits)
  have "R t1 t'"
  proof (cases "mvs1 = [] \<or> r_ParentID r \<noteq> 0")
    case True
    with assms(3) m show ?thesis by (auto simp: doEvaluate.simps R_refl)
  next
    case False
    with assms(3) m obtain res t2 where e: "evalChain rt waf chain t1 = Some (res, t2)"
      by (auto simp: doEvaluate.simps split: option.splits)
    with assms(3) m False have "(res = None \<and> t' = t2) \<or>
        (\<exists>cvs. res = Some cvs \<and> finish_parent rt waf r (mvs1 @ cvs) t2 = Some (mvs, t'))"
      by (cases res) (auto simp: doEvaluate.simps)
    then have "R t2 t'" using R_refl R_finish_parent [OF _ assms(2)] False by blast
    with chain [OF e] show ?thesis by (rule R_trans)
  qed
  moreover have "nondisruptive_ok allowed r" using assms(2) by (simp add: nondisruptive_ok_def)
  ultimately show ?thesis using R_matchRuleValues [OF m] R_trans by blast
qed

lemma R_evalChain:
  "\<forall>r\<in>set chain. \<forall>a\<in>rule_actions r. allowed a \<Longrightarrow> evalChain rt waf chain t = Some (res, t') \<Longrightarrow> R t t'"
proof (induction chain arbitrary: t res t')
  case Nil
  then show ?case by (simp add: R_refl)
next
  case (Cons nr chain)
  from Cons.prems(2) obtain mvs t1 where d: "doEvaluate rt waf nr chain t = Some (mvs, t1)"
    by (auto simp: evalChain.simps split: option.splits)
  have "R t t1"
    by (rule R_doEvaluate_chain [OF _ _ d]) (use Cons in auto)
  moreover have "R t1 t'"
    using Cons d by (auto simp: evalChain.simps R_refl split: if_splits option.splits)
  ultimately show ?case by (rule R_trans)
qed

lemma R_doEvaluate:
  assumes "doEvaluate rt waf r chain t = Some (mvs, t')" "\<forall>r'\<in>set (r # chain). \<forall>a\<in>rule_actions r'. allowed a"
  shows "R t t'"
  by (rule R_doEvaluate_chain [OF R_evalChain _ assms(1)]) (use assms(2) in auto)

end

section \<open>Instances\<close>

text \<open>
  What no rule ever does: change the phase, the identifier or the request body, break the
  variables, withdraw an interruption, forget a match, write to the audit log.
\<close>

definition eval_frame :: "Transaction \<Rightarrow> Transaction \<Rightarrow> bool" where
  "eval_frame t t' \<longleftrightarrow>
     LastPhase t' = LastPhase t \<and> tx_id t' = tx_id t \<and> requestBodyBuffer t' = requestBodyBuffer t \<and>
     (tx_wf t \<longrightarrow> tx_wf t') \<and> (interruption t \<noteq> None \<longrightarrow> interruption t' \<noteq> None) \<and>
     prefix (matchedRules t) (matchedRules t') \<and> AuditWrites t' = AuditWrites t \<and>
     ResponseBodyAccess t' = ResponseBodyAccess t"

text \<open>Unless a rule switches the engine, an engine that is not On is never interrupted.\<close>

definition engine_kept :: "Transaction \<Rightarrow> Transaction \<Rightarrow> bool" where
  "engine_kept t t' \<longleftrightarrow> RuleEngine t' = RuleEngine t \<and>
     (RuleEngine t \<noteq> RuleEngineOn \<longrightarrow> interruption t' = interruption t)"

definition keeps_engine :: "action \<Rightarrow> bool" where
  "keeps_engine a \<longleftrightarrow> (case a of act_ctl c \<Rightarrow> ctl_action c \<noteq> ctlRuleEngine | _ \<Rightarrow> True)"

lemma eval_frame_trans: "eval_frame t1 t2 \<Longrightarrow> eval_frame t2 t3 \<Longrightarrow> eval_frame t1 t3"
  unfolding eval_frame_def by (auto elim: prefix_order.trans)

lemma fold_rel:
  assumes "\<And>t. R t t" "\<And>t1 t2 t3. R t1 t2 \<Longrightarrow> R t2 t3 \<Longrightarrow> R t1 t3" "\<And>x t. R t (f x t)"
  shows "R t (fold f xs t)"
proof (induction xs arbitrary: t)
  case Nil
  then show ?case by (simp add: assms(1))
next
  case (Cons x xs)
  from assms(2) [OF assms(3) Cons.IH] show ?case by simp
qed

lemma only_vars_cases:
  assumes "only_vars t1 t2"
  obtains v where "t2 = t1\<lparr>variables := v\<rparr>"
  using assms unfolding only_vars_def by blast

lemma eval_frame_vars: "only_vars t1 t2 \<Longrightarrow> (tx_wf t1 \<longrightarrow> tx_wf t2) \<Longrightarrow> eval_frame t1 t2"
  by (erule only_vars_cases) (simp add: eval_frame_def)

lemma eval_frame_setters:
  "eval_frame t (t\<lparr>Capture := b\<rparr>)" "eval_frame t (t\<lparr>transformationCache := c\<rparr>)"
  "eval_frame t (t\<lparr>audit := b, matchedRules := matchedRules t @ ms, ErrorLog := ErrorLog t @ es\<rparr>)"
  "eval_frame t (t\<lparr>Skip := n\<rparr>)" "eval_frame t (t\<lparr>SkipAfter := s\<rparr>)" "eval_frame t (t\<lparr>Logdata := s\<rparr>)"
  "eval_frame t (t\<lparr>AuditCleared := ps\<rparr>)" "eval_frame t (t\<lparr>ResponseBodyBuffer := bb\<rparr>)"
  "eval_frame t (t\<lparr>AuditEngine := ae\<rparr>)" "eval_frame t (t\<lparr>AuditLogParts := s\<rparr>)"
  "eval_frame t (t\<lparr>ForceRequestBodyVariable := b\<rparr>)" "eval_frame t (t\<lparr>RequestBodyAccess := b\<rparr>)"
  "eval_frame t (t\<lparr>RequestBodyLimit := i\<rparr>)" "eval_frame t (t\<lparr>RuleEngine := re\<rparr>)" "eval_frame t t"
  "eval_frame t (RemoveRuleByID i t)" "eval_frame t (RemoveRuleTargetByID i v k t)"
  "eval_frame t (Interrupt it t)"
  by (simp_all add: eval_frame_def RemoveRuleByID_def RemoveRuleTargetByID_def Interrupt_def)

lemma eval_frame_fold:
  "eval_frame t (fold (\<lambda>x. RemoveRuleByID (f x)) xs t)"
  "eval_frame t (fold (\<lambda>x. RemoveRuleTargetByID (f x) v k) xs t)"
  by (rule fold_rel, simp add: eval_frame_setters, erule eval_frame_trans, assumption,
      simp add: eval_frame_setters)+

lemma eval_frame_ctl: "eval_frame t (ctl_Evaluate waf c t)"
  by (cases "ctl_action c")
    (auto simp: ctl_Evaluate_def Let_def split: sum.split option.split prod.split
      intro!: eval_frame_setters eval_frame_fold eval_frame_vars inv_intros)

lemma eval_frame_setvar: "setvar_Evaluate s t = Some t' \<Longrightarrow> eval_frame t t'"
  by (auto simp: setvar_Evaluate_def evaluateTxCollection_def Let_def split: option.splits if_splits
      intro!: eval_frame_vars eval_frame_setters inv_intros)

lemma eval_frame_action: "action_Evaluate rt waf r a t = Some t' \<Longrightarrow> eval_frame t t'"
  by (cases a)
    (auto simp: append_Evaluate_def prepend_Evaluate_def disrupt_def Let_def
      split: if_splits option.splits
      intro: eval_frame_setters eval_frame_ctl eval_frame_setvar eval_frame_vars inv_intros)

interpretation frame: step_relation eval_frame "\<lambda>_. True" rt waf for rt waf
  by unfold_locales
    (auto intro: eval_frame_setters eval_frame_vars eval_frame_action elim: eval_frame_trans)

subsection \<open>The engine state\<close>

lemma engine_kept_trans: "engine_kept t1 t2 \<Longrightarrow> engine_kept t2 t3 \<Longrightarrow> engine_kept t1 t3"
  by (simp add: engine_kept_def)

lemma engine_kept_setters:
  "engine_kept t (t\<lparr>Capture := b\<rparr>)" "engine_kept t (t\<lparr>transformationCache := c\<rparr>)"
  "engine_kept t (t\<lparr>audit := b, matchedRules := matchedRules t @ ms, ErrorLog := ErrorLog t @ es\<rparr>)"
  "engine_kept t (t\<lparr>Skip := n\<rparr>)" "engine_kept t (t\<lparr>SkipAfter := s\<rparr>)" "engine_kept t (t\<lparr>Logdata := s\<rparr>)"
  "engine_kept t (t\<lparr>AuditCleared := ps\<rparr>)" "engine_kept t (t\<lparr>ResponseBodyBuffer := bb\<rparr>)"
  "engine_kept t (t\<lparr>AuditEngine := ae\<rparr>)" "engine_kept t (t\<lparr>AuditLogParts := s\<rparr>)"
  "engine_kept t (t\<lparr>ForceRequestBodyVariable := b\<rparr>)" "engine_kept t (t\<lparr>RequestBodyAccess := b\<rparr>)"
  "engine_kept t (t\<lparr>RequestBodyLimit := i\<rparr>)" "engine_kept t t"
  "engine_kept t (RemoveRuleByID i t)" "engine_kept t (RemoveRuleTargetByID i v k t)"
  "engine_kept t (Interrupt it t)"
  by (simp_all add: engine_kept_def RemoveRuleByID_def RemoveRuleTargetByID_def Interrupt_def)

lemma engine_kept_fold:
  "engine_kept t (fold (\<lambda>x. RemoveRuleByID (f x)) xs t)"
  "engine_kept t (fold (\<lambda>x. RemoveRuleTargetByID (f x) v k) xs t)"
  by (rule fold_rel, simp add: engine_kept_setters, erule engine_kept_trans, assumption,
      simp add: engine_kept_setters)+

lemma engine_kept_vars: "only_vars t1 t2 \<Longrightarrow> engine_kept t1 t2"
  by (erule only_vars_cases) (simp add: engine_kept_def)

lemma engine_kept_ctl: "ctl_action c \<noteq> ctlRuleEngine \<Longrightarrow> engine_kept t (ctl_Evaluate waf c t)"
  by (cases "ctl_action c")
    (auto simp: ctl_Evaluate_def Let_def split: sum.split option.split prod.split
      intro!: engine_kept_setters engine_kept_fold engine_kept_vars inv_intros)

lemma engine_kept_setvar: "setvar_Evaluate s t = Some t' \<Longrightarrow> engine_kept t t'"
  by (auto simp: setvar_Evaluate_def evaluateTxCollection_def Let_def split: option.splits if_splits
      intro!: engine_kept_vars engine_kept_setters inv_intros)

lemma engine_kept_action:
  "keeps_engine a \<Longrightarrow> action_Evaluate rt waf r a t = Some t' \<Longrightarrow> engine_kept t t'"
  by (cases a)
    (auto simp: keeps_engine_def append_Evaluate_def prepend_Evaluate_def disrupt_def Let_def
      split: if_splits option.splits
      intro: engine_kept_setters engine_kept_ctl engine_kept_setvar engine_kept_vars inv_intros)

interpretation engine: step_relation engine_kept keeps_engine rt waf for rt waf
  by unfold_locales
    (auto intro: engine_kept_setters engine_kept_vars engine_kept_action elim: engine_kept_trans)

subsection \<open>Only disruptive actions interrupt\<close>

text \<open>No verdict: no interruption, no match recorded, the flow of the rules as before.\<close>

definition no_verdict :: "Transaction \<Rightarrow> Transaction \<Rightarrow> bool" where
  "no_verdict t t' \<longleftrightarrow> interruption t' = interruption t \<and> Skip t' = Skip t \<and> SkipAfter t' = SkipAfter t \<and>
     matchedRules t' = matchedRules t \<and> ErrorLog t' = ErrorLog t \<and> audit t' = audit t"

lemma no_verdict_trans:
  "no_verdict t1 t2 \<Longrightarrow> no_verdict t2 t3 \<Longrightarrow> no_verdict t1 t3"
  by (simp add: no_verdict_def)

lemma no_verdict_setters:
  "no_verdict t (t\<lparr>Capture := b\<rparr>)" "no_verdict t (t\<lparr>transformationCache := c\<rparr>)"
  "no_verdict t (t\<lparr>Logdata := s\<rparr>)"
  "no_verdict t (t\<lparr>AuditCleared := ps\<rparr>)" "no_verdict t (t\<lparr>ResponseBodyBuffer := bb\<rparr>)"
  "no_verdict t (t\<lparr>AuditEngine := ae\<rparr>)" "no_verdict t (t\<lparr>AuditLogParts := s\<rparr>)"
  "no_verdict t (t\<lparr>ForceRequestBodyVariable := b\<rparr>)" "no_verdict t (t\<lparr>RequestBodyAccess := b\<rparr>)"
  "no_verdict t (t\<lparr>RequestBodyLimit := i\<rparr>)" "no_verdict t (t\<lparr>RuleEngine := re\<rparr>)"
  "no_verdict t t" "no_verdict t (RemoveRuleByID i t)"
  "no_verdict t (RemoveRuleTargetByID i v k t)"
  by (simp_all add: no_verdict_def RemoveRuleByID_def RemoveRuleTargetByID_def)

lemma no_verdict_fold:
  "no_verdict t (fold (\<lambda>x. RemoveRuleByID (f x)) xs t)"
  "no_verdict t (fold (\<lambda>x. RemoveRuleTargetByID (f x) v k) xs t)"
  by (rule fold_rel, simp add: no_verdict_setters, erule no_verdict_trans, assumption,
      simp add: no_verdict_setters)+

lemma no_verdict_vars: "only_vars t1 t2 \<Longrightarrow> no_verdict t1 t2"
  by (erule only_vars_cases) (simp add: no_verdict_def)

lemma no_verdict_ctl: "no_verdict t (ctl_Evaluate waf c t)"
  by (cases "ctl_action c")
    (auto simp: ctl_Evaluate_def Let_def split: sum.split option.split prod.split
      intro!: no_verdict_setters no_verdict_fold no_verdict_vars inv_intros)

lemma no_verdict_setvar: "setvar_Evaluate s t = Some t' \<Longrightarrow> no_verdict t t'"
  by (auto simp: setvar_Evaluate_def evaluateTxCollection_def Let_def split: option.splits if_splits
      intro!: no_verdict_vars no_verdict_setters inv_intros)

lemma no_verdict_action:
  "action_Type a = ActionTypeNondisruptive \<Longrightarrow> action_Evaluate rt waf r a t = Some t' \<Longrightarrow>
     no_verdict t t'"
  by (cases a)
    (auto simp: append_Evaluate_def prepend_Evaluate_def Let_def split: if_splits option.splits
      intro: no_verdict_setters no_verdict_ctl no_verdict_setvar
        no_verdict_vars inv_intros)

interpretation nondisruptive: step_core no_verdict
  "\<lambda>a. action_Type a = ActionTypeNondisruptive" rt waf for rt waf
  by unfold_locales
    (auto intro: no_verdict_setters no_verdict_vars no_verdict_action
      elim: no_verdict_trans)

lemma nondisruptive_ok_self: "nondisruptive_ok (\<lambda>a. action_Type a = ActionTypeNondisruptive) r"
  by (simp add: nondisruptive_ok_def)

subsection \<open>The response buffer\<close>

text \<open>With a working file system, \<open>append\<close> and \<open>prepend\<close> put their text after and before the body.\<close>

lemma append_content:
  assumes "rt_os rt = os_ok" "\<not> rt_tiny rt" "w_ContentInjection waf" "bb_wf (ResponseBodyBuffer t)"
  shows "\<exists>t'. append_Evaluate rt waf m t = Some t' \<and> bb_wf (ResponseBodyBuffer t') \<and>
    content (ResponseBodyBuffer t') = content (ResponseBodyBuffer t) @ Expand (variables t) m"
proof -
  obtain b where "Write False os_ok (Expand (variables t) m) (ResponseBodyBuffer t)
      = Some (int (length (Expand (variables t) m)), None, b)" "bb_wf b"
      "content b = content (ResponseBodyBuffer t) @ Expand (variables t) m"
    using Write_appends [OF assms(4)] by blast
  then show ?thesis using assms by (simp add: append_Evaluate_def)
qed

lemma prepend_content:
  assumes "rt_os rt = os_ok" "\<not> rt_tiny rt" "w_ContentInjection waf"
  shows "\<exists>t'. prepend_Evaluate rt waf m t = Some t' \<and> bb_wf (ResponseBodyBuffer t') \<and>
    content (ResponseBodyBuffer t') = Expand (variables t) m @ content (ResponseBodyBuffer t)"
proof -
  let ?b = "NewBodyBuffer \<lparr>TmpPath = w_TmpDir waf, MemoryLimit = w_RequestBodyInMemoryLimit waf\<rparr>"
  obtain b where b: "Write False os_ok (Expand (variables t) m) ?b
      = Some (int (length (Expand (variables t) m)), None, b)" "bb_wf b"
      "content b = Expand (variables t) m"
    using Write_appends [OF bb_wf_New, of "Expand (variables t) m"] by (metis append_Nil content_New)
  obtain b' where b': "io_Copy False os_ok (content (ResponseBodyBuffer t)) b =
        Some (int (length (content (ResponseBodyBuffer t))), None, b')" "bb_wf b'"
      "content b' = content b @ content (ResponseBodyBuffer t)"
    using io_Copy_ok [OF b(2)] by blast
  from b b' show ?thesis using assms by (simp add: prepend_Evaluate_def reader_content_def)
qed

end
