(* ===== verification/Rule_Build.thy ===== *)
theory Rule_Build
  imports Rule_Eval
begin

text \<open>
  Building rules (src/internal/corazawaf/rule.go: \<open>NewRule\<close>, \<open>AddVariable\<close>,
  \<open>AddVariableNegation\<close>, \<open>AddAction\<close>, \<open>AddTransformation\<close>,
  \<open>ClearTransformations\<close>, \<open>SetOperator\<close> and the global table of
  transformation identifiers), and the correctness of the transformation cache for the rules
  built this way.
\<close>

section \<open>Operations\<close>

definition NewRule :: "nat \<Rightarrow> Rule" where
  "NewRule p = \<lparr>ID = 0, File = [], Line = 0, Rev = [], Severity = 0, Version = [], Tags = [],
     Maturity = 0, Accuracy = 0, Operator = [], Phase = 2, Raw = [], SecMark = [],
     r_ptr = p, r_variables = [], r_operator = None, r_transformations = [], r_transformationsID = 0,
     r_actions = [], r_ParentID = 0, r_Capture = False, r_DisruptiveStatus = 0, r_Msg = None,
     r_LogData = None, r_Log = False, r_Audit = False, r_MultiMatch = False, r_Disruptive = False,
     r_HasChain = False\<rparr>"

definition AddAction :: "string \<Rightarrow> action \<Rightarrow> Rule \<Rightarrow> Rule" where
  "AddAction name a r = r\<lparr>r_actions := r_actions r @ [\<lparr>a_Name = name, a_Param = [], a_Function = a\<rparr>]\<rparr>"

text \<open>A key between slashes is a regular expression; \<open>regexp.MustCompile\<close> panics on a bad one.\<close>

definition selector :: "libs \<Rightarrow> string \<Rightarrow> (string \<times> Regexp option) go" where
  "selector lb key =
     (if length key > 2 \<and> hd key = CHR ''/'' \<and> last key = CHR ''/'' then
        let key = butlast (tl key) in
        (case regexp_Compile lb key of Inl _ \<Rightarrow> None | Inr re \<Rightarrow> Some (key, Some re))
      else Some (key, None))"

definition AddVariable :: "libs \<Rightarrow> RuleVariable \<Rightarrow> string \<Rightarrow> bool \<Rightarrow> Rule \<Rightarrow> Rule go" where
  "AddVariable lb v key iscount r =
     do { (key, re) \<leftarrow> selector lb key;
          Some (r\<lparr>r_variables := r_variables r @
            [\<lparr>rv_Name = variable_Name v, rv_Count = iscount, rv_Variable = v, rv_KeyRx = re,
              rv_KeyStr = ToLower key, rv_Exceptions = []\<rparr>]\<rparr>) }"

text \<open>The receiver may be nil, which is \<^const>\<open>None\<close>: an error, after the expression is compiled.\<close>

definition AddVariableNegation :: "libs \<Rightarrow> RuleVariable \<Rightarrow> string \<Rightarrow> Rule option \<Rightarrow> (string + Rule) go" where
  "AddVariableNegation lb v key receiver =
     do { (key, re) \<leftarrow> selector lb key;
          Some (case receiver of
                  None \<Rightarrow> Inl ''cannot create a variable exception for an undefined rule''
                | Some r \<Rightarrow>
                    Inr (r\<lparr>r_variables := map (\<lambda>rv. if rv_Variable rv = v
                      then rv\<lparr>rv_Exceptions := rv_Exceptions rv @ [\<lparr>ex_KeyStr = ToLower key, ex_KeyRx = re\<rparr>]\<rparr>
                      else rv) (r_variables r)\<rparr>)) }"

text \<open>The package variables \<open>transformationIDToName\<close> and \<open>transformationNameToID\<close>.\<close>

record transformationIDs =
  transformationIDToName :: "string list"
  transformationNameToID :: "string \<rightharpoonup> int"

definition initial_ids :: transformationIDs where
  "initial_ids = \<lparr>transformationIDToName = [[]], transformationNameToID = [[] \<mapsto> 0]\<rparr>"

definition transformationID :: "int \<Rightarrow> string \<Rightarrow> transformationIDs \<Rightarrow> (int \<times> transformationIDs) go" where
  "transformationID currentID transformationName ids =
     (if currentID < 0 \<or> currentID \<ge> int (length (transformationIDToName ids)) then None
      else
        let currName = transformationIDToName ids ! nat currentID;
            nextName = currName @ ''+'' @ transformationName
        in case transformationNameToID ids nextName of
             Some i \<Rightarrow> Some (i, ids)
           | None \<Rightarrow>
               let i = int (length (transformationIDToName ids)) in
               Some (i, \<lparr>transformationIDToName = transformationIDToName ids @ [nextName],
                         transformationNameToID = (transformationNameToID ids)(nextName \<mapsto> i)\<rparr>))"

definition AddTransformation :: "string \<Rightarrow> transformation option \<Rightarrow> Rule \<Rightarrow> transformationIDs \<Rightarrow>
    (string option \<times> Rule \<times> transformationIDs) go" where
  "AddTransformation name t r ids =
     (case t of
        None \<Rightarrow> Some (Some (''invalid transformation '' @ name @ '' not found''), r, ids)
      | Some t \<Rightarrow>
          if name = [] then Some (Some (''invalid transformation '' @ name @ '' not found''), r, ids)
          else
            do { (i, ids) \<leftarrow> transformationID (r_transformationsID r) name ids;
                 Some (None, r\<lparr>r_transformations := r_transformations r @ [\<lparr>t_Name = name, t_Function = t\<rparr>],
                   r_transformationsID := i\<rparr>, ids) })"

definition ClearTransformations :: "Rule \<Rightarrow> Rule" where
  "ClearTransformations r = r\<lparr>r_transformations := []\<rparr>"

definition SetOperator :: "operator \<Rightarrow> string \<Rightarrow> string \<Rightarrow> Rule \<Rightarrow> Rule" where
  "SetOperator op functionName params r =
     r\<lparr>r_operator := Some \<lparr>o_Operator = op, o_Function = functionName, o_Data = params,
       o_Negation = (functionName \<noteq> [] \<and> hd functionName = CHR ''!'')\<rparr>\<rparr>"

section \<open>The table of transformation identifiers\<close>

text \<open>The two tables are inverse to each other and the identifier 0 is the empty name.\<close>

definition ids_wf :: "transformationIDs \<Rightarrow> bool" where
  "ids_wf ids \<longleftrightarrow> transformationIDToName ids \<noteq> [] \<and> hd (transformationIDToName ids) = [] \<and>
     (\<forall>n i. transformationNameToID ids n = Some i \<longleftrightarrow>
        0 \<le> i \<and> i < int (length (transformationIDToName ids)) \<and> transformationIDToName ids ! nat i = n)"

definition chain_name :: "string list \<Rightarrow> string" where
  "chain_name names = concat (map (\<lambda>n. CHR ''+'' # n) names)"

text \<open>The identifier of a rule stands for the names of its transformations.\<close>

definition rule_ids_ok :: "transformationIDs \<Rightarrow> Rule \<Rightarrow> bool" where
  "rule_ids_ok ids r \<longleftrightarrow> 0 \<le> r_transformationsID r \<and>
     r_transformationsID r < int (length (transformationIDToName ids)) \<and>
     transformationIDToName ids ! nat (r_transformationsID r) = chain_name (map t_Name (r_transformations r))"

lemma ids_wf_initial: "ids_wf initial_ids"
  by (auto simp: ids_wf_def initial_ids_def)

lemma ids_wf_unique:
  "ids_wf ids \<Longrightarrow> 0 \<le> i \<Longrightarrow> i < int (length (transformationIDToName ids)) \<Longrightarrow>
     0 \<le> j \<Longrightarrow> j < int (length (transformationIDToName ids)) \<Longrightarrow>
     transformationIDToName ids ! nat i = transformationIDToName ids ! nat j \<Longrightarrow> i = j"
  unfolding ids_wf_def by (metis option.inject)

lemma transformationID_step:
  assumes "ids_wf ids" "transformationID cur name ids = Some (i, ids')"
  shows "ids_wf ids' \<and> prefix (transformationIDToName ids) (transformationIDToName ids') \<and>
    0 \<le> i \<and> i < int (length (transformationIDToName ids')) \<and>
    transformationIDToName ids' ! nat i = transformationIDToName ids ! nat cur @ ''+'' @ name"
proof -
  let ?n = "transformationIDToName ids ! nat cur @ ''+'' @ name"
  have "transformationNameToID ids n = Some j \<longleftrightarrow> 0 \<le> j \<and> j < int (length (transformationIDToName ids)) \<and>
      transformationIDToName ids ! nat j = n" for n j
    using assms(1) by (simp add: ids_wf_def)
  note tab = this
  show ?thesis
  proof (cases "transformationNameToID ids ?n")
    case (Some j)
    with assms have "ids' = ids" "i = j" by (auto simp: transformationID_def Let_def split: if_splits)
    with Some tab assms(1) show ?thesis by auto
  next
    case None
    with assms(2) have ids': "i = int (length (transformationIDToName ids))"
      "ids' = \<lparr>transformationIDToName = transformationIDToName ids @ [?n],
        transformationNameToID = (transformationNameToID ids)(?n \<mapsto> i)\<rparr>"
      by (auto simp: transformationID_def Let_def split: if_splits)
    have "transformationIDToName ids ! nat j \<noteq> ?n" if "0 \<le> j" "j < int (length (transformationIDToName ids))" for j
      using that tab [of ?n j] None by auto
    then have "ids_wf ids'"
      using assms(1) unfolding ids_wf_def ids'
      by (auto simp: nth_append split: if_splits)
    then show ?thesis by (simp add: ids')
  qed
qed

lemma rule_ids_ok_prefix:
  assumes "prefix (transformationIDToName ids) (transformationIDToName ids')" "rule_ids_ok ids r"
  shows "rule_ids_ok ids' r"
  using assms by (auto simp: rule_ids_ok_def prefix_def nth_append)

lemma chain_name_snoc: "chain_name (ns @ [n]) = chain_name ns @ ''+'' @ n"
  by (simp add: chain_name_def)

lemma chain_name_inj:
  "\<forall>n\<in>set ns. CHR ''+'' \<notin> set n \<Longrightarrow> \<forall>n\<in>set ms. CHR ''+'' \<notin> set n \<Longrightarrow> chain_name ns = chain_name ms \<Longrightarrow> ns = ms"
proof (induction ns arbitrary: ms)
  case Nil
  then show ?case by (cases ms) (auto simp: chain_name_def)
next
  case (Cons n ns)
  then obtain m ms' where ms: "ms = m # ms'" by (cases ms) (auto simp: chain_name_def)
  have head: "takeWhile (\<lambda>c. c \<noteq> CHR ''+'') (k @ chain_name ks) = k" if "CHR ''+'' \<notin> set k" for k ks
    using that by (cases ks) (auto simp: chain_name_def takeWhile_append)
  from Cons.prems(3) have eq: "n @ chain_name ns = m @ chain_name ms'" by (simp add: ms chain_name_def)
  with head [of n ns] head [of m ms'] Cons.prems have "n = m" by (simp add: ms)
  moreover from this eq have "chain_name ns = chain_name ms'" by simp
  then have "ns = ms'" by (rule Cons.IH [rotated -1]) (use Cons.prems ms in auto)
  ultimately show ?case by (simp add: ms)
qed

lemma AddTransformation_ok:
  assumes "ids_wf ids" "rule_ids_ok ids r" "name \<noteq> []"
  obtains r' ids' where "AddTransformation name (Some t) r ids = Some (None, r', ids')" "ids_wf ids'"
    "rule_ids_ok ids' r'" "prefix (transformationIDToName ids) (transformationIDToName ids')"
    "r_transformations r' = r_transformations r @ [\<lparr>t_Name = name, t_Function = t\<rparr>]"
proof -
  have "\<exists>i ids'. transformationID (r_transformationsID r) name ids = Some (i, ids')"
    using assms(2) by (auto simp: transformationID_def rule_ids_ok_def Let_def split: option.split)
  then obtain i ids' where ids': "transformationID (r_transformationsID r) name ids = Some (i, ids')" by blast
  let ?r = "r\<lparr>r_transformations := r_transformations r @ [\<lparr>t_Name = name, t_Function = t\<rparr>], r_transformationsID := i\<rparr>"
  have "rule_ids_ok ids' ?r"
    using transformationID_step [OF assms(1) ids'] assms(2) by (simp add: rule_ids_ok_def chain_name_snoc)
  then show ?thesis
    using that [of ?r ids'] transformationID_step [OF assms(1) ids'] assms(3) ids'
    by (simp add: AddTransformation_def)
qed

section \<open>The transformation cache\<close>

text \<open>What \<open>transformArg\<close> computes, without a cache.\<close>

definition transformArg_direct :: "Rule \<Rightarrow> MatchData \<Rightarrow> (string list \<times> string list) go" where
  "transformArg_direct r arg =
     (if r_MultiMatch r then executeTransformationsMultimatch (r_transformations r) (md_Value arg)
      else do { (v, errs) \<leftarrow> executeTransformations (r_transformations r) (md_Value arg); Some ([v], errs) })"

text \<open>
  Every entry of the cache is what any of the rules with the transformations of its key
  computes from the value (\<open>val\<close>) of the argument its key stands for.
\<close>

definition coherent :: "Rule set \<Rightarrow> (transformationKey \<Rightarrow> string) \<Rightarrow> cache \<Rightarrow> bool" where
  "coherent rs val c \<longleftrightarrow> (\<forall>k cv. c k = Some cv \<longrightarrow> (\<forall>r\<in>rs. r_transformationsID r = ck_transformationsID k \<longrightarrow>
     (\<exists>v. executeTransformations (r_transformations r) (val k) = Some (v, cv_errs cv) \<and> cv_args cv = [v])))"

text \<open>A rule whose transformations were added by \<open>AddTransformation\<close> only, from a table
  \<open>fn\<close> of functions by name.\<close>

definition built :: "(string \<Rightarrow> transformation) \<Rightarrow> transformationIDs \<Rightarrow> Rule \<Rightarrow> bool" where
  "built fn ids r \<longleftrightarrow> rule_ids_ok ids r \<and>
     (\<forall>t\<in>set (r_transformations r). t_Function t = fn (t_Name t) \<and> CHR ''+'' \<notin> set (t_Name t))"

lemma transformations_by_name:
  assumes "\<forall>t\<in>set ts. t_Function t = fn (t_Name t)"
  shows "ts = map (\<lambda>n. \<lparr>t_Name = n, t_Function = fn n\<rparr>) (map t_Name ts)"
  using assms by (induction ts) auto

lemma built_same_id:
  assumes "ids_wf ids" "built fn ids r" "built fn ids r'" "r_transformationsID r = r_transformationsID r'"
  shows "r_transformations r = r_transformations r'"
proof -
  have "chain_name (map t_Name (r_transformations r)) = chain_name (map t_Name (r_transformations r'))"
    using assms by (simp add: built_def rule_ids_ok_def)
  then have "map t_Name (r_transformations r) = map t_Name (r_transformations r')"
    by (rule chain_name_inj [rotated -1]) (use assms in \<open>auto simp: built_def\<close>)
  moreover have "r_transformations r = map (\<lambda>n. \<lparr>t_Name = n, t_Function = fn n\<rparr>) (map t_Name (r_transformations r))"
    "r_transformations r' = map (\<lambda>n. \<lparr>t_Name = n, t_Function = fn n\<rparr>) (map t_Name (r_transformations r'))"
    using assms(2,3) transformations_by_name by (simp_all add: built_def)
  ultimately show ?thesis by metis
qed

lemma coherent_update:
  assumes "coherent rs val c" "\<forall>r'\<in>rs. r_transformationsID r' = r_transformationsID r \<longrightarrow> r_transformations r' = r_transformations r"
    "executeTransformations (r_transformations r) (val (cache_key r arg i)) = Some (v, errs)"
  shows "coherent rs val (c(cache_key r arg i \<mapsto> \<lparr>cv_args = [v], cv_errs = errs\<rparr>))"
  using assms by (auto simp: coherent_def cache_key_def)

text \<open>
  C26. For rules built by \<open>AddTransformation\<close>, as long as equal variable, key and index mean
  the same argument value, the cached evaluation of a rule's transformations computes what the
  direct evaluation computes, and the cache stays coherent.
\<close>

theorem transformArg_cache_transparent:
  assumes "ids_wf ids" "\<forall>r\<in>rs. built fn ids r" "r \<in> rs" "coherent rs val c"
    and "md_Value arg = val (cache_key r arg i)"
  shows "map_option fst (transformArg r arg i c) = transformArg_direct r arg \<and>
    (\<forall>res c'. transformArg r arg i c = Some (res, c') \<longrightarrow> coherent rs val c')"
proof -
  have same: "\<forall>r'\<in>rs. r_transformationsID r' = r_transformationsID r \<longrightarrow> r_transformations r' = r_transformations r"
    using built_same_id [OF assms(1)] assms(2,3) by blast
  have cached: "executeTransformations (r_transformations r) (md_Value arg) = Some (hd (cv_args cv), cv_errs cv) \<and>
      cv_args cv = [hd (cv_args cv)]" if "c (cache_key r arg i) = Some cv" for cv
    using assms(3-5) that unfolding coherent_def
    by (metis cache_key_def list.sel(1) transformationKey.select_convs(4))
  have "map_option fst (transformArg r arg i c) = transformArg_direct r arg"
  proof (cases "c (cache_key r arg i)")
    case None
    then show ?thesis
      by (simp add: transformArg_def transformArg_direct_def split: bind_splits)
  next
    case (Some cv)
    with cached [OF Some] show ?thesis
      by (auto simp: transformArg_def transformArg_direct_def split: bind_splits)
  qed
  moreover have "coherent rs val c'" if "transformArg r arg i c = Some (res, c')" for res c'
    using that assms(4,5) coherent_update [OF assms(4) same]
    by (auto simp: transformArg_def split: if_splits option.splits)
  ultimately show ?thesis by blast
qed

definition sample_arg :: "RuleVariable \<Rightarrow> string \<Rightarrow> MatchData" where
  "sample_arg v x = \<lparr>md_VariableName = variable_Name v, md_Variable = v, md_Key = [], md_Value = x,
     md_Message = [], md_Data = []\<rparr>"

definition lower_rule :: Rule where
  "lower_rule = (NewRule 1)\<lparr>r_transformations := [\<lparr>t_Name = ''lowercase'', t_Function = lowerCase\<rparr>],
     r_transformationsID := 1\<rparr>"

lemma lower_rule_added:
  "AddTransformation ''lowercase'' (Some lowerCase) (NewRule 1) initial_ids =
     Some (None, lower_rule, \<lparr>transformationIDToName = [[], ''+lowercase''],
       transformationNameToID = [[] \<mapsto> 0, ''+lowercase'' \<mapsto> 1]\<rparr>)"
  by (simp add: AddTransformation_def transformationID_def initial_ids_def NewRule_def lower_rule_def Let_def)

lemma rule_ids_ok_New: "rule_ids_ok initial_ids (NewRule p)"
  by (simp add: rule_ids_ok_def initial_ids_def NewRule_def chain_name_def)

lemma lower_rule_built:
  obtains ids where "ids_wf ids" "built (\<lambda>_. lowerCase) ids lower_rule"
proof (rule AddTransformation_ok [OF ids_wf_initial rule_ids_ok_New, of "''lowercase''" lowerCase 1])
  fix r' ids'
  assume added: "AddTransformation ''lowercase'' (Some lowerCase) (NewRule 1) initial_ids = Some (None, r', ids')"
    and "ids_wf ids'" "rule_ids_ok ids' r'"
  moreover from added [unfolded lower_rule_added] have "r' = lower_rule" by simp
  ultimately show ?thesis using that [of ids'] by (simp add: built_def lower_rule_def)
qed simp

lemma lowerCase_AB: "lowerCase ''AB'' = Some (''ab'', None)"
  by (simp add: lowerCase_def ToLower_def is_ascii_def lower_ascii_def in_range_def char_of_def bit_Suc_0_iff)

theorem transformArg_cache_transparent_witness:
  "map_option fst (transformArg lower_rule (sample_arg RequestURI ''AB'') 0 (\<lambda>_. None)) = Some ([''ab''], [])"
proof -
  obtain ids where "ids_wf ids" "built (\<lambda>_. lowerCase) ids lower_rule" by (rule lower_rule_built)
  then show ?thesis
    using transformArg_cache_transparent [of ids "{lower_rule}" "\<lambda>_. lowerCase" lower_rule "\<lambda>_. ''AB''"
        "\<lambda>_. None" "sample_arg RequestURI ''AB''" 0]
    by (simp add: coherent_def sample_arg_def transformArg_direct_def lower_rule_def NewRule_def lowerCase_AB)
qed

text \<open>
  The cache does not notice that a variable changed: when the variable and key of an argument
  are those of an argument transformed before in the phase (as for MATCHED_VAR, which every match
  rewrites), the result of the earlier value is returned for the later one.
\<close>

theorem transformArg_stale:
  assumes "transformArg r arg i c = Some (res, c1)"
    and "\<not> r_MultiMatch r" "r_transformations r \<noteq> []" "md_VariableName arg \<noteq> ''TX''"
    and "md_VariableName arg' = md_VariableName arg" "md_Variable arg' = md_Variable arg" "md_Key arg' = md_Key arg"
  shows "transformArg r arg' i c1 = Some (res, c1)"
  using assms by (auto simp: transformArg_def cache_key_def split: option.splits)

theorem transformArg_stale_witness:
  "\<exists>c1. transformArg lower_rule (sample_arg MatchedVar ''AB'') 0 (\<lambda>_. None) = Some (([''ab''], []), c1) \<and>
     transformArg lower_rule (sample_arg MatchedVar ''other'') 0 c1 = Some (([''ab''], []), c1)"
proof -
  obtain c1 where c1: "transformArg lower_rule (sample_arg MatchedVar ''AB'') 0 (\<lambda>_. None) = Some (([''ab''], []), c1)"
    by (auto simp: transformArg_def lower_rule_def NewRule_def sample_arg_def lowerCase_AB variable_Name_def rulemap_def)
  then show ?thesis
    using transformArg_stale [OF c1, of "sample_arg MatchedVar ''other''"]
    by (simp add: lower_rule_def NewRule_def sample_arg_def variable_Name_def rulemap_def)
qed

end
