(* ===== verification/Action_Init.thy ===== *)
theory Action_Init
  imports Rule_Build
begin

text \<open>
  Initialisation of the actions (the \<open>Init\<close> methods of src/actions) and the table of
  actions (src/actions/actions.go). An \<open>Init\<close> takes the rule it configures and the
  argument text; it may change the rule, and gives an error or the configured action. It may
  panic, since a macro may (\<^const>\<open>NewMacro\<close>).
\<close>

section \<open>Results\<close>

text \<open>The error or the action, the rule, and the table of transformation identifiers (which only
  the action \<open>t\<close> changes).\<close>

type_synonym init = "string \<Rightarrow> Rule \<Rightarrow> ((string + action) \<times> Rule) go"

definition plain :: "action \<Rightarrow> init" where
  "plain a data r = Some (Inr a, r)"

definition failed :: "string \<Rightarrow> Rule \<Rightarrow> ((string + action) \<times> Rule) go" where
  "failed err r = Some (Inl err, r)"

definition with_macro :: "string \<Rightarrow> Rule \<Rightarrow> (macro \<Rightarrow> (string + action) \<times> Rule) \<Rightarrow>
    ((string + action) \<times> Rule) go" where
  "with_macro data r f =
     (case NewMacro data of
        None \<Rightarrow> None
      | Some (Inl err) \<Rightarrow> failed err r
      | Some (Inr m) \<Rightarrow> Some (f m))"

section \<open>The actions\<close>

definition allow_Init :: init where
  "allow_Init b1 r =
     (if b1 = ''phase'' then Some (Inr (act_allow 2), r)
      else if b1 = ''request'' then Some (Inr (act_allow 3), r)
      else if b1 = [] then Some (Inr (act_allow 1), r)
      else failed (''invalid argument '' @ b1 @ '' for allow'') r)"

definition append_Init :: init where
  "append_Init data r = with_macro data r (\<lambda>m. (Inr (act_append m), r))"

definition auditlog_Init :: init where
  "auditlog_Init data r = Some (Inr act_auditlog, r\<lparr>r_Audit := True\<rparr>)"

definition capture_Init :: init where
  "capture_Init data r = Some (Inr act_capture, r\<lparr>r_Capture := True\<rparr>)"

definition chain_Init :: init where
  "chain_Init data r = Some (Inr act_chain, r\<lparr>r_HasChain := True\<rparr>)"

definition ctl_names :: "(string \<times> ctlFunctionType) list" where
  "ctl_names =
    [(''auditEngine'', ctlAuditEngine),
     (''auditLogParts'', ctlAuditLogParts),
     (''forceRequestBodyVariable'', ctlForceRequestBodyVariable),
     (''requestBodyAccess'', ctlRequestBodyAccess),
     (''requestBodyLimit'', ctlRequestBodyLimit),
     (''requestBodyProcessor'', ctlRequestBodyProcessor),
     (''responseBodyAccess'', ctlResponseBodyAccess),
     (''responseBodyLimit'', ctlResponseBodyLimit),
     (''ruleEngine'', ctlRuleEngine),
     (''ruleRemoveById'', ctlRuleRemoveByID),
     (''ruleRemoveByMsg'', ctlRuleRemoveByMsg),
     (''ruleRemoveByTag'', ctlRuleRemoveByTag),
     (''ruleRemoveTargetById'', ctlRuleRemoveTargetByID),
     (''ruleRemoveTargetByMsg'', ctlRuleRemoveTargetByMsg),
     (''ruleRemoveTargetByTag'', ctlRuleRemoveTargetByTag),
     (''hashEngine'', ctlHashEngine),
     (''hashEnforcement'', ctlHashEnforcement)]"

definition parse_or_unknown :: "string \<Rightarrow> RuleVariable" where
  "parse_or_unknown name = (case variables_Parse name of Inl _ \<Rightarrow> Unknown | Inr v \<Rightarrow> v)"

definition parseCtl :: "string \<Rightarrow> string + ctlFn" where
  "parseCtl data =
     (let (action, ctlVal, ok) = Cut data (CHR ''='') in
      if \<not> ok then Inl ''invalid syntax''
      else
        let (value, c, ok) = Cut ctlVal (CHR '';'');
            (colname, colkey) = (if ok then (let (a, b, _) = Cut c (CHR '':'') in (a, b)) else ([], []))
        in case map_of ctl_names action of
             None \<Rightarrow> Inl (''unknown ctl action '' @ action)
           | Some act \<Rightarrow>
               Inr \<lparr>ctl_action = act, ctl_value = value, ctl_collection = parse_or_unknown (TrimSpace colname),
                    ctl_colKey = TrimSpace (ToLower colkey)\<rparr>)"

text \<open>A key between slashes must compile; the compiled expression is then never used.\<close>

definition ctl_Init :: "libs \<Rightarrow> init" where
  "ctl_Init lb data r =
     (case parseCtl data of
        Inl err \<Rightarrow> failed err r
      | Inr c \<Rightarrow>
          let k = ctl_colKey c in
          if length k > 2 \<and> hd k = CHR ''/'' \<and> last k = CHR ''/'' then
            (case regexp_Compile lb (butlast (tl k)) of
               Inl err \<Rightarrow> failed err r
             | Inr _ \<Rightarrow> Some (Inr (act_ctl c), r))
          else Some (Inr (act_ctl c), r))"

definition expirevar_Init :: init where
  "expirevar_Init data r =
     (let (v, ttl, _) = Cut data (CHR ''='');
          (c, key, ok) = Cut v (CHR ''.'')
      in if \<not> ok then failed ''expirevar must contain key and value (syntax expirevar:key=value)'' r
         else Some (Inr (act_expirevar c (atoi_val ttl) key), r))"

definition id_Init :: init where
  "id_Init data r =
     (if data = [] then failed ''id action requires a parameter'' r
      else
        (case Atoi data of
           (_, Some _) \<Rightarrow> failed (''invalid rule id '' @ data) r
         | (i, None) \<Rightarrow>
             let r = r\<lparr>ID := i\<rparr> in
             if i < 0 then failed (''rule id ('' @ Itoa i @ '') cannot be negative'') r
             else if i = 0 then failed (''rule id ('' @ Itoa i @ '') cannot be zero'') r
             else Some (Inr act_id, r)))"

definition initcol_Init :: init where
  "initcol_Init data r = (let (c, key, _) = Cut data (CHR ''='') in Some (Inr (act_initcol c key), r))"

definition log_Init :: init where
  "log_Init data r = Some (Inr act_log, r\<lparr>r_Log := True, r_Audit := True\<rparr>)"

definition logdata_Init :: init where
  "logdata_Init data r = with_macro data r (\<lambda>m. (Inr act_logdata, r\<lparr>r_LogData := Some m\<rparr>))"

definition maturity_Init :: init where
  "maturity_Init data r =
     (case Atoi data of
        (_, Some _) \<Rightarrow> failed ''invalid syntax'' r
      | (m, None) \<Rightarrow>
          if m < 1 \<or> m > 9 then failed (''maturity must be between 1 and 9, not '' @ Itoa m) r
          else Some (Inr act_maturity, r\<lparr>Maturity := m\<rparr>))"

definition msg_Init :: init where
  "msg_Init data r = with_macro (MaybeRemoveQuotes data) r (\<lambda>m. (Inr act_msg, r\<lparr>r_Msg := Some m\<rparr>))"

definition multimatch_Init :: init where
  "multimatch_Init data r = Some (Inr act_multiMatch, r\<lparr>r_MultiMatch := True\<rparr>)"

definition noauditlog_Init :: init where
  "noauditlog_Init data r = Some (Inr act_noauditlog, r\<lparr>r_Audit := False\<rparr>)"

definition nolog_Init :: init where
  "nolog_Init data r = Some (Inr act_nolog, r\<lparr>r_Log := False, r_Audit := False\<rparr>)"

definition phase_Init :: init where
  "phase_Init data r =
     (case ParseRulePhase data of
        Inl err \<Rightarrow> failed err r
      | Inr p \<Rightarrow> Some (Inr act_phase, r\<lparr>Phase := p\<rparr>))"

definition prepend_Init :: init where
  "prepend_Init data r = with_macro data r (\<lambda>m. (Inr (act_prepend m), r))"

definition redirect_Init :: init where
  "redirect_Init data r =
     (if data = [] then failed ''redirect action requires a parameter'' r
      else Some (Inr (act_redirect data), r))"

definition rev_Init :: init where
  "rev_Init data r = Some (Inr act_rev, r\<lparr>Rev := data\<rparr>)"

definition setenv_Init :: init where
  "setenv_Init data r =
     (let (key, val, ok) = Cut data (CHR ''='') in
      if \<not> ok then failed ''invalid key value for setvar'' r
      else with_macro val r (\<lambda>m. (Inr (act_setenv key m), r)))"

text \<open>The key and the value stay nil when the text has no dot or no equals sign.\<close>

definition opt_macro :: "bool \<Rightarrow> string \<Rightarrow> (string + macro option) go" where
  "opt_macro present text =
     (if present then
        (case NewMacro text of
           None \<Rightarrow> None
         | Some (Inl err) \<Rightarrow> Some (Inl err)
         | Some (Inr m) \<Rightarrow> Some (Inr (Some m)))
      else Some (Inr None))"

definition setvar_Init :: init where
  "setvar_Init data r =
     (if data = [] then failed ''setvar requires arguments'' r
      else
        let isRemove = (hd data = CHR ''!'');
            data = (if isRemove then tl data else data);
            (key, val, valOk) = Cut data (CHR ''='');
            (colKey, colVal, colOk) = Cut key (CHR ''.'')
        in case variables_Parse colKey of
             Inl err \<Rightarrow> failed err r
           | Inr v \<Rightarrow>
               do { k \<leftarrow> opt_macro colOk colVal;
                    (case k of
                       Inl err \<Rightarrow> failed err r
                     | Inr km \<Rightarrow>
                         do { x \<leftarrow> opt_macro valOk val;
                              (case x of
                                 Inl err \<Rightarrow> failed err r
                               | Inr vm \<Rightarrow>
                                   Some (Inr (act_setvar \<lparr>sv_key = km, sv_value = vm, sv_collection = v,
                                     sv_isRemove = isRemove\<rparr>), r)) }) })"

definition severity_Init :: init where
  "severity_Init data r =
     (case ParseRuleSeverity data of
        Inl err \<Rightarrow> failed err r
      | Inr sev \<Rightarrow> Some (Inr act_severity, r\<lparr>Severity := sev\<rparr>))"

definition skip_Init :: init where
  "skip_Init data r =
     (case Atoi data of
        (_, Some _) \<Rightarrow> failed ''invalid value for skip'' r
      | (i, None) \<Rightarrow>
          if i < 1 then failed (''skip cannot be less than 1, got '' @ Itoa i) r
          else Some (Inr (act_skip i), r))"

definition skipafter_Init :: init where
  "skipafter_Init data r = Some (Inr (act_skipAfter (TrimByte data (CHR 0x22))), r)"

definition status_Init :: init where
  "status_Init data r =
     (case Atoi data of
        (_, Some _) \<Rightarrow> failed ''invalid syntax'' r
      | (status, None) \<Rightarrow> Some (Inr act_status, r\<lparr>r_DisruptiveStatus := status\<rparr>))"

definition t_Init :: "extern \<Rightarrow> string \<Rightarrow> Rule \<Rightarrow> transformationIDs \<Rightarrow>
    ((string + action) \<times> Rule \<times> transformationIDs) go" where
  "t_Init ext input r ids =
     (if input = ''none'' then Some (Inr act_t, ClearTransformations r, ids)
      else
        (case GetTransformation ext input of
           Inl err \<Rightarrow> Some (Inl err, r, ids)
         | Inr tt \<Rightarrow>
             do { (err, r, ids) \<leftarrow> AddTransformation input (Some tt) r ids;
                  Some (case err of Some e \<Rightarrow> Inl e | None \<Rightarrow> Inr act_t, r, ids) }))"

definition tag_Init :: init where
  "tag_Init data r = Some (Inr act_tag, r\<lparr>Tags := Tags r @ [data]\<rparr>)"

definition ver_Init :: init where
  "ver_Init data r = Some (Inr act_ver, r\<lparr>Version := data\<rparr>)"

section \<open>The table\<close>

text \<open>
  The \<open>Type\<close> is known before \<open>Init\<close> runs; the parser uses it to sort the
  actions.
\<close>

definition actionmap :: "libs \<Rightarrow> (string \<times> ActionType \<times> init) list" where
  "actionmap lb =
    [(''allow'', ActionTypeDisruptive, allow_Init),
     (''append'', ActionTypeNondisruptive, append_Init),
     (''auditlog'', ActionTypeNondisruptive, auditlog_Init),
     (''block'', ActionTypeDisruptive, plain act_block),
     (''capture'', ActionTypeNondisruptive, capture_Init),
     (''chain'', ActionTypeFlow, chain_Init),
     (''ctl'', ActionTypeNondisruptive, ctl_Init lb),
     (''deny'', ActionTypeDisruptive, plain act_deny),
     (''drop'', ActionTypeDisruptive, plain act_drop),
     (''exec'', ActionTypeNondisruptive, plain act_exec),
     (''expirevar'', ActionTypeNondisruptive, expirevar_Init),
     (''id'', ActionTypeMetadata, id_Init),
     (''initcol'', ActionTypeNondisruptive, initcol_Init),
     (''log'', ActionTypeNondisruptive, log_Init),
     (''logdata'', ActionTypeNondisruptive, logdata_Init),
     (''maturity'', ActionTypeMetadata, maturity_Init),
     (''msg'', ActionTypeMetadata, msg_Init),
     (''multimatch'', ActionTypeNondisruptive, multimatch_Init),
     (''noauditlog'', ActionTypeNondisruptive, noauditlog_Init),
     (''nolog'', ActionTypeNondisruptive, nolog_Init),
     (''pass'', ActionTypeDisruptive, plain act_pass),
     (''phase'', ActionTypeMetadata, phase_Init),
     (''prepend'', ActionTypeNondisruptive, prepend_Init),
     (''redirect'', ActionTypeDisruptive, redirect_Init),
     (''rev'', ActionTypeMetadata, rev_Init),
     (''setenv'', ActionTypeNondisruptive, setenv_Init),
     (''setvar'', ActionTypeNondisruptive, setvar_Init),
     (''severity'', ActionTypeMetadata, severity_Init),
     (''skip'', ActionTypeFlow, skip_Init),
     (''skipafter'', ActionTypeFlow, skipafter_Init),
     (''status'', ActionTypeData, status_Init),
     (''tag'', ActionTypeMetadata, tag_Init),
     (''ver'', ActionTypeMetadata, ver_Init)]"

text \<open>\<open>Get\<close> followed by \<open>Init\<close>; the action \<open>t\<close> is the one that uses
  the table of transformation identifiers.\<close>

definition actions_Get_Type :: "libs \<Rightarrow> string \<Rightarrow> string + ActionType" where
  "actions_Get_Type lb name =
     (let name = ToLower name in
      if name = ''t'' then Inr ActionTypeNondisruptive
      else
        (case map_of (actionmap lb) name of
           None \<Rightarrow> Inl (''invalid action '' @ name)
         | Some (ty, _) \<Rightarrow> Inr ty))"

definition action_Init :: "libs \<Rightarrow> extern \<Rightarrow> string \<Rightarrow> string \<Rightarrow> Rule \<Rightarrow> transformationIDs \<Rightarrow>
    ((string + action) \<times> Rule \<times> transformationIDs) go" where
  "action_Init lb ext name data r ids =
     (let name = ToLower name in
      if name = ''t'' then t_Init ext data r ids
      else
        (case map_of (actionmap lb) name of
           None \<Rightarrow> Some (Inl (''invalid action '' @ name), r, ids)
         | Some (_, init) \<Rightarrow> do { (res, r) \<leftarrow> init data r; Some (res, r, ids) }))"

section \<open>What initialisation establishes\<close>

lemmas init_defs = plain_def failed_def with_macro_def allow_Init_def append_Init_def auditlog_Init_def
  capture_Init_def chain_Init_def ctl_Init_def expirevar_Init_def id_Init_def initcol_Init_def
  log_Init_def logdata_Init_def maturity_Init_def msg_Init_def multimatch_Init_def noauditlog_Init_def
  nolog_Init_def phase_Init_def prepend_Init_def redirect_Init_def rev_Init_def setenv_Init_def
  severity_Init_def skip_Init_def skipafter_Init_def status_Init_def tag_Init_def
  ver_Init_def

text \<open>A property of the result of an initialisation holds for the table when it holds for each entry.\<close>

lemma actionmap_all:
  assumes "map_of (actionmap lb) n = Some (ty, f)" "\<forall>(n, ty, f)\<in>set (actionmap lb). P ty f"
  shows "P ty f"
  using map_of_SomeD [OF assms(1)] assms(2) by blast

lemma setvar_Init_ok:
  assumes "setvar_Init data r = Some (Inr a, r')"
  obtains s where "a = act_setvar s" "r' = r"
    "sv_value s = None \<longleftrightarrow> \<not> snd (snd (Cut (if hd data = CHR ''!'' then tl data else data) (CHR ''='')))"
  using assms
  by (auto simp: setvar_Init_def failed_def opt_macro_def Let_def case_prod_beta simp del: bind_eq_Some
      split: if_split_asm sum.split_asm bind_split_asm option.split_asm)

lemma setvar_Init_error: "setvar_Init data r = Some (Inl e, r') \<Longrightarrow> r' = r"
  by (auto simp: setvar_Init_def failed_def opt_macro_def Let_def case_prod_beta simp del: bind_eq_Some
      split: if_split_asm sum.split_asm bind_split_asm option.split_asm)

lemma actionmap_Type:
  "\<forall>(n, ty, f)\<in>set (actionmap lb). \<forall>data r a r'. f data r = Some (Inr a, r') \<longrightarrow> action_Type a = ty"
  unfolding actionmap_def list.set ball_simps prod.case
  by (intro conjI allI impI TrueI; (elim setvar_Init_ok; simp | auto simp: init_defs Let_def case_prod_beta split: if_split_asm option.split_asm sum.split_asm))

text \<open>The ranges the parser of each action enforces.\<close>

definition rule_meta_ok :: "Rule \<Rightarrow> bool" where
  "rule_meta_ok r \<longleftrightarrow> 1 \<le> Phase r \<and> Phase r \<le> 5 \<and> 0 \<le> Severity r \<and> Severity r \<le> 7 \<and>
     0 \<le> Maturity r \<and> Maturity r \<le> 9"

lemma rule_meta_ok_New: "rule_meta_ok (NewRule p)"
  by (simp add: rule_meta_ok_def NewRule_def)

lemma actionmap_meta:
  "\<forall>(n, ty, f)\<in>set (actionmap lb). \<forall>data r a r'. f data r = Some (Inr a, r') \<longrightarrow> rule_meta_ok r \<longrightarrow> rule_meta_ok r'"
  unfolding actionmap_def list.set ball_simps prod.case
  by (intro conjI allI impI TrueI;
    (elim setvar_Init_ok; simp | auto simp: init_defs rule_meta_ok_def Let_def case_prod_beta
      dest: ParseRulePhase_range ParseRuleSeverity_range split: if_split_asm option.split_asm sum.split_asm))

lemma t_Init_meta: "t_Init ext input r ids = Some (res, r', ids') \<Longrightarrow> rule_meta_ok r \<Longrightarrow> rule_meta_ok r'"
  by (auto simp: t_Init_def ClearTransformations_def AddTransformation_def rule_meta_ok_def
      split: if_splits sum.splits)

section \<open>Properties\<close>

text \<open>
  C37. An action that initialises has the type that the table announces for its name, and the rule
  it configured keeps its metadata in range: phase 1 to 5, severity 0 to 7, maturity at most 9.
\<close>

theorem action_Init_typed:
  assumes "action_Init lb ext name data r ids = Some (Inr a, r', ids')"
  shows "actions_Get_Type lb name = Inr (action_Type a) \<and> (rule_meta_ok r \<longrightarrow> rule_meta_ok r')"
proof (cases "ToLower name = ''t''")
  case True
  with assms have "t_Init ext data r ids = Some (Inr a, r', ids')" by (simp add: action_Init_def)
  moreover from this have "a = act_t" by (auto simp: t_Init_def split: if_splits sum.splits option.splits)
  ultimately show ?thesis using True t_Init_meta by (auto simp: actions_Get_Type_def)
next
  case False
  with assms obtain ty f where f: "map_of (actionmap lb) (ToLower name) = Some (ty, f)"
    "f data r = Some (Inr a, r')"
    by (auto simp: action_Init_def Let_def split: option.splits)
  from actionmap_all [OF f(1) actionmap_Type] actionmap_all [OF f(1) actionmap_meta] f False
  show ?thesis by (auto simp: actions_Get_Type_def)
qed

theorem action_Init_typed_witness:
  "actions_Get_Type no_libs ''phase'' = Inr ActionTypeMetadata \<and> rule_meta_ok ((NewRule 2)\<lparr>Phase := 4\<rparr>)"
proof -
  have "action_Init no_libs ext ''phase'' ''response'' (NewRule 2) initial_ids
      = Some (Inr act_phase, (NewRule 2)\<lparr>Phase := 4\<rparr>, initial_ids)" for ext
    by (simp add: action_Init_def actionmap_def phase_Init_def ParseRulePhase_def ToLower_def is_ascii_def
        lower_ascii_def in_range_def)
  from action_Init_typed [OF this] rule_meta_ok_New show ?thesis by simp
qed

text \<open>
  A \<^verbatim>\<open>setvar\<close> whose text has no equals sign, such as the removal
  \<^verbatim>\<open>setvar:!tx.score\<close>, initialises without an error, and every evaluation of it
  panics: the missing value is a nil macro that is expanded before the removal is looked at.
\<close>

theorem setvar_without_value_panics:
  assumes "setvar_Init data r = Some (Inr a, r')" "CHR ''='' \<notin> set data"
  shows "action_Evaluate rt waf r' a tx = None"
proof -
  obtain s where s: "a = act_setvar s"
    "sv_value s = None \<longleftrightarrow> \<not> snd (snd (Cut (if hd data = CHR ''!'' then tl data else data) (CHR ''='')))"
    using setvar_Init_ok [OF assms(1)] by metis
  have "CHR ''='' \<notin> set (tl data)" using assms(2) by (cases data) auto
  with s assms(2) have "sv_value s = None" by (simp add: Cut_not_found)
  then show ?thesis by (cases "sv_key s") (simp_all add: s(1) setvar_Evaluate_def)
qed

lemma NewMacro_score: "NewMacro ''score'' = Some (Inr \<lparr>mc_original = ''score'', mc_tokens = [text_token ''score'']\<rparr>)"
  by (simp add: NewMacro_def flush_text_def)

theorem setvar_without_value_panics_witness:
  "\<exists>a. setvar_Init ''!tx.score'' (NewRule 2) = Some (Inr a, NewRule 2) \<and>
     (\<forall>rt waf. action_Evaluate rt waf (NewRule 2) a blank_tx = None)"
proof -
  have "setvar_Init ''!tx.score'' (NewRule 2) = Some (Inr (act_setvar \<lparr>sv_key =
      Some \<lparr>mc_original = ''score'', mc_tokens = [text_token ''score'']\<rparr>, sv_value = None,
      sv_collection = TX, sv_isRemove = True\<rparr>), NewRule 2)"
    by (simp add: setvar_Init_def Cut_def Parse_tx opt_macro_def NewMacro_score Let_def)
  from this setvar_without_value_panics [OF this] show ?thesis by simp
qed

text \<open>
  C38. \<^verbatim>\<open>setvar:tx.key=+n\<close> and \<^verbatim>\<open>setvar:tx.key=-n\<close> add to and subtract
  from the number stored under the key, with the wrap-around of 64-bit integers, and leave every
  other variable of TX alone; a missing number counts as zero when adding.
\<close>

theorem setvar_counter:
  assumes "sv_key s = Some k" "sv_value s = Some v" "sv_collection s = TX" "\<not> sv_isRemove s"
    and "int64_range n" "int64_range m"
    and "Expand (variables tx) v = (if sub then ''-'' else ''+'') @ Itoa n"
    and "Map_Get (col tx TX) (ToLower (Expand (variables tx) k)) = [Itoa m] \<or>
      \<not> sub \<and> m = 0 \<and> Map_Get (col tx TX) (ToLower (Expand (variables tx) k)) = []"
  shows "\<exists>tx'. setvar_Evaluate s tx = Some tx' \<and>
    Map_Get (col tx' TX) (ToLower (Expand (variables tx) k)) = [Itoa (wrap64 (if sub then m - n else m + n))] \<and>
    (\<forall>key. key \<noteq> ToLower (Expand (variables tx) k) \<longrightarrow> Map_Get (col tx' TX) key = Map_Get (col tx TX) key)"
proof -
  have "map_tag TX = Some TX" by (simp add: map_tag_def map_variables_def)
  moreover have "setvar_value (Expand (variables tx) v) (first_or (Map_Get (col tx TX) (ToLower (Expand (variables tx) k))) [])
      = Some (Itoa (wrap64 (if sub then m - n else m + n)))"
    using assms(5-8) by (auto simp: setvar_value_def Atoi_Itoa first_or_def add.commute)
  ultimately show ?thesis
    using assms(1-4)
    by (simp add: setvar_Evaluate_def evaluateTxCollection_def Let_def Map_Get_def Map_Set_def Map_SetCS_def)
qed

definition score_plus :: "string \<Rightarrow> setvarFn" where
  "score_plus v = \<lparr>sv_key = Some \<lparr>mc_original = ''score'', mc_tokens = [text_token ''score'']\<rparr>,
     sv_value = Some \<lparr>mc_original = v, mc_tokens = [text_token v]\<rparr>, sv_collection = TX, sv_isRemove = False\<rparr>"

lemma Itoa_5: "Itoa 5 = ''5''"
  by (simp add: Itoa_def nat_to_dec.simps digit_char_def char_of_def bit_Suc_0_iff)

theorem setvar_counter_witness:
  "\<exists>tx'. setvar_Evaluate (score_plus ''+5'') blank_tx = Some tx' \<and> Map_Get (col tx' TX) ''score'' = [''5'']"
proof -
  have "Expand tv \<lparr>mc_original = x, mc_tokens = [text_token x]\<rparr> = x" for tv x
    by (simp add: Expand_def expandToken_def text_token_def)
  moreover have "ToLower ''score'' = ''score''"
    by (simp add: ToLower_def is_ascii_def lower_ascii_def in_range_def)
  moreover have "int64_range 5" "int64_range 0" by (simp_all add: int64_range_def)
  ultimately show ?thesis
    using setvar_counter [of "score_plus ''+5''" "\<lparr>mc_original = ''score'', mc_tokens = [text_token ''score'']\<rparr>"
        "\<lparr>mc_original = ''+5'', mc_tokens = [text_token ''+5'']\<rparr>" 5 0 blank_tx False]
    by (auto simp: score_plus_def Itoa_5)
qed

subsection \<open>Transformations that are cleared\<close>

lemma t_Init_adds:
  assumes "ids_wf ids" "0 \<le> r_transformationsID r" "r_transformationsID r < int (length (transformationIDToName ids))"
    and "GetTransformation ext a = Inr ta" "a \<noteq> ''none''" "a \<noteq> []"
  shows "\<exists>i ids'. t_Init ext a r ids = Some (Inr act_t, r\<lparr>r_transformations := r_transformations r @
      [\<lparr>t_Name = a, t_Function = ta\<rparr>], r_transformationsID := i\<rparr>, ids') \<and>
    ids_wf ids' \<and> prefix (transformationIDToName ids) (transformationIDToName ids') \<and>
    0 \<le> i \<and> i < int (length (transformationIDToName ids')) \<and>
    transformationIDToName ids' ! nat i = transformationIDToName ids ! nat (r_transformationsID r) @ ''+'' @ a"
proof -
  have "\<exists>i ids'. transformationID (r_transformationsID r) a ids = Some (i, ids')"
    using assms(2,3) by (auto simp: transformationID_def Let_def split: option.split)
  then obtain i ids' where i: "transformationID (r_transformationsID r) a ids = Some (i, ids')" by blast
  then have "t_Init ext a r ids = Some (Inr act_t, r\<lparr>r_transformations := r_transformations r @
        [\<lparr>t_Name = a, t_Function = ta\<rparr>], r_transformationsID := i\<rparr>, ids')"
    using assms(4-6) by (simp add: t_Init_def AddTransformation_def)
  with transformationID_step [OF assms(1) i] show ?thesis by blast
qed

lemma prefix_nth:
  "prefix xs ys \<Longrightarrow> n < length xs \<Longrightarrow> ys ! n = xs ! n"
  by (auto simp: prefix_def nth_append)

lemma ids_wf_zero: "ids_wf x \<Longrightarrow> transformationIDToName x ! 0 = [] \<and> transformationIDToName x \<noteq> []"
  unfolding ids_wf_def using hd_conv_nth by metis

text \<open>The transformations of a rule, given by its \<^verbatim>\<open>t\<close> actions in order.\<close>

definition t_action :: "extern \<Rightarrow> string \<Rightarrow> Rule \<times> transformationIDs \<Rightarrow> (Rule \<times> transformationIDs) go" where
  "t_action ext input = (\<lambda>(r, ids). do { (_, r, ids) \<leftarrow> t_Init ext input r ids; Some (r, ids) })"

text \<open>
  \<^verbatim>\<open>t:none\<close> clears the transformations of a rule but not their identifier. A rule with
  \<^verbatim>\<open>t:a,t:none,t:b\<close> then shares its identifier with a rule with \<^verbatim>\<open>t:a,t:b\<close>, and
  once the first has been evaluated, the second one gets the value of \<open>b\<close> alone from the cache
  instead of applying its two transformations.
\<close>

theorem t_none_cache_collision:
  assumes "ids_wf ids" "GetTransformation ext a = Inr ta" "GetTransformation ext b = Inr tb"
    and "a \<noteq> ''none''" "b \<noteq> ''none''" "a \<noteq> []" "b \<noteq> []" "md_VariableName arg \<noteq> ''TX''"
  shows "\<exists>r1 r2 ids1 ids2.
    foreach [a, ''none'', b] (t_action ext) (NewRule p, ids) = Some (r1, ids1) \<and>
    foreach [a, b] (t_action ext) (NewRule q, ids1) = Some (r2, ids2) \<and>
    \<not> r_MultiMatch r1 \<and> map t_Function (r_transformations r1) = [tb] \<and> map t_Function (r_transformations r2) = [ta, tb] \<and>
    (\<forall>i c res c1. transformArg r1 arg i c = Some (res, c1) \<longrightarrow> transformArg r2 arg i c1 = Some (res, c1))"
proof -
  note z = ids_wf_zero
  have New: "r_transformationsID (NewRule n) = 0" "r_transformations (NewRule n) = []"
    "\<not> r_MultiMatch (NewRule n)" for n by (simp_all add: NewRule_def)
  obtain i1 x1 where s1: "t_Init ext a (NewRule p) ids = Some (Inr act_t, (NewRule p)\<lparr>r_transformations :=
      [\<lparr>t_Name = a, t_Function = ta\<rparr>], r_transformationsID := i1\<rparr>, x1)" "ids_wf x1"
      "0 \<le> i1" "i1 < int (length (transformationIDToName x1))" "transformationIDToName x1 ! nat i1 = ''+'' @ a"
    using t_Init_adds [OF assms(1) _ _ assms(2,4,6), of "NewRule p"] z [OF assms(1)] New by auto
  let ?c = "ClearTransformations ((NewRule p)\<lparr>r_transformations := [\<lparr>t_Name = a, t_Function = ta\<rparr>],
      r_transformationsID := i1\<rparr>)"
  have c: "r_transformationsID ?c = i1" "r_transformations ?c = []" by (simp_all add: ClearTransformations_def)
  obtain i2 x2 where s2: "t_Init ext b ?c x1 = Some (Inr act_t, ?c\<lparr>r_transformations :=
      [\<lparr>t_Name = b, t_Function = tb\<rparr>], r_transformationsID := i2\<rparr>, x2)" "ids_wf x2"
      "0 \<le> i2" "i2 < int (length (transformationIDToName x2))"
      "transformationIDToName x2 ! nat i2 = (''+'' @ a) @ ''+'' @ b"
    using t_Init_adds [OF s1(2) _ _ assms(3,5,7), of ?c] s1 c by auto
  obtain i3 x3 where s3: "t_Init ext a (NewRule q) x2 = Some (Inr act_t, (NewRule q)\<lparr>r_transformations :=
      [\<lparr>t_Name = a, t_Function = ta\<rparr>], r_transformationsID := i3\<rparr>, x3)" "ids_wf x3"
      "prefix (transformationIDToName x2) (transformationIDToName x3)"
      "0 \<le> i3" "i3 < int (length (transformationIDToName x3))" "transformationIDToName x3 ! nat i3 = ''+'' @ a"
    using t_Init_adds [OF s2(2) _ _ assms(2,4,6), of "NewRule q"] z [OF s2(2)] New by auto
  let ?d = "(NewRule q)\<lparr>r_transformations := [\<lparr>t_Name = a, t_Function = ta\<rparr>], r_transformationsID := i3\<rparr>"
  obtain i4 x4 where s4: "t_Init ext b ?d x3 = Some (Inr act_t, ?d\<lparr>r_transformations :=
      r_transformations ?d @ [\<lparr>t_Name = b, t_Function = tb\<rparr>], r_transformationsID := i4\<rparr>, x4)" "ids_wf x4"
      "prefix (transformationIDToName x3) (transformationIDToName x4)"
      "0 \<le> i4" "i4 < int (length (transformationIDToName x4))"
      "transformationIDToName x4 ! nat i4 = (''+'' @ a) @ ''+'' @ b"
    using t_Init_adds [OF s3(2) _ _ assms(3,5,7), of ?d] s3 by auto
  have "prefix (transformationIDToName x2) (transformationIDToName x4)"
    using s3(3) s4(3) by (rule prefix_order.trans)
  then have "i2 = i4"
    using ids_wf_unique [OF s4(2), of i2 i4] s2 s4 prefix_nth [of "transformationIDToName x2" "transformationIDToName x4" "nat i2"]
    by (auto simp: prefix_def)
  then show ?thesis
    using s1(1) s2(1) s3(1) s4(1) assms(8) New
    by (auto simp: t_action_def t_Init_def [of _ "''none''"] transformArg_def cache_key_def ClearTransformations_def
        split: option.splits)
qed

lemma GetTransformation_samples:
  "GetTransformation ext ''length'' = Inr length_t" "GetTransformation ext ''lowercase'' = Inr lowerCase"
  by (simp_all add: GetTransformation_def transformations_def ToLower_def is_ascii_def lower_ascii_def in_range_def)

theorem t_none_cache_collision_witness:
  "\<forall>ext. \<exists>r1 r2 ids1 ids2 c1.
    foreach [''length'', ''none'', ''lowercase''] (t_action ext) (NewRule 2, initial_ids) = Some (r1, ids1) \<and>
    foreach [''length'', ''lowercase''] (t_action ext) (NewRule 3, ids1) = Some (r2, ids2) \<and>
    transformArg r1 (sample_arg RequestURI ''AB'') 0 (\<lambda>_. None) = Some (([''ab''], []), c1) \<and>
    transformArg r2 (sample_arg RequestURI ''AB'') 0 c1 = Some (([''ab''], []), c1)"
proof
  fix ext
  have name: "md_VariableName (sample_arg RequestURI ''AB'') \<noteq> ''TX''"
    by (simp add: sample_arg_def variable_Name_def rulemap_def)
  obtain r1 r2 ids1 ids2 where r:
    "foreach [''length'', ''none'', ''lowercase''] (t_action ext) (NewRule 2, initial_ids) = Some (r1, ids1)"
    "foreach [''length'', ''lowercase''] (t_action ext) (NewRule 3, ids1) = Some (r2, ids2)"
    "\<not> r_MultiMatch r1" "map t_Function (r_transformations r1) = [lowerCase]"
    "\<forall>i c res c1. transformArg r1 (sample_arg RequestURI ''AB'') i c = Some (res, c1) \<longrightarrow>
       transformArg r2 (sample_arg RequestURI ''AB'') i c1 = Some (res, c1)"
    using t_none_cache_collision [OF ids_wf_initial GetTransformation_samples _ _ _ _ name, where p = 2 and q = 3 and ext = ext] by auto
  obtain c1 where "transformArg r1 (sample_arg RequestURI ''AB'') 0 (\<lambda>_. None) = Some (([''ab''], []), c1)"
    using r(3,4) name by (auto simp: transformArg_def lowerCase_AB sample_arg_def)
  with r show "\<exists>r1 r2 ids1 ids2 c1.
    foreach [''length'', ''none'', ''lowercase''] (t_action ext) (NewRule 2, initial_ids) = Some (r1, ids1) \<and>
    foreach [''length'', ''lowercase''] (t_action ext) (NewRule 3, ids1) = Some (r2, ids2) \<and>
    transformArg r1 (sample_arg RequestURI ''AB'') 0 (\<lambda>_. None) = Some (([''ab''], []), c1) \<and>
    transformArg r2 (sample_arg RequestURI ''AB'') 0 c1 = Some (([''ab''], []), c1)" by blast
qed

end
