(* ===== verification/Rule_Props.thy ===== *)
theory Rule_Props
  imports Action_Init
begin

text \<open>
  Properties of the evaluation of a rule with its chain (\<open>doEvaluate\<close> of
  src/internal/corazawaf/rule.go): what a rule that does not match leaves alone, what a rule that
  matches records, and when it interrupts the transaction.
\<close>

section \<open>Parent and chain\<close>

text \<open>The parser gives every chained rule the identifier of its parent.\<close>

definition chain_ok :: "Rule \<Rightarrow> Rule list \<Rightarrow> bool" where
  "chain_ok r chain \<longleftrightarrow> r_ParentID r = 0 \<and> (\<forall>c\<in>set chain. r_ParentID c \<noteq> 0)"

lemma evalChain_no_verdict:
  assumes "\<forall>c\<in>set chain. r_ParentID c \<noteq> 0" "evalChain rt waf chain t = Some (res, t')"
  shows "no_verdict t t'"
  by (rule nondisruptive.R_evalChain_nondisruptive [OF _ assms(2)])
    (use assms(1) in \<open>simp add: nondisruptive_ok_self\<close>)

lemma matchRuleValues_no_verdict: "matchRuleValues rt waf r t = Some (mvs, t') \<Longrightarrow> no_verdict t t'"
  by (rule nondisruptive.R_matchRuleValues [OF _ nondisruptive_ok_self])

text \<open>The two ways a parent rule ends: without a match, or by \<open>finish_parent\<close>.\<close>

lemma doEvaluate_cases:
  assumes "doEvaluate rt waf r chain t = Some (mvs, t')" "chain_ok r chain"
  obtains (no_match) "mvs = []" "no_verdict t t'"
  | (matched) t1 where "no_verdict t t1" "mvs \<noteq> []" "finish_parent rt waf r mvs t1 = Some (mvs, t')"
      "\<And>R. (\<And>t t' mvs. matchRuleValues rt waf r t = Some (mvs, t') \<Longrightarrow> R t t') \<Longrightarrow>
         (\<And>t t' res. evalChain rt waf chain t = Some (res, t') \<Longrightarrow> R t t') \<Longrightarrow>
         (\<And>t1 t2 t3. R t1 t2 \<Longrightarrow> R t2 t3 \<Longrightarrow> R t1 t3) \<Longrightarrow> R t t1"
proof -
  from assms(1) obtain ms u where m: "matchRuleValues rt waf r t = Some (ms, u)"
    by (auto simp: doEvaluate.simps split: option.splits)
  note u = matchRuleValues_no_verdict [OF m]
  show ?thesis
  proof (cases "ms = []")
    case True
    with m assms u show ?thesis by (auto simp: doEvaluate.simps chain_ok_def intro: no_match)
  next
    case False
    with m assms obtain res v where e: "evalChain rt waf chain u = Some (res, v)"
      by (auto simp: doEvaluate.simps chain_ok_def split: option.splits)
    have v: "no_verdict t v"
      using no_verdict_trans [OF u evalChain_no_verdict [OF _ e]] assms(2) by (simp add: chain_ok_def)
    show ?thesis
    proof (cases res)
      case None
      with m e False assms v show ?thesis by (auto simp: doEvaluate.simps chain_ok_def intro: no_match)
    next
      case (Some cvs)
      with m e False assms have "finish_parent rt waf r (ms @ cvs) v = Some (mvs, t')"
        by (auto simp: doEvaluate.simps chain_ok_def)
      moreover from this have "mvs = ms @ cvs" by (auto simp: finish_parent_def)
      ultimately show ?thesis using matched [of v] v False m e by blast
    qed
  qed
qed

section \<open>Disruptive actions\<close>

text \<open>The verdict of a rule is that of its last action that disrupts.\<close>

fun action_verdict :: "Rule \<Rightarrow> action \<Rightarrow> Interruption option" where
  "action_verdict r act_deny = Some \<lparr>it_RuleID = effective_id r, it_Action = ''deny'', it_Status = r_DisruptiveStatus r, it_Data = []\<rparr>"
| "action_verdict r act_drop = Some \<lparr>it_RuleID = effective_id r, it_Action = ''drop'', it_Status = r_DisruptiveStatus r, it_Data = []\<rparr>"
| "action_verdict r (act_redirect url) = Some \<lparr>it_RuleID = effective_id r, it_Action = ''redirect'', it_Status = r_DisruptiveStatus r, it_Data = url\<rparr>"
| "action_verdict r _ = None"

fun last_verdict :: "Rule \<Rightarrow> action list \<Rightarrow> Interruption option" where
  "last_verdict r [] = None"
| "last_verdict r (a # as) = (case last_verdict r as of None \<Rightarrow> action_verdict r a | Some it \<Rightarrow> Some it)"

definition rule_verdict :: "Rule \<Rightarrow> Interruption option" where
  "rule_verdict r = last_verdict r (map a_Function (r_actions r))"

text \<open>Only a disruptive action has a verdict, so the verdict of a rule is that of its disruptive and flow actions.\<close>

lemma action_verdict_Type: "action_verdict r a \<noteq> None \<Longrightarrow> action_Type a = ActionTypeDisruptive"
  by (cases a) auto

lemma last_verdict_actions_of:
  "last_verdict r (actions_of (\<lambda>t. t = ActionTypeDisruptive \<or> t = ActionTypeFlow) r) = rule_verdict r"
proof -
  have "last_verdict r (filter (\<lambda>a. action_Type a = ActionTypeDisruptive \<or> action_Type a = ActionTypeFlow) as) = last_verdict r as" for as
  proof (induction as)
    case (Cons a as)
    then show ?case using action_verdict_Type [of r a] by (cases "action_verdict r a") (auto split: option.splits)
  qed simp
  then show ?thesis by (simp add: rule_verdict_def actions_of_def)
qed

text \<open>Whether a verdict counts: only while the engine is on.\<close>

definition verdict_now :: "Interruption option \<Rightarrow> Transaction \<Rightarrow> Interruption option" where
  "verdict_now v t = (if RuleEngine t = RuleEngineOn \<and> v \<noteq> None then v else interruption t)"

text \<open>A disruptive or flow action leaves the engine alone and sets the interruption to its verdict when the
  engine is on.\<close>

lemma disruptive_step:
  assumes "action_Type a = ActionTypeDisruptive \<or> action_Type a = ActionTypeFlow"
    and "action_Evaluate rt waf r a t = Some t'"
  shows "RuleEngine t' = RuleEngine t \<and> interruption t' = verdict_now (action_verdict r a) t"
  using assms by (cases a) (auto simp: verdict_now_def disrupt_def Interrupt_def)

lemma disruptive_foreach:
  assumes "foreach as (action_Evaluate rt waf r) t = Some t'"
    and "\<forall>a\<in>set as. action_Type a = ActionTypeDisruptive \<or> action_Type a = ActionTypeFlow"
  shows "interruption t' = verdict_now (last_verdict r as) t"
  using assms
proof (induction as arbitrary: t)
  case Nil
  then show ?case by (simp add: verdict_now_def)
next
  case (Cons a as)
  then obtain u where u: "action_Evaluate rt waf r a t = Some u" "foreach as (action_Evaluate rt waf r) u = Some t'"
    by (auto split: option.splits)
  have "RuleEngine u = RuleEngine t" "interruption u = verdict_now (action_verdict r a) t"
    using disruptive_step [OF _ u(1)] Cons.prems by auto
  moreover have "interruption t' = verdict_now (last_verdict r as) u"
    using Cons.IH [OF u(2)] Cons.prems by simp
  ultimately show ?case by (auto simp: verdict_now_def split: option.splits)
qed

lemma matched_rule_MatchRule:
  "matchedRules (MatchRule waf r mds t) = matchedRules t @ [matched_rule r mds (raise_severity r t)]"
  by (simp add: MatchRule_eq Let_def) (simp add: raise_severity_def set_var_def)

lemma interruption_MatchRule: "interruption (MatchRule waf r mds t) = interruption t"
  by (simp add: MatchRule_eq Let_def) (simp add: raise_severity_def set_var_def)

lemma disruptive_actions_matchedRules:
  assumes "disruptive_actions rt waf r t = Some t'"
  shows "matchedRules t' = matchedRules t"
proof -
  have step: "matchedRules u = matchedRules v"
    if "action_Type a = ActionTypeDisruptive \<or> action_Type a = ActionTypeFlow"
      "action_Evaluate rt waf r a u = Some v" for a u v
    using that by (cases a) (auto simp: disrupt_def Interrupt_def)
  show ?thesis
  proof (cases "RuleEngine t = RuleEngineDetectionOnly")
    case True
    with assms show ?thesis by (simp add: disruptive_actions_def)
  next
    case False
    with assms have "foreach (actions_of (\<lambda>t. t = ActionTypeDisruptive \<or> t = ActionTypeFlow) r)
        (action_Evaluate rt waf r) t = Some t'" by (simp add: disruptive_actions_def)
    then show ?thesis
      by (rule foreach_inv [of _ _ _ _ "\<lambda>u. matchedRules u = matchedRules t"])
        (use step actions_of_iff in \<open>fastforce+\<close>)
  qed
qed

lemma disruptive_actions_verdict:
  assumes "disruptive_actions rt waf r t = Some t'"
  shows "interruption t' = verdict_now (rule_verdict r) t"
proof (cases "RuleEngine t = RuleEngineDetectionOnly")
  case True
  with assms show ?thesis by (simp add: disruptive_actions_def verdict_now_def)
next
  case False
  with assms show ?thesis
    using disruptive_foreach [of "actions_of (\<lambda>t. t = ActionTypeDisruptive \<or> t = ActionTypeFlow) r" rt waf r t t'] actions_of_iff
    by (auto simp: disruptive_actions_def last_verdict_actions_of)
qed

lemma doEvaluate_outcome:
  assumes "doEvaluate rt waf r chain t = Some (mvs, t')" "mvs \<noteq> []" "chain_ok r chain" "ID r \<noteq> 0"
    and "\<forall>r'\<in>set (r # chain). \<forall>a\<in>rule_actions r'. keeps_engine a"
  shows "(\<exists>mr. matchedRules t' = matchedRules t @ [mr] \<and> mr_Rule mr = RuleMetadata.truncate r \<and>
      mr_MatchedDatas mr = mvs) \<and>
    interruption t' = (if RuleEngine t = RuleEngineOn \<and> rule_verdict r \<noteq> None then rule_verdict r else interruption t)"
  using assms(1,3)
proof (cases rule: doEvaluate_cases)
  case no_match
  with assms(2) show ?thesis by simp
next
  case (matched t1)
  have "nondisruptive_ok keeps_engine r" using assms(5) by (simp add: nondisruptive_ok_def)
  then have "engine_kept u v" if "matchRuleValues rt waf r u = Some (ms, v)" for u v ms
    using engine.R_matchRuleValues [OF that] by blast
  moreover have "engine_kept u v" if "evalChain rt waf chain u = Some (res, v)" for u v res
    by (rule engine.R_evalChain [OF _ that]) (use assms(5) in simp)
  ultimately have "engine_kept t t1"
    by (rule matched(4) [of engine_kept]) (assumption | rule engine_kept_trans)+
  then have on: "RuleEngine t1 = RuleEngine t" by (simp add: engine_kept_def)
  obtain t2 where t2: "disruptive_actions rt waf r t1 = Some t2" "t' = MatchRule waf r mvs t2"
    using matched(3) assms(4) by (auto simp: finish_parent_def)
  have "interruption t1 = interruption t" "matchedRules t1 = matchedRules t"
    using matched(1) by (simp_all add: no_verdict_def)
  then show ?thesis
    using disruptive_actions_matchedRules [OF t2(1)] disruptive_actions_verdict [OF t2(1)] t2(2) on
    by (auto simp: matched_rule_MatchRule interruption_MatchRule verdict_now_def matched_rule_def)
qed

section \<open>Properties\<close>

text \<open>
  C13. A rule that does not match, itself or in its chain, gives no verdict: it does not interrupt
  the transaction, records no match, sends nothing to the error log and does not change which
  rules run next, even if its non-disruptive actions have run.
\<close>

theorem doEvaluate_no_match:
  assumes "doEvaluate rt waf r chain t = Some ([], t')" "chain_ok r chain"
  shows "no_verdict t t'"
  using doEvaluate_cases [OF assms] by metis

text \<open>
  C2. A parent rule that matches together with its whole chain is recorded once, at the end of the
  matched rules, with the values that matched. When no action of the rule or of its chain switches
  the engine (no ctl:ruleEngine among them), the transaction is interrupted exactly when the engine
  is on and the rule has a deny, drop or redirect action; the interruption then carries the
  identifier and the status of the rule and the name and the URL of the last such action. In every
  other case the interruption stays as it was.
\<close>

theorem doEvaluate_match:
  assumes "doEvaluate rt waf r chain t = Some (mvs, t')" "mvs \<noteq> []" "chain_ok r chain" "ID r \<noteq> 0"
    and "\<forall>r'\<in>set (r # chain). \<forall>a\<in>rule_actions r'. keeps_engine a"
  shows "(\<exists>mr. matchedRules t' = matchedRules t @ [mr] \<and> mr_Rule mr = RuleMetadata.truncate r \<and>
      mr_MatchedDatas mr = mvs) \<and>
    interruption t' = (if RuleEngine t = RuleEngineOn \<and> rule_verdict r \<noteq> None then rule_verdict r else interruption t)"
  using assms by (rule doEvaluate_outcome)

definition waf0 :: WAF where
  "waf0 = \<lparr>w_Rules = [], w_AuditEngine = AuditEngineOff, w_AuditLogParts = [], w_ContentInjection = False,
     w_RequestBodyAccess = True, w_RequestBodyLimit = 4, w_RequestBodyInMemoryLimit = 2,
     w_ResponseBodyAccess = True, w_ResponseBodyLimit = 4, w_RuleEngine = RuleEngineOn,
     w_ResponseBodyMimeTypes = [], w_AuditLogRelevantStatus = None, w_TmpDir = [], w_UploadDir = [],
     w_RequestBodyLimitAction = RequestBodyLimitActionReject, w_ErrorLogCb = False, w_AuditLogWriter = False\<rparr>"

definition rt0 :: runtime where
  "rt0 = \<lparr>rt_ord = (\<lambda>ks. ks), rt_libs = no_libs, rt_os = os_ok, rt_tiny = False\<rparr>"

text \<open>Sample rules on the request URI: one that never matches and one that always denies.\<close>

definition uri_rule :: "operator \<Rightarrow> Rule" where
  "uri_rule op = (NewRule 2)\<lparr>ID := 7, r_DisruptiveStatus := 403, r_variables := [target_of RequestURI []],
     r_operator := Some \<lparr>o_Operator = op, o_Function = [], o_Data = [], o_Negation = False\<rparr>,
     r_actions := [\<lparr>a_Name = ''deny'', a_Param = [], a_Function = act_deny\<rparr>]\<rparr>"

lemma chain_ok_uri_rule: "chain_ok (uri_rule op) []"
  by (simp add: chain_ok_def uri_rule_def NewRule_def)

lemma GetField_uri:
  "\<exists>m. GetField ord (with_removed_targets [] (target_of RequestURI [])) t = Some [m] \<and> md_Value m = var t RequestURI"
  by (simp add: GetField_def with_removed_targets_def target_of_def tx_Collection_def simple_variables_def
      find_matches_def Simple_FindAll_def Let_def get_simple_def excepted_def)

lemma set_rule_vars_fields:
  "ruleRemoveTargetByID (set_rule_vars r t) = ruleRemoveTargetByID t"
  "transformationCache (set_rule_vars r t) = transformationCache t"
  by (simp_all add: set_rule_vars_def Let_def upd_col_def split: option.splits)

lemma matchRuleValues_uri:
  assumes "\<And>v u. operator_Evaluate no_libs op u v = Some (b, u)" "ruleRemoveTargetByID t 7 = []"
  shows "\<exists>ms t'. matchRuleValues rt0 waf (uri_rule op) t = Some (ms, t') \<and> (ms \<noteq> []) = b"
proof -
  let ?t = "set_rule_vars (uri_rule op) t"
  obtain m where m: "GetField (\<lambda>ks. ks) (with_removed_targets [] (target_of RequestURI [])) ?t = Some [m]"
    using GetField_uri by blast
  have "ID (uri_rule op) = 7" "r_Capture (uri_rule op) = False" "r_variables (uri_rule op) = [target_of RequestURI []]"
    "r_transformations (uri_rule op) = []" "r_MultiMatch (uri_rule op) = False"
    "r_operator (uri_rule op) = Some \<lparr>o_Operator = op, o_Function = [], o_Data = [], o_Negation = False\<rparr>"
    "actions_of (\<lambda>t. t = ActionTypeNondisruptive) (uri_rule op) = []"
    by (simp_all add: uri_rule_def NewRule_def actions_of_def)
  with m assms show ?thesis
    by (cases b) (simp_all add: matchRuleValues_def Let_def match_target_def match_arg_def match_value_def
      transformArg_def executeOperator_def rule_matchVariable_def set_rule_vars_fields rt0_def)
qed

theorem doEvaluate_no_match_witness:
  "\<exists>t'. doEvaluate rt0 waf0 (uri_rule op_noMatch) [] blank_tx = Some ([], t') \<and> no_verdict blank_tx t'"
proof -
  have "ruleRemoveTargetByID blank_tx 7 = []" by (simp add: blank_tx_def)
  from matchRuleValues_uri [OF _ this, of op_noMatch False waf0] obtain t'
    where "matchRuleValues rt0 waf0 (uri_rule op_noMatch) blank_tx = Some ([], t')" by auto
  then have "doEvaluate rt0 waf0 (uri_rule op_noMatch) [] blank_tx = Some ([], t')"
    by (simp add: doEvaluate.simps)
  from this doEvaluate_no_match [OF this chain_ok_uri_rule] show ?thesis by blast
qed

lemma doEvaluate_uri_match:
  assumes "ruleRemoveTargetByID t 7 = []"
  shows "\<exists>mvs t'. doEvaluate rt0 waf (uri_rule op_unconditionalMatch) [] t = Some (mvs, t') \<and> mvs \<noteq> []"
proof -
  let ?r = "uri_rule op_unconditionalMatch"
  from matchRuleValues_uri [OF _ assms, of op_unconditionalMatch True waf] obtain ms t1
    where m: "matchRuleValues rt0 waf ?r t = Some (ms, t1)" "ms \<noteq> []" by auto
  have r: "r_ParentID ?r = 0" "actions_of (\<lambda>t. t = ActionTypeDisruptive \<or> t = ActionTypeFlow) ?r = [act_deny]"
    by (simp_all add: uri_rule_def NewRule_def actions_of_def)
  have "\<exists>u. disruptive_actions rt0 waf ?r t1 = Some u" by (simp add: disruptive_actions_def r(2))
  with m r(1) show ?thesis by (auto simp: doEvaluate.simps finish_parent_def)
qed

lemma uri_rule_actions:
  "rule_actions (uri_rule op) = {act_deny}" "ID (uri_rule op) = 7" "Phase (uri_rule op) = 2"
  by (simp_all add: uri_rule_def NewRule_def rule_actions_def)

lemma uri_rule_verdict:
  "rule_verdict (uri_rule op) = Some \<lparr>it_RuleID = 7, it_Action = ''deny'', it_Status = 403, it_Data = []\<rparr>"
  by (simp add: rule_verdict_def uri_rule_def NewRule_def effective_id_def)

theorem doEvaluate_match_witness:
  "\<exists>mvs t'. doEvaluate rt0 waf0 (uri_rule op_unconditionalMatch) [] blank_tx = Some (mvs, t') \<and>
     interruption t' = Some \<lparr>it_RuleID = 7, it_Action = ''deny'', it_Status = 403, it_Data = []\<rparr> \<and>
     length (matchedRules t') = 1"
proof -
  let ?r = "uri_rule op_unconditionalMatch"
  obtain ms t' where d: "doEvaluate rt0 waf0 ?r [] blank_tx = Some (ms, t')" "ms \<noteq> []"
    using doEvaluate_uri_match [of blank_tx waf0] by (auto simp: blank_tx_def)
  have "RuleEngine blank_tx = RuleEngineOn" "matchedRules blank_tx = []" by (simp_all add: blank_tx_def)
  moreover have "\<forall>r'\<in>set [?r]. \<forall>a\<in>rule_actions r'. keeps_engine a"
    by (simp add: uri_rule_actions keeps_engine_def)
  ultimately have "interruption t' = rule_verdict ?r" "length (matchedRules t') = 1"
    using doEvaluate_match [OF d chain_ok_uri_rule] uri_rule_actions(2) uri_rule_verdict by (simp, force)
  with d show ?thesis by (auto simp: uri_rule_verdict)
qed

text \<open>
  HIGHEST_SEVERITY holds the numerically largest severity of the matched rules. Since severities
  count down from 0, emergency, to 7, debug, this is the least severe one.
\<close>

theorem MatchRule_severity:
  assumes "0 \<le> Severity r" "Severity r \<le> 7" "var t HighestSeverity = Itoa s" "0 \<le> s" "s \<le> 7"
  shows "var (MatchRule waf r mds t) HighestSeverity = Itoa (max s (Severity r))"
proof -
  have "severity_or_zero (Itoa s) = s" using assms(4,5) by (rule severity_or_zero_Itoa)
  then have "var (raise_severity r t) HighestSeverity = Itoa (max s (Severity r))"
    using assms(3) by (simp add: raise_severity_def max_def)
  then show ?thesis by (simp add: MatchRule_eq Let_def)
qed

theorem MatchRule_severity_witness:
  "var (MatchRule waf0 ((NewRule 2)\<lparr>Severity := 7\<rparr>) [] (set_var HighestSeverity (Itoa 2) blank_tx)) HighestSeverity = Itoa 7"
  using MatchRule_severity [of "(NewRule 2)\<lparr>Severity := 7\<rparr>" "set_var HighestSeverity (Itoa 2) blank_tx" 2 waf0 "[]"]
  by simp

end
