(* ===== verification/Rule_Group.thy ===== *)
theory Rule_Group
  imports Rule_Props
begin

text \<open>
  The rule group (src/internal/corazawaf/rulegroup.go): the collection of rules with its lookups,
  and \<open>Eval\<close>, the loop that evaluates the rules of one phase.
\<close>

section \<open>The collection of rules\<close>

definition NewRuleGroup :: "ChainedRule list" where
  "NewRuleGroup = []"

fun FindByID :: "int \<Rightarrow> ChainedRule list \<Rightarrow> ChainedRule option" where
  "FindByID i [] = None"
| "FindByID i (r # rs) = (if ID (fst r) = i then Some r else FindByID i rs)"

text \<open>The rule may be nil, which is ignored.\<close>

definition Add :: "ChainedRule option \<Rightarrow> ChainedRule list \<Rightarrow> string option \<times> ChainedRule list" where
  "Add rule rules =
     (case rule of
        None \<Rightarrow> (None, rules)
      | Some r \<Rightarrow>
          if FindByID (ID (fst r)) rules \<noteq> None \<and> ID (fst r) \<noteq> 0
          then (Some (''there is a another rule with id '' @ Itoa (ID (fst r))), rules)
          else (None, rules @ [r]))"

text \<open>
  \<open>DeleteByID\<close> ranges over the slice as it was at the start, while the body of the loop
  moves the elements of the array behind it: \<open>arr\<close> is the array, with \<^const>\<open>None\<close>
  for nil, and \<open>n\<close> the current length of \<open>rg.rules\<close>.
\<close>

definition delete_step :: "int \<Rightarrow> nat \<Rightarrow> ChainedRule option list \<times> nat \<Rightarrow> ChainedRule option list \<times> nat" where
  "delete_step i k = (\<lambda>(arr, n).
     (case arr ! k of
        None \<Rightarrow> (arr, n)
      | Some r \<Rightarrow>
          if ID (fst r) = i
          then (take k arr @ take (n - k - 1) (drop (k + 1) arr) @ [None] @ drop n arr, n - 1)
          else (arr, n)))"

definition DeleteByID :: "int \<Rightarrow> ChainedRule list \<Rightarrow> ChainedRule list" where
  "DeleteByID i rules =
     (let (arr, n) = fold (delete_step i) [0..<length rules] (map Some rules, length rules)
      in map the (take n arr))"

text \<open>A rule without a message has a nil macro, whose \<open>String\<close> panics.\<close>

fun FindByMsg :: "string \<Rightarrow> ChainedRule list \<Rightarrow> ChainedRule list go" where
  "FindByMsg msg [] = Some []"
| "FindByMsg msg (r # rs) =
     (case r_Msg (fst r) of
        None \<Rightarrow> None
      | Some m \<Rightarrow>
          do { rest \<leftarrow> FindByMsg msg rs;
               Some (if macro_String m = msg then r # rest else rest) })"

definition FindByTag :: "string \<Rightarrow> ChainedRule list \<Rightarrow> ChainedRule list" where
  "FindByTag tag rules = filter (\<lambda>r. InSlice tag (Tags (fst r))) rules"

definition Count :: "ChainedRule list \<Rightarrow> int" where
  "Count rules = int (length rules)"

definition Clear :: "ChainedRule list \<Rightarrow> ChainedRule list" where
  "Clear rules = []"

section \<open>Evaluation of a phase\<close>

definition reset_matched :: "Transaction \<Rightarrow> Transaction" where
  "reset_matched tx = upd_col MatchedVarsNames Map_Reset (upd_col MatchedVars Map_Reset tx)"

text \<open>The body of the loop for one rule, after the test for an interruption.\<close>

definition rule_step :: "runtime \<Rightarrow> WAF \<Rightarrow> RulePhase \<Rightarrow> ChainedRule \<Rightarrow> Transaction \<Rightarrow> Transaction go" where
  "rule_step rt waf phase rc tx =
     (let r = fst rc in
      if Phase r \<noteq> phase \<and> Phase r \<noteq> 0 then Some tx
      else if ID r \<in> set (ruleRemoveByID tx) then Some tx
      else if SkipAfter tx \<noteq> [] then
        Some (if SecMark r = SkipAfter tx then tx\<lparr>SkipAfter := []\<rparr> else tx)
      else if Skip tx > 0 then Some (tx\<lparr>Skip := Skip tx - 1\<rparr>)
      else
        do { (_, tx) \<leftarrow> doEvaluate rt waf r (snd rc) (reset_matched tx);
             Some (tx\<lparr>Capture := False\<rparr>) })"

fun eval_rules :: "runtime \<Rightarrow> WAF \<Rightarrow> RulePhase \<Rightarrow> ChainedRule list \<Rightarrow> Transaction \<Rightarrow> Transaction go" where
  "eval_rules rt waf phase [] tx = Some tx"
| "eval_rules rt waf phase (rc # rules) tx =
     (if interruption tx \<noteq> None \<and> phase \<noteq> PhaseLogging then Some tx
      else do { tx \<leftarrow> rule_step rt waf phase rc tx; eval_rules rt waf phase rules tx })"

definition start_phase :: "RulePhase \<Rightarrow> Transaction \<Rightarrow> Transaction" where
  "start_phase phase tx = tx\<lparr>LastPhase := phase, transformationCache := (\<lambda>_. None)\<rparr>"

definition Eval :: "runtime \<Rightarrow> WAF \<Rightarrow> RulePhase \<Rightarrow> Transaction \<Rightarrow> (bool \<times> Transaction) go" where
  "Eval rt waf phase tx =
     do { tx \<leftarrow> eval_rules rt waf phase (w_Rules waf) (start_phase phase tx);
          Some (interruption tx \<noteq> None, tx) }"

section \<open>The interface of a rule store\<close>

text \<open>
  What the configuration parser relies on: adding a rule whose identifier is new makes it found,
  a rule whose identifier is taken is refused, and deleting makes an identifier unknown.
\<close>

definition unique_ids :: "ChainedRule list \<Rightarrow> bool" where
  "unique_ids rules \<longleftrightarrow> distinct (filter (\<lambda>i. i \<noteq> 0) (map (\<lambda>r. ID (fst r)) rules))"

locale rule_store =
  fixes inv :: "'s \<Rightarrow> bool" and empty :: 's
    and add :: "'r \<Rightarrow> 's \<Rightarrow> string option \<times> 's"
    and find :: "int \<Rightarrow> 's \<Rightarrow> 'r option"
    and delete :: "int \<Rightarrow> 's \<Rightarrow> 's"
    and rule_id :: "'r \<Rightarrow> int"
  assumes inv_empty: "inv empty"
    and find_empty: "find i empty = None"
    and inv_add: "inv s \<Longrightarrow> inv (snd (add r s))"
    and add_new: "find (rule_id r) s = None \<Longrightarrow> fst (add r s) = None"
    and find_add: "find (rule_id r) s = None \<Longrightarrow> find i (snd (add r s)) = (if i = rule_id r then Some r else find i s)"
    and add_taken: "rule_id r \<noteq> 0 \<Longrightarrow> find (rule_id r) s \<noteq> None \<Longrightarrow> fst (add r s) \<noteq> None \<and> snd (add r s) = s"
    and inv_delete: "inv s \<Longrightarrow> i \<noteq> 0 \<Longrightarrow> inv (delete i s)"
    and find_delete: "inv s \<Longrightarrow> i \<noteq> 0 \<Longrightarrow> find j (delete i s) = (if i = j then None else find j s)"
begin

fun add_all :: "'r list \<Rightarrow> 's \<Rightarrow> 's" where
  "add_all [] s = s"
| "add_all (r # rs) s = add_all rs (snd (add r s))"

lemma inv_add_all: "inv s \<Longrightarrow> inv (add_all rs s)"
  by (induction rs arbitrary: s) (auto intro: inv_add)

lemma distinct_id: "distinct (map rule_id (r # rs)) \<Longrightarrow> q \<in> set rs \<Longrightarrow> rule_id q \<noteq> rule_id r"
  by (auto simp: image_iff)

lemma find_add_all_other: "i \<notin> rule_id ` set rs \<Longrightarrow> distinct (map rule_id rs) \<Longrightarrow>
    (\<And>r. r \<in> set rs \<Longrightarrow> find (rule_id r) s = None) \<Longrightarrow> find i (add_all rs s) = find i s"
proof (induction rs arbitrary: s)
  case (Cons r rs)
  have "find (rule_id q) (snd (add r s)) = None" if "q \<in> set rs" for q
    using Cons.prems that distinct_id [OF Cons.prems(2) that] by (subst find_add) auto
  with Cons show ?case by (simp add: find_add)
qed simp

lemma find_add_all:
  "distinct (map rule_id rs) \<Longrightarrow> (\<And>r. r \<in> set rs \<Longrightarrow> find (rule_id r) s = None) \<Longrightarrow> q \<in> set rs \<Longrightarrow>
     find (rule_id q) (add_all rs s) = Some q"
proof (induction rs arbitrary: s)
  case (Cons r rs)
  have new: "find (rule_id p) (snd (add r s)) = None" if "p \<in> set rs" for p
    using Cons.prems that distinct_id [OF Cons.prems(1) that] by (subst find_add) auto
  show ?case
  proof (cases "q = r")
    case True
    with Cons.prems new show ?thesis
      by (simp add: find_add_all_other) (simp add: find_add)
  next
    case False
    with Cons new show ?thesis by auto
  qed
qed simp

text \<open>Loading rules with distinct identifiers into an empty store and deleting one of them.\<close>

lemma load_delete:
  assumes "distinct (map rule_id rs)" "q \<in> set rs" "i \<noteq> 0"
  shows "find (rule_id q) (delete i (add_all rs empty)) = (if i = rule_id q then None else Some q)"
  using assms find_add_all [OF assms(1), of empty q] find_delete [OF inv_add_all [OF inv_empty], of i "rule_id q" rs]
  by (simp add: find_empty)

end

subsection \<open>The rule group is a rule store\<close>

lemma FindByID_None: "FindByID i rs = None \<longleftrightarrow> i \<notin> (\<lambda>r. ID (fst r)) ` set rs"
  by (induction rs) auto

lemma FindByID_append: "FindByID i (rs @ qs) = (case FindByID i rs of None \<Rightarrow> FindByID i qs | Some r \<Rightarrow> Some r)"
  by (induction rs) auto

lemma unique_ids_snoc:
  "unique_ids (rs @ [r]) \<longleftrightarrow> unique_ids rs \<and> (ID (fst r) = 0 \<or> FindByID (ID (fst r)) rs = None)"
  by (auto simp: unique_ids_def FindByID_None)

lemma unique_ids_Add: "unique_ids rs \<Longrightarrow> unique_ids (snd (Add r rs))"
  by (auto simp: Add_def unique_ids_snoc split: option.splits)

lemma delete_absent:
  assumes "\<And>k. k \<in> set ks \<Longrightarrow> case arr ! k of None \<Rightarrow> True | Some r \<Rightarrow> ID (fst r) \<noteq> i"
  shows "fold (delete_step i) ks (arr, n) = (arr, n)"
  using assms
proof (induction ks)
  case (Cons k ks)
  then have "delete_step i k (arr, n) = (arr, n)" by (force simp: delete_step_def split: option.splits)
  with Cons show ?case by simp
qed simp

lemma FindByID_split:
  "FindByID i rs = Some r \<Longrightarrow> \<exists>us vs. rs = us @ r # vs \<and> ID (fst r) = i \<and> (\<forall>u\<in>set us. ID (fst u) \<noteq> i)"
proof (induction rs)
  case (Cons q rs)
  show ?case
  proof (cases "ID (fst q) = i")
    case True
    with Cons.prems have "q # rs = [] @ r # rs \<and> ID (fst r) = i" by simp
    then show ?thesis by fastforce
  next
    case False
    with Cons obtain us vs where "rs = us @ r # vs" "ID (fst r) = i" "\<forall>u\<in>set us. ID (fst u) \<noteq> i" by auto
    with False have "q # rs = (q # us) @ r # vs \<and> ID (fst r) = i \<and> (\<forall>u\<in>set (q # us). ID (fst u) \<noteq> i)" by simp
    then show ?thesis by blast
  qed
qed simp

lemma DeleteByID_once:
  assumes "rs = us @ r # vs" "ID (fst r) = i" "\<forall>u\<in>set (us @ vs). ID (fst u) \<noteq> i"
  shows "DeleteByID i rs = us @ vs"
proof -
  let ?arr = "map Some us @ Some r # map Some vs" and ?n = "length us + Suc (length vs)"
  let ?arr' = "map Some us @ map Some vs @ [None]"
  have ks: "[0..<?n] = [0..<length us] @ length us # [Suc (length us)..<?n]"
    by (metis add_Suc_right le_add1 less_add_Suc1 upt_add_eq_append upt_conv_Cons add_0 le0)
  have before: "fold (delete_step i) [0..<length us] (?arr, ?n) = (?arr, ?n)"
    by (rule delete_absent) (use assms(3) in \<open>auto simp: nth_append\<close>)
  have at: "delete_step i (length us) (?arr, ?n) = (?arr', ?n - 1)"
    using assms(2) by (simp add: delete_step_def nth_append)
  have after: "fold (delete_step i) [Suc (length us)..<?n] (?arr', ?n - 1) = (?arr', ?n - 1)"
  proof (rule delete_absent)
    fix k
    assume "k \<in> set [Suc (length us)..<?n]"
    then show "case ?arr' ! k of None \<Rightarrow> True | Some r \<Rightarrow> ID (fst r) \<noteq> i"
      using assms(3) by (cases "k - length us < length vs") (auto simp: nth_append)
  qed
  have "fold (delete_step i) [0..<?n] (?arr, ?n) = (?arr', ?n - 1)"
    unfolding ks fold_append comp_apply before fold.simps at after by simp
  then show ?thesis using assms(1) by (simp add: DeleteByID_def comp_def)
qed

lemma DeleteByID_absent: "FindByID i rs = None \<Longrightarrow> DeleteByID i rs = rs"
  using delete_absent [where ks = "[0..<length rs]" and arr = "map Some rs" and i = i and n = "length rs"]
  by (force simp: DeleteByID_def FindByID_None comp_def)

text \<open>With unique identifiers, \<open>DeleteByID\<close> removes exactly the rule with the identifier.\<close>

lemma DeleteByID_unique:
  assumes "unique_ids rs" "i \<noteq> 0"
  shows "DeleteByID i rs = filter (\<lambda>r. ID (fst r) \<noteq> i) rs"
proof (cases "FindByID i rs")
  case None
  then have "filter (\<lambda>r. ID (fst r) \<noteq> i) rs = rs" by (auto simp: FindByID_None intro: filter_True)
  with DeleteByID_absent [OF None] show ?thesis by simp
next
  case (Some r)
  then obtain us vs where s: "rs = us @ r # vs" "ID (fst r) = i" "\<forall>u\<in>set us. ID (fst u) \<noteq> i"
    using FindByID_split by blast
  have vs: "\<forall>v\<in>set vs. ID (fst v) \<noteq> i" using assms s by (auto simp: unique_ids_def image_iff)
  have "filter (\<lambda>r. ID (fst r) \<noteq> i) us = us" "filter (\<lambda>r. ID (fst r) \<noteq> i) vs = vs"
    using s(3) vs by (auto intro: filter_True)
  with DeleteByID_once [OF s(1,2)] s vs show ?thesis by auto
qed

lemma FindByID_filter: "FindByID j (filter (\<lambda>r. ID (fst r) \<noteq> i) rs) = (if i = j then None else FindByID j rs)"
  by (induction rs) auto

lemma unique_ids_filter: "unique_ids rs \<Longrightarrow> unique_ids (filter P rs)"
  using distinct_map_filter [of "\<lambda>r. ID (fst r)" "filter (\<lambda>r. ID (fst r) \<noteq> 0) rs" P]
  by (simp add: unique_ids_def filter_map comp_def conj_commute)

interpretation rg: rule_store unique_ids NewRuleGroup "\<lambda>r. Add (Some r)" FindByID DeleteByID "\<lambda>r. ID (fst r)"
proof unfold_locales
  fix r :: ChainedRule and s i j
  show "unique_ids NewRuleGroup" by (simp add: NewRuleGroup_def unique_ids_def)
  show "FindByID i NewRuleGroup = None" by (simp add: NewRuleGroup_def)
  show "unique_ids s \<Longrightarrow> unique_ids (snd (Add (Some r) s))" by (rule unique_ids_Add)
  show "FindByID (ID (fst r)) s = None \<Longrightarrow> fst (Add (Some r) s) = None" by (simp add: Add_def)
  show "FindByID (ID (fst r)) s = None \<Longrightarrow>
      FindByID i (snd (Add (Some r) s)) = (if i = ID (fst r) then Some r else FindByID i s)"
    by (auto simp: Add_def FindByID_append split: option.splits)
  show "ID (fst r) \<noteq> 0 \<Longrightarrow> FindByID (ID (fst r)) s \<noteq> None \<Longrightarrow>
      fst (Add (Some r) s) \<noteq> None \<and> snd (Add (Some r) s) = s"
    by (simp add: Add_def)
  show "unique_ids s \<Longrightarrow> i \<noteq> 0 \<Longrightarrow> unique_ids (DeleteByID i s)"
    by (simp add: DeleteByID_unique unique_ids_filter)
  show "unique_ids s \<Longrightarrow> i \<noteq> 0 \<Longrightarrow> FindByID j (DeleteByID i s) = (if i = j then None else FindByID j s)"
    by (simp add: DeleteByID_unique FindByID_filter)
qed

section \<open>What a phase preserves\<close>

text \<open>
  A relation that one step of the loop respects holds across the phase. The loop itself changes
  \<open>Skip\<close>, \<open>SkipAfter\<close>, \<open>Capture\<close> and the MATCHED_ collections.
\<close>

lemma rule_step_rel:
  assumes "rule_step rt waf phase rc t = Some t'" "\<And>t. R t t" "\<And>t1 t2 t3. R t1 t2 \<Longrightarrow> R t2 t3 \<Longrightarrow> R t1 t3"
    and "\<And>t n. R t (t\<lparr>Skip := n\<rparr>)" "\<And>t s. R t (t\<lparr>SkipAfter := s\<rparr>)" "\<And>t b. R t (t\<lparr>Capture := b\<rparr>)"
    and "\<And>t. R t (reset_matched t)"
    and eval: "\<And>t mvs t'. doEvaluate rt waf (fst rc) (snd rc) t = Some (mvs, t') \<Longrightarrow> R t t'"
  shows "R t t'"
proof (cases "\<exists>mvs u. doEvaluate rt waf (fst rc) (snd rc) (reset_matched t) = Some (mvs, u) \<and> t' = u\<lparr>Capture := False\<rparr>")
  case True
  then obtain mvs u where "doEvaluate rt waf (fst rc) (snd rc) (reset_matched t) = Some (mvs, u)"
    "t' = u\<lparr>Capture := False\<rparr>" by blast
  then show ?thesis using assms(3) [OF assms(3) [OF assms(7) eval]] assms(6) by blast
next
  case False
  with assms(1,2,4,5) show ?thesis by (auto simp: rule_step_def Let_def split: if_splits)
qed

lemma eval_rules_rel:
  assumes "eval_rules rt waf phase rules t = Some t'" "\<And>t. R t t" "\<And>t1 t2 t3. R t1 t2 \<Longrightarrow> R t2 t3 \<Longrightarrow> R t1 t3"
    and "\<And>rc t t'. rc \<in> set rules \<Longrightarrow> rule_step rt waf phase rc t = Some t' \<Longrightarrow> R t t'"
  shows "R t t'"
  using assms(1,4)
proof (induction rules arbitrary: t)
  case (Cons rc rules)
  show ?case
  proof (cases "interruption t \<noteq> None \<and> phase \<noteq> PhaseLogging")
    case True
    with Cons.prems(1) assms(2) show ?thesis by simp
  next
    case False
    with Cons.prems(1) obtain u where u: "rule_step rt waf phase rc t = Some u" "eval_rules rt waf phase rules u = Some t'"
      by (auto split: if_splits)
    have "R t u" using u(1) by (rule Cons.prems(2) [rotated]) simp
    moreover have "R u t'" by (rule Cons.IH [OF u(2)], rule Cons.prems(2)) simp_all
    ultimately show ?thesis by (rule assms(3))
  qed
qed (simp add: assms(2))

lemma only_vars_reset_matched [inv_intros]: "only_vars t1 t2 \<Longrightarrow> only_vars t1 (reset_matched t2)"
  unfolding reset_matched_def by (intro inv_intros)

lemma tx_wf_reset_matched [inv_intros]: "tx_wf t \<Longrightarrow> tx_wf (reset_matched t)"
  unfolding reset_matched_def by (intro inv_intros)

lemma eval_rules_frame: "eval_rules rt waf phase rules t = Some t' \<Longrightarrow> eval_frame t t'"
proof (rule eval_rules_rel [where R = eval_frame])
  fix rc t t'
  assume "rule_step rt waf phase rc t = Some t'"
  then show "eval_frame t t'"
  proof (rule rule_step_rel)
    show "eval_frame t (reset_matched t)" for t by (rule eval_frame_vars) (auto intro: inv_intros)
    show "doEvaluate rt waf (fst rc) (snd rc) t = Some (mvs, t') \<Longrightarrow> eval_frame t t'" for t mvs t'
      by (erule frame.R_doEvaluate) simp
  qed (erule (1) eval_frame_trans | rule eval_frame_setters)+
qed (assumption | erule (1) eval_frame_trans | rule eval_frame_setters)+

lemma eval_rules_engine:
  assumes "eval_rules rt waf phase rules t = Some t'"
    and "\<And>rc r a. rc \<in> set rules \<Longrightarrow> r \<in> set (fst rc # snd rc) \<Longrightarrow> a \<in> rule_actions r \<Longrightarrow> keeps_engine a"
  shows "engine_kept t t'"
  using assms(1)
proof (rule eval_rules_rel [where R = engine_kept])
  fix rc t t'
  assume rc: "rc \<in> set rules" and "rule_step rt waf phase rc t = Some t'"
  from this(2) show "engine_kept t t'"
  proof (rule rule_step_rel)
    show "engine_kept t (reset_matched t)" for t by (rule engine_kept_vars) (auto intro: inv_intros)
    show "doEvaluate rt waf (fst rc) (snd rc) t = Some (mvs, t') \<Longrightarrow> engine_kept t t'" for t mvs t'
      by (erule engine.R_doEvaluate) (use assms(2) [OF rc] in auto)
  qed (erule (1) engine_kept_trans | rule engine_kept_setters)+
qed (assumption | erule (1) engine_kept_trans | rule engine_kept_setters)+

lemma eval_rules_interrupted:
  "interruption t \<noteq> None \<Longrightarrow> phase \<noteq> PhaseLogging \<Longrightarrow> eval_rules rt waf phase rules t = Some t"
  by (cases rules) auto

lemma eval_rules_append:
  "eval_rules rt waf phase (rs @ qs) t = Option.bind (eval_rules rt waf phase rs t) (eval_rules rt waf phase qs)"
proof (induction rs arbitrary: t)
  case (Cons r rs)
  then show ?case
    by (cases "interruption t \<noteq> None \<and> phase \<noteq> PhaseLogging") (auto simp: eval_rules_interrupted split: bind_splits)
qed simp

lemma Eval_unfold:
  assumes "Eval rt waf phase t = Some (b, t')"
  shows "eval_rules rt waf phase (w_Rules waf) (start_phase phase t) = Some t'" "b \<longleftrightarrow> interruption t' \<noteq> None"
  using assms by (auto simp: Eval_def)

section \<open>Properties\<close>

text \<open>
  Evaluating a phase sets the last phase and otherwise keeps what belongs to the transaction:
  its identifier, the request body, the consistency of its variables, an interruption once there
  is one; the matched rules only grow at the end. The result says whether the transaction is
  interrupted.
\<close>

theorem Eval_frame:
  assumes "Eval rt waf phase t = Some (b, t')"
  shows "LastPhase t' = phase \<and> tx_id t' = tx_id t \<and> requestBodyBuffer t' = requestBodyBuffer t \<and>
    (tx_wf t \<longrightarrow> tx_wf t') \<and> (interruption t \<noteq> None \<longrightarrow> interruption t' \<noteq> None) \<and>
    prefix (matchedRules t) (matchedRules t') \<and> AuditWrites t' = AuditWrites t \<and>
    b = (interruption t' \<noteq> None)"
  using eval_rules_frame [OF Eval_unfold(1) [OF assms]] Eval_unfold(2) [OF assms]
  by (simp add: eval_frame_def start_phase_def)

text \<open>
  As long as no rule switches the engine, an engine in detection-only mode or off never
  interrupts: no phase changes the interruption.
\<close>

theorem Eval_detection_only:
  assumes "Eval rt waf phase t = Some (b, t')" "RuleEngine t \<noteq> RuleEngineOn"
    and "\<forall>rc\<in>set (w_Rules waf). \<forall>r\<in>set (fst rc # snd rc). \<forall>a\<in>rule_actions r. keeps_engine a"
  shows "interruption t' = interruption t \<and> RuleEngine t' = RuleEngine t"
proof -
  have "engine_kept (start_phase phase t) t'"
    by (rule eval_rules_engine [OF Eval_unfold(1) [OF assms(1)]]) (use assms(3) in blast)
  with assms(2) show ?thesis by (simp add: engine_kept_def start_phase_def)
qed

text \<open>
  Outside the logging phase the rules stop at the first interruption: once the rules before
  have interrupted the transaction, the rules after them are not evaluated.
\<close>

theorem eval_rules_stop:
  assumes "eval_rules rt waf phase rs t = Some t1" "interruption t1 \<noteq> None" "phase \<noteq> PhaseLogging"
  shows "eval_rules rt waf phase (rs @ qs) t = Some t1"
  using assms by (simp add: eval_rules_append eval_rules_interrupted)

definition applies :: "RulePhase \<Rightarrow> Transaction \<Rightarrow> Rule \<Rightarrow> bool" where
  "applies phase t r \<longleftrightarrow> (Phase r = phase \<or> Phase r = 0) \<and> ID r \<notin> set (ruleRemoveByID t)"

lemma eval_rules_pending:
  assumes "SkipAfter t \<noteq> []" "\<forall>rc\<in>set rs. applies phase t (fst rc) \<longrightarrow> SecMark (fst rc) \<noteq> SkipAfter t"
  shows "eval_rules rt waf phase rs t = Some t"
  using assms(2)
proof (induction rs)
  case (Cons rc rs)
  then have "rule_step rt waf phase rc t = Some t"
    using assms(1) by (auto simp: rule_step_def applies_def Let_def)
  with Cons show ?case by simp
qed simp

text \<open>
  \<^verbatim>\<open>skipAfter\<close> skips exactly to its marker: while the marker is pending, the rules before
  the first one that carries it change nothing, and evaluation resumes after that one.
\<close>

theorem eval_rules_skipAfter:
  assumes "SkipAfter t \<noteq> []" "interruption t = None"
    and "\<forall>rc\<in>set rs. applies phase t (fst rc) \<longrightarrow> SecMark (fst rc) \<noteq> SkipAfter t"
    and "applies phase t (fst m)" "SecMark (fst m) = SkipAfter t"
  shows "eval_rules rt waf phase (rs @ m # qs) t = eval_rules rt waf phase qs (t\<lparr>SkipAfter := []\<rparr>)"
proof -
  have "rule_step rt waf phase m t = Some (t\<lparr>SkipAfter := []\<rparr>)"
    using assms(1,4,5) by (auto simp: rule_step_def applies_def Let_def)
  with assms(2) show ?thesis by (simp add: eval_rules_append eval_rules_pending [OF assms(1,3)])
qed

lemma eval_rules_skip_count:
  assumes "SkipAfter t = []" "interruption t = None" "Skip t = int (length (filter (\<lambda>rc. applies phase t (fst rc)) rs))"
  shows "eval_rules rt waf phase rs t = Some (t\<lparr>Skip := 0\<rparr>)"
  using assms
proof (induction rs arbitrary: t)
  case (Cons rc rs)
  show ?case
  proof (cases "applies phase t (fst rc)")
    case True
    with Cons.prems have "rule_step rt waf phase rc t = Some (t\<lparr>Skip := Skip t - 1\<rparr>)"
      by (auto simp: rule_step_def applies_def Let_def)
    moreover have "applies phase (t\<lparr>Skip := Skip t - 1\<rparr>) r \<longleftrightarrow> applies phase t r" for r
      by (simp add: applies_def)
    ultimately show ?thesis
      using Cons.IH [of "t\<lparr>Skip := Skip t - 1\<rparr>"] Cons.prems True by simp
  next
    case False
    with Cons.prems have "rule_step rt waf phase rc t = Some t" by (auto simp: rule_step_def applies_def Let_def)
    with Cons False show ?thesis by simp
  qed
qed simp

text \<open>
  \<^verbatim>\<open>skip:n\<close> skips the next \<open>n\<close> rules that apply to the phase and are not removed, and
  no other.
\<close>

theorem eval_rules_skip:
  assumes "SkipAfter t = []" "interruption t = None" "Skip t = int (length (filter (\<lambda>rc. applies phase t (fst rc)) rs))"
  shows "eval_rules rt waf phase (rs @ qs) t = eval_rules rt waf phase qs (t\<lparr>Skip := 0\<rparr>)"
  by (simp add: eval_rules_append eval_rules_skip_count [OF assms])

text \<open>
  Rules with distinct identifiers that are added to an empty rule group are found under their
  identifiers, and deleting one of them removes that one and no other.
\<close>

theorem RuleGroup_load_delete:
  assumes "distinct (map (\<lambda>r. ID (fst r)) rs)" "q \<in> set rs" "i \<noteq> 0"
  shows "FindByID (ID (fst q)) (DeleteByID i (fold (\<lambda>r s. snd (Add (Some r) s)) rs NewRuleGroup))
    = (if i = ID (fst q) then None else Some q)"
proof -
  have "rg.add_all rs s = fold (\<lambda>r s. snd (Add (Some r) s)) rs s" for s
    by (induction rs arbitrary: s) auto
  with rg.load_delete [OF assms] show ?thesis by simp
qed

subsection \<open>Witnesses\<close>

definition deny_waf :: WAF where
  "deny_waf = waf0\<lparr>w_Rules := [(uri_rule op_unconditionalMatch, [])]\<rparr>"

definition marker_rule :: "string \<Rightarrow> ChainedRule" where
  "marker_rule s = ((NewRule 3)\<lparr>Phase := 0, SecMark := s\<rparr>, [])"

lemma eval_rules_deny:
  assumes "ruleRemoveTargetByID t 7 = []" "ruleRemoveByID t = []" "SkipAfter t = []" "Skip t = 0" "interruption t = None"
  obtains mvs u where "doEvaluate rt0 waf (uri_rule op_unconditionalMatch) [] (reset_matched t) = Some (mvs, u)" "mvs \<noteq> []"
    "eval_rules rt0 waf 2 [(uri_rule op_unconditionalMatch, [])] t = Some (u\<lparr>Capture := False\<rparr>)"
proof -
  have "ruleRemoveTargetByID (reset_matched t) 7 = []"
    using assms(1) by (simp add: reset_matched_def upd_col_def)
  then obtain mvs u where d: "doEvaluate rt0 waf (uri_rule op_unconditionalMatch) [] (reset_matched t) = Some (mvs, u)" "mvs \<noteq> []"
    using doEvaluate_uri_match by blast
  moreover from d(1) assms have "eval_rules rt0 waf 2 [(uri_rule op_unconditionalMatch, [])] t = Some (u\<lparr>Capture := False\<rparr>)"
    by (simp add: rule_step_def uri_rule_actions)
  ultimately show ?thesis using that by blast
qed

lemma Eval_deny_waf:
  obtains b t' where "Eval rt0 deny_waf 2 (blank_tx\<lparr>RuleEngine := e\<rparr>) = Some (b, t')"
proof -
  obtain u where "eval_rules rt0 deny_waf 2 (w_Rules deny_waf) (start_phase 2 (blank_tx\<lparr>RuleEngine := e\<rparr>)) = Some u"
    by (rule eval_rules_deny [of "start_phase 2 (blank_tx\<lparr>RuleEngine := e\<rparr>)" deny_waf])
      (simp_all add: start_phase_def blank_tx_def deny_waf_def)
  then show ?thesis using that by (simp add: Eval_def)
qed

theorem Eval_frame_witness:
  "\<exists>b t'. Eval rt0 deny_waf 2 (blank_tx\<lparr>RuleEngine := RuleEngineOn\<rparr>) = Some (b, t') \<and> LastPhase t' = 2 \<and> tx_wf t'"
proof -
  obtain b t' where e: "Eval rt0 deny_waf 2 (blank_tx\<lparr>RuleEngine := RuleEngineOn\<rparr>) = Some (b, t')"
    by (rule Eval_deny_waf)
  with Eval_frame [OF e] tx_wf_blank show ?thesis by simp
qed

theorem Eval_detection_only_witness:
  "\<exists>b t'. Eval rt0 deny_waf 2 (blank_tx\<lparr>RuleEngine := RuleEngineDetectionOnly\<rparr>) = Some (b, t') \<and> interruption t' = None"
proof -
  obtain b t' where e: "Eval rt0 deny_waf 2 (blank_tx\<lparr>RuleEngine := RuleEngineDetectionOnly\<rparr>) = Some (b, t')"
    by (rule Eval_deny_waf)
  have "\<forall>rc\<in>set (w_Rules deny_waf). \<forall>r\<in>set (fst rc # snd rc). \<forall>a\<in>rule_actions r. keeps_engine a"
    by (simp add: deny_waf_def uri_rule_actions keeps_engine_def)
  from Eval_detection_only [OF e _ this] e show ?thesis by (simp add: blank_tx_def)
qed

theorem eval_rules_stop_witness:
  "\<exists>t1. interruption t1 \<noteq> None \<and> eval_rules rt0 waf0 2 [(uri_rule op_unconditionalMatch, []), marker_rule ''m''] blank_tx = Some t1"
proof -
  obtain mvs u where u: "doEvaluate rt0 waf0 (uri_rule op_unconditionalMatch) [] (reset_matched blank_tx) = Some (mvs, u)"
      "mvs \<noteq> []" "eval_rules rt0 waf0 2 [(uri_rule op_unconditionalMatch, [])] blank_tx = Some (u\<lparr>Capture := False\<rparr>)"
    by (rule eval_rules_deny [of blank_tx waf0]) (simp_all add: blank_tx_def)
  have "RuleEngine (reset_matched blank_tx) = RuleEngineOn" by (simp add: reset_matched_def upd_col_def blank_tx_def)
  then have "interruption u \<noteq> None"
    using doEvaluate_outcome [OF u(1,2) chain_ok_uri_rule] by (simp add: uri_rule_actions uri_rule_verdict keeps_engine_def)
  with eval_rules_stop [OF u(3), of "[marker_rule ''m'']"] show ?thesis by auto
qed

theorem eval_rules_skipAfter_witness:
  "eval_rules rt0 waf0 2 [(uri_rule op_unconditionalMatch, []), marker_rule ''m''] (blank_tx\<lparr>SkipAfter := ''m''\<rparr>)
     = Some blank_tx"
proof -
  have "SecMark (uri_rule op_unconditionalMatch) \<noteq> ''m''" "SecMark (fst (marker_rule ''m'')) = ''m''"
    "applies 2 (blank_tx\<lparr>SkipAfter := ''m''\<rparr>) (fst (marker_rule ''m''))"
    by (simp_all add: uri_rule_def NewRule_def marker_rule_def applies_def blank_tx_def)
  then show ?thesis
    using eval_rules_skipAfter [of "blank_tx\<lparr>SkipAfter := ''m''\<rparr>" "[(uri_rule op_unconditionalMatch, [])]" 2
        "marker_rule ''m''" rt0 waf0 "[]"]
    by (simp add: blank_tx_def)
qed

theorem eval_rules_skip_witness:
  "eval_rules rt0 waf0 2 [(uri_rule op_unconditionalMatch, [])] (blank_tx\<lparr>Skip := 1\<rparr>) = Some blank_tx"
proof -
  have "applies 2 (blank_tx\<lparr>Skip := 1\<rparr>) (uri_rule op_unconditionalMatch)"
    by (simp add: applies_def uri_rule_actions blank_tx_def)
  then show ?thesis
    using eval_rules_skip [of "blank_tx\<lparr>Skip := 1\<rparr>" 2 "[(uri_rule op_unconditionalMatch, [])]" rt0 waf0 "[]"]
    by (simp add: blank_tx_def)
qed

theorem RuleGroup_load_delete_witness:
  "FindByID 7 (DeleteByID 8 (fold (\<lambda>r s. snd (Add (Some r) s))
     [(uri_rule op_noMatch, []), ((NewRule 4)\<lparr>ID := 8\<rparr>, [])] NewRuleGroup)) = Some (uri_rule op_noMatch, [])"
  using RuleGroup_load_delete [of "[(uri_rule op_noMatch, []), ((NewRule 4)\<lparr>ID := 8\<rparr>, [])]" "(uri_rule op_noMatch, [])" 8]
  by (simp add: uri_rule_actions)

end
