(* ===== verification/Seclang_Rule.thy ===== *)
theory Seclang_Rule
  imports Action_Init Rule_Group
begin

text \<open>
  Parsing of rules (src/internal/seclang/rule_parser.go): the variables, the operator and the
  actions of a SecRule or SecAction, default actions, and the link of a chained rule to its parent.

  The Go map \<open>types.Config\<close> is a record with one field per key that the sources use. A rule
  that \<open>ParseRule\<close> attaches to its parent is returned inside the new list of rules. A new rule
  gets the identity \<open>ptr\<close>.
\<close>

section \<open>Configuration\<close>

text \<open>The formatters that src/loggers/init.go registers.\<close>

datatype LogFormatter = jsonFormatter | legacyJSONFormatter | nativeFormatter

record Config =
  rule_default_actions :: "string list option"
  disabled_rule_actions :: "string list"
  disabled_rule_operators :: "string list"
  ignore_rule_compilation_errors :: bool
  parser_config_file :: string
  parser_config_dir :: string
  working_dir :: string
  parser_last_line :: int
  last_profile_line :: int
  parser_root :: "string \<Rightarrow> read_result"
  auditlog_file :: string
  auditlog_dir :: string
  auditlog_formatter :: "LogFormatter option"
  auditlog_dir_mode :: "int option"
  auditlog_file_mode :: "int option"

section \<open>Variables\<close>

record pv_state =
  pv_curr :: nat
  pv_isNegation :: bool
  pv_isCount :: bool
  pv_curVar :: string
  pv_curKey :: string
  pv_isEscaped :: bool
  pv_isquoted :: bool

definition pv_start :: pv_state where
  "pv_start = \<lparr>pv_curr = 0, pv_isNegation = False, pv_isCount = False, pv_curVar = [], pv_curKey = [],
     pv_isEscaped = False, pv_isquoted = False\<rparr>"

text \<open>The switch on \<open>curr\<close> for a character that ends nothing.\<close>

definition pv_char :: "char \<Rightarrow> pv_state \<Rightarrow> pv_state" where
  "pv_char c st =
     (if pv_curr st = 0 then
        (if c = CHR ''!'' then st\<lparr>pv_isNegation := True\<rparr>
         else if c = CHR ''&'' then st\<lparr>pv_isCount := True\<rparr>
         else if c = CHR '':'' then st\<lparr>pv_curr := 1\<rparr>
         else st\<lparr>pv_curVar := pv_curVar st @ [c]\<rparr>)
      else if pv_curr st = 1 then
        (if pv_curKey st = [] \<and> (pv_curVar st = ''XML'' \<or> pv_curVar st = ''JSON'')
         then st\<lparr>pv_curr := 3, pv_curKey := [c]\<rparr>
         else if c = CHR ''/'' then st\<lparr>pv_curr := 2\<rparr>
         else if c = CHR 0x27 then st\<lparr>pv_isquoted := True\<rparr>
         else st\<lparr>pv_curKey := pv_curKey st @ [c]\<rparr>)
      else if pv_curr st = 2 then
        (if c = CHR ''/'' \<and> \<not> pv_isEscaped st then st\<lparr>pv_curr := 1\<rparr>
         else if c = CHR 0x5C then st\<lparr>pv_curKey := pv_curKey st @ [c], pv_isEscaped := \<not> pv_isEscaped st\<rparr>
         else st\<lparr>pv_curKey := pv_curKey st @ [c]\<rparr>)
      else st\<lparr>pv_curKey := pv_curKey st @ [c]\<rparr>)"

definition pv_ends :: "string \<Rightarrow> nat \<Rightarrow> pv_state \<Rightarrow> bool" where
  "pv_ends vars i st \<longleftrightarrow> (vars ! i = CHR ''|'' \<and> pv_curr st \<noteq> 2) \<or> i + 1 \<ge> length vars \<or>
     (pv_curr st = 2 \<and> vars ! i = CHR ''/'' \<and> \<not> pv_isEscaped st)"

text \<open>The last character of a variable or key is taken before the variable is added.\<close>

definition pv_last :: "char \<Rightarrow> pv_state \<Rightarrow> pv_state" where
  "pv_last c st =
     (if c = CHR ''|'' then st
      else if pv_curr st = 0 then st\<lparr>pv_curVar := pv_curVar st @ [c]\<rparr>
      else if pv_curr st \<noteq> 2 \<and> c \<noteq> CHR ''/'' then st\<lparr>pv_curKey := pv_curKey st @ [c]\<rparr>
      else st)"

text \<open>
  The methods of the rule that the loop calls are the argument \<open>add\<close>, since the rule may be
  nil: the arguments of \<open>add\<close> are whether it is a negation, whether it is a count, the variable
  and the key. On a nil rule \<open>AddVariableNegation\<close> returns its error, and \<open>AddVariable\<close> panics
  when it appends to the variables of the rule.
\<close>

type_synonym 'r adder = "bool \<Rightarrow> bool \<Rightarrow> RuleVariable \<Rightarrow> string \<Rightarrow> 'r \<Rightarrow> (string + 'r) go"

definition add_variable :: "libs \<Rightarrow> Rule adder" where
  "add_variable lb neg cnt v key r =
     (if neg then AddVariableNegation lb v key (Some r) else map_option Inr (AddVariable lb v key cnt r))"

definition add_variable_nil :: "libs \<Rightarrow> unit adder" where
  "add_variable_nil lb neg cnt v key r =
     (if neg then map_option (map_sum id (\<lambda>_. r)) (AddVariableNegation lb v key None) else None)"

text \<open>\<open>if err != nil { return err }\<close>\<close>

definition add_then :: "(string + 'r) go \<Rightarrow> 'r \<Rightarrow> ('r \<Rightarrow> (string option \<times> 'r) go) \<Rightarrow> (string option \<times> 'r) go" where
  "add_then res r k =
     (case res of None \<Rightarrow> None | Some (Inl err) \<Rightarrow> Some (Some err, r) | Some (Inr r') \<Rightarrow> k r')"

lemma add_then_cong [fundef_cong]:
  "res = res' \<Longrightarrow> r = r' \<Longrightarrow> (\<And>x. res' = Some (Inr x) \<Longrightarrow> k x = k' x) \<Longrightarrow> add_then res r k = add_then res' r' k'"
  by (auto simp: add_then_def split: option.splits sum.splits)

function pv_loop :: "'r adder \<Rightarrow> string \<Rightarrow> nat \<Rightarrow> pv_state \<Rightarrow> 'r \<Rightarrow> (string option \<times> 'r) go" where
  "pv_loop add vars i st r =
     (if i \<ge> length vars then Some (None, r)
      else if pv_ends vars i st then
        let st = pv_last (vars ! i) st in
        (case variables_Parse (pv_curVar st) of
           Inl err \<Rightarrow> Some (Some err, r)
         | Inr v \<Rightarrow>
             if pv_isquoted st \<and> (length vars \<le> i + 1 \<or> vars ! (i + 1) \<noteq> CHR 0x27) \<and> vars ! i \<noteq> CHR 0x27
             then Some (Some (''unclosed quote: '' @ pv_curKey st), r)
             else
               let i = (if pv_isquoted st then i + 2 else if pv_curr st = 2 then i + 1 else i);
                   key = (if pv_curr st = 2 then ''/'' @ pv_curKey st @ ''/'' else pv_curKey st)
               in add_then (add (pv_isNegation st) (pv_isCount st) v key r) r
                    (pv_loop add vars (i + 1) (pv_start\<lparr>pv_isEscaped := pv_isEscaped st\<rparr>)))
      else pv_loop add vars (i + 1) (pv_char (vars ! i) st) r)"
  by pat_completeness auto
termination
  by (relation "measure (\<lambda>(_, vars, i, _, _). length vars - i)") (auto split: if_splits)

declare pv_loop.simps [simp del]

definition ParseVariables :: "libs \<Rightarrow> string \<Rightarrow> Rule \<Rightarrow> (string option \<times> Rule) go" where
  "ParseVariables lb vars r = pv_loop (add_variable lb) vars 0 pv_start r"

section \<open>Operator\<close>

definition full_operator :: "string \<Rightarrow> string" where
  "full_operator op =
     (if op = [] \<or> (hd op \<noteq> CHR ''@'' \<and> hd op \<noteq> CHR ''!'') then ''@rx '' @ op
      else if op = ''!'' then ''!@rx''
      else if length op > 1 \<and> hd op = CHR ''!'' \<and> op ! 1 \<noteq> CHR ''@'' then ''!@rx '' @ tl op
      else op)"

definition ParseOperator :: "libs \<Rightarrow> Config \<Rightarrow> string \<Rightarrow> Rule \<Rightarrow> (string option \<times> Rule) go" where
  "ParseOperator lb cfg operator r =
     (let (opRaw, opdataRaw, _) = Cut (full_operator operator) (CHR '' '');
          op = TrimSpace opRaw;
          opdata = TrimSpace opdataRaw
      in if op = [] then None
         else
           let op = (if hd op = CHR ''@'' then tl op
                     else if length op > 2 \<and> hd op = CHR ''!'' \<and> op ! 1 = CHR ''@'' then drop 2 op
                     else op);
               opts = \<lparr>Arguments = opdata, Path = [parser_config_dir cfg, working_dir cfg],
                 Root = parser_root cfg, Datasets = []\<rparr>
           in do { res \<leftarrow> operators_Get lb op opts;
                   Some (case res of Inl err \<Rightarrow> (Some err, r) | Inr opfn \<Rightarrow> (None, SetOperator opfn opRaw opdata r)) })"

section \<open>Actions\<close>

text \<open>A parsed action: the function \<open>F\<close> is determined by its name.\<close>

record ruleAction =
  ra_Key :: string
  ra_Value :: string
  ra_Atype :: ActionType

record pa_state =
  pa_iskey :: bool
  pa_ckey :: string
  pa_cval :: string
  pa_quoted :: bool

definition pa_start :: pa_state where
  "pa_start = \<lparr>pa_iskey = True, pa_ckey = [], pa_cval = [], pa_quoted = False\<rparr>"

definition take_action :: "libs \<Rightarrow> pa_state \<Rightarrow> string + ruleAction" where
  "take_action lb st =
     (case actions_Get_Type lb (pa_ckey st) of
        Inl err \<Rightarrow> Inl err
      | Inr ty \<Rightarrow> Inr \<lparr>ra_Key = pa_ckey st, ra_Value = pa_cval st, ra_Atype = ty\<rparr>)"

text \<open>
  The loop over the runes from byte \<open>i\<close> on. A space in a key, or an unquoted one in a value, goes
  on with the next rune without the test for the end.
\<close>

fun pa_loop :: "libs \<Rightarrow> string \<Rightarrow> nat \<Rightarrow> (nat \<times> string) list \<Rightarrow> pa_state \<Rightarrow> ruleAction list \<Rightarrow> string + ruleAction list" where
  "pa_loop lb actions i [] st res = Inr res"
| "pa_loop lb actions i ((c, bs) # rs) st res =
     (let next = i + length bs;
          finish = (\<lambda>st res.
            if i + 1 = length actions then
              (case take_action lb st of
                 Inl err \<Rightarrow> Inl err
               | Inr a \<Rightarrow> pa_loop lb actions next rs st (res @ [a]))
            else pa_loop lb actions next rs st res)
      in
      if pa_iskey st \<and> c = 32 then pa_loop lb actions next rs st res
      else if \<not> pa_quoted st \<and> c = 44 then
        (case take_action lb st of
           Inl err \<Rightarrow> Inl err
         | Inr a \<Rightarrow> finish (st\<lparr>pa_ckey := [], pa_cval := [], pa_iskey := True\<rparr>) (res @ [a]))
      else if pa_iskey st \<and> c = 58 then finish (st\<lparr>pa_iskey := False\<rparr>) res
      else if \<not> pa_iskey st \<and> c = 39 \<and> actions ! (i - 1) \<noteq> CHR 0x5C then
        finish (if pa_quoted st then st\<lparr>pa_quoted := False, pa_iskey := True\<rparr> else st\<lparr>pa_quoted := True\<rparr>) res
      else if \<not> pa_iskey st then
        (if c = 32 \<and> \<not> pa_quoted st then pa_loop lb actions next rs st res
         else finish (st\<lparr>pa_cval := pa_cval st @ EncodeRune c\<rparr>) res)
      else finish (st\<lparr>pa_ckey := pa_ckey st @ EncodeRune c\<rparr>) res)"

definition parseActions :: "libs \<Rightarrow> string \<Rightarrow> string + ruleAction list" where
  "parseActions lb actions = pa_loop lb actions 0 (runes actions) pa_start []"

text \<open>\<open>da\<close> is the last disruptive action of the defaults, or the zero \<open>ruleAction\<close>.\<close>

definition default_disruptive :: "ruleAction list \<Rightarrow> ruleAction option" where
  "default_disruptive defaults =
     (let ds = filter (\<lambda>a. ra_Atype a = ActionTypeDisruptive) defaults in
      if ds = [] then None else Some (last ds))"

definition mergeActions :: "ruleAction list \<Rightarrow> ruleAction list \<Rightarrow> ruleAction option list" where
  "mergeActions origin defaults =
     (let res = filter (\<lambda>a. ra_Atype a \<noteq> ActionTypeDisruptive \<and> ra_Atype a \<noteq> ActionTypeMetadata) defaults;
          own = filter (\<lambda>a. ra_Atype a = ActionTypeDisruptive \<longrightarrow> ra_Key a \<noteq> ''block'') origin;
          hasDa = list_ex (\<lambda>a. ra_Atype a = ActionTypeDisruptive) own
      in map Some (res @ own) @ (if hasDa then [] else [default_disruptive defaults]))"

text \<open>The map from phases to default actions.\<close>

type_synonym default_map = "RulePhase \<rightharpoonup> ruleAction list"

fun default_phase :: "ruleAction list \<Rightarrow> RulePhase \<Rightarrow> string \<Rightarrow> string + (RulePhase \<times> string)" where
  "default_phase [] phase da = Inr (phase, da)"
| "default_phase (a # as) phase da =
     (if ra_Key a = ''phase'' then
        (case ParseRulePhase (ra_Value a) of Inl err \<Rightarrow> Inl err | Inr p \<Rightarrow> default_phase as p da)
      else default_phase as phase (if ra_Atype a = ActionTypeDisruptive then ra_Key a else da))"

definition ParseDefaultActions :: "libs \<Rightarrow> string \<Rightarrow> default_map \<Rightarrow> string + default_map" where
  "ParseDefaultActions lb actions dm =
     (case parseActions lb actions of
        Inl err \<Rightarrow> Inl err
      | Inr act \<Rightarrow>
          (case default_phase act 0 [] of
             Inl err \<Rightarrow> Inl err
           | Inr (phase, da) \<Rightarrow>
               if phase = 0 then Inl ''SecDefaultAction must contain a phase''
               else if da = [] then Inl (''SecDefaultAction must contain a disruptive action: '' @ actions)
               else Inr (dm(phase \<mapsto> act))))"

text \<open>The state of a rule that is being built: the rule and the table of transformation identifiers.\<close>

type_synonym rule_state = "Rule \<times> transformationIDs"

text \<open>\<open>a.F.Init(p.rule, a.Value)\<close>\<close>

definition init_action :: "libs \<Rightarrow> extern \<Rightarrow> ruleAction \<Rightarrow> rule_state \<Rightarrow> ((string + action) \<times> rule_state) go" where
  "init_action lb ext a = (\<lambda>(r, ids). action_Init lb ext (ra_Key a) (ra_Value a) r ids)"

fun init_metadata :: "libs \<Rightarrow> extern \<Rightarrow> ruleAction list \<Rightarrow> rule_state \<Rightarrow> (string option \<times> rule_state) go" where
  "init_metadata lb ext [] s = Some (None, s)"
| "init_metadata lb ext (a # as) s =
     (if ra_Atype a = ActionTypeMetadata then
        do { (res, s) \<leftarrow> init_action lb ext a s;
             (case res of Inl err \<Rightarrow> Some (Some err, s) | Inr _ \<Rightarrow> init_metadata lb ext as s) }
      else init_metadata lb ext as s)"

text \<open>The zero \<open>ruleAction\<close> has a nil function, and initialising it panics.\<close>

fun init_actions :: "libs \<Rightarrow> extern \<Rightarrow> ruleAction option list \<Rightarrow> rule_state \<Rightarrow> (string option \<times> rule_state) go" where
  "init_actions lb ext [] s = Some (None, s)"
| "init_actions lb ext (None # as) s = None"
| "init_actions lb ext (Some a # as) s =
     (if ra_Atype a = ActionTypeMetadata then init_actions lb ext as s
      else
        do { (res, (r, ids)) \<leftarrow> init_action lb ext a s;
             (case res of
                Inl err \<Rightarrow> Some (Some err, (r, ids))
              | Inr f \<Rightarrow> init_actions lb ext as (AddAction (ra_Key a) f r, ids)) })"

definition ParseActions :: "libs \<Rightarrow> extern \<Rightarrow> Config \<Rightarrow> default_map \<Rightarrow> string \<Rightarrow> rule_state \<Rightarrow>
    (string option \<times> rule_state) go" where
  "ParseActions lb ext cfg dm actions s =
     (case parseActions lb actions of
        Inl err \<Rightarrow> Some (Some err, s)
      | Inr act \<Rightarrow>
          (case find (\<lambda>a. InSlice (ra_Key a) (disabled_rule_actions cfg)) act of
             Some a \<Rightarrow> Some (Some (ra_Key a @ '' rule action is disabled''), s)
           | None \<Rightarrow>
               do { (err, s) \<leftarrow> init_metadata lb ext act s;
                    if err \<noteq> None then Some (err, s)
                    else
                      let act = (case dm (Phase (fst s)) of
                                   None \<Rightarrow> map Some act
                                 | Some defaults \<Rightarrow> mergeActions act defaults)
                      in init_actions lb ext act s }))"

section \<open>Rules\<close>

text \<open>
  The expression \<^verbatim>\<open>"(?:[^"\\]|\\.)*"\<close>: what follows an opening quote up to the closing one,
  where a backslash escapes the next character, which must not be a line feed.
\<close>

fun quoted_body :: "string \<Rightarrow> (string \<times> string) option" where
  "quoted_body [] = None"
| "quoted_body (c # cs) =
     (if c = CHR 0x22 then Some ([], cs)
      else if c = CHR 0x5C then
        (case cs of
           [] \<Rightarrow> None
         | d # ds \<Rightarrow>
             if d = CHR 0x0A then None
             else (case quoted_body ds of None \<Rightarrow> None | Some (b, rest) \<Rightarrow> Some (c # d # b, rest)))
      else (case quoted_body cs of None \<Rightarrow> None | Some (b, rest) \<Rightarrow> Some (c # b, rest)))"

lemma quoted_body_length: "quoted_body cs = Some (b, rest) \<Longrightarrow> length rest < length cs"
proof (induction cs arbitrary: b rest rule: quoted_body.induct)
  case (2 c cs)
  consider "c = CHR 0x22" | "c \<noteq> CHR 0x22" "c = CHR 0x5C" | "c \<noteq> CHR 0x22" "c \<noteq> CHR 0x5C" by blast
  then show ?case
  proof cases
    case 2
    with "2.prems" obtain d ds b' where "cs = d # ds" "d \<noteq> CHR 0x0A" "quoted_body ds = Some (b', rest)"
      by (auto split: list.splits if_splits option.splits)
    with "2.IH"(1) [OF 2] show ?thesis by fastforce
  next
    case 3
    with "2.prems" obtain b' where "quoted_body cs = Some (b', rest)" by (auto split: option.splits)
    with "2.IH"(2) [OF 3] show ?thesis by fastforce
  qed (use "2.prems" in simp)
qed simp

function ruleTokens :: "nat \<Rightarrow> string \<Rightarrow> string list" where
  "ruleTokens n [] = []"
| "ruleTokens n (c # cs) =
     (if n = 0 then []
      else if c = CHR 0x22 then
        (case quoted_body cs of
           None \<Rightarrow> ruleTokens n cs
         | Some (b, rest) \<Rightarrow> (CHR 0x22 # b @ [CHR 0x22]) # ruleTokens (n - 1) rest)
      else ruleTokens n cs)"
  by pat_completeness auto
termination
  by (relation "measure (\<lambda>(_, s). length s)") (auto dest: quoted_body_length)

definition defaultActionsPhase2 :: string where
  "defaultActionsPhase2 = ''phase:2,log,auditlog,pass''"

fun parse_defaults :: "libs \<Rightarrow> string list \<Rightarrow> default_map \<Rightarrow> string + default_map" where
  "parse_defaults lb [] dm = Inr dm"
| "parse_defaults lb (da # das) dm =
     (case ParseDefaultActions lb da dm of Inl err \<Rightarrow> Inl err | Inr dm \<Rightarrow> parse_defaults lb das dm)"

text \<open>The last rule of the group when its chain ends in a rule with the action \<open>chain\<close>.\<close>

definition expects_chain :: "ChainedRule \<Rightarrow> bool" where
  "expects_chain rc \<longleftrightarrow> r_HasChain (last (fst rc # snd rc))"

definition getLastRuleExpectingChain :: "ChainedRule list \<Rightarrow> ChainedRule option" where
  "getLastRuleExpectingChain rules =
     (if rules = [] then None
      else if expects_chain (last rules) then Some (last rules) else None)"

text \<open>The sections of a rule with an operator: variables, operator and, when there are any, actions.\<close>

definition parse_sections :: "libs \<Rightarrow> extern \<Rightarrow> Config \<Rightarrow> default_map \<Rightarrow> string \<Rightarrow> rule_state \<Rightarrow>
    (string option \<times> rule_state) go" where
  "parse_sections lb ext cfg dm data s =
     (case ruleTokens 3 data of
        [] \<Rightarrow> Some (Some (''invalid rule with no transformation matches: '' @ data), s)
      | m # ms \<Rightarrow>
          let operator = MaybeRemoveQuotes m in
          if InSlice operator (disabled_rule_operators cfg)
          then Some (Some (operator @ '' rule operator is disabled''), s)
          else
            let (vars, _, _) = Cut data (CHR '' '') in
            do { (err, r) \<leftarrow> ParseVariables lb vars (fst s);
                 if err \<noteq> None then Some (err, r, snd s)
                 else
                   do { (err, r) \<leftarrow> ParseOperator lb cfg operator r;
                        if err \<noteq> None then Some (err, r, snd s)
                        else
                          (case ms of
                             [] \<Rightarrow> Some (None, r, snd s)
                           | a # _ \<Rightarrow> ParseActions lb ext cfg dm (MaybeRemoveQuotes a) (r, snd s)) } })"

text \<open>
  \<open>ParseRule\<close>: the error or the rule (\<^const>\<open>None\<close> when it went to the end of its parent's
  chain), the rules of the WAF and the table of transformation identifiers.
\<close>

definition ParseRule :: "libs \<Rightarrow> extern \<Rightarrow> Config \<Rightarrow> bool \<Rightarrow> string \<Rightarrow> string \<Rightarrow> nat \<Rightarrow> ChainedRule list \<Rightarrow> transformationIDs \<Rightarrow>
    ((string + ChainedRule option) \<times> ChainedRule list \<times> transformationIDs) go" where
  "ParseRule lb ext cfg withOperator directive data ptr rules ids =
     (if TrimSpace data = [] then Some (Inl ''empty rule'', rules, ids)
      else
        let das = (case rule_default_actions cfg of None \<Rightarrow> [defaultActionsPhase2] | Some das \<Rightarrow> das) in
        (case parse_defaults lb das (\<lambda>_. None) of
           Inl err \<Rightarrow> Some (Inl err, rules, ids)
         | Inr dm \<Rightarrow>
             do { (err, r, ids) \<leftarrow>
                    (if withOperator then parse_sections lb ext cfg dm data (NewRule ptr, ids)
                     else ParseActions lb ext cfg dm (MaybeRemoveQuotes data) (NewRule ptr, ids));
                  (case err of
                     Some e \<Rightarrow> Some (Inl e, rules, ids)
                   | None \<Rightarrow>
                       let r = r\<lparr>Raw := directive @ '' '' @ data, File := parser_config_file cfg,
                                 Line := parser_last_line cfg\<rparr>
                       in (case getLastRuleExpectingChain rules of
                             None \<Rightarrow> Some (Inr (Some (r, [])), rules, ids)
                           | Some (parent, chain) \<Rightarrow>
                               let r = r\<lparr>r_ParentID := ID parent, Phase := 0\<rparr>
                               in Some (Inr None, butlast rules @ [(parent, chain @ [r])], ids))) }))"

section \<open>One-byte runes\<close>

lemma EncodeRune_ascii: "r < 128 \<Longrightarrow> EncodeRune r = [char_of r]"
  by (simp add: EncodeRune_def)

lemma runes_ascii: "byte c < 128 \<Longrightarrow> runes (c # s) = (byte c, [c]) # runes s"
  using runes_EncodeRune [of "byte c" s] by (simp add: EncodeRune_ascii valid_rune_def)

lemma EncodeRune_byte: "byte c < 128 \<Longrightarrow> EncodeRune (byte c) = [c]"
  by (simp add: EncodeRune_ascii)

section \<open>Default actions\<close>

abbreviation disruptive :: "ruleAction \<Rightarrow> bool" where
  "disruptive a \<equiv> ra_Atype a = ActionTypeDisruptive"

lemma default_disruptive_Some: "default_disruptive defaults = Some d \<Longrightarrow> d \<in> set defaults \<and> disruptive d"
  using last_in_set [of "filter disruptive defaults"]
  by (auto simp: default_disruptive_def Let_def split: if_splits)

text \<open>
  The defaults of a phase, from the texts of the SecDefaultAction directives: the actions of the
  last text whose (last) action \<open>phase\<close> names it.
\<close>

definition text_phase :: "ruleAction list \<Rightarrow> RulePhase" where
  "text_phase as = (let ps = filter (\<lambda>a. ra_Key a = ''phase'') as in
     if ps = [] then 0 else projr (ParseRulePhase (ra_Value (last ps))))"

definition defaults_for :: "libs \<Rightarrow> string list \<Rightarrow> RulePhase \<Rightarrow> ruleAction list option" where
  "defaults_for lb texts p =
     (let ds = filter (\<lambda>as. text_phase as = p) (map (\<lambda>t. projr (parseActions lb t)) texts) in
      if ds = [] then None else Some (last ds))"

lemma default_phase_spec:
  "default_phase as p da = Inr (p', da') \<Longrightarrow>
     p' = (let ps = filter (\<lambda>a. ra_Key a = ''phase'') as in if ps = [] then p else projr (ParseRulePhase (ra_Value (last ps)))) \<and>
     (da' \<noteq> [] \<longrightarrow> da \<noteq> [] \<or> (\<exists>a\<in>set as. disruptive a))"
  by (induction as p da rule: default_phase.induct) (auto simp: Let_def split: if_splits sum.splits)

lemma ParseDefaultActions_spec:
  assumes "ParseDefaultActions lb t dm = Inr dm'"
  shows "dm' = dm(text_phase (projr (parseActions lb t)) \<mapsto> projr (parseActions lb t))"
    and "\<exists>act. parseActions lb t = Inr act \<and> (\<exists>a\<in>set act. disruptive a)"
proof -
  from assms obtain act p da where a: "parseActions lb t = Inr act" "default_phase act 0 [] = Inr (p, da)" "da \<noteq> []" "dm' = dm(p \<mapsto> act)"
    by (auto simp: ParseDefaultActions_def split: sum.splits if_splits)
  from default_phase_spec [OF a(2)] a show "dm' = dm(text_phase (projr (parseActions lb t)) \<mapsto> projr (parseActions lb t))"
    "\<exists>act. parseActions lb t = Inr act \<and> (\<exists>a\<in>set act. disruptive a)" by (simp_all add: text_phase_def Let_def)
qed

lemma parse_defaults_spec:
  "parse_defaults lb texts dm = Inr dm' \<Longrightarrow>
     dm' p = (case defaults_for lb texts p of None \<Rightarrow> dm p | Some as \<Rightarrow> Some as) \<and>
     (\<forall>t\<in>set texts. \<exists>act. parseActions lb t = Inr act \<and> (\<exists>a\<in>set act. disruptive a))"
proof (induction texts arbitrary: dm)
  case (Cons t texts)
  then obtain dm1 where d: "ParseDefaultActions lb t dm = Inr dm1" "parse_defaults lb texts dm1 = Inr dm'"
    by (auto split: sum.splits)
  from ParseDefaultActions_spec [OF d(1)] Cons.IH [OF d(2)] show ?case
    by (auto simp: defaults_for_def Let_def split: if_splits)
qed (simp add: defaults_for_def)

text \<open>
  The actions that a rule of a phase has besides its metadata, from the ones that it writes: of the
  defaults of its phase, first all that are neither disruptive nor metadata, then its own ones but
  block, then, when it has no disruptive action of its own but block, the last disruptive one of the defaults.
\<close>

definition effective_actions :: "ruleAction list \<Rightarrow> ruleAction list option \<Rightarrow> ruleAction list" where
  "effective_actions own defaults =
     (let mine = filter (\<lambda>a. ra_Atype a \<noteq> ActionTypeMetadata) own in
      case defaults of
        None \<Rightarrow> mine
      | Some ds \<Rightarrow>
          filter (\<lambda>a. ra_Atype a \<notin> {ActionTypeMetadata, ActionTypeDisruptive}) ds @
          filter (\<lambda>a. \<not> (disruptive a \<and> ra_Key a = ''block'')) mine @
          (if \<exists>a\<in>set mine. disruptive a \<and> ra_Key a \<noteq> ''block'' then [] else [last (filter disruptive ds)]))"

text \<open>An entry of a rule's actions comes from initialising an action.\<close>

definition initialised :: "libs \<Rightarrow> extern \<Rightarrow> ruleActionParams \<Rightarrow> ruleAction \<Rightarrow> bool" where
  "initialised lb ext p a \<longleftrightarrow> a_Name p = ra_Key a \<and>
     (\<exists>r ids r' ids'. action_Init lb ext (ra_Key a) (ra_Value a) r ids = Some (Inr (a_Function p), r', ids'))"

lemma mergeActions_effective:
  assumes "\<exists>a\<in>set ds. disruptive a"
  shows "filter (\<lambda>a. ra_Atype (the a) \<noteq> ActionTypeMetadata) (mergeActions own ds) = map Some (effective_actions own (Some ds)) \<and>
    None \<notin> set (mergeActions own ds)"
proof -
  let ?d = "last (filter disruptive ds)"
  have ne: "filter disruptive ds \<noteq> []" using assms by (auto simp: filter_empty_conv)
  then have d: "disruptive ?d" "default_disruptive ds = Some ?d"
    using last_in_set [OF ne] by (auto simp: default_disruptive_def)
  have mine: "filter (\<lambda>a. ra_Atype a \<noteq> ActionTypeMetadata \<and> (disruptive a \<longrightarrow> ra_Key a \<noteq> ''block'')) own =
      filter (\<lambda>a. \<not> (disruptive a \<and> ra_Key a = ''block'')) (filter (\<lambda>a. ra_Atype a \<noteq> ActionTypeMetadata) own)"
    by (auto intro!: filter_cong)
  have da: "list_ex disruptive (filter (\<lambda>a. disruptive a \<longrightarrow> ra_Key a \<noteq> ''block'') own) \<longleftrightarrow>
      (\<exists>a\<in>set (filter (\<lambda>a. ra_Atype a \<noteq> ActionTypeMetadata) own). disruptive a \<and> ra_Key a \<noteq> ''block'')"
    by (auto simp: list_ex_iff)
  have defs: "filter (\<lambda>a. ra_Atype a \<noteq> ActionTypeMetadata \<and> ra_Atype a \<noteq> ActionTypeDisruptive \<and> ra_Atype a \<noteq> ActionTypeMetadata) ds =
      filter (\<lambda>a. ra_Atype a \<noteq> ActionTypeDisruptive \<and> ra_Atype a \<noteq> ActionTypeMetadata) ds"
    by (auto intro!: filter_cong)
  show ?thesis
    using d by (auto simp: mergeActions_def effective_actions_def Let_def da mine [symmetric] defs filter_map comp_def conj_commute)
qed

lemma mergeActions_from: "Some a \<in> set (mergeActions own ds) \<Longrightarrow> a \<in> set own \<or> a \<in> set ds"
  using default_disruptive_Some by (fastforce simp: mergeActions_def Let_def split: if_splits)

abbreviation typed :: "libs \<Rightarrow> ruleAction list \<Rightarrow> bool" where
  "typed lb as \<equiv> \<forall>a\<in>set as. actions_Get_Type lb (ra_Key a) = Inr (ra_Atype a)"

text \<open>A result that, when it is not an error, is typed; the last rule adds a parsed action.\<close>

definition typed_result :: "libs \<Rightarrow> string + ruleAction list \<Rightarrow> bool" where
  "typed_result lb x \<longleftrightarrow> (\<forall>as. x = Inr as \<longrightarrow> typed lb as)"

lemma typed_result_if: "typed_result lb x \<Longrightarrow> typed_result lb y \<Longrightarrow> typed_result lb (if b then x else y)"
  by simp

lemma typed_result_take:
  assumes "\<And>a. actions_Get_Type lb (ra_Key a) = Inr (ra_Atype a) \<Longrightarrow> typed_result lb (f a)"
  shows "typed_result lb (case take_action lb st of Inl err \<Rightarrow> Inl err | Inr a \<Rightarrow> f a)"
proof (cases "actions_Get_Type lb (pa_ckey st)")
  case (Inr ty)
  with assms [of "\<lparr>ra_Key = pa_ckey st, ra_Value = pa_cval st, ra_Atype = ty\<rparr>"] show ?thesis by (simp add: take_action_def)
qed (simp add: take_action_def typed_result_def)

lemma pa_loop_typed: "typed lb res \<Longrightarrow> typed_result lb (pa_loop lb actions i rs st res)"
proof (induction rs arbitrary: i st res)
  case (Cons cb rs)
  obtain c bs where cb: "cb = (c, bs)" by fastforce
  have "typed lb (res @ as)" if "typed lb as" for as using Cons.prems that by auto
  then show ?case unfolding cb pa_loop.simps Let_def
    by (intro typed_result_if typed_result_take Cons.IH) (use Cons.prems in auto)
qed (simp add: typed_result_def)

lemma parseActions_typed: "parseActions lb t = Inr as \<Longrightarrow> typed lb as"
  unfolding parseActions_def using pa_loop_typed [of "[]" lb] by (auto simp: typed_result_def)

text \<open>No initialisation adds actions, and only metadata changes the phase.\<close>

lemma actionmap_actions:
  "\<forall>(n, ty, f)\<in>set (actionmap lb). \<forall>data r res r'. f data r = Some (res, r') \<longrightarrow> r_actions r' = r_actions r \<and>
     (ty \<noteq> ActionTypeMetadata \<longrightarrow> Phase r' = Phase r)"
  unfolding actionmap_def list.set ball_simps prod.case
  by (intro conjI allI impI TrueI; auto simp: init_defs setvar_Init_def opt_macro_def Let_def case_prod_beta
      split: if_split_asm option.split_asm sum.split_asm)

lemma action_Init_actions:
  assumes "action_Init lb ext name data r ids = Some (res, r', ids')" "actions_Get_Type lb name = Inr ty"
  shows "r_actions r' = r_actions r" "ty \<noteq> ActionTypeMetadata \<Longrightarrow> Phase r' = Phase r"
proof -
  have "r_actions r' = r_actions r \<and> (ty \<noteq> ActionTypeMetadata \<longrightarrow> Phase r' = Phase r)"
  proof (cases "ToLower name = ''t''")
    case True
    with assms show ?thesis
      by (auto simp: action_Init_def t_Init_def AddTransformation_def ClearTransformations_def
        split: if_splits sum.splits option.splits)
  next
    case False
    then obtain f where f: "map_of (actionmap lb) (ToLower name) = Some (ty, f)"
      using assms(2) by (auto simp: actions_Get_Type_def Let_def split: option.splits)
    with False assms(1) have "f data r = Some (res, r')" by (auto simp: action_Init_def Let_def)
    with actionmap_all [OF f actionmap_actions] show ?thesis by blast
  qed
  then show "r_actions r' = r_actions r" "ty \<noteq> ActionTypeMetadata \<Longrightarrow> Phase r' = Phase r" by blast+
qed

lemma init_metadata_actions:
  "init_metadata lb ext as s = Some (err, s') \<Longrightarrow> typed lb as \<Longrightarrow>
     r_actions (fst s') = r_actions (fst s)"
proof (induction as arbitrary: s)
  case (Cons a as)
  show ?case
  proof (cases "ra_Atype a = ActionTypeMetadata")
    case True
    with Cons.prems(1) obtain res s1 where i: "init_action lb ext a s = Some (res, s1)"
      and r: "(case res of Inl e \<Rightarrow> Some (Some e, s1) | Inr _ \<Rightarrow> init_metadata lb ext as s1) = Some (err, s')" by auto
    have "r_actions (fst s1) = r_actions (fst s)"
      using i Cons.prems(2) by (cases s; cases s1) (auto simp: init_action_def dest: action_Init_actions(1))
    with r Cons show ?thesis by (auto split: sum.splits)
  qed (use Cons in simp)
qed simp

lemma init_actions_result:
  assumes "init_actions lb ext as s = Some (None, s')" "\<forall>a\<in>set as. a \<noteq> None \<and> actions_Get_Type lb (ra_Key (the a)) = Inr (ra_Atype (the a))"
  shows "Phase (fst s') = Phase (fst s) \<and> (\<exists>ps. r_actions (fst s') = r_actions (fst s) @ ps \<and>
    list_all2 (initialised lb ext) ps (map the (filter (\<lambda>a. ra_Atype (the a) \<noteq> ActionTypeMetadata) as)))"
  using assms
proof (induction as arbitrary: s)
  case (Cons x as)
  then obtain a where x: "x = Some a" by auto
  show ?case
  proof (cases "ra_Atype a = ActionTypeMetadata")
    case True
    with Cons x show ?thesis by simp
  next
    case False
    then obtain res r1 ids1 where "init_action lb ext a s = Some (res, (r1, ids1))"
      "(case res of Inl e \<Rightarrow> Some (Some e, (r1, ids1)) | Inr f \<Rightarrow> init_actions lb ext as (AddAction (ra_Key a) f r1, ids1)) = Some (None, s')"
      using Cons.prems(1) x by auto
    then obtain f where i: "init_action lb ext a s = Some (Inr f, (r1, ids1))"
      "init_actions lb ext as (AddAction (ra_Key a) f r1, ids1) = Some (None, s')"
      by (cases res) auto
    have k: "r_actions r1 = r_actions (fst s)" "Phase r1 = Phase (fst s)" "initialised lb ext \<lparr>a_Name = ra_Key a, a_Param = [], a_Function = f\<rparr> a"
      using i(1) Cons.prems(2) x False by (cases s; auto simp: init_action_def initialised_def dest: action_Init_actions)+
    obtain ps where "Phase (fst s') = Phase r1" "r_actions (fst s') = r_actions r1 @ \<lparr>a_Name = ra_Key a, a_Param = [], a_Function = f\<rparr> # ps"
      "list_all2 (initialised lb ext) ps (map the (filter (\<lambda>a. ra_Atype (the a) \<noteq> ActionTypeMetadata) as))"
      using Cons.IH [OF i(2)] Cons.prems(2) by (auto simp: AddAction_def)
    with k x False show ?thesis by auto
  qed
qed simp

text \<open>
  C25. The actions of a rule, from its text and the texts of the SecDefaultAction directives: when
  \<open>ParseActions\<close> succeeds, the rule has got, in order and each initialised with its value, the
  actions that are neither disruptive nor metadata of the last SecDefaultAction of the phase that the
  rule itself ends up with, then its own actions but metadata and block, then the disruptive action of those
  defaults if it has no disruptive action of its own but block. Metadata of the defaults is not
  inherited, and a rule of a phase without defaults gets its own actions only.
\<close>

theorem ParseActions_defaults:
  assumes "parse_defaults lb texts (\<lambda>_. None) = Inr dm" "parseActions lb actions = Inr own"
    and "ParseActions lb ext cfg dm actions (r, ids) = Some (None, (r', ids'))"
  shows "\<exists>ps. r_actions r' = r_actions r @ ps \<and>
    list_all2 (initialised lb ext) ps (effective_actions own (defaults_for lb texts (Phase r')))"
proof -
  obtain s where m: "init_metadata lb ext own (r, ids) = Some (None, s)"
    and i: "init_actions lb ext (case dm (Phase (fst s)) of None \<Rightarrow> map Some own | Some ds \<Rightarrow> mergeActions own ds) s = Some (None, (r', ids'))"
    using assms(2,3) by (cases "find (\<lambda>a. InSlice (ra_Key a) (disabled_rule_actions cfg)) own")
      (auto simp: ParseActions_def Let_def split: if_split_asm)
  have dm: "dm p = defaults_for lb texts p" for p
    using parse_defaults_spec [OF assms(1), of p] by (simp split: option.splits)
  note own = parseActions_typed [OF assms(2)]
  have keep: "r_actions (fst s) = r_actions r" using init_metadata_actions [OF m own] by simp
  show ?thesis
  proof (cases "defaults_for lb texts (Phase (fst s))")
    case None
    have "map the (filter (\<lambda>a. ra_Atype (the a) \<noteq> ActionTypeMetadata) (map Some own)) = effective_actions own None"
      by (simp add: effective_actions_def filter_map comp_def)
    with init_actions_result [of lb ext "map Some own" s "(r', ids')"] i own keep None show ?thesis by (auto simp: dm)
  next
    case (Some ds)
    then obtain t where t: "t \<in> set texts" "ds = projr (parseActions lb t)"
      using last_in_set [of "filter (\<lambda>as. text_phase as = Phase (fst s)) (map (\<lambda>t. projr (parseActions lb t)) texts)"]
      by (auto simp: defaults_for_def Let_def split: if_splits)
    then have ds: "parseActions lb t = Inr ds" "\<exists>a\<in>set ds. disruptive a"
      using parse_defaults_spec [OF assms(1)] by fastforce+
    have typed: "\<forall>a\<in>set (mergeActions own ds). a \<noteq> None \<and> actions_Get_Type lb (ra_Key (the a)) = Inr (ra_Atype (the a))"
    proof
      fix x
      assume x: "x \<in> set (mergeActions own ds)"
      then obtain a where a: "x = Some a" using mergeActions_effective [OF ds(2), of own] by (metis option.exhaust)
      then have "a \<in> set own \<or> a \<in> set ds" using x mergeActions_from by blast
      with a own parseActions_typed [OF ds(1)] show "x \<noteq> None \<and> actions_Get_Type lb (ra_Key (the x)) = Inr (ra_Atype (the x))" by auto
    qed
    have "init_actions lb ext (mergeActions own ds) s = Some (None, (r', ids'))" using i Some by (simp add: dm)
    from init_actions_result [OF this typed] mergeActions_effective [OF ds(2), of own] keep Some show ?thesis
      by (auto simp: comp_def)
  qed
qed

section \<open>Chains\<close>

lemma actionmap_ParentID:
  "\<forall>(n, ty, f)\<in>set (actionmap lb). \<forall>data r res r'. f data r = Some (res, r') \<longrightarrow> r_ParentID r' = r_ParentID r"
  unfolding actionmap_def list.set ball_simps prod.case
  by (intro conjI allI impI TrueI; auto simp: init_defs setvar_Init_def opt_macro_def Let_def case_prod_beta
      split: if_split_asm option.split_asm sum.split_asm)

lemma action_Init_ParentID:
  assumes "action_Init lb ext name data r ids = Some (res, r', ids')"
  shows "r_ParentID r' = r_ParentID r"
proof (cases "ToLower name = ''t''")
  case True
  with assms show ?thesis
    by (auto simp: action_Init_def t_Init_def AddTransformation_def ClearTransformations_def
      split: if_splits sum.splits option.splits)
next
  case False
  show ?thesis
  proof (cases "map_of (actionmap lb) (ToLower name)")
    case None
    with False assms show ?thesis by (simp add: action_Init_def Let_def)
  next
    case (Some tf)
    obtain ty f where f: "map_of (actionmap lb) (ToLower name) = Some (ty, f)" using Some by (cases tf) auto
    with False assms have "f data r = Some (res, r')" by (auto simp: action_Init_def Let_def)
    with actionmap_all [OF f actionmap_ParentID] show ?thesis by blast
  qed
qed

lemma init_metadata_ParentID:
  "init_metadata lb ext as s = Some (err, s') \<Longrightarrow> r_ParentID (fst s') = r_ParentID (fst s)"
proof (induction lb ext as s rule: init_metadata.induct)
  case (2 lb ext a as s)
  show ?case
  proof (cases "ra_Atype a = ActionTypeMetadata")
    case True
    with "2.prems" obtain res s1 where i: "init_action lb ext a s = Some (res, s1)"
      and r: "(case res of Inl e \<Rightarrow> Some (Some e, s1) | Inr _ \<Rightarrow> init_metadata lb ext as s1) = Some (err, s')" by auto
    have "r_ParentID (fst s1) = r_ParentID (fst s)"
      using i by (cases s; cases s1) (auto simp: init_action_def dest: action_Init_ParentID)
    with r "2.IH"(1) [OF True i refl] show ?thesis by (auto split: sum.splits)
  qed (use 2 in simp)
qed simp

lemma init_actions_ParentID:
  "init_actions lb ext as s = Some (err, s') \<Longrightarrow> r_ParentID (fst s') = r_ParentID (fst s)"
proof (induction lb ext as s rule: init_actions.induct)
  case (3 lb ext a as s)
  show ?case
  proof (cases "ra_Atype a = ActionTypeMetadata")
    case False
    with "3.prems" obtain res r ids where i: "init_action lb ext a s = Some (res, (r, ids))"
      and c: "(case res of Inl e \<Rightarrow> Some (Some e, (r, ids)) | Inr f \<Rightarrow> init_actions lb ext as (AddAction (ra_Key a) f r, ids)) = Some (err, s')"
      by auto
    have "r_ParentID r = r_ParentID (fst s)"
      using i by (cases s) (auto simp: init_action_def dest: action_Init_ParentID)
    with c "3.IH"(2) [OF False i refl refl] show ?thesis by (auto simp: AddAction_def split: sum.splits)
  qed (use 3 in simp)
qed simp_all

lemma ParseActions_ParentID:
  "ParseActions lb ext cfg dm actions s = Some (err, s') \<Longrightarrow> r_ParentID (fst s') = r_ParentID (fst s)"
  by (auto simp: ParseActions_def Let_def dest!: init_metadata_ParentID init_actions_ParentID
      split: sum.splits option.splits if_splits)

text \<open>The three outcomes of a turn of the loop over the variables.\<close>

lemma pv_loop_cases:
  assumes "pv_loop add vars i st r = Some (err, r')" "i < length vars"
  obtains (error) "r' = r" "err \<noteq> None"
  | (char) "pv_loop add vars (i + 1) (pv_char (vars ! i) st) r = Some (err, r')" "\<not> pv_ends vars i st"
  | (add) v key r1 j where
      "add (pv_isNegation (pv_last (vars ! i) st)) (pv_isCount (pv_last (vars ! i) st)) v key r = Some (Inr r1)"
      "i < j" "pv_loop add vars j (pv_start\<lparr>pv_isEscaped := pv_isEscaped (pv_last (vars ! i) st)\<rparr>) r1 = Some (err, r')"
proof (cases "pv_ends vars i st")
  case False
  with assms char show ?thesis by (simp add: pv_loop.simps [of add vars i st r])
next
  case True
  let ?st = "pv_last (vars ! i) st"
  let ?unclosed = "pv_isquoted ?st \<and> (length vars \<le> i + 1 \<or> vars ! (i + 1) \<noteq> CHR 0x27) \<and> vars ! i \<noteq> CHR 0x27"
  let ?i = "if pv_isquoted ?st then i + 2 else if pv_curr ?st = 2 then i + 1 else i"
  let ?key = "if pv_curr ?st = 2 then ''/'' @ pv_curKey ?st @ ''/'' else pv_curKey ?st"
  note step = pv_loop.simps [of add vars i st r, unfolded Let_def]
  show ?thesis
  proof (cases "variables_Parse (pv_curVar ?st)")
    case (Inl e)
    with True assms have "r' = r" "err = Some e" unfolding step by auto
    then show ?thesis by (intro error) simp_all
  next
    case (Inr v)
    show ?thesis
    proof (cases ?unclosed)
      case True
      with \<open>pv_ends vars i st\<close> assms Inr have "r' = r" "err = Some (''unclosed quote: '' @ pv_curKey ?st)"
        unfolding step by auto
      then show ?thesis by (intro error) simp_all
    next
      case False
      have "add_then (add (pv_isNegation ?st) (pv_isCount ?st) v ?key r) r
          (pv_loop add vars (?i + 1) (pv_start\<lparr>pv_isEscaped := pv_isEscaped ?st\<rparr>)) = Some (err, r')"
        using \<open>pv_ends vars i st\<close> False Inr assms(1) assms(2) [unfolded not_le [symmetric]] unfolding step
        by (simp only: if_False if_True sum.case)
      then consider e where "r' = r" "err = Some e"
        | r1 where "add (pv_isNegation ?st) (pv_isCount ?st) v ?key r = Some (Inr r1)"
          "pv_loop add vars (?i + 1) (pv_start\<lparr>pv_isEscaped := pv_isEscaped ?st\<rparr>) r1 = Some (err, r')"
        unfolding add_then_def by (auto split: option.split_asm sum.split_asm)
      then show ?thesis
      proof cases
        case (2 r1)
        show ?thesis by (rule add [OF 2(1) _ 2(2)]) auto
      qed (auto intro: error)
    qed
  qed
qed

lemma pv_loop_keeps:
  assumes "pv_loop add vars i st r = Some (err, r')" "\<And>neg cnt v key r r'. add neg cnt v key r = Some (Inr r') \<Longrightarrow> f r' = f r"
  shows "f r' = f r"
  using assms(1)
proof (induction "length vars - i" arbitrary: i st r rule: less_induct)
  case less
  show ?case
  proof (cases "i < length vars")
    case True
    from less.prems True show ?thesis
    proof (cases rule: pv_loop_cases)
      case error
      then show ?thesis by simp
    next
      case char
      with less.hyps [OF _ char(1)] True show ?thesis by simp
    next
      case (add v key r1 j)
      with less.hyps [OF _ add(3)] assms(2) [OF add(1)] True show ?thesis by simp
    qed
  qed (use less.prems in \<open>simp add: pv_loop.simps [of add vars i st r]\<close>)
qed

lemma ParseVariables_keeps:
  assumes "ParseVariables lb vars r = Some (err, r')"
  shows "ID r' = ID r" "r_ParentID r' = r_ParentID r"
  using assms unfolding ParseVariables_def
  by (auto elim!: pv_loop_keeps simp: add_variable_def AddVariableNegation_def AddVariable_def split: if_splits)

lemma parse_sections_ParentID:
  assumes "parse_sections lb ext cfg dm data s = Some (err, s')"
  shows "r_ParentID (fst s') = r_ParentID (fst s)"
proof -
  have op: "ParseOperator lb cfg op r = Some (e, r') \<Longrightarrow> r_ParentID r' = r_ParentID r" for op r e r'
  proof -
    assume *: "ParseOperator lb cfg op r = Some (e, r')"
    obtain g res where "operators_Get lb (fst g) (snd g) = Some res"
      "(e, r') = (case res of Inl err \<Rightarrow> (Some err, r)
         | Inr opfn \<Rightarrow> (None, SetOperator opfn (fst (Cut (full_operator op) (CHR '' '')))
             (TrimSpace (fst (snd (Cut (full_operator op) (CHR '' ''))))) r))"
      using * that unfolding ParseOperator_def Let_def case_prod_beta
      by (auto simp: bind_eq_Some_conv split: if_split_asm)
    then show ?thesis by (cases res) (simp_all add: SetOperator_def)
  qed
  show ?thesis
  proof (cases "ruleTokens 3 data")
    case (Cons m ms)
    with assms show ?thesis
      by (cases ms) (auto simp: parse_sections_def Let_def bind_eq_Some_conv case_prod_beta
        dest!: ParseVariables_keeps(2) op ParseActions_ParentID split: if_split_asm)
  qed (use assms in \<open>simp add: parse_sections_def\<close>)
qed

text \<open>A rule without an identifier would leave its chained rules without a parent.\<close>

definition chains_ok :: "ChainedRule list \<Rightarrow> bool" where
  "chains_ok rules \<longleftrightarrow> (\<forall>(r, chain)\<in>set rules. ID r \<noteq> 0 \<longrightarrow> chain_ok r chain)"

lemma chains_ok_attach:
  assumes "chains_ok rules" "getLastRuleExpectingChain rules = Some (parent, chain)" "r_ParentID r = ID parent"
  shows "chains_ok (butlast rules @ [(parent, chain @ [r])])" "map (ID \<circ> fst) (butlast rules @ [(parent, chain @ [r])]) = map (ID \<circ> fst) rules"
proof -
  have "rules \<noteq> []" "last rules = (parent, chain)"
    using assms(2) by (auto simp: getLastRuleExpectingChain_def split: if_splits)
  then have rules: "rules = butlast rules @ [(parent, chain)]" by (metis append_butlast_last_id)
  with assms(1) have "chains_ok (butlast rules @ [(parent, chain)])" by metis
  with assms(3) show "chains_ok (butlast rules @ [(parent, chain @ [r])])" by (auto simp: chains_ok_def chain_ok_def)
  have "map (ID \<circ> fst) (butlast rules @ [(parent, chain)]) = map (ID \<circ> fst) rules" using rules by metis
  then show "map (ID \<circ> fst) (butlast rules @ [(parent, chain @ [r])]) = map (ID \<circ> fst) rules" by simp
qed

lemma ParseRule_result:
  assumes "ParseRule lb ext cfg withOperator directive data ptr rules ids = Some (res, rules', ids')"
  shows "case res of
      Inl _ \<Rightarrow> rules' = rules
    | Inr (Some (r, chain)) \<Rightarrow> rules' = rules \<and> chain = [] \<and> r_ParentID r = 0 \<and> getLastRuleExpectingChain rules = None
    | Inr None \<Rightarrow> (\<exists>parent chain r. getLastRuleExpectingChain rules = Some (parent, chain) \<and>
        rules' = butlast rules @ [(parent, chain @ [r])] \<and> r_ParentID r = ID parent \<and> Phase r = 0)"
proof -
  let ?new = "\<lambda>dm. if withOperator then parse_sections lb ext cfg dm data (NewRule ptr, ids)
    else ParseActions lb ext cfg dm (MaybeRemoveQuotes data) (NewRule ptr, ids)"
  have new: "r_ParentID r = 0" if "?new dm = Some (err, r, ids1)" for dm err r ids1
    using that by (auto dest!: parse_sections_ParentID ParseActions_ParentID simp: NewRule_def split: if_splits)
  show ?thesis
    using assms new by (auto simp: ParseRule_def Let_def split: if_splits sum.splits option.splits prod.splits)
qed

lemma ParseRule_keeps:
  assumes "ParseRule lb ext cfg withOperator directive data ptr rules ids = Some (res, rules', ids')" "chains_ok rules"
  shows "chains_ok rules'" "map (ID \<circ> fst) rules' = map (ID \<circ> fst) rules"
  using ParseRule_result [OF assms(1)] assms(2) chains_ok_attach
  by (auto split: sum.splits option.splits)

text \<open>
  C22. What the parser builds is what the evaluation of chains relies on: a parsed rule stands alone,
  or it becomes the last rule of the chain of the last parent, with the phase 0 and the parent's
  identifier; no other rule changes. So every rule with an identifier keeps a well-formed chain.
\<close>

theorem ParseRule_chains:
  assumes "ParseRule lb ext cfg withOperator directive data ptr rules ids = Some (res, rules', ids')" "chains_ok rules"
  shows "chains_ok rules' \<and>
    (case res of
       Inl _ \<Rightarrow> rules' = rules
     | Inr (Some (r, chain)) \<Rightarrow> rules' = rules \<and> chain = [] \<and> r_ParentID r = 0 \<and> getLastRuleExpectingChain rules = None
     | Inr None \<Rightarrow> (\<exists>parent chain r. getLastRuleExpectingChain rules = Some (parent, chain) \<and>
         rules' = butlast rules @ [(parent, chain @ [r])] \<and> r_ParentID r = ID parent \<and> Phase r = 0))"
  using ParseRule_keeps(1) [OF assms] ParseRule_result [OF assms(1)] by blast

definition demo_cfg :: Config where
  "demo_cfg = \<lparr>rule_default_actions = Some [], disabled_rule_actions = [], disabled_rule_operators = [],
     ignore_rule_compilation_errors = False, parser_config_file = [], parser_config_dir = [], working_dir = [],
     parser_last_line = 0, last_profile_line = 0, parser_root = (\<lambda>_. NotExist), auditlog_file = [],
     auditlog_dir = [], auditlog_formatter = None, auditlog_dir_mode = None, auditlog_file_mode = None\<rparr>"

definition no_extern :: extern where
  "no_extern = \<lparr>html_UnescapeString = (\<lambda>s. s), md5_Sum = (\<lambda>_. []), sha1_Sum = (\<lambda>_. [])\<rparr>"

theorem ParseActions_defaults_witness:
  "\<exists>dm r' ids' p. parse_defaults no_libs [''phase:1,deny'', ''phase:2,drop''] (\<lambda>_. None) = Inr dm \<and>
     ParseActions no_libs no_extern demo_cfg dm ''phase:1,block'' (NewRule 2, initial_ids) = Some (None, (r', ids')) \<and>
     r_actions r' = [p] \<and> initialised no_libs no_extern p \<lparr>ra_Key = ''deny'', ra_Value = [], ra_Atype = ActionTypeDisruptive\<rparr>"
proof -
  let ?phase = "\<lambda>p. \<lparr>ra_Key = ''phase'', ra_Value = p, ra_Atype = ActionTypeMetadata\<rparr>"
  let ?d = "\<lambda>k. \<lparr>ra_Key = k, ra_Value = [], ra_Atype = ActionTypeDisruptive\<rparr>"
  note enc = EncodeRune_byte [of "CHR ''p''", simplified]  EncodeRune_byte [of "CHR ''h''", simplified]
    EncodeRune_byte [of "CHR ''a''", simplified]  EncodeRune_byte [of "CHR ''s''", simplified]
    EncodeRune_byte [of "CHR ''e''", simplified]  EncodeRune_byte [of "CHR ''1''", simplified]
    EncodeRune_byte [of "CHR ''2''", simplified]  EncodeRune_byte [of "CHR ''d''", simplified]
    EncodeRune_byte [of "CHR ''n''", simplified]  EncodeRune_byte [of "CHR ''y''", simplified]
    EncodeRune_byte [of "CHR ''r''", simplified]  EncodeRune_byte [of "CHR ''o''", simplified]
    EncodeRune_byte [of "CHR ''b''", simplified]  EncodeRune_byte [of "CHR ''l''", simplified]
    EncodeRune_byte [of "CHR ''c''", simplified]  EncodeRune_byte [of "CHR ''k''", simplified]
  have get: "actions_Get_Type no_libs ''phase'' = Inr ActionTypeMetadata" "actions_Get_Type no_libs ''deny'' = Inr ActionTypeDisruptive"
    "actions_Get_Type no_libs ''drop'' = Inr ActionTypeDisruptive" "actions_Get_Type no_libs ''block'' = Inr ActionTypeDisruptive"
    by (simp_all add: actions_Get_Type_def actionmap_def ToLower_def is_ascii_def lower_ascii_def in_range_def)
  have p: "parseActions no_libs ''phase:1,deny'' = Inr [?phase ''1'', ?d ''deny'']"
    "parseActions no_libs ''phase:2,drop'' = Inr [?phase ''2'', ?d ''drop'']"
    "parseActions no_libs ''phase:1,block'' = Inr [?phase ''1'', ?d ''block'']"
    by (simp_all add: parseActions_def runes_ascii pa_start_def take_action_def get enc Let_def)
  have ph: "ParseRulePhase ''1'' = Inr 1" "ParseRulePhase ''2'' = Inr 2" 
    by (simp_all add: ParseRulePhase_def Atoi_def ParseInt_def ParseUint_def digit_val_def in_range_def)
  obtain dm where dm: "parse_defaults no_libs [''phase:1,deny'', ''phase:2,drop''] (\<lambda>_. None) = Inr dm" "dm 1 = Some [?phase ''1'', ?d ''deny'']"
    by (simp add: ParseDefaultActions_def p ph)
  have i: "action_Init no_libs no_extern ''phase'' ''1'' r ids = Some (Inr act_phase, r\<lparr>Phase := 1\<rparr>, ids)"
    "action_Init no_libs no_extern ''deny'' [] r ids = Some (Inr act_deny, r, ids)" for r ids
    by (simp_all add: action_Init_def actions_Get_Type_def actionmap_def init_defs ToLower_def is_ascii_def
        lower_ascii_def in_range_def ph)
  have a: "ParseActions no_libs no_extern demo_cfg dm ''phase:1,block'' (NewRule 2, initial_ids) =
      Some (None, AddAction ''deny'' act_deny ((NewRule 2)\<lparr>Phase := 1\<rparr>), initial_ids)"
    by (simp add: ParseActions_def p demo_cfg_def init_action_def i dm(2) mergeActions_def default_disruptive_def Let_def)
  have "effective_actions [?phase ''1'', ?d ''block''] (defaults_for no_libs [''phase:1,deny'', ''phase:2,drop''] 1) = [?d ''deny'']"
    by (simp add: defaults_for_def p text_phase_def ph effective_actions_def Let_def)
  with ParseActions_defaults [OF dm(1) p(3) a] dm(1) a show ?thesis
    by (auto simp: AddAction_def NewRule_def list_all2_Cons2)
qed

theorem ParseRule_chains_witness:
  "let parent = (NewRule 2)\<lparr>ID := 7, r_HasChain := True\<rparr> in
   \<exists>r. ParseRule no_libs no_extern demo_cfg False ''SecAction'' ''log'' 3 [(parent, [])] initial_ids =
       Some (Inr None, [(parent, [r])], initial_ids) \<and> chains_ok [(parent, [r])] \<and> r_ParentID r = 7 \<and> Phase r = 0"
proof -
  let ?parent = "(NewRule 2)\<lparr>ID := 7, r_HasChain := True\<rparr>"
  have trim: "TrimSpace ''log'' = ''log''" "MaybeRemoveQuotes ''log'' = ''log''" "runes ''log'' = [(108, ''l''), (111, ''o''), (103, ''g'')]"
    "EncodeRune 108 = ''l''" "EncodeRune 111 = ''o''" "EncodeRune 103 = ''g''"
    using EncodeRune_byte [of "CHR ''l''"] EncodeRune_byte [of "CHR ''o''"] EncodeRune_byte [of "CHR ''g''"]
    by (simp_all add: runes_ascii TrimSpace_def IsSpace_def MaybeRemoveQuotes_def)
  have log: "action_Init no_libs no_extern ''log'' [] r ids = Some (Inr act_log, r\<lparr>r_Log := True, r_Audit := True\<rparr>, ids)"
    "actions_Get_Type no_libs ''log'' = Inr ActionTypeNondisruptive" for r ids
    by (simp_all add: action_Init_def actions_Get_Type_def actionmap_def log_Init_def ToLower_def is_ascii_def
        lower_ascii_def in_range_def)
  obtain r where r: "ParseRule no_libs no_extern demo_cfg False ''SecAction'' ''log'' 3 [(?parent, [])] initial_ids =
    Some (Inr None, [(?parent, [r])], initial_ids)"
    by (simp add: ParseRule_def demo_cfg_def trim ParseActions_def parseActions_def pa_start_def Let_def take_action_def
       log init_action_def getLastRuleExpectingChain_def expects_chain_def)
  have "chains_ok [(?parent, [])]" by (simp add: chains_ok_def chain_ok_def NewRule_def)
  from ParseRule_chains [OF r this] r show ?thesis by (auto simp: Let_def)
qed

end
