(* ===== verification/Seclang_Props.thy ===== *)
theory Seclang_Props
  imports Seclang_Rule
begin

text \<open>
  What the rule parser of src/internal/seclang/rule_parser.go reads back: lists of actions and
  lists of variables that are printed in the seclang syntax.
\<close>

section \<open>Actions\<close>

text \<open>Text as a list of runes.\<close>

definition utf8 :: "nat list \<Rightarrow> string" where
  "utf8 rs = concat (map EncodeRune rs)"

lemma utf8_simps [simp]:
  "utf8 [] = []" "utf8 (r # rs) = EncodeRune r @ utf8 rs" "utf8 (rs @ ts) = utf8 rs @ utf8 ts"
  by (simp_all add: utf8_def)

lemma runes_utf8: "list_all valid_rune rs \<Longrightarrow> runes (utf8 rs @ s) = map (\<lambda>r. (r, EncodeRune r)) rs @ runes s"
  by (induction rs) (simp_all add: runes_EncodeRune)

lemma last_EncodeRune: "valid_rune r \<Longrightarrow> last (EncodeRune r) = CHR 0x5C \<longleftrightarrow> r = 92"
proof (cases "r < 128")
  case True
  then have "last (EncodeRune r) = CHR 0x5C \<longleftrightarrow> byte (char_of r) = byte (CHR 0x5C)"
    by (simp only: EncodeRune_ascii last.simps of_char_eq_iff simp_thms if_True)
  with True show ?thesis by simp
next
  case False
  then have "last (EncodeRune r) = char_of (128 + r mod 64) \<or> last (EncodeRune r) = char_of (189 :: nat)"
    by (simp add: EncodeRune_def)
  then have "128 \<le> byte (last (EncodeRune r))" by (auto simp: byte_char_of)
  with False show ?thesis by auto
qed

lemma not_at_end: "rest \<noteq> [] \<Longrightarrow> Suc 0 \<noteq> length (EncodeRune c) + (n + length rest)"
  by (cases rest; cases "EncodeRune c") auto

text \<open>An action as its key and value in runes; the value is printed between single quotes.\<close>

record printed_action =
  pr_key :: "nat list"
  pr_val :: "nat list"

text \<open>Quotes of a value follow a backslash, and the value does not end in one.\<close>

fun quotes_escaped :: "nat \<Rightarrow> nat list \<Rightarrow> bool" where
  "quotes_escaped p [] \<longleftrightarrow> p \<noteq> 92"
| "quotes_escaped p (c # cs) \<longleftrightarrow> (c = 39 \<longrightarrow> p = 92) \<and> quotes_escaped c cs"

lemma last_value:
  "list_all valid_rune (p # v) \<Longrightarrow> quotes_escaped p v \<Longrightarrow> last (EncodeRune p @ utf8 v) \<noteq> CHR 0x5C"
proof (induction v arbitrary: p)
  case (Cons c v)
  from Cons.IH [of c] Cons.prems show ?case by (simp add: last_append)
qed (simp add: last_EncodeRune)

definition printable :: "printed_action \<Rightarrow> bool" where
  "printable a \<longleftrightarrow> list_all valid_rune (pr_key a) \<and> list_all (\<lambda>c. c \<notin> {32, 44, 58}) (pr_key a) \<and>
     list_all valid_rune (pr_val a) \<and> quotes_escaped 39 (pr_val a)"

definition print_action :: "printed_action \<Rightarrow> string" where
  "print_action a = utf8 (pr_key a) @ CHR '':'' # CHR 0x27 # utf8 (pr_val a) @ [CHR 0x27]"

definition read_action :: "libs \<Rightarrow> printed_action \<Rightarrow> string + ruleAction" where
  "read_action lb a =
     (case actions_Get_Type lb (utf8 (pr_key a)) of
        Inl err \<Rightarrow> Inl err
      | Inr ty \<Rightarrow> Inr \<lparr>ra_Key = utf8 (pr_key a), ra_Value = utf8 (pr_val a), ra_Atype = ty\<rparr>)"

fun read_actions :: "libs \<Rightarrow> printed_action list \<Rightarrow> string + ruleAction list" where
  "read_actions lb [] = Inr []"
| "read_actions lb (a # as) =
     (case read_action lb a of
        Inl err \<Rightarrow> Inl err
      | Inr x \<Rightarrow> (case read_actions lb as of Inl err \<Rightarrow> Inl err | Inr xs \<Rightarrow> Inr (x # xs)))"

lemma pa_loop_key:
  assumes "list_all valid_rune k" "list_all (\<lambda>c. c \<notin> {32, 44, 58}) k" "pa_iskey st" "rest \<noteq> []"
  shows "pa_loop lb (pre @ utf8 k @ rest) (length pre) (runes (utf8 k @ rest)) st res =
    pa_loop lb (pre @ utf8 k @ rest) (length pre + length (utf8 k)) (runes rest)
      (st\<lparr>pa_ckey := pa_ckey st @ utf8 k\<rparr>) res"
  using assms
proof (induction k arbitrary: pre st)
  case (Cons c k)
  have "pa_loop lb (pre @ utf8 (c # k) @ rest) (length pre) (runes (utf8 (c # k) @ rest)) st res =
    pa_loop lb (pre @ utf8 (c # k) @ rest) (length pre + length (EncodeRune c)) (runes (utf8 k @ rest))
      (st\<lparr>pa_ckey := pa_ckey st @ EncodeRune c\<rparr>) res"
    using Cons.prems not_at_end [of rest c "length (utf8 k)"] by (simp add: runes_EncodeRune Let_def)
  with Cons.IH [of "st\<lparr>pa_ckey := pa_ckey st @ EncodeRune c\<rparr>" "pre @ EncodeRune c"] Cons.prems
  show ?case by (simp add: add.assoc)
qed simp

lemma pa_loop_value:
  assumes "list_all valid_rune v" "quotes_escaped p v" "valid_rune p" "\<not> pa_iskey st" "pa_quoted st" "rest \<noteq> []"
    "pre = pre' @ EncodeRune p"
  shows "pa_loop lb (pre @ utf8 v @ rest) (length pre) (runes (utf8 v @ rest)) st res =
    pa_loop lb (pre @ utf8 v @ rest) (length pre + length (utf8 v)) (runes rest)
      (st\<lparr>pa_cval := pa_cval st @ utf8 v\<rparr>) res"
  using assms
proof (induction v arbitrary: pre pre' st p)
  case (Cons c v)
  have "(pre @ utf8 (c # v) @ rest) ! (length pre - 1) = last (EncodeRune p)"
    using Cons.prems by (cases "EncodeRune p" rule: rev_cases) (simp_all add: nth_append)
  then have "c = 39 \<Longrightarrow> (pre @ utf8 (c # v) @ rest) ! (length pre - 1) = CHR 0x5C"
    using Cons.prems last_EncodeRune by auto
  then have esc: "\<not> (c = 39 \<and> (pre @ EncodeRune c @ utf8 v @ rest) ! (length pre - 1) \<noteq> CHR 0x5C)" by auto
  have "pa_loop lb (pre @ utf8 (c # v) @ rest) (length pre) (runes (utf8 (c # v) @ rest)) st res =
    pa_loop lb (pre @ utf8 (c # v) @ rest) (length pre + length (EncodeRune c)) (runes (utf8 v @ rest))
      (st\<lparr>pa_cval := pa_cval st @ EncodeRune c\<rparr>) res"
    using Cons.prems(1,4-6) esc not_at_end [of rest c "length (utf8 v)"] by (auto simp: runes_EncodeRune Let_def)
  with Cons.IH [of c "st\<lparr>pa_cval := pa_cval st @ EncodeRune c\<rparr>" "pre @ EncodeRune c" pre] Cons.prems
  show ?case by (simp add: add.assoc)
qed simp

text \<open>The loop from the start of a printed action to the character behind it.\<close>

definition action_end :: "printed_action \<Rightarrow> pa_state" where
  "action_end a = \<lparr>pa_iskey = True, pa_ckey = utf8 (pr_key a), pa_cval = utf8 (pr_val a), pa_quoted = False\<rparr>"

lemma pa_loop_action:
  assumes "printable a"
  shows "pa_loop lb (pre @ print_action a @ rest) (length pre) (runes (print_action a @ rest)) pa_start res =
    (if rest = [] then (case read_action lb a of Inl err \<Rightarrow> Inl err | Inr x \<Rightarrow> Inr (res @ [x]))
     else pa_loop lb (pre @ print_action a @ rest) (length (pre @ print_action a)) (runes rest) (action_end a) res)"
proof -
  let ?k = "utf8 (pr_key a)" and ?v = "utf8 (pr_val a)"
  let ?all = "pre @ print_action a @ rest"
  let ?st = "\<lparr>pa_iskey = False, pa_ckey = ?k, pa_cval = [], pa_quoted = True\<rparr>"
  have "pa_loop lb ?all (length pre) (runes (print_action a @ rest)) pa_start res =
    pa_loop lb ?all (length (pre @ ?k)) (runes (CHR '':'' # CHR 0x27 # ?v @ CHR 0x27 # rest)) (pa_start\<lparr>pa_ckey := ?k\<rparr>) res"
    using pa_loop_key [of "pr_key a" pa_start "CHR '':'' # CHR 0x27 # ?v @ CHR 0x27 # rest" lb pre res] assms
    by (simp add: print_action_def printable_def pa_start_def)
  also have "\<dots> = pa_loop lb ?all (length (pre @ ?k @ '':'' @ [CHR 0x27])) (runes (?v @ CHR 0x27 # rest)) ?st res"
    by (simp add: runes_ascii pa_start_def Let_def print_action_def nth_append)
  also have "\<dots> = pa_loop lb ?all (length (pre @ ?k @ '':'' @ [CHR 0x27] @ ?v)) (runes (CHR 0x27 # rest)) (?st\<lparr>pa_cval := ?v\<rparr>) res"
    using pa_loop_value [of "pr_val a" 39 ?st "CHR 0x27 # rest" "pre @ ?k @ '':'' @ [CHR 0x27]" "pre @ ?k @ '':''" lb res] assms
      EncodeRune_byte [of "CHR 0x27"]
    by (simp add: print_action_def printable_def valid_rune_def add.assoc)
  also have "\<dots> =
    (if rest = [] then (case read_action lb a of Inl err \<Rightarrow> Inl err | Inr x \<Rightarrow> Inr (res @ [x]))
     else pa_loop lb ?all (length (pre @ print_action a)) (runes rest) (action_end a) res)"
  proof -
    have "last (CHR 0x27 # ?v) \<noteq> CHR 0x5C"
      using assms last_value [of 39 "pr_val a"] EncodeRune_byte [of "CHR 0x27"] by (simp add: printable_def valid_rune_def)
    moreover have "?all ! (length (pre @ ?k @ '':'' @ [CHR 0x27] @ ?v) - 1) = last (CHR 0x27 # ?v)"
      by (cases ?v rule: rev_cases) (simp_all add: print_action_def nth_append)
    ultimately have "?all ! (length (pre @ ?k @ '':'' @ [CHR 0x27] @ ?v) - 1) \<noteq> CHR 0x5C" by simp
    then show ?thesis
      by (simp add: runes_ascii Let_def print_action_def action_end_def read_action_def take_action_def split: sum.split)
  qed
  finally show ?thesis .
qed

lemma pa_loop_spaces:
  "pa_iskey st \<Longrightarrow> pa_loop lb actions i (runes (replicate n (CHR '' ''))) st res = Inr res"
  by (induction n arbitrary: i) (simp_all add: runes_ascii Let_def)

text \<open>The actions behind the first one, each after a comma.\<close>

definition more_actions :: "printed_action list \<Rightarrow> string" where
  "more_actions as = concat (map (\<lambda>a. '','' @ print_action a) as)"

lemma pa_loop_actions:
  assumes "list_all printable (a # as)"
  shows "pa_loop lb (pre @ print_action a @ more_actions as @ replicate n (CHR '' '')) (length pre)
      (runes (print_action a @ more_actions as @ replicate n (CHR '' ''))) pa_start res =
    (case read_actions lb (if n = 0 then a # as else butlast (a # as)) of Inl err \<Rightarrow> Inl err | Inr xs \<Rightarrow> Inr (res @ xs))"
  using assms
proof (induction as arbitrary: a pre res)
  case Nil
  then show ?case
    using pa_loop_action [of a lb pre "replicate n (CHR '' '')" res]
      pa_loop_spaces [of "action_end a" lb _ _ n res]
    by (cases "n = 0") (simp_all add: more_actions_def action_end_def split: sum.splits)
next
  case (Cons b as)
  let ?rest = "print_action b @ more_actions as @ replicate n (CHR '' '')"
  let ?all = "pre @ print_action a @ CHR '','' # ?rest"
  have "pa_loop lb ?all (length pre) (runes (print_action a @ CHR '','' # ?rest)) pa_start res =
    pa_loop lb ?all (length (pre @ print_action a)) (runes (CHR '','' # ?rest)) (action_end a) res"
    using pa_loop_action [of a lb pre "CHR '','' # ?rest" res] Cons.prems by simp
  also have "\<dots> = (case read_action lb a of
        Inl err \<Rightarrow> Inl err
      | Inr x \<Rightarrow> pa_loop lb ?all (length (pre @ print_action a @ '','')) (runes ?rest) pa_start (res @ [x]))"
    by (simp add: runes_ascii Let_def action_end_def read_action_def take_action_def print_action_def pa_start_def
        split: sum.splits)
  finally show ?case
    using Cons.IH [of b "pre @ print_action a @ '',''"] Cons.prems
    by (auto simp: more_actions_def split: sum.splits)
qed

text \<open>
  C23. \<open>parseActions\<close> reads back a list of actions printed as \<open>key:'value'\<close> and
  separated by commas, where quotes in a value follow a backslash: every action with its key, its
  value and the type of the action of that name. But spaces after the list lose its last action.
\<close>

theorem parseActions_print:
  assumes "list_all printable as"
  shows "parseActions lb (Join (map print_action as) '','' @ replicate n (CHR '' '')) =
    read_actions lb (if n = 0 then as else butlast as)"
proof (cases as)
  case Nil
  then show ?thesis using pa_loop_spaces [of pa_start lb _ 0 n "[]"] by (simp add: parseActions_def Join_def pa_start_def)
next
  case (Cons a bs)
  with assms pa_loop_actions [of a bs lb "[]" n "[]"] show ?thesis
    by (simp add: parseActions_def Join_def more_actions_def comp_def split: sum.splits)
qed

theorem parseActions_print_witness:
  "parseActions no_libs (''id:'' @ CHR 0x27 # ''7'' @ CHR 0x27 # '',msg:'' @ CHR 0x27 # ''a'' @ CHR 0x27 # '' '') =
     Inr [\<lparr>ra_Key = ''id'', ra_Value = ''7'', ra_Atype = ActionTypeMetadata\<rparr>]"
proof -
  let ?as = "[\<lparr>pr_key = [105, 100], pr_val = [55]\<rparr>, \<lparr>pr_key = [109, 115, 103], pr_val = [97]\<rparr>]"
  have utf8: "utf8 [105, 100] = ''id''" "utf8 [55] = ''7''" "utf8 [109, 115, 103] = ''msg''" "utf8 [97] = ''a''"
    by code_simp+
  have id: "actions_Get_Type no_libs ''id'' = Inr ActionTypeMetadata"
    by (simp add: actions_Get_Type_def actionmap_def ToLower_def is_ascii_def lower_ascii_def in_range_def)
  have "list_all printable ?as" by (simp add: printable_def valid_rune_def)
  from parseActions_print [OF this, of no_libs 1] show ?thesis
    by (simp add: Join_def print_action_def read_action_def utf8 id del: utf8_simps)
qed

section \<open>Variables\<close>

datatype selection = NoKey | Key string | Regex string | QuotedRegex string

record target =
  tg_neg :: bool
  tg_count :: bool
  tg_name :: string
  tg_sel :: selection

fun print_selection :: "selection \<Rightarrow> string" where
  "print_selection NoKey = []"
| "print_selection (Key k) = k"
| "print_selection (Regex re) = ''/'' @ re @ ''/''"
| "print_selection (QuotedRegex re) = CHR 0x27 # ''/'' @ re @ ''/'' @ [CHR 0x27]"

definition print_target :: "target \<Rightarrow> string" where
  "print_target t = (if tg_neg t then ''!'' else []) @ (if tg_count t then ''&'' else []) @ tg_name t @
     (if tg_sel t = NoKey then [] else CHR '':'' # print_selection (tg_sel t))"

text \<open>The parser tells an escaped slash by the number of backslashes since the start of the list.\<close>

definition balanced :: "string \<Rightarrow> bool" where
  "balanced re \<longleftrightarrow> CHR ''/'' \<notin> set re \<and> even (count_list re (CHR 0x5C))"

fun selection_ok :: "string \<Rightarrow> selection \<Rightarrow> bool" where
  "selection_ok name NoKey \<longleftrightarrow> True"
| "selection_ok name (Key k) \<longleftrightarrow> k \<noteq> [] \<and> set k \<inter> {CHR ''|'', CHR ''/'', CHR 0x27} = {}"
| "selection_ok name (Regex re) \<longleftrightarrow> balanced re \<and> name \<noteq> ''XML'' \<and> name \<noteq> ''JSON''"
| "selection_ok name (QuotedRegex re) \<longleftrightarrow> balanced re \<and> name \<noteq> ''XML'' \<and> name \<noteq> ''JSON''"

definition target_ok :: "target \<Rightarrow> bool" where
  "target_ok t \<longleftrightarrow> (\<exists>v. variables_Parse (tg_name t) = Inr v) \<and> tg_name t \<noteq> [] \<and>
     set (tg_name t) \<inter> {CHR ''|'', CHR '':'', CHR ''!'', CHR ''&''} = {} \<and> selection_ok (tg_name t) (tg_sel t)"

fun selection_key :: "selection \<Rightarrow> string" where
  "selection_key NoKey = []"
| "selection_key (Key k) = k"
| "selection_key (Regex re) = ''/'' @ re @ ''/''"
| "selection_key (QuotedRegex re) = ''/'' @ re @ ''/''"

definition target_var :: "target \<Rightarrow> RuleVariable" where
  "target_var t = (case variables_Parse (tg_name t) of Inr v \<Rightarrow> v | Inl _ \<Rightarrow> Unknown)"

text \<open>The targets are added one by one; adding to a rule that is not nil gives no error.\<close>

fun add_targets :: "libs \<Rightarrow> target list \<Rightarrow> Rule \<Rightarrow> (string option \<times> Rule) go" where
  "add_targets lb [] r = Some (None, r)"
| "add_targets lb (t # ts) r =
     add_then (add_variable lb (tg_neg t) (tg_count t) (target_var t) (selection_key (tg_sel t)) r) r (add_targets lb ts)"

text \<open>Steps of the loop over characters that end nothing.\<close>

lemma pv_step:
  assumes "c \<noteq> CHR ''|'' \<or> pv_curr st = 2" "rest \<noteq> []" "pv_curr st = 2 \<Longrightarrow> c = CHR ''/'' \<Longrightarrow> pv_isEscaped st"
  shows "pv_loop add (pre @ c # rest) (length pre) st r = pv_loop add (pre @ c # rest) (length (pre @ [c])) (pv_char c st) r"
proof -
  have "\<not> pv_ends (pre @ c # rest) (length pre) st" using assms by (auto simp: pv_ends_def)
  then show ?thesis by (simp add: pv_loop.simps [of add "pre @ c # rest" "length pre" st r])
qed

lemma pv_chars_name:
  assumes "set w \<inter> {CHR ''|'', CHR '':'', CHR ''!'', CHR ''&''} = {}" "pv_curr st = 0" "rest \<noteq> []"
  shows "pv_loop add (pre @ w @ rest) (length pre) st r =
    pv_loop add (pre @ w @ rest) (length (pre @ w)) (st\<lparr>pv_curVar := pv_curVar st @ w\<rparr>) r"
  using assms
proof (induction w arbitrary: pre st)
  case (Cons c w)
  have "pv_char c st = st\<lparr>pv_curVar := pv_curVar st @ [c]\<rparr>"
    using Cons.prems(1,2) by (auto simp: pv_char_def)
  with Cons.IH [of "pv_char c st" "pre @ [c]"] pv_step [of c st "w @ rest" add pre r] Cons.prems
  show ?case by auto
qed simp

lemma pv_chars_key:
  assumes "set w \<inter> {CHR ''|'', CHR ''/'', CHR 0x27} = {}" "pv_curr st = 1 \<or> pv_curr st = 3" "rest \<noteq> []"
  shows "\<exists>n. (n = 1 \<or> n = 3) \<and> pv_loop add (pre @ w @ rest) (length pre) st r =
    pv_loop add (pre @ w @ rest) (length (pre @ w)) (st\<lparr>pv_curKey := pv_curKey st @ w, pv_curr := n\<rparr>) r"
  using assms
proof (induction w arbitrary: pre st)
  case Nil
  then show ?case by (intro exI [of _ "pv_curr st"]) simp
next
  case (Cons c w)
  obtain m where m: "pv_char c st = st\<lparr>pv_curKey := pv_curKey st @ [c], pv_curr := m\<rparr>" "m = 1 \<or> m = 3"
  proof (cases "pv_curr st = 1 \<and> pv_curKey st = [] \<and> (pv_curVar st = ''XML'' \<or> pv_curVar st = ''JSON'')")
    case True
    then show ?thesis by (intro that [of 3]) (auto simp: pv_char_def)
  next
    case False
    have "c \<noteq> CHR ''/''" "c \<noteq> CHR 0x27" using Cons.prems(1) by auto
    moreover have "pv_curr st = 1 \<Longrightarrow> \<not> (pv_curKey st = [] \<and> (pv_curVar st = ''XML'' \<or> pv_curVar st = ''JSON''))"
      using False by blast
    ultimately have "pv_char c st = st\<lparr>pv_curKey := pv_curKey st @ [c]\<rparr>"
      using Cons.prems(2) unfolding pv_char_def by (elim disjE) (simp_all only: if_False simp_thms, simp_all)
    with Cons.prems(2) show ?thesis by (intro that [of "pv_curr st"]) simp_all
  qed
  obtain n where "n = 1 \<or> n = 3" "pv_loop add (pre @ (c # w) @ rest) (length (pre @ [c])) (pv_char c st) r =
    pv_loop add (pre @ (c # w) @ rest) (length (pre @ c # w)) (st\<lparr>pv_curKey := pv_curKey st @ c # w, pv_curr := n\<rparr>) r"
  proof -
    have "set w \<inter> {CHR ''|'', CHR ''/'', CHR 0x27} = {}" "pv_curr (pv_char c st) = 1 \<or> pv_curr (pv_char c st) = 3"
      using Cons.prems(1) m by auto
    from Cons.IH [OF this Cons.prems(3), of "pre @ [c]"] that show ?thesis by (auto simp: m(1))
  qed
  moreover have "pv_loop add (pre @ (c # w) @ rest) (length pre) st r =
    pv_loop add (pre @ (c # w) @ rest) (length (pre @ [c])) (pv_char c st) r"
    using pv_step [of c st "w @ rest" add pre r] Cons.prems by auto
  ultimately show ?case by metis
qed

definition escaped_after :: "bool \<Rightarrow> string \<Rightarrow> bool" where
  "escaped_after e w = foldl (\<lambda>e c. e \<noteq> (c = CHR 0x5C)) e w"

lemma escaped_after_odd: "escaped_after e w \<longleftrightarrow> e \<noteq> odd (count_list w (CHR 0x5C))"
  unfolding escaped_after_def by (induction w arbitrary: e) auto

lemma pv_chars_regex:
  assumes "CHR ''/'' \<notin> set w \<or> pv_isEscaped st \<and> CHR 0x5C \<notin> set w" "pv_curr st = 2" "rest \<noteq> []"
  shows "pv_loop add (pre @ w @ rest) (length pre) st r =
    pv_loop add (pre @ w @ rest) (length (pre @ w))
      (st\<lparr>pv_curKey := pv_curKey st @ w, pv_isEscaped := escaped_after (pv_isEscaped st) w\<rparr>) r"
  using assms
proof (induction w arbitrary: pre st)
  case (Cons c w)
  have "pv_char c st = st\<lparr>pv_curKey := pv_curKey st @ [c], pv_isEscaped := (pv_isEscaped st \<noteq> (c = CHR 0x5C))\<rparr>"
    using Cons.prems by (auto simp: pv_char_def)
  with Cons.IH [of "pv_char c st" "pre @ [c]"] pv_step [of c st "w @ rest" add pre r] Cons.prems
  show ?case by (auto simp: escaped_after_def)
qed (simp add: escaped_after_def)

text \<open>The end of a target: at the last character, or at the bar behind it.\<close>

definition target_end :: "string \<Rightarrow> bool" where
  "target_end rest \<longleftrightarrow> rest = [] \<or> hd rest = CHR ''|''"

lemma pv_loop_end: "length vars \<le> i \<Longrightarrow> pv_loop add vars i st = (\<lambda>r. Some (None, r))"
  by (intro ext) (simp add: pv_loop.simps [of add vars i st])

lemma pv_loop_add:
  assumes "pv_ends vars i st" "i < length vars" "st' = pv_last (vars ! i) st" "variables_Parse (pv_curVar st') = Inr v"
    "pv_isquoted st' \<Longrightarrow> vars ! (i + 1) = CHR 0x27 \<and> i + 1 < length vars"
    "key = (if pv_curr st' = 2 then ''/'' @ pv_curKey st' @ ''/'' else pv_curKey st')"
    "j = (if pv_isquoted st' then i + 3 else if pv_curr st' = 2 then i + 2 else i + 1)"
  shows "pv_loop add vars i st r =
    add_then (add (pv_isNegation st') (pv_isCount st') v key r) r
         (pv_loop add vars j (pv_start\<lparr>pv_isEscaped := pv_isEscaped st'\<rparr>))"
proof -
  have closed: "\<not> (pv_isquoted st' \<and> (length vars \<le> i + 1 \<or> vars ! (i + 1) \<noteq> CHR 0x27) \<and> vars ! i \<noteq> CHR 0x27)"
    using assms(5) by auto
  have j: "(if pv_isquoted st' then i + 2 else if pv_curr st' = 2 then i + 1 else i) + 1 = j"
    by (simp add: assms(7))
  have i: "\<not> length vars \<le> i" using assms(2) by simp
  show ?thesis
    unfolding pv_loop.simps [of add vars i st r] Let_def if_not_P [OF i] if_P [OF assms(1)] assms(3) [symmetric]
      assms(4) sum.case if_not_P [OF closed] assms(6) [symmetric] j ..
qed

lemma pv_name_end:
  assumes "set w \<inter> {CHR ''|'', CHR '':'', CHR ''!'', CHR ''&''} = {}" "w \<noteq> []" "variables_Parse w = Inr v"
    "pv_curr st = 0" "pv_curVar st = []" "\<not> pv_isquoted st" "target_end rest"
  shows "pv_loop add (pre @ w @ rest) (length pre) st r =
    add_then (add (pv_isNegation st) (pv_isCount st) v (pv_curKey st) r) r
         (pv_loop add (pre @ w @ rest) (length (pre @ w) + 1) (pv_start\<lparr>pv_isEscaped := pv_isEscaped st\<rparr>))"
proof (cases rest)
  case (Cons c cs)
  then have "pv_loop add (pre @ w @ rest) (length pre) st r =
    pv_loop add (pre @ w @ rest) (length (pre @ w)) (st\<lparr>pv_curVar := w\<rparr>) r"
    using pv_chars_name [OF assms(1,4), of rest add pre r] assms(5) by simp
  also have "\<dots> = add_then (add (pv_isNegation st) (pv_isCount st) v (pv_curKey st) r) r
         (pv_loop add (pre @ w @ rest) (length (pre @ w) + 1) (pv_start\<lparr>pv_isEscaped := pv_isEscaped st\<rparr>))"
    using assms Cons by (subst pv_loop_add [where st' = "st\<lparr>pv_curVar := w\<rparr>", OF _ _ _ _ _ refl refl]) (simp_all add: pv_ends_def pv_last_def target_end_def nth_append)
  finally show ?thesis .
next
  case Nil
  obtain w' c where w: "w = w' @ [c]" using assms(2) by (cases w rule: rev_cases) auto
  have "pv_loop add (pre @ w @ rest) (length pre) st r =
    pv_loop add (pre @ w @ rest) (length (pre @ w')) (st\<lparr>pv_curVar := w'\<rparr>) r"
    using pv_chars_name [of w' st "[c]" add pre r] assms Nil w by auto
  also have "\<dots> = add_then (add (pv_isNegation st) (pv_isCount st) v (pv_curKey st) r) r
         (pv_loop add (pre @ w @ rest) (length (pre @ w) + 1) (pv_start\<lparr>pv_isEscaped := pv_isEscaped st\<rparr>))"
    using assms Nil w by (subst pv_loop_add [where st' = "st\<lparr>pv_curVar := w\<rparr>", OF _ _ _ _ _ refl refl]) (auto simp: pv_ends_def pv_last_def nth_append pv_loop_end)
  finally show ?thesis .
qed

lemma pv_key_end:
  assumes "set w \<inter> {CHR ''|'', CHR ''/'', CHR 0x27} = {}" "w \<noteq> []" "variables_Parse (pv_curVar st) = Inr v"
    "pv_curr st = 1" "pv_curKey st = []" "\<not> pv_isquoted st" "target_end rest"
  shows "pv_loop add (pre @ w @ rest) (length pre) st r =
    add_then (add (pv_isNegation st) (pv_isCount st) v w r) r
         (pv_loop add (pre @ w @ rest) (length (pre @ w) + 1) (pv_start\<lparr>pv_isEscaped := pv_isEscaped st\<rparr>))"
proof (cases rest)
  case (Cons c cs)
  obtain n where n: "n = 1 \<or> n = 3" "pv_loop add (pre @ w @ rest) (length pre) st r =
    pv_loop add (pre @ w @ rest) (length (pre @ w)) (st\<lparr>pv_curKey := w, pv_curr := n\<rparr>) r"
    using pv_chars_key [OF assms(1), of st rest add pre r] assms(4,5) Cons by auto
  show ?thesis
    unfolding n(2) using assms n(1) Cons
    by (subst pv_loop_add [where st' = "st\<lparr>pv_curKey := w, pv_curr := n\<rparr>", OF _ _ _ _ _ refl refl])
      (auto simp: pv_ends_def pv_last_def target_end_def nth_append)
next
  case Nil
  obtain w' c where w: "w = w' @ [c]" using assms(2) by (cases w rule: rev_cases) auto
  have w': "set w' \<inter> {CHR ''|'', CHR ''/'', CHR 0x27} = {}" and c: "c \<notin> {CHR ''|'', CHR ''/'', CHR 0x27}"
    using assms(1) w by auto
  obtain n where n: "n = 1 \<or> n = 3" "pv_loop add (pre @ w @ rest) (length pre) st r =
    pv_loop add (pre @ w @ rest) (length (pre @ w')) (st\<lparr>pv_curKey := w', pv_curr := n\<rparr>) r"
    using pv_chars_key [OF w', of st "[c]" add pre r] assms(4,5) Nil w by auto
  show ?thesis
    unfolding n(2) using assms n(1) Nil w c
    by (subst pv_loop_add [where st' = "st\<lparr>pv_curKey := w, pv_curr := n\<rparr>", OF _ _ _ _ _ refl refl])
      (auto simp: pv_ends_def pv_last_def nth_append pv_loop_end)
qed

text \<open>A regular expression up to its closing slash, which the parser does not take for an escaped one.\<close>

lemma pv_regex_end:
  assumes "balanced re" "variables_Parse (pv_curVar st) = Inr v" "pv_curr st = 2" "pv_curKey st = []" "\<not> pv_isEscaped st"
    "if pv_isquoted st then q = [CHR 0x27] else q = []"
  shows "pv_loop add (pre @ re @ CHR ''/'' # q @ rest) (length pre) st r =
    add_then (add (pv_isNegation st) (pv_isCount st) v (''/'' @ re @ ''/'') r) r
         (pv_loop add (pre @ re @ CHR ''/'' # q @ rest) (length (pre @ re @ ''/'' @ q) + 1) pv_start)"
proof -
  let ?st = "st\<lparr>pv_curKey := re, pv_isEscaped := False\<rparr>"
  have "pv_loop add (pre @ re @ CHR ''/'' # q @ rest) (length pre) st r =
    pv_loop add (pre @ re @ CHR ''/'' # q @ rest) (length (pre @ re)) ?st r"
    using pv_chars_regex [of re st "CHR ''/'' # q @ rest" add pre r] assms(1,3-5)
    by (simp add: balanced_def escaped_after_odd)
  also have "\<dots> = add_then (add (pv_isNegation st) (pv_isCount st) v (''/'' @ re @ ''/'') r) r
         (pv_loop add (pre @ re @ CHR ''/'' # q @ rest) (length (pre @ re @ ''/'' @ q) + 1) pv_start)"
    using assms
    by (subst pv_loop_add [where st' = ?st, OF _ _ _ _ _ refl refl])
      (auto simp: pv_ends_def pv_last_def nth_append pv_start_def numeral_3_eq_3 split: if_splits)
  finally show ?thesis .
qed

text \<open>The marks of negation and count in front of the name.\<close>

lemma pv_marks:
  assumes "rest \<noteq> []"
  shows "pv_loop add (pre @ (if neg then ''!'' else []) @ (if cnt then ''&'' else []) @ rest) (length pre) pv_start r =
    pv_loop add (pre @ (if neg then ''!'' else []) @ (if cnt then ''&'' else []) @ rest)
      (length (pre @ (if neg then ''!'' else []) @ (if cnt then ''&'' else [])))
      (pv_start\<lparr>pv_isNegation := neg, pv_isCount := cnt\<rparr>) r"
proof -
  have mark: "pv_loop add (pre @ c # rest') (length pre) st r = pv_loop add (pre @ c # rest') (length (pre @ [c])) (pv_char c st) r"
    if "c = CHR ''!'' \<or> c = CHR ''&''" "rest' \<noteq> []" "pv_curr st = 0" for c rest' st pre
    using that pv_step [of c st rest' add pre r] by auto
  from assms mark [of "CHR ''!''" "''&'' @ rest" pv_start pre] mark [of "CHR ''!''" rest pv_start pre]
    mark [of "CHR ''&''" rest pv_start pre] mark [of "CHR ''&''" rest "pv_char (CHR ''!'') pv_start" "pre @ ''!''"]
  show ?thesis by (cases neg; cases cnt) (simp_all add: pv_char_def pv_start_def)
qed

lemma pv_named:
  assumes "set w \<inter> {CHR ''|'', CHR '':'', CHR ''!'', CHR ''&''} = {}" "pv_curr st = 0" "pv_curVar st = []" "rest \<noteq> []"
  shows "pv_loop add (pre @ w @ CHR '':'' # rest) (length pre) st r =
    pv_loop add (pre @ w @ CHR '':'' # rest) (length (pre @ w @ '':'')) (st\<lparr>pv_curVar := w, pv_curr := 1\<rparr>) r"
  using pv_chars_name [of w st "CHR '':'' # rest" add pre r] assms
    pv_step [of "CHR '':''" "st\<lparr>pv_curVar := w\<rparr>" rest add "pre @ w" r]
  by (simp add: pv_char_def)

lemma pv_open:
  assumes "pv_curr st = 1" "pv_curVar st \<noteq> ''XML''" "pv_curVar st \<noteq> ''JSON''" "rest \<noteq> []"
  shows "pv_loop add (pre @ CHR ''/'' # rest) (length pre) st r =
      pv_loop add (pre @ CHR ''/'' # rest) (length (pre @ ''/'')) (st\<lparr>pv_curr := 2\<rparr>) r"
    and "pv_loop add (pre @ CHR 0x27 # rest) (length pre) st r =
      pv_loop add (pre @ CHR 0x27 # rest) (length (pre @ [CHR 0x27])) (st\<lparr>pv_isquoted := True\<rparr>) r"
  using assms pv_step [of "CHR ''/''" st rest add pre r] pv_step [of "CHR 0x27" st rest add pre r]
  by (simp_all add: pv_char_def)

text \<open>The loop over the selection of a target, from the character behind the colon.\<close>

lemma pv_selection:
  assumes "selection_ok (pv_curVar st) sel" "sel \<noteq> NoKey" "variables_Parse (pv_curVar st) = Inr v" "target_end rest"
    "pv_curr st = 1" "pv_curKey st = []" "\<not> pv_isquoted st" "\<not> pv_isEscaped st"
  shows "pv_loop add (pre @ print_selection sel @ rest) (length pre) st r =
    add_then (add (pv_isNegation st) (pv_isCount st) v (selection_key sel) r) r
         (pv_loop add (pre @ print_selection sel @ rest) (length (pre @ print_selection sel) + 1) pv_start)"
proof (cases sel)
  case (Key k)
  with assms pv_key_end [of k st v rest add pre r] show ?thesis by (simp add: pv_start_def)
next
  case (Regex re)
  let ?st = "st\<lparr>pv_curr := 2\<rparr>"
  have "pv_loop add (pre @ print_selection sel @ rest) (length pre) st r =
    pv_loop add ((pre @ ''/'') @ re @ CHR ''/'' # rest) (length (pre @ ''/'')) ?st r"
    using pv_open(1) [of st "re @ CHR ''/'' # rest" add pre r] assms Regex by simp
  with pv_regex_end [of re ?st v "[]" add "pre @ ''/''" rest r] assms Regex show ?thesis by simp
next
  case (QuotedRegex re)
  let ?st = "st\<lparr>pv_isquoted := True, pv_curr := 2\<rparr>"
  have "pv_loop add (pre @ print_selection sel @ rest) (length pre) st r =
    pv_loop add ((pre @ CHR 0x27 # ''/'') @ re @ CHR ''/'' # CHR 0x27 # rest) (length (pre @ CHR 0x27 # ''/'')) ?st r"
    using pv_open(2) [of st "CHR ''/'' # re @ CHR ''/'' # CHR 0x27 # rest" add pre r] assms QuotedRegex
      pv_open(1) [of "st\<lparr>pv_isquoted := True\<rparr>" "re @ CHR ''/'' # CHR 0x27 # rest" add "pre @ [CHR 0x27]" r] by simp
  with pv_regex_end [of re ?st v "[CHR 0x27]" add "pre @ CHR 0x27 # ''/''" rest r] assms QuotedRegex show ?thesis by simp
qed (use assms(2) in simp)

lemma pv_target:
  assumes "target_ok t" "target_end rest"
  shows "pv_loop add (pre @ print_target t @ rest) (length pre) pv_start r =
    add_then (add (tg_neg t) (tg_count t) (target_var t) (selection_key (tg_sel t)) r) r
         (pv_loop add (pre @ print_target t @ rest) (length (pre @ print_target t) + 1) pv_start)"
proof -
  define marks where "marks = (if tg_neg t then ''!'' else []) @ (if tg_count t then ''&'' else [])"
  define sel where "sel = (if tg_sel t = NoKey then [] else CHR '':'' # print_selection (tg_sel t))"
  have pr: "print_target t = marks @ tg_name t @ sel" by (simp add: sel_def print_target_def marks_def)
  let ?st = "pv_start\<lparr>pv_isNegation := tg_neg t, pv_isCount := tg_count t\<rparr>"
  have v: "variables_Parse (tg_name t) = Inr (target_var t)" and name: "tg_name t \<noteq> []"
    "set (tg_name t) \<inter> {CHR ''|'', CHR '':'', CHR ''!'', CHR ''&''} = {}" and sel: "selection_ok (tg_name t) (tg_sel t)"
    using assms(1) by (auto simp: target_ok_def target_var_def)
  have st: "pv_curr ?st = 0" "pv_curVar ?st = []" "\<not> pv_isquoted ?st" by (simp_all add: pv_start_def)
  have marks: "pv_loop add (pre @ print_target t @ rest) (length pre) pv_start r =
    pv_loop add ((pre @ marks) @ tg_name t @ sel @ rest) (length (pre @ marks)) ?st r"
    using pv_marks [of "tg_name t @ sel @ rest" add pre "tg_neg t" "tg_count t" r] name(1) unfolding pr by (simp add: marks_def)
  show ?thesis
  proof (cases "tg_sel t = NoKey")
    case True
    then show ?thesis
      unfolding marks using pv_name_end [OF name(2,1) v st assms(2), of add "pre @ marks" r]
      by (simp add: pr sel_def pv_start_def)
  next
    case False
    let ?st1 = "?st\<lparr>pv_curVar := tg_name t, pv_curr := 1\<rparr>"
    have "print_selection (tg_sel t) @ rest \<noteq> []" using False sel by (cases "tg_sel t") simp_all
    from pv_named [OF name(2) st(1,2) this, of add "pre @ marks" r] False
    have "pv_loop add (pre @ print_target t @ rest) (length pre) pv_start r =
      pv_loop add ((pre @ marks @ tg_name t @ '':'') @ print_selection (tg_sel t) @ rest)
        (length (pre @ marks @ tg_name t @ '':'')) ?st1 r"
      unfolding marks by (simp add: sel_def)
    with False sel v assms(2) show ?thesis
      using pv_selection [of ?st1 "tg_sel t" "target_var t" rest add "pre @ marks @ tg_name t @ '':''" r]
      by (simp add: pr sel_def pv_start_def)
  qed
qed

definition more_targets :: "target list \<Rightarrow> string" where
  "more_targets ts = concat (map (\<lambda>t. ''|'' @ print_target t) ts)"

lemma pv_targets:
  assumes "list_all target_ok (t # ts)"
  shows "pv_loop (add_variable lb) (pre @ print_target t @ more_targets ts) (length pre) pv_start r =
    add_targets lb (t # ts) r"
  using assms
proof (induction ts arbitrary: t pre r)
  case Nil
  with pv_target [of t "[]" "add_variable lb" pre r] show ?case
    by (simp add: more_targets_def target_end_def pv_loop_end add_then_def split: option.split sum.split)
next
  case (Cons u ts)
  with pv_target [of t "more_targets (u # ts)" "add_variable lb" pre r] Cons.IH [of u "pre @ print_target t @ ''|''"]
  show ?case by (simp add: more_targets_def target_end_def add_then_def split: option.split sum.split)
qed

text \<open>
  C24. \<open>ParseVariables\<close> reads back a list of targets separated by bars: the rule gets exactly
  the variables, counts and exceptions that the targets name, in their order. A target is a known
  variable, with no key, with a plain key (without bar, slash and quote) or, but for XML and JSON, with
  a regular expression between slashes, with or without quotes around it, that has no slash and an
  even number of backslashes.
\<close>

theorem ParseVariables_print:
  assumes "list_all target_ok ts"
  shows "ParseVariables lb (Join (map print_target ts) ''|'') r = add_targets lb ts r"
proof (cases ts)
  case Nil
  then show ?thesis by (simp add: ParseVariables_def Join_def pv_loop_end)
next
  case (Cons t us)
  with assms pv_targets [of t us lb "[]" r] show ?thesis
    by (simp add: ParseVariables_def Join_def more_targets_def comp_def)
qed

lemma Parse_args: "variables_Parse ''ARGS'' = Inr Args"
  by (rule variables_Parse_name)
    (simp_all add: ToUpper_def is_ascii_def upper_ascii_def in_range_def variable_Name_def rulemap_def)

theorem ParseVariables_print_witness:
  "ParseVariables no_libs ''&ARGS:a|ARGS'' (NewRule 2) =
     do { r \<leftarrow> AddVariable no_libs Args ''a'' True (NewRule 2); r \<leftarrow> AddVariable no_libs Args [] False r; Some (None, r) }"
proof -
  obtain r where r: "AddVariable no_libs Args ''a'' True (NewRule 2) = Some r" by (simp add: AddVariable_def selector_def)
  let ?ts = "[\<lparr>tg_neg = False, tg_count = True, tg_name = ''ARGS'', tg_sel = Key ''a''\<rparr>,
    \<lparr>tg_neg = False, tg_count = False, tg_name = ''ARGS'', tg_sel = NoKey\<rparr>]"
  have "list_all target_ok ?ts" by (simp add: target_ok_def Parse_args)
  from ParseVariables_print [OF this, of no_libs "NewRule 2"] r show ?thesis
    by (simp add: Join_def print_target_def add_variable_def target_var_def Parse_args add_then_def split: option.splits)
qed

text \<open>
  A regular expression with an odd number of backslashes swallows the targets behind it: the
  backslash before another character also escapes the closing slash, so that everything up to the
  end of the list but its last character becomes part of the expression.
\<close>

theorem ParseVariables_odd_backslashes:
  assumes "variables_Parse name = Inr v" "set name \<inter> {CHR ''|'', CHR '':'', CHR ''!'', CHR ''&''} = {}"
    "name \<noteq> ''XML''" "name \<noteq> ''JSON''" "CHR ''/'' \<notin> set re" "odd (count_list re (CHR 0x5C))"
    "CHR 0x5C \<notin> set rest" "rest \<noteq> []"
  shows "ParseVariables lb (name @ '':/'' @ re @ ''/|'' @ rest) r =
    do { r \<leftarrow> AddVariable lb v (''/'' @ re @ ''/|'' @ butlast rest @ ''/'') False r; Some (None, r) }"
proof -
  obtain w c where rest: "rest = w @ [c]" using assms(8) by (cases rest rule: rev_cases) auto
  let ?vars = "name @ '':/'' @ re @ ''/|'' @ rest"
  let ?st = "pv_start\<lparr>pv_curVar := name, pv_curr := 2\<rparr>"
  let ?st1 = "?st\<lparr>pv_curKey := re, pv_isEscaped := True\<rparr>"
  have "ParseVariables lb ?vars r = pv_loop (add_variable lb) ?vars (length (name @ '':/'')) ?st r"
    using pv_named [OF assms(2), of pv_start "''/'' @ re @ ''/|'' @ rest" "add_variable lb" "[]" r] assms(3,4)
      pv_open(1) [of "pv_start\<lparr>pv_curVar := name, pv_curr := 1\<rparr>" "re @ ''/|'' @ rest" "add_variable lb" "name @ '':''" r]
    by (simp add: ParseVariables_def pv_start_def)
  also have "\<dots> = pv_loop (add_variable lb) ?vars (length (name @ '':/'' @ re)) ?st1 r"
    using pv_chars_regex [of re ?st "''/|'' @ rest" "add_variable lb" "name @ '':/''" r] assms(5,6)
    by (simp add: escaped_after_odd pv_start_def)
  also have "\<dots> = pv_loop (add_variable lb) ?vars (length (name @ '':/'' @ re @ ''/|'' @ w)) (?st1\<lparr>pv_curKey := re @ ''/|'' @ w\<rparr>) r"
    using pv_chars_regex [of "''/|'' @ w" ?st1 "[c]" "add_variable lb" "name @ '':/'' @ re" r] assms(7) rest
    by (simp add: escaped_after_odd pv_start_def count_list_0_iff)
  also have "\<dots> = do { r \<leftarrow> AddVariable lb v (''/'' @ re @ ''/|'' @ butlast rest @ ''/'') False r; Some (None, r) }"
    using assms(1) rest
    by (subst pv_loop_add [where st' = "?st1\<lparr>pv_curKey := re @ ''/|'' @ w\<rparr>", OF _ _ _ _ _ refl refl])
      (auto simp: pv_ends_def pv_last_def pv_start_def nth_append pv_loop_end add_variable_def add_then_def split: option.split)
  finally show ?thesis .
qed

theorem ParseVariables_odd_backslashes_witness:
  "ParseVariables no_libs (''ARGS:/'' @ CHR 0x5C # ''d/|TX:a'') (NewRule 2) =
     do { r \<leftarrow> AddVariable no_libs Args (''/'' @ CHR 0x5C # ''d/|TX:/'') False (NewRule 2); Some (None, r) }"
  using ParseVariables_odd_backslashes [OF Parse_args, of "CHR 0x5C # ''d''" "''TX:a''" no_libs "NewRule 2"] by simp

end
