(* ===== verification/Waf.thy ===== *)
theory Waf
  imports Rule_Group
begin

text \<open>
  The WAF (src/internal/corazawaf/waf.go): the default configuration, the creation of
  transactions from the pool, and \<open>Transaction.Close\<close>, which hands a transaction back.

  \<open>txPool.Get\<close> returns a closed transaction or a new one, at its will: \<open>pooled\<close> is
  what it returns, \<^const>\<open>None\<close> for a new zero transaction, whose buffers are nil. The list of
  rules whose \<open>Audit\<close> field is cleared belongs to the WAF and is passed to a new transaction.
  The random source (package \<^verbatim>\<open>math/rand\<close>) is the list of the numbers it draws.
\<close>

section \<open>Random identifiers (src/internal/strings/strings.go)\<close>

definition letterBytes :: string where
  "letterBytes = ''abcdefghijklmnopqrstuvwxyzABCDEFGHIJKLMNOPQRSTUVWXYZ''"

text \<open>
  The loop of \<open>RandomString\<close>: \<open>i\<close> letters to go, the bits left of the last draw, and how
  many indices they hold. \<^const>\<open>None\<close> when the draws are used up.
\<close>

function random_loop :: "nat \<Rightarrow> nat \<Rightarrow> nat \<Rightarrow> nat list \<Rightarrow> (string \<times> nat list) option" where
  "random_loop i cache remain draws =
     (if i = 0 then Some ([], draws)
      else if remain = 0 then
        (case draws of [] \<Rightarrow> None | d # ds \<Rightarrow> random_loop i d 10 ds)
      else
        let idx = cache mod 64 in
        if idx < length letterBytes then
          (case random_loop (i - 1) (cache div 64) (remain - 1) draws of
             None \<Rightarrow> None
           | Some (s, ds) \<Rightarrow> Some (letterBytes ! idx # s, ds))
        else random_loop i (cache div 64) (remain - 1) draws)"
  by pat_completeness auto
termination
  by (relation "measures [\<lambda>(_, _, _, ds). length ds, \<lambda>(_, _, r, _). r]") auto

declare random_loop.simps [simp del]

definition RandomString :: "nat \<Rightarrow> nat list \<Rightarrow> (string \<times> nat list) option" where
  "RandomString n draws = (case draws of [] \<Rightarrow> None | d # ds \<Rightarrow> random_loop n d 10 ds)"

lemma random_loop_letters:
  "random_loop i c r ds = Some (s, ds') \<Longrightarrow> length s = i \<and> set s \<subseteq> set letterBytes"
proof (induction i c r ds arbitrary: s ds' rule: random_loop.induct)
  case (1 i c r ds)
  note step = random_loop.simps [of i c r ds]
  consider "i = 0" | "i \<noteq> 0" "r = 0" | "i \<noteq> 0" "r \<noteq> 0" "c mod 64 < length letterBytes"
    | "i \<noteq> 0" "r \<noteq> 0" "\<not> c mod 64 < length letterBytes" by blast
  then show ?case
  proof cases
    case 1
    with "1.prems" step show ?thesis by simp
  next
    case 2
    with "1.prems" step obtain d ds1 where d: "ds = d # ds1" "random_loop i d 10 ds1 = Some (s, ds')"
      by (auto split: list.splits)
    from "1.IH"(1) [OF 2 d] show ?thesis .
  next
    case 3
    with "1.prems" step obtain s1 where s1: "random_loop (i - 1) (c div 64) (r - 1) ds = Some (s1, ds')"
      "s = letterBytes ! (c mod 64) # s1" by (auto simp: Let_def split: option.splits)
    with "1.IH"(2) [OF 3(1,2) refl 3(3) s1(1)] 3 show ?thesis by auto
  next
    case 4
    with "1.prems" step have "random_loop i (c div 64) (r - 1) ds = Some (s, ds')" by simp
    with "1.IH"(3) [OF 4(1,2) refl 4(3)] show ?thesis by blast
  qed
qed

lemma RandomString_letters:
  "RandomString n ds = Some (s, ds') \<Longrightarrow> length s = n \<and> set s \<subseteq> set letterBytes"
  by (auto simp: RandomString_def split: list.splits dest: random_loop_letters)

section \<open>The default configuration\<close>

text \<open>The parameter \<open>any\<close> is the compiled expression \<^verbatim>\<open>.*\<close>. The audit log
  writer is the serial one, which is there from the start.\<close>

definition NewWAF :: "Regexp \<Rightarrow> WAF" where
  "NewWAF any = \<lparr>w_Rules = NewRuleGroup, w_AuditEngine = AuditEngineOff, w_AuditLogParts = ''ABCFHZ'',
     w_ContentInjection = False, w_RequestBodyAccess = False, w_RequestBodyLimit = 134217728,
     w_RequestBodyInMemoryLimit = 131072, w_ResponseBodyAccess = False, w_ResponseBodyLimit = 524288,
     w_RuleEngine = RuleEngineOn, w_ResponseBodyMimeTypes = [''text/html'', ''text/plain''],
     w_AuditLogRelevantStatus = Some any, w_TmpDir = ''/tmp'', w_UploadDir = [],
     w_RequestBodyLimitAction = RequestBodyLimitActionProcessPartial, w_ErrorLogCb = False,
     w_AuditLogWriter = True\<rparr>"

definition SetErrorCallback :: "bool \<Rightarrow> WAF \<Rightarrow> WAF" where
  "SetErrorCallback cb w = w\<lparr>w_ErrorLogCb := cb\<rparr>"

section \<open>Transactions\<close>

definition body_options :: "WAF \<Rightarrow> BodyBufferOptions" where
  "body_options w = \<lparr>TmpPath = w_TmpDir w, MemoryLimit = w_RequestBodyInMemoryLimit w\<rparr>"

text \<open>The variables that start with the value 0.\<close>

definition zero_variables :: "RuleVariable list" where
  "zero_variables = [FilesCombinedSize, UrlencodedError, FullRequestLength, MultipartBoundaryQuoted,
     MultipartBoundaryWhitespace, MultipartCrlfLfLines, MultipartDataAfter, MultipartDataBefore,
     MultipartFileLimitExceeded, MultipartHeaderFolding, MultipartInvalidHeaderFolding,
     MultipartInvalidPart, MultipartInvalidQuoting, MultipartLfLine, MultipartMissingSemicolon,
     MultipartStrictError, MultipartUnmatchedBoundary, OutboundDataError, ReqbodyError,
     ReqbodyProcessorError, RequestBodyLength, Duration, HighestSeverity]"

definition set_defaults :: "Transaction \<Rightarrow> Transaction" where
  "set_defaults tx =
     (let tx = fold (\<lambda>i. upd_col TX (\<lambda>m. Map_Set m (Itoa i) [[]])) [0..10] tx;
          tx = fold (\<lambda>v. set_var v ''0'') zero_variables tx
      in set_var UniqueID (tx_id tx) tx)"

definition newTransactionWithID :: "WAF \<Rightarrow> nat list \<Rightarrow> string \<Rightarrow> Transaction option \<Rightarrow> Transaction" where
  "newTransactionWithID w cleared i pooled =
     (let (req, resp, vars, cache) =
        (case pooled of
           Some tx \<Rightarrow> (requestBodyBuffer tx, ResponseBodyBuffer tx, variables tx, transformationCache tx)
         | None \<Rightarrow> (NewBodyBuffer (body_options w), NewBodyBuffer (body_options w),
             NewTransactionVariables, (\<lambda>_. None)))
      in set_defaults
        \<lparr>tx_id = i, matchedRules = [], interruption = None, Logdata = [], SkipAfter = [],
         AuditEngine = w_AuditEngine w, AuditLogParts = w_AuditLogParts w,
         ForceRequestBodyVariable = False, RequestBodyAccess = w_RequestBodyAccess w,
         RequestBodyLimit = w_RequestBodyLimit w, ResponseBodyAccess = w_ResponseBodyAccess w,
         ResponseBodyLimit = w_ResponseBodyLimit w, RuleEngine = w_RuleEngine w,
         HashEngine = False, HashEnforcement = False, LastPhase = 0, requestBodyBuffer = req,
         ResponseBodyBuffer = resp, ruleRemoveByID = [], ruleRemoveTargetByID = (\<lambda>_. []),
         Skip = 0, Capture = False, audit = False, variables = vars, transformationCache = cache,
         AuditCleared = cleared, ErrorLog = [], AuditWrites = 0\<rparr>)"

definition NewTransaction :: "WAF \<Rightarrow> nat list \<Rightarrow> nat list \<Rightarrow> Transaction option \<Rightarrow> Transaction option" where
  "NewTransaction w cleared draws pooled =
     map_option (\<lambda>(s, _). newTransactionWithID w cleared s pooled) (RandomString 19 draws)"

definition NewTransactionWithID :: "WAF \<Rightarrow> nat list \<Rightarrow> nat list \<Rightarrow> string \<Rightarrow> Transaction option \<Rightarrow> Transaction option" where
  "NewTransactionWithID w cleared draws i pooled =
     (if TrimSpace i = [] then NewTransaction w cleared draws pooled
      else Some (newTransactionWithID w cleared i pooled))"

text \<open>\<open>Transaction.Close\<close>: the error, and the transaction that goes back to the pool.\<close>

definition close_error :: "string option \<Rightarrow> string option \<Rightarrow> string option" where
  "close_error e1 e2 =
     (case (e1, e2) of
        (None, None) \<Rightarrow> None
      | (Some a, None) \<Rightarrow> Some (''transaction close failed: '' @ a)
      | (None, Some b) \<Rightarrow> Some (''transaction close failed: '' @ b)
      | (Some a, Some b) \<Rightarrow>
          Some (''transaction close failed:'' @ [CHR 0x0A] @ ''- '' @ a @ [CHR 0x0A] @ ''- '' @ b))"

definition Close :: "bool \<Rightarrow> OS \<Rightarrow> Transaction \<Rightarrow> string option \<times> Transaction" where
  "Close isTinyGo os tx =
     (let tx = tx\<lparr>variables := tv_reset (variables tx)\<rparr>;
          (e1, req) = Reset isTinyGo os (requestBodyBuffer tx);
          (e2, resp) = Reset isTinyGo os (ResponseBodyBuffer tx)
      in (close_error e1 e2, tx\<lparr>requestBodyBuffer := req, ResponseBodyBuffer := resp\<rparr>))"

section \<open>The options of the response buffer\<close>

text \<open>
  The action \<open>prepend\<close> replaces the response buffer; rules keep the options that the WAF
  gave to it.
\<close>

definition keeps_options :: "WAF \<Rightarrow> Transaction \<Rightarrow> Transaction \<Rightarrow> bool" where
  "keeps_options w t t' \<longleftrightarrow> (bb_options (ResponseBodyBuffer t) = body_options w \<longrightarrow>
     bb_options (ResponseBodyBuffer t') = body_options w)"

lemma keeps_options_trans: "keeps_options w t1 t2 \<Longrightarrow> keeps_options w t2 t3 \<Longrightarrow> keeps_options w t1 t3"
  by (simp add: keeps_options_def)

lemma keeps_options_same: "ResponseBodyBuffer t' = ResponseBodyBuffer t \<Longrightarrow> keeps_options w t t'"
  by (simp add: keeps_options_def)

lemma keeps_options_vars: "only_vars t1 t2 \<Longrightarrow> keeps_options w t1 t2"
  by (rule keeps_options_same) (rule only_varsD)

lemma keeps_options_fold:
  "ResponseBodyBuffer (fold (\<lambda>x. RemoveRuleByID (f x)) xs t) = ResponseBodyBuffer t"
  "ResponseBodyBuffer (fold (\<lambda>x. RemoveRuleTargetByID (f x) v k) xs t) = ResponseBodyBuffer t"
  by (rule fold_rel [where R = "\<lambda>t t'. ResponseBodyBuffer t' = ResponseBodyBuffer t"];
      simp add: RemoveRuleByID_def RemoveRuleTargetByID_def)+

lemma keeps_options_ctl: "keeps_options w t (ctl_Evaluate waf c t)"
  by (rule keeps_options_same, cases "ctl_action c")
    (auto simp: ctl_Evaluate_def Let_def keeps_options_fold set_var_def RemoveRuleByID_def
      split: sum.split option.split prod.split)

lemma keeps_options_setvar: "setvar_Evaluate s t = Some t' \<Longrightarrow> keeps_options w t t'"
  by (auto simp: setvar_Evaluate_def evaluateTxCollection_def Let_def split: option.splits if_splits
      intro!: keeps_options_vars inv_intros)

lemma keeps_options_action: "action_Evaluate rt waf r a t = Some t' \<Longrightarrow> keeps_options waf t t'"
proof (cases a)
  case (act_prepend m)
  assume "action_Evaluate rt waf r a t = Some t'"
  with act_prepend show ?thesis
    by (auto simp: prepend_Evaluate_def keeps_options_def body_options_def NewBodyBuffer_def
        dest!: Write_options io_Copy_options split: if_splits)
qed (auto simp: append_Evaluate_def disrupt_def Let_def keeps_options_def Interrupt_def upd_col_def
      dest: Write_options split: if_splits option.splits
      intro: keeps_options_ctl [unfolded keeps_options_def, rule_format]
        keeps_options_setvar [unfolded keeps_options_def, rule_format])

interpretation options: step_relation "keeps_options waf" "\<lambda>_. True" rt waf for rt waf
  by unfold_locales
    (auto intro: keeps_options_vars keeps_options_action keeps_options_same elim: keeps_options_trans)

lemma eval_rules_options: "eval_rules rt waf phase rules t = Some t' \<Longrightarrow> keeps_options waf t t'"
proof (rule eval_rules_rel [where R = "keeps_options waf"])
  fix rc t t'
  assume "rule_step rt waf phase rc t = Some t'"
  then show "keeps_options waf t t'"
  proof (rule rule_step_rel)
    show "keeps_options waf t (reset_matched t)" for t by (rule keeps_options_vars) (auto intro: inv_intros)
    show "doEvaluate rt waf (fst rc) (snd rc) t = Some (mvs, t') \<Longrightarrow> keeps_options waf t t'" for t mvs t'
      by (erule options.R_doEvaluate) simp
  qed (erule (1) keeps_options_trans | rule keeps_options_same, simp)+
qed (assumption | erule (1) keeps_options_trans | rule keeps_options_same, simp)+

section \<open>Recycling\<close>

text \<open>What holds of every transaction of a WAF.\<close>

definition tx_ok :: "WAF \<Rightarrow> Transaction \<Rightarrow> bool" where
  "tx_ok w t \<longleftrightarrow> tx_wf t \<and> bb_options (requestBodyBuffer t) = body_options w \<and>
     bb_options (ResponseBodyBuffer t) = body_options w"

lemma only_vars_set_defaults: "only_vars t (set_defaults t)"
  unfolding set_defaults_def Let_def by (intro inv_intros only_vars_fold)

lemma tx_wf_set_defaults [inv_intros]: "tx_wf t \<Longrightarrow> tx_wf (set_defaults t)"
  unfolding set_defaults_def Let_def by (intro inv_intros tx_wf_fold)

lemma tx_ok_new: "tx_ok w (newTransactionWithID w cleared i None)"
proof -
  have "tx_wf (newTransactionWithID w cleared i None)"
    unfolding newTransactionWithID_def by (simp, rule tx_wf_set_defaults) (simp add: tx_wf_def tv_wf_New)
  then show ?thesis
    by (simp add: tx_ok_def newTransactionWithID_def only_varsD(5,6) [OF only_vars_set_defaults] NewBodyBuffer_def)
qed

lemma tx_ok_Close: "tx_ok w t \<Longrightarrow> Close False os t = (err, t') \<Longrightarrow>
    variables t' = NewTransactionVariables \<and> requestBodyBuffer t' = NewBodyBuffer (body_options w) \<and>
    ResponseBodyBuffer t' = NewBodyBuffer (body_options w) \<and> transformationCache t' = transformationCache t"
  by (auto simp: Close_def tx_ok_def tx_wf_def tv_reset_New dest!: Reset_New split: prod.splits)

lemma cache_commute:
  "set_var v x (t\<lparr>transformationCache := c\<rparr>) = (set_var v x t)\<lparr>transformationCache := c\<rparr>"
  "upd_col v f (t\<lparr>transformationCache := c\<rparr>) = (upd_col v f t)\<lparr>transformationCache := c\<rparr>"
  by (simp_all add: set_var_def upd_col_def)

lemma fold_cache_commute:
  assumes "\<And>x t. f x (t\<lparr>transformationCache := c\<rparr>) = (f x t)\<lparr>transformationCache := c\<rparr>"
  shows "fold f xs (t\<lparr>transformationCache := c\<rparr>) = (fold f xs t)\<lparr>transformationCache := c\<rparr>"
  by (induction xs arbitrary: t) (simp_all add: assms)

lemma set_defaults_cache: "set_defaults (t\<lparr>transformationCache := c\<rparr>) = (set_defaults t)\<lparr>transformationCache := c\<rparr>"
  by (simp add: set_defaults_def Let_def fold_cache_commute cache_commute)

lemma recycle_eq:
  assumes "tx_ok w t"
  shows "newTransactionWithID w cleared i (Some (snd (Close False os t))) =
    (newTransactionWithID w cleared i None)\<lparr>transformationCache := transformationCache t\<rparr>"
proof -
  obtain err t' where "Close False os t = (err, t')" by fastforce
  with tx_ok_Close [OF assms this] show ?thesis
    by (simp add: newTransactionWithID_def set_defaults_cache [symmetric])
qed

end
