(* ===== verification/Directives.thy ===== *)
theory Directives
  imports Seclang_Rule Waf
begin

text \<open>
  The directives of the configuration language (src/internal/seclang/directives.go), with the audit
  log writers (src/loggers) and the debug logger (src/internal/corazawaf/logger.go) they set up.

  The Go struct \<open>WAF\<close> is the record \<open>WAF\<close> of what the engine reads and the record
  \<open>waf_settings\<close> of the rest. What the code asks of the system is the record \<open>host\<close>.
  A directive returns its error, and the options it was given, updated; \<^const>\<open>None\<close> is a panic.
\<close>

section \<open>Loggers\<close>

subsection \<open>Audit log writers (src/loggers)\<close>

text \<open>A file of \<^const>\<open>None\<close> is \<open>io.Discard\<close>.\<close>

record serialWriter =
  sw_formatter :: "LogFormatter option"
  sw_file :: "string option"

record concurrentWriter =
  cw_auditDir :: string
  cw_auditDirMode :: int
  cw_auditFileMode :: int
  cw_formatter :: "LogFormatter option"
  cw_file :: "string option"

datatype LogWriter = Noop | Serial serialWriter | Concurrent concurrentWriter

definition new_serialWriter :: serialWriter where
  "new_serialWriter = \<lparr>sw_formatter = None, sw_file = None\<rparr>"

definition new_concurrentWriter :: concurrentWriter where
  "new_concurrentWriter = \<lparr>cw_auditDir = [], cw_auditDirMode = 0, cw_auditFileMode = 0, cw_formatter = None, cw_file = None\<rparr>"

text \<open>The names that \<open>init\<close> registers.\<close>

definition GetLogWriter :: "string \<Rightarrow> string + LogWriter" where
  "GetLogWriter name =
     (let n = ToLower name in
      if n = ''concurrent'' then Inr (Concurrent new_concurrentWriter)
      else if n = ''serial'' then Inr (Serial new_serialWriter)
      else Inl (''invalid logger '' @ name))"

definition GetLogFormatter :: "string \<Rightarrow> string + LogFormatter" where
  "GetLogFormatter name =
     (let n = ToLower name in
      if n = ''json'' then Inr jsonFormatter
      else if n = ''jsonlegacy'' then Inr legacyJSONFormatter
      else if n = ''native'' then Inr nativeFormatter
      else Inl (''invalid formatter '' @ name))"

text \<open>\<open>c.Get(key, default)\<close>\<close>

definition config_Get :: "'a option \<Rightarrow> 'a \<Rightarrow> 'a" where
  "config_Get v d = (case v of None \<Rightarrow> d | Some x \<Rightarrow> x)"

text \<open>\<open>os.OpenFile\<close> of a name with a mode returns an error or none.\<close>

type_synonym open_file = "string \<Rightarrow> int \<Rightarrow> string option"

definition serial_Init :: "open_file \<Rightarrow> Config \<Rightarrow> serialWriter \<Rightarrow> string option \<times> serialWriter" where
  "serial_Init op c sl =
     (let fileMode = config_Get (auditlog_file_mode c) 420;
          sl = sl\<lparr>sw_formatter := Some (config_Get (auditlog_formatter c) nativeFormatter)\<rparr>
      in if auditlog_file c \<noteq> [] then
           (case op (auditlog_file c) fileMode of
              Some err \<Rightarrow> (Some err, sl)
            | None \<Rightarrow> (None, sl\<lparr>sw_file := Some (auditlog_file c)\<rparr>))
         else (None, sl\<lparr>sw_file := None\<rparr>))"

definition concurrent_Init :: "open_file \<Rightarrow> Config \<Rightarrow> concurrentWriter \<Rightarrow> string option \<times> concurrentWriter" where
  "concurrent_Init op c cl =
     (let cl = cl\<lparr>cw_auditFileMode := config_Get (auditlog_file_mode c) 420, cw_auditDir := auditlog_dir c,
            cw_auditDirMode := config_Get (auditlog_dir_mode c) 493,
            cw_formatter := Some (config_Get (auditlog_formatter c) nativeFormatter)\<rparr>
      in if auditlog_file c \<noteq> [] then
           (case op (auditlog_file c) (cw_auditFileMode cl) of
              Some err \<Rightarrow> (Some err, cl)
            | None \<Rightarrow> (None, cl\<lparr>cw_file := Some (auditlog_file c)\<rparr>))
         else (None, cl\<lparr>cw_file := None\<rparr>))"

fun writer_Init :: "open_file \<Rightarrow> Config \<Rightarrow> LogWriter \<Rightarrow> string option \<times> LogWriter" where
  "writer_Init op c Noop = (None, Noop)"
| "writer_Init op c (Serial sl) = (let (err, sl) = serial_Init op c sl in (err, Serial sl))"
| "writer_Init op c (Concurrent cl) = (let (err, cl) = concurrent_Init op c cl in (err, Concurrent cl))"

subsection \<open>The debug logger\<close>

datatype log_output = Discard | Stdout | Stderr | LogFile string | NilFile

record stdDebugLogger =
  lg_Level :: int
  lg_Output :: log_output

definition LogLevel_Invalid :: "int \<Rightarrow> bool" where
  "LogLevel_Invalid level \<longleftrightarrow> level < 1 \<or> level > 5"

definition SetLevel :: "int \<Rightarrow> stdDebugLogger \<Rightarrow> stdDebugLogger" where
  "SetLevel level l = l\<lparr>lg_Level := (if LogLevel_Invalid level then 1 else level)\<rparr>"

text \<open>What \<open>formatLog\<close> writes out: messages of the level of the logger and below.\<close>

definition logs :: "stdDebugLogger \<Rightarrow> int \<Rightarrow> bool" where
  "logs l level \<longleftrightarrow> lg_Level l \<ge> level"

definition SetDebugLogPath :: "open_file \<Rightarrow> string \<Rightarrow> stdDebugLogger \<Rightarrow> stdDebugLogger" where
  "SetDebugLogPath op path l =
     l\<lparr>lg_Output :=
       (if path = [] then Discard
        else if path = ''/dev/stdout'' then Stdout
        else if path = ''/dev/stderr'' then Stderr
        else if op path 438 = None then LogFile path else NilFile)\<rparr>"

section \<open>Options of a directive\<close>

text \<open>The fields of the Go struct \<open>WAF\<close> that the engine does not read.\<close>

record waf_settings =
  s_RejectOnResponseBodyLimit :: bool
  s_RejectOnRequestBodyLimit :: bool
  s_WebAppID :: string
  s_ComponentNames :: "string list"
  s_AbortOnRemoteRulesFail :: bool
  s_ServerSignature :: string
  s_SensorID :: string
  s_DataDir :: string
  s_UploadKeepFiles :: bool
  s_UploadFileMode :: int
  s_UploadFileLimit :: int
  s_RequestBodyNoFilesLimit :: int
  s_ArgumentSeparator :: string
  s_Logger :: stdDebugLogger
  s_AuditLogWriter :: LogWriter

definition new_settings :: waf_settings where
  "new_settings = \<lparr>s_RejectOnResponseBodyLimit = False, s_RejectOnRequestBodyLimit = False, s_WebAppID = [],
     s_ComponentNames = [], s_AbortOnRemoteRulesFail = False, s_ServerSignature = [], s_SensorID = [], s_DataDir = [],
     s_UploadKeepFiles = False, s_UploadFileMode = 0, s_UploadFileLimit = 0, s_RequestBodyNoFilesLimit = 0,
     s_ArgumentSeparator = ''&'', s_Logger = \<lparr>lg_Level = 1, lg_Output = Discard\<rparr>,
     s_AuditLogWriter = Serial \<lparr>sw_formatter = Some nativeFormatter, sw_file = None\<rparr>\<rparr>"

text \<open>A file system of the type \<open>fs.FS\<close>.\<close>

record FS =
  fs_ReadFile :: "string \<Rightarrow> read_result"
  fs_Glob :: "string \<Rightarrow> string + string list"

record host =
  h_libs :: libs
  h_ext :: extern
  h_OpenFile :: open_file
  h_Getwd :: "string + string"

text \<open>\<open>o_ids\<close> are the tables of transformations of package corazawaf, \<open>o_ptr\<close> is the
  identity of the next rule.\<close>

record DirectiveOptions =
  o_WAF :: WAF
  o_settings :: waf_settings
  o_Config :: Config
  o_Opts :: string
  o_Datasets :: "string \<rightharpoonup> string list"
  o_ids :: transformationIDs
  o_ptr :: nat

type_synonym directive = "host \<Rightarrow> DirectiveOptions \<Rightarrow> (string option \<times> DirectiveOptions) go"

abbreviation set_waf :: "(WAF \<Rightarrow> WAF) \<Rightarrow> DirectiveOptions \<Rightarrow> DirectiveOptions" where
  "set_waf f opt \<equiv> opt\<lparr>o_WAF := f (o_WAF opt)\<rparr>"

abbreviation set_setting :: "(waf_settings \<Rightarrow> waf_settings) \<Rightarrow> DirectiveOptions \<Rightarrow> DirectiveOptions" where
  "set_setting f opt \<equiv> opt\<lparr>o_settings := f (o_settings opt)\<rparr>"

abbreviation set_config :: "(Config \<Rightarrow> Config) \<Rightarrow> DirectiveOptions \<Rightarrow> DirectiveOptions" where
  "set_config f opt \<equiv> opt\<lparr>o_Config := f (o_Config opt)\<rparr>"

abbreviation set_rules :: "ChainedRule list \<Rightarrow> DirectiveOptions \<Rightarrow> DirectiveOptions" where
  "set_rules rs \<equiv> set_waf (\<lambda>w. w\<lparr>w_Rules := rs\<rparr>)"

definition ok_opts :: "DirectiveOptions \<Rightarrow> (string option \<times> DirectiveOptions) go" where
  "ok_opts opt = Some (None, opt)"

definition newCompileRuleError :: "string \<Rightarrow> string \<Rightarrow> string" where
  "newCompileRuleError err opts = ''failed to compile rule ('' @ err @ ''): '' @ opts"

definition newDirectiveError :: "string \<Rightarrow> string \<Rightarrow> string" where
  "newDirectiveError err dir = ''syntax error for directive '' @ dir @ '': '' @ err"

definition parseBoolean :: "string \<Rightarrow> string + bool" where
  "parseBoolean data =
     (let data = ToLower data in
      if data = ''on'' then Inr True
      else if data = ''off'' then Inr False
      else Inl ''syntax error: [on/off]'')"

text \<open>The directives with a boolean argument; \<open>assign\<close> is the assignment at their end.\<close>

definition boolean_directive :: "string \<Rightarrow> string \<Rightarrow> (bool \<Rightarrow> DirectiveOptions \<Rightarrow> DirectiveOptions) \<Rightarrow> DirectiveOptions \<Rightarrow>
    (string option \<times> DirectiveOptions) go" where
  "boolean_directive name data assign opt =
     (case parseBoolean data of
        Inl err \<Rightarrow> Some (Some (newDirectiveError err name), opt)
      | Inr b \<Rightarrow> ok_opts (assign b opt))"

definition num_error_text :: "num_error option \<Rightarrow> string option" where
  "num_error_text err =
     (case err of None \<Rightarrow> None | Some ErrSyntax \<Rightarrow> Some ''invalid syntax'' | Some ErrRange \<Rightarrow> Some ''value out of range'')"

text \<open>The conversion of an \<open>int64\<close> to \<open>fs.FileMode\<close>, a \<open>uint32\<close>.\<close>

definition FileMode :: "int \<Rightarrow> int" where
  "FileMode v = v mod 2 ^ 32"

section \<open>Directives\<close>

definition directiveSecComponentSignature :: directive where
  "directiveSecComponentSignature h opt =
     ok_opts (set_setting (\<lambda>s. s\<lparr>s_ComponentNames := s_ComponentNames s @ [o_Opts opt]\<rparr>) opt)"

text \<open>\<open>Rules.Add\<close> on the rules of the WAF.\<close>

definition add_rule :: "ChainedRule option \<Rightarrow> DirectiveOptions \<Rightarrow> string option \<times> DirectiveOptions" where
  "add_rule rule opt = (let (err, rs) = Add rule (w_Rules (o_WAF opt)) in (err, set_rules rs opt))"

definition directiveSecMarker :: directive where
  "directiveSecMarker h opt =
     (let rule = (NewRule (o_ptr opt))\<lparr>Raw := ''SecMarker '' @ o_Opts opt, SecMark := o_Opts opt, ID := 0, Phase := 0,
            Line := parser_last_line (o_Config opt), File := parser_config_file (o_Config opt)\<rparr>;
          (err, opt) = add_rule (Some (rule, [])) (opt\<lparr>o_ptr := o_ptr opt + 1\<rparr>)
      in Some (map_option (\<lambda>e. newCompileRuleError e (o_Opts opt)) err, opt))"

text \<open>\<open>ParseRule\<close> with the options of a directive.\<close>

definition parse_rule :: "host \<Rightarrow> bool \<Rightarrow> string \<Rightarrow> DirectiveOptions \<Rightarrow>
    ((string + ChainedRule option) \<times> DirectiveOptions) go" where
  "parse_rule h withOperator name opt =
     do { (res, rules, ids) \<leftarrow> ParseRule (h_libs h) (h_ext h) (o_Config opt) withOperator name (o_Opts opt) (o_ptr opt)
            (w_Rules (o_WAF opt)) (o_ids opt);
          Some (res, set_rules rules (opt\<lparr>o_ids := ids, o_ptr := o_ptr opt + 1\<rparr>)) }"

definition directiveSecAction :: directive where
  "directiveSecAction h opt =
     do { (res, opt) \<leftarrow> parse_rule h False ''SecAction'' opt;
          (case res of
             Inl err \<Rightarrow> Some (Some (newCompileRuleError err (o_Opts opt)), opt)
           | Inr rule \<Rightarrow>
               let (err, opt) = add_rule rule opt
               in Some (map_option (\<lambda>e. newCompileRuleError e (o_Opts opt)) err, opt)) }"

definition directiveSecRule :: directive where
  "directiveSecRule h opt =
     (let ignoreErrors = ignore_rule_compilation_errors (o_Config opt) in
      do { (res, opt) \<leftarrow> parse_rule h True ''SecRule'' opt;
           (case res of
              Inl err \<Rightarrow> Some (if ignoreErrors then None else Some (newCompileRuleError err (o_Opts opt)), opt)
            | Inr rule \<Rightarrow>
                let (err, opt) = add_rule rule opt in Some (if ignoreErrors then None else err, opt)) })"

definition directiveSecResponseBodyAccess :: directive where
  "directiveSecResponseBodyAccess h opt =
     boolean_directive ''SecResponseBodyAccess'' (ToLower (o_Opts opt)) (\<lambda>b. set_waf (\<lambda>w. w\<lparr>w_ResponseBodyAccess := b\<rparr>)) opt"

definition directiveSecRequestBodyLimit :: directive where
  "directiveSecRequestBodyLimit h opt =
     ok_opts (set_waf (\<lambda>w. w\<lparr>w_RequestBodyLimit := fst (ParseInt (o_Opts opt) 10 64)\<rparr>) opt)"

definition directiveSecRequestBodyAccess :: directive where
  "directiveSecRequestBodyAccess h opt =
     boolean_directive ''SecRequestBodyAccess'' (ToLower (o_Opts opt)) (\<lambda>b. set_waf (\<lambda>w. w\<lparr>w_RequestBodyAccess := b\<rparr>)) opt"

text \<open>On an error the Go code also stores the invalid status -1; the parser stops at the error.\<close>

definition directiveSecRuleEngine :: directive where
  "directiveSecRuleEngine h opt =
     (case ParseRuleEngineStatus (o_Opts opt) of
        Inl err \<Rightarrow> Some (Some err, opt)
      | Inr engine \<Rightarrow> ok_opts (set_waf (\<lambda>w. w\<lparr>w_RuleEngine := engine\<rparr>) opt))"

definition directiveUnsupported :: directive where
  "directiveUnsupported h opt = ok_opts opt"

definition directiveSecWebAppID :: directive where
  "directiveSecWebAppID h opt = ok_opts (set_setting (\<lambda>s. s\<lparr>s_WebAppID := o_Opts opt\<rparr>) opt)"

definition directiveSecTmpDir :: directive where
  "directiveSecTmpDir h opt = ok_opts (set_waf (\<lambda>w. w\<lparr>w_TmpDir := o_Opts opt\<rparr>) opt)"

definition directiveSecServerSignature :: directive where
  "directiveSecServerSignature h opt = ok_opts (set_setting (\<lambda>s. s\<lparr>s_ServerSignature := o_Opts opt\<rparr>) opt)"

definition delete_all :: "ChainedRule list \<Rightarrow> DirectiveOptions \<Rightarrow> DirectiveOptions" where
  "delete_all rs opt = set_rules (fold (\<lambda>r. DeleteByID (ID (fst r))) rs (w_Rules (o_WAF opt))) opt"

definition directiveSecRuleRemoveByTag :: directive where
  "directiveSecRuleRemoveByTag h opt = ok_opts (delete_all (FindByTag (o_Opts opt) (w_Rules (o_WAF opt))) opt)"

definition directiveSecRuleRemoveByMsg :: directive where
  "directiveSecRuleRemoveByMsg h opt =
     do { rs \<leftarrow> FindByMsg (o_Opts opt) (w_Rules (o_WAF opt)); ok_opts (delete_all rs opt) }"

definition directiveSecRuleRemoveByID :: directive where
  "directiveSecRuleRemoveByID h opt =
     ok_opts (set_rules (DeleteByID (atoi_val (o_Opts opt)) (w_Rules (o_WAF opt))) opt)"

definition directiveSecResponseBodyMimeTypesClear :: directive where
  "directiveSecResponseBodyMimeTypesClear h opt = ok_opts (set_waf (\<lambda>w. w\<lparr>w_ResponseBodyMimeTypes := []\<rparr>) opt)"

definition directiveSecResponseBodyMimeType :: directive where
  "directiveSecResponseBodyMimeType h opt =
     ok_opts (set_waf (\<lambda>w. w\<lparr>w_ResponseBodyMimeTypes := Split (o_Opts opt) (CHR '' '')\<rparr>) opt)"

definition directiveSecResponseBodyLimitAction :: directive where
  "directiveSecResponseBodyLimitAction h opt =
     ok_opts (set_setting (\<lambda>s. s\<lparr>s_RejectOnResponseBodyLimit := (ToLower (o_Opts opt) = ''reject'')\<rparr>) opt)"

definition directiveSecResponseBodyLimit :: directive where
  "directiveSecResponseBodyLimit h opt =
     (let (v, err) = ParseInt (o_Opts opt) 10 64
      in Some (num_error_text err, set_waf (\<lambda>w. w\<lparr>w_ResponseBodyLimit := v\<rparr>) opt))"

definition directiveSecRequestBodyLimitAction :: directive where
  "directiveSecRequestBodyLimitAction h opt =
     ok_opts (set_setting (\<lambda>s. s\<lparr>s_RejectOnRequestBodyLimit := (ToLower (o_Opts opt) = ''reject'')\<rparr>) opt)"

definition directiveSecRequestBodyInMemoryLimit :: directive where
  "directiveSecRequestBodyInMemoryLimit h opt =
     ok_opts (set_waf (\<lambda>w. w\<lparr>w_RequestBodyInMemoryLimit := fst (ParseInt (o_Opts opt) 10 64)\<rparr>) opt)"

definition directiveSecRemoteRulesFailAction :: directive where
  "directiveSecRemoteRulesFailAction h opt =
     ok_opts (set_setting (\<lambda>s. s\<lparr>s_AbortOnRemoteRulesFail := (ToLower (o_Opts opt) = ''abort'')\<rparr>) opt)"

definition directiveSecRemoteRules :: directive where
  "directiveSecRemoteRules h opt = Some (Some ''not implemented'', opt)"

definition directiveSecSensorID :: directive where
  "directiveSecSensorID h opt = ok_opts (set_setting (\<lambda>s. s\<lparr>s_SensorID := o_Opts opt\<rparr>) opt)"

text \<open>
  The directives that return nil at once: SecConnWriteStateLimit, SecConnReadStateLimit,
  SecPcreMatchLimitRecursion, SecPcreMatchLimit, SecHTTPBlKey, SecGsbLookupDb, SecHashMethodPm,
  SecHashMethodRx, SecHashParam, SecHashKey, SecHashEngine, SecConnEngine and SecCollectionTimeout.
\<close>

definition directive_nop :: directive where
  "directive_nop h opt = ok_opts opt"

definition directiveSecDefaultAction :: directive where
  "directiveSecDefaultAction h opt =
     ok_opts (set_config (\<lambda>c. c\<lparr>rule_default_actions := Some (config_Get (rule_default_actions c) [] @ [o_Opts opt])\<rparr>) opt)"

definition directiveSecContentInjection :: directive where
  "directiveSecContentInjection h opt =
     boolean_directive ''SecContentInjection'' (o_Opts opt) (\<lambda>b. set_waf (\<lambda>w. w\<lparr>w_ContentInjection := b\<rparr>)) opt"

text \<open>\<open>WAF.AuditLogWriter.Init(options.Config)\<close>\<close>

definition init_writer :: "host \<Rightarrow> DirectiveOptions \<Rightarrow> (string option \<times> DirectiveOptions) go" where
  "init_writer h opt =
     (let (err, w) = writer_Init (h_OpenFile h) (o_Config opt) (s_AuditLogWriter (o_settings opt))
      in Some (err, set_setting (\<lambda>s. s\<lparr>s_AuditLogWriter := w\<rparr>) opt))"

definition directiveSecAuditLog :: directive where
  "directiveSecAuditLog h opt =
     (if o_Opts opt = [] then Some (Some ''syntax error: SecAuditLog /some/absolute/path.log'', opt)
      else init_writer h (set_config (\<lambda>c. c\<lparr>auditlog_file := o_Opts opt\<rparr>) opt))"

definition directiveSecAuditLogType :: directive where
  "directiveSecAuditLogType h opt =
     (if o_Opts opt = [] then Some (Some ''syntax error: SecAuditLogType [concurrent/https/serial/...]'', opt)
      else
        (case GetLogWriter (o_Opts opt) of
           Inl err \<Rightarrow> Some (Some err, opt)
         | Inr w \<Rightarrow>
             (case writer_Init (h_OpenFile h) (o_Config opt) w of
                (Some err, _) \<Rightarrow> Some (Some err, opt)
              | (None, w) \<Rightarrow> ok_opts (set_setting (\<lambda>s. s\<lparr>s_AuditLogWriter := w\<rparr>) opt))))"

definition directiveSecAuditLogFormat :: directive where
  "directiveSecAuditLogFormat h opt =
     (if o_Opts opt = [] then Some (Some ''syntax error: SecAuditLogFormat [json/native/...]'', opt)
      else
        (case GetLogFormatter (o_Opts opt) of
           Inl err \<Rightarrow> Some (Some err, opt)
         | Inr f \<Rightarrow> init_writer h (set_config (\<lambda>c. c\<lparr>auditlog_formatter := Some f\<rparr>) opt)))"

definition directiveSecAuditLogDir :: directive where
  "directiveSecAuditLogDir h opt =
     (if o_Opts opt = [] then Some (Some ''syntax error: SecAuditLogDir /some/absolute/path'', opt)
      else init_writer h (set_config (\<lambda>c. c\<lparr>auditlog_dir := o_Opts opt\<rparr>) opt))"

definition directiveSecAuditLogDirMode :: directive where
  "directiveSecAuditLogDirMode h opt =
     (if o_Opts opt = [] then Some (Some ''syntax error: SecAuditLogDirMode [0777/0700/...]'', opt)
      else
        let (v, err) = ParseInt (o_Opts opt) 8 32 in
        if err \<noteq> None then Some (num_error_text err, opt)
        else init_writer h (set_config (\<lambda>c. c\<lparr>auditlog_dir_mode := Some (FileMode v)\<rparr>) opt))"

definition directiveSecAuditLogFileMode :: directive where
  "directiveSecAuditLogFileMode h opt =
     (if o_Opts opt = [] then Some (Some ''syntax error: SecAuditLogFileMode [0777/0700/...]'', opt)
      else
        let (v, err) = ParseInt (o_Opts opt) 8 32 in
        if err \<noteq> None then Some (num_error_text err, opt)
        else init_writer h (set_config (\<lambda>c. c\<lparr>auditlog_file_mode := Some (FileMode v)\<rparr>) opt))"

definition directiveSecAuditLogRelevantStatus :: directive where
  "directiveSecAuditLogRelevantStatus h opt =
     (case regexp_Compile (h_libs h) (o_Opts opt) of
        Inl err \<Rightarrow> Some (Some err, set_waf (\<lambda>w. w\<lparr>w_AuditLogRelevantStatus := None\<rparr>) opt)
      | Inr re \<Rightarrow> ok_opts (set_waf (\<lambda>w. w\<lparr>w_AuditLogRelevantStatus := Some re\<rparr>) opt))"

definition directiveSecAuditLogParts :: directive where
  "directiveSecAuditLogParts h opt = ok_opts (set_waf (\<lambda>w. w\<lparr>w_AuditLogParts := o_Opts opt\<rparr>) opt)"

text \<open>As for the rule engine, the status -1 of an error is not kept.\<close>

definition directiveSecAuditEngine :: directive where
  "directiveSecAuditEngine h opt =
     (case ParseAuditEngineStatus (o_Opts opt) of
        Inl err \<Rightarrow> Some (Some err, opt)
      | Inr au \<Rightarrow> ok_opts (set_waf (\<lambda>w. w\<lparr>w_AuditEngine := au\<rparr>) opt))"

definition directiveSecDataDir :: directive where
  "directiveSecDataDir h opt = ok_opts (set_setting (\<lambda>s. s\<lparr>s_DataDir := o_Opts opt\<rparr>) opt)"

definition directiveSecUploadKeepFiles :: directive where
  "directiveSecUploadKeepFiles h opt =
     boolean_directive ''SecUploadKeepFiles'' (o_Opts opt) (\<lambda>b. set_setting (\<lambda>s. s\<lparr>s_UploadKeepFiles := b\<rparr>)) opt"

definition directiveSecUploadFileMode :: directive where
  "directiveSecUploadFileMode h opt =
     (let (fm, err) = ParseInt (o_Opts opt) 8 32
      in Some (num_error_text err, set_setting (\<lambda>s. s\<lparr>s_UploadFileMode := FileMode fm\<rparr>) opt))"

definition directiveSecUploadFileLimit :: directive where
  "directiveSecUploadFileLimit h opt =
     (let (v, err) = Atoi (o_Opts opt)
      in Some (num_error_text err, set_setting (\<lambda>s. s\<lparr>s_UploadFileLimit := v\<rparr>) opt))"

definition directiveSecUploadDir :: directive where
  "directiveSecUploadDir h opt = ok_opts (set_waf (\<lambda>w. w\<lparr>w_UploadDir := o_Opts opt\<rparr>) opt)"

definition directiveSecRequestBodyNoFilesLimit :: directive where
  "directiveSecRequestBodyNoFilesLimit h opt =
     (let (v, err) = ParseInt (o_Opts opt) 10 64
      in Some (num_error_text err, set_setting (\<lambda>s. s\<lparr>s_RequestBodyNoFilesLimit := v\<rparr>) opt))"

definition directiveSecDebugLog :: directive where
  "directiveSecDebugLog h opt =
     ok_opts (set_setting (\<lambda>s. s\<lparr>s_Logger := SetDebugLogPath (h_OpenFile h) (o_Opts opt) (s_Logger s)\<rparr>) opt)"

definition directiveSecDebugLogLevel :: directive where
  "directiveSecDebugLogLevel h opt =
     (let (lvl, err) = Atoi (o_Opts opt) in
      if err \<noteq> None then Some (num_error_text err, opt)
      else ok_opts (set_setting (\<lambda>s. s\<lparr>s_Logger := SetLevel lvl (s_Logger s)\<rparr>) opt))"

text \<open>The first rule of the identifier, which \<open>FindByID\<close> returns a pointer to.\<close>

fun update_rule :: "int \<Rightarrow> Rule \<Rightarrow> ChainedRule list \<Rightarrow> ChainedRule list" where
  "update_rule i r [] = []"
| "update_rule i r (rc # rs) = (if ID (fst rc) = i then (r, snd rc) # rs else rc # update_rule i r rs)"

text \<open>When there is no such rule, the parser calls the methods of a nil rule.\<close>

definition directiveSecRuleUpdateTargetByID :: directive where
  "directiveSecRuleUpdateTargetByID h opt =
     (let (idStr, v, found) = Cut (o_Opts opt) (CHR '' '') in
      if \<not> found then Some (Some ''syntax error: SecRuleUpdateTargetById id VARIABLES'', opt)
      else
        let (i, err) = Atoi idStr; vars = TrimByte v (CHR 0x22) in
        if err \<noteq> None then Some (num_error_text err, opt)
        else
          (case FindByID i (w_Rules (o_WAF opt)) of
             None \<Rightarrow> do { (err, _) \<leftarrow> pv_loop (add_variable_nil (h_libs h)) vars 0 pv_start (); Some (err, opt) }
           | Some rc \<Rightarrow>
               do { (err, r) \<leftarrow> ParseVariables (h_libs h) vars (fst rc);
                    Some (err, set_rules (update_rule i r (w_Rules (o_WAF opt))) opt) }))"

definition directiveSecIgnoreRuleCompilationErrors :: directive where
  "directiveSecIgnoreRuleCompilationErrors h opt =
     boolean_directive ''SecIgnoreRuleCompilationErrors'' (o_Opts opt)
       (\<lambda>b. set_config (\<lambda>c. c\<lparr>ignore_rule_compilation_errors := b\<rparr>)) opt"

definition dataset_lines :: "string \<Rightarrow> string list" where
  "dataset_lines data = filter (\<lambda>s. s \<noteq> [] \<and> hd s \<noteq> CHR ''#'') (map TrimSpace (Split data (CHR 0x0A)))"

definition directiveSecDataset :: directive where
  "directiveSecDataset h opt =
     (let (name, d, found) = Cut (o_Opts opt) (CHR '' '') in
      if \<not> found then Some (Some ''syntax error: SecDataset name'', opt)
      else ok_opts (opt\<lparr>o_Datasets := (o_Datasets opt)(name \<mapsto> dataset_lines (TrimByte d (CHR 0x60)))\<rparr>))"

section \<open>The table of directives\<close>

definition directivesMap :: "(string \<times> directive) list" where
  "directivesMap = [
    (''secwebappid'', directiveSecWebAppID),
    (''secuploadkeepfiles'', directiveSecUploadKeepFiles),
    (''secuploadfilemode'', directiveSecUploadFileMode),
    (''secuploadfilelimit'', directiveSecUploadFileLimit),
    (''secuploaddir'', directiveSecUploadDir),
    (''sectmpdir'', directiveSecTmpDir),
    (''secserversignature'', directiveSecServerSignature),
    (''secsensorid'', directiveSecSensorID),
    (''secruleremovebytag'', directiveSecRuleRemoveByTag),
    (''secruleremovebymsg'', directiveSecRuleRemoveByMsg),
    (''secruleremovebyid'', directiveSecRuleRemoveByID),
    (''secruleengine'', directiveSecRuleEngine),
    (''secrule'', directiveSecRule),
    (''secresponsebodymimetypesclear'', directiveSecResponseBodyMimeTypesClear),
    (''secresponsebodymimetype'', directiveSecResponseBodyMimeType),
    (''secresponsebodylimitaction'', directiveSecResponseBodyLimitAction),
    (''secresponsebodylimit'', directiveSecResponseBodyLimit),
    (''secresponsebodyaccess'', directiveSecResponseBodyAccess),
    (''secrequestbodynofileslimit'', directiveSecRequestBodyNoFilesLimit),
    (''secrequestbodylimitaction'', directiveSecRequestBodyLimitAction),
    (''secrequestbodylimit'', directiveSecRequestBodyLimit),
    (''secrequestbodyinmemorylimit'', directiveSecRequestBodyInMemoryLimit),
    (''secrequestbodyaccess'', directiveSecRequestBodyAccess),
    (''secremoterulesfailaction'', directiveSecRemoteRulesFailAction),
    (''secremoterules'', directiveSecRemoteRules),
    (''secpcrematchlimitrecursion'', directive_nop),
    (''secpcrematchlimit'', directive_nop),
    (''secmarker'', directiveSecMarker),
    (''sechttpblkey'', directive_nop),
    (''sechashparam'', directive_nop),
    (''sechashmethodrx'', directive_nop),
    (''sechashmethodpm'', directive_nop),
    (''sechashkey'', directive_nop),
    (''sechashengine'', directive_nop),
    (''secgsblookupdb'', directive_nop),
    (''secdefaultaction'', directiveSecDefaultAction),
    (''secdatadir'', directiveSecDataDir),
    (''seccontentinjection'', directiveSecContentInjection),
    (''secconnwritestatelimit'', directive_nop),
    (''secconnreadstatelimit'', directive_nop),
    (''secconnengine'', directive_nop),
    (''seccomponentsignature'', directiveSecComponentSignature),
    (''seccollectiontimeout'', directive_nop),
    (''secauditlogrelevantstatus'', directiveSecAuditLogRelevantStatus),
    (''secauditlogparts'', directiveSecAuditLogParts),
    (''secauditlogdir'', directiveSecAuditLogDir),
    (''secauditlogstoragedir'', directiveSecAuditLogDir),
    (''secauditlog'', directiveSecAuditLog),
    (''secauditengine'', directiveSecAuditEngine),
    (''secaction'', directiveSecAction),
    (''secdebuglog'', directiveSecDebugLog),
    (''secdebugloglevel'', directiveSecDebugLogLevel),
    (''secauditlogformat'', directiveSecAuditLogFormat),
    (''secauditlogtype'', directiveSecAuditLogType),
    (''secauditlogfilemode'', directiveSecAuditLogFileMode),
    (''secauditlogdirmode'', directiveSecAuditLogDirMode),
    (''secignorerulecompilationerrors'', directiveSecIgnoreRuleCompilationErrors),
    (''secdataset'', directiveSecDataset),
    (''secargumentseparator'', directiveUnsupported),
    (''seccookieformat'', directiveUnsupported),
    (''secruleupdatetargetbytag'', directiveUnsupported),
    (''secruleupdatetargetbymsg'', directiveUnsupported),
    (''secruleupdatetargetbyid'', directiveSecRuleUpdateTargetByID),
    (''secruleupdateactionbyid'', directiveUnsupported),
    (''secrulescript'', directiveUnsupported),
    (''secruleperftime'', directiveUnsupported),
    (''SecUnicodeMap'', directiveUnsupported)]"

section \<open>The invariant of the rules\<close>

definition rules_ok :: "ChainedRule list \<Rightarrow> bool" where
  "rules_ok rules \<longleftrightarrow> unique_ids rules \<and> chains_ok rules"

lemma rules_ok_subseq:
  assumes "rules_ok rs" "subseq qs rs"
  shows "rules_ok qs"
proof -
  have "subseq (filter (\<lambda>i. i \<noteq> 0) (map (\<lambda>r. ID (fst r)) qs)) (filter (\<lambda>i. i \<noteq> 0) (map (\<lambda>r. ID (fst r)) rs))"
    using assms(2) by (intro subseq_filter subseq_map)
  moreover have "distinct xs" if "subseq xs ys" "distinct ys" for xs ys :: "int list"
    using that by (induction rule: list_emb.induct) (auto dest: list_emb_set)
  ultimately show ?thesis
    using assms list_emb_set [OF assms(2)] unfolding rules_ok_def unique_ids_def chains_ok_def by fastforce
qed

text \<open>Whatever the identifier, \<open>DeleteByID\<close> leaves some of the rules, in their order.\<close>

lemma DeleteByID_subseq: "subseq (DeleteByID i rules) rules"
proof -
  define ok where "ok = (\<lambda>(arr, n). \<exists>us. arr = map Some us @ replicate (length rules - length us) None \<and> n = length us \<and>
    subseq us rules)"
  have step: "ok (delete_step i k s)" if s: "ok s" and k: "k < length rules" for k s
  proof -
    obtain us where us: "s = (map Some us @ replicate (length rules - length us) None, length us)" "subseq us rules"
      using s by (cases s) (auto simp: ok_def)
    show ?thesis
    proof (cases "k < length us \<and> ID (fst (us ! k)) = i")
      case True
      let ?vs = "take k us @ drop (k + 1) us"
      have "subseq ?vs us"
        using True by (metis id_take_nth_drop Suc_eq_plus1 subseq_append_iff subseq_append list_emb_Cons subseq_order.order_refl)
      then have "subseq ?vs rules" using us(2) by (rule subseq_order.order_trans)
      moreover have "length us \<le> length rules" using us(2) by (rule list_emb_length)
      ultimately show ?thesis
        using True us(1)
        by (auto simp: ok_def delete_step_def nth_append take_map drop_map Suc_diff_le intro!: exI [of _ ?vs])
    next
      case False
      then show ?thesis
        using s k us by (auto simp: ok_def delete_step_def nth_append)
    qed
  qed
  have loop: "ok (fold (delete_step i) ks s)" if "ok s" "\<forall>k\<in>set ks. k < length rules" for ks s
    using that
  proof (induction ks arbitrary: s)
    case (Cons k ks)
    then show ?case using step [of s k] by (simp del: split_paired_All)
  qed simp
  have "ok (map Some rules, length rules)" by (simp add: ok_def exI [of _ rules])
  then have "ok (fold (delete_step i) [0..<length rules] (map Some rules, length rules))" by (rule loop) simp
  then show ?thesis by (auto simp: DeleteByID_def ok_def comp_def)
qed

lemma rules_ok_Add:
  assumes "rules_ok rules" "case rule of None \<Rightarrow> True | Some (r, chain) \<Rightarrow> chain = [] \<and> r_ParentID r = 0"
  shows "rules_ok (snd (Add rule rules))"
  using assms unique_ids_Add [of rules rule]
  by (auto simp: rules_ok_def chains_ok_def chain_ok_def Add_def split: option.splits prod.splits)

lemma update_rule_ids: "ID r = i \<Longrightarrow> map (ID \<circ> fst) (update_rule i r rs) = map (ID \<circ> fst) rs"
  by (induction rs) auto

lemma chains_ok_update:
  "chains_ok rs \<Longrightarrow> FindByID i rs = Some rc \<Longrightarrow> r_ParentID r = r_ParentID (fst rc) \<Longrightarrow> ID r = ID (fst rc) \<Longrightarrow>
    chains_ok (update_rule i r rs)"
  by (induction rs) (auto simp: chains_ok_def chain_ok_def split: if_splits)

lemma unique_ids_cong: "map (ID \<circ> fst) rs = map (ID \<circ> fst) qs \<Longrightarrow> unique_ids rs = unique_ids qs"
  by (simp add: unique_ids_def comp_def)

text \<open>What every directive keeps.\<close>

definition keeps :: "DirectiveOptions \<Rightarrow> DirectiveOptions \<Rightarrow> bool" where
  "keeps opt opt' \<longleftrightarrow> w_RequestBodyLimitAction (o_WAF opt') = w_RequestBodyLimitAction (o_WAF opt) \<and>
     (rules_ok (w_Rules (o_WAF opt)) \<longrightarrow> rules_ok (w_Rules (o_WAF opt')))"

lemma keeps_refl: "keeps opt opt" by (simp add: keeps_def)

lemma keeps_trans: "keeps a b \<Longrightarrow> keeps b c \<Longrightarrow> keeps a c" by (simp add: keeps_def)

text \<open>The directives that leave the rules alone.\<close>

lemmas plain_directives =
  directiveSecComponentSignature_def directiveSecResponseBodyAccess_def directiveSecRequestBodyLimit_def
  directiveSecRequestBodyAccess_def directiveSecRuleEngine_def directiveUnsupported_def directiveSecWebAppID_def
  directiveSecTmpDir_def directiveSecServerSignature_def directiveSecResponseBodyMimeTypesClear_def
  directiveSecResponseBodyMimeType_def directiveSecResponseBodyLimitAction_def directiveSecResponseBodyLimit_def
  directiveSecRequestBodyLimitAction_def directiveSecRequestBodyInMemoryLimit_def
  directiveSecRemoteRulesFailAction_def directiveSecRemoteRules_def directiveSecSensorID_def directive_nop_def
  directiveSecDefaultAction_def directiveSecContentInjection_def directiveSecAuditLog_def
  directiveSecAuditLogType_def directiveSecAuditLogFormat_def directiveSecAuditLogDir_def
  directiveSecAuditLogDirMode_def directiveSecAuditLogFileMode_def directiveSecAuditLogRelevantStatus_def
  directiveSecAuditLogParts_def directiveSecAuditEngine_def directiveSecDataDir_def directiveSecUploadKeepFiles_def
  directiveSecUploadFileMode_def directiveSecUploadFileLimit_def directiveSecUploadDir_def
  directiveSecRequestBodyNoFilesLimit_def directiveSecDebugLog_def directiveSecDebugLogLevel_def
  directiveSecIgnoreRuleCompilationErrors_def directiveSecDataset_def

definition directive_keeps :: "directive \<Rightarrow> bool" where
  "directive_keeps d \<longleftrightarrow> (\<forall>h opt err opt'. d h opt = Some (err, opt') \<longrightarrow> keeps opt opt')"

lemma add_rule_keeps:
  assumes "add_rule rule opt = (err, opt')" "case rule of None \<Rightarrow> True | Some (r, chain) \<Rightarrow> chain = [] \<and> r_ParentID r = 0"
  shows "keeps opt opt'"
  using assms rules_ok_Add [OF _ assms(2), of "w_Rules (o_WAF opt)"]
  by (auto simp: add_rule_def keeps_def case_prod_beta Let_def)

lemma parse_rule_keeps:
  assumes "parse_rule h b name opt = Some (res, opt')"
  shows "keeps opt opt'" "res = Inr rule \<Longrightarrow> case rule of None \<Rightarrow> True | Some (r, chain) \<Rightarrow> chain = [] \<and> r_ParentID r = 0"
proof -
  obtain rules ids where p: "ParseRule (h_libs h) (h_ext h) (o_Config opt) b name (o_Opts opt) (o_ptr opt)
      (w_Rules (o_WAF opt)) (o_ids opt) = Some (res, rules, ids)"
    and opt': "opt' = set_rules rules (opt\<lparr>o_ids := ids, o_ptr := o_ptr opt + 1\<rparr>)"
    using assms by (auto simp: parse_rule_def)
  have "rules_ok rules" if "rules_ok (w_Rules (o_WAF opt))"
    using ParseRule_keeps [OF p] unique_ids_cong [of rules "w_Rules (o_WAF opt)"] that unfolding rules_ok_def by blast
  then show "keeps opt opt'" by (simp add: keeps_def opt')
  show "res = Inr rule \<Longrightarrow> case rule of None \<Rightarrow> True | Some (r, chain) \<Rightarrow> chain = [] \<and> r_ParentID r = 0"
    using ParseRule_result [OF p] by (auto split: option.splits)
qed

lemma delete_all_keeps: "keeps opt (delete_all rs opt)"
proof -
  have "rules_ok (fold (\<lambda>r. DeleteByID (ID (fst r))) rs qs)" if "rules_ok qs" for qs
    using that by (induction rs arbitrary: qs) (auto intro: rules_ok_subseq [OF _ DeleteByID_subseq])
  then show ?thesis by (simp add: keeps_def delete_all_def)
qed

lemma update_target_keeps: "directive_keeps directiveSecRuleUpdateTargetByID"
proof -
  have "rules_ok (update_rule i r rules)"
    if "rules_ok rules" "FindByID i rules = Some rc" "ParseVariables lb vars (fst rc) = Some (err, r)" for i rules rc lb vars err r
  proof -
    have "ID (fst rc) = i" using that(2) by (induction rules) (auto split: if_splits)
    then show ?thesis
      using that ParseVariables_keeps [OF that(3)] chains_ok_update [of rules i rc r]
        unique_ids_cong [OF update_rule_ids [of r i rules]] by (auto simp: rules_ok_def)
  qed
  then show ?thesis
    by (auto simp: directive_keeps_def directiveSecRuleUpdateTargetByID_def keeps_def Let_def
        split: if_split_asm prod.split_asm option.split_asm)
qed

lemma rule_directives_keep:
  "directive_keeps directiveSecMarker" "directive_keeps directiveSecAction" "directive_keeps directiveSecRule"
  "directive_keeps directiveSecRuleRemoveByTag" "directive_keeps directiveSecRuleRemoveByMsg"
  "directive_keeps directiveSecRuleRemoveByID"
proof -
  show "directive_keeps directiveSecMarker"
    unfolding directive_keeps_def directiveSecMarker_def Let_def
    by (auto simp: NewRule_def keeps_def split: prod.split_asm dest!: add_rule_keeps)
  have "keeps opt opt'"
    if "parse_rule h b name opt = Some (res, opt1)"
      "case res of Inl _ \<Rightarrow> opt' = opt1 | Inr rule \<Rightarrow> (\<exists>err. add_rule rule opt1 = (err, opt'))" for h b name opt res opt1 opt'
    using parse_rule_keeps [OF that(1)] that(2)
    by (auto split: sum.splits intro: keeps_trans dest: add_rule_keeps)
  then show "directive_keeps directiveSecAction" "directive_keeps directiveSecRule"
    unfolding directive_keeps_def directiveSecAction_def directiveSecRule_def Let_def
    by (auto split: sum.split_asm prod.split_asm)
  show "directive_keeps directiveSecRuleRemoveByTag" "directive_keeps directiveSecRuleRemoveByMsg"
    using delete_all_keeps
    by (auto simp: directive_keeps_def directiveSecRuleRemoveByTag_def directiveSecRuleRemoveByMsg_def ok_opts_def)
  show "directive_keeps directiveSecRuleRemoveByID"
    by (auto simp: directive_keeps_def directiveSecRuleRemoveByID_def ok_opts_def keeps_def
      intro: rules_ok_subseq [OF _ DeleteByID_subseq])
qed

lemma directivesMap_keeps: "\<forall>(name, d)\<in>set directivesMap. directive_keeps d"
  unfolding directivesMap_def list.set ball_simps prod.case
  by (intro conjI TrueI rule_directives_keep update_target_keeps;
      auto simp: directive_keeps_def keeps_def plain_directives ok_opts_def boolean_directive_def init_writer_def Let_def
        split: if_split_asm sum.split_asm prod.split_asm option.split_asm)

end
