(* ===== verification/Seclang.thy ===== *)
theory Seclang
  imports Directives
begin

text \<open>
  The parser of configurations (src/internal/seclang/parser.go): files with includes, lines with
  continuations and lists between backticks, and the dispatch of a line to its directive.

  \<open>FromFile\<close>, \<open>FromString\<close> and \<open>evaluateLine\<close> call each other through the
  directive Include. The first argument of \<open>FromFile_n\<close> bounds the depth of these calls; the
  bound of \<open>FromFile\<close> is shown to be enough.
\<close>

section \<open>Definitions\<close>

definition maxIncludeRecursion :: nat where
  "maxIncludeRecursion = 100"

record Parser =
  p_options :: DirectiveOptions
  p_currentLine :: int
  p_currentFile :: string
  p_currentDir :: string
  p_root :: FS
  p_includeCount :: nat

type_synonym parse_result = "(string option \<times> Parser) go"

definition SetRoot :: "FS \<Rightarrow> Parser \<Rightarrow> Parser" where
  "SetRoot root p = p\<lparr>p_root := root\<rparr>"

definition empty_config :: Config where
  "empty_config = \<lparr>rule_default_actions = None, disabled_rule_actions = [], disabled_rule_operators = [],
     ignore_rule_compilation_errors = False, parser_config_file = [], parser_config_dir = [], working_dir = [],
     parser_last_line = 0, last_profile_line = 0, parser_root = (\<lambda>_. NotExist), auditlog_file = [],
     auditlog_dir = [], auditlog_formatter = None, auditlog_dir_mode = None, auditlog_file_mode = None\<rparr>"

text \<open>The parser of a WAF; \<open>osfs\<close> is the file system \<open>io.OSFS\<close> of the system.\<close>

definition NewParser :: "FS \<Rightarrow> WAF \<Rightarrow> waf_settings \<Rightarrow> transformationIDs \<Rightarrow> Parser" where
  "NewParser osfs waf settings ids =
     \<lparr>p_options = \<lparr>o_WAF = waf, o_settings = settings, o_Config = empty_config, o_Opts = [], o_Datasets = (\<lambda>_. None),
        o_ids = ids, o_ptr = 1\<rparr>,
      p_currentLine = 0, p_currentFile = [], p_currentDir = [], p_root = osfs, p_includeCount = 0\<rparr>"

definition parser_log :: "string \<Rightarrow> Parser \<Rightarrow> string" where
  "parser_log msg p = ''[Parser] [Line '' @ Itoa (p_currentLine p) @ ''] '' @ msg"

text \<open>What \<open>evaluateLine\<close> stores in the configuration before it calls the directive.\<close>

definition enter_directive :: "string \<Rightarrow> string \<Rightarrow> Parser \<Rightarrow> DirectiveOptions" where
  "enter_directive wd opts p =
     (let opt = p_options p in
      opt\<lparr>o_Opts := opts,
          o_Config := (o_Config opt)\<lparr>last_profile_line := p_currentLine p, parser_config_file := p_currentFile p,
            parser_config_dir := p_currentDir p, parser_root := fs_ReadFile (p_root p), working_dir := wd\<rparr>\<rparr>)"

text \<open>When the working directory is unknown, only \<open>working_dir\<close> is not yet stored.\<close>

definition enter_failed :: "string \<Rightarrow> Parser \<Rightarrow> DirectiveOptions" where
  "enter_failed opts p = enter_directive (working_dir (o_Config (p_options p))) opts p"

definition line_opts :: "string \<Rightarrow> string" where
  "line_opts opts =
     (if length opts \<ge> 3 \<and> hd opts = CHR 0x22 \<and> last opts = CHR 0x22 then TrimByte opts (CHR 0x22) else opts)"

definition evaluateLine :: "host \<Rightarrow> (string \<Rightarrow> Parser \<Rightarrow> parse_result) \<Rightarrow> string \<Rightarrow> Parser \<Rightarrow> parse_result" where
  "evaluateLine h includeFile data p =
     (if data = [] \<or> hd data = CHR ''#'' then Some (Some ''invalid lines'', p)
      else
        let (dir, opts, _) = Cut data (CHR '' '');
            directive = ToLower dir;
            opts = line_opts opts
        in
        if directive = ''include'' then
          if p_includeCount p \<ge> maxIncludeRecursion
          then Some (Some (''cannot include more than 100 files''), p)
          else includeFile opts (p\<lparr>p_includeCount := p_includeCount p + 1\<rparr>)
        else
          (case map_of directivesMap directive of
             None \<Rightarrow> Some (Some (parser_log (''Unsupported directive '' @ directive) p), p)
           | Some d \<Rightarrow>
               (case h_Getwd h of
                  Inl err \<Rightarrow> Some (Some err, p\<lparr>p_options := enter_failed opts p\<rparr>)
                | Inr wd \<Rightarrow>
                    do { (err, opt) \<leftarrow> d h (enter_directive wd opts p);
                         Some (err, p\<lparr>p_options := opt\<rparr>) })))"

text \<open>
  The loop of \<open>FromString\<close> over the lines of the scanner: the evaluation of a line, the lines,
  \<open>linebuffer\<close> and \<open>inBackticks\<close>.
\<close>

fun parse_lines :: "(string \<Rightarrow> Parser \<Rightarrow> parse_result) \<Rightarrow> string list \<Rightarrow> string \<Rightarrow> bool \<Rightarrow> Parser \<Rightarrow> parse_result" where
  "parse_lines eval [] linebuffer inBackticks p =
     Some (if inBackticks then Some ''backticks left open'' else None, p)"
| "parse_lines eval (text # texts) linebuffer inBackticks p =
     (let p = p\<lparr>p_currentLine := p_currentLine p + 1\<rparr>;
          line = TrimSpace text
      in
      if line = [] \<or> hd line = CHR ''#'' then parse_lines eval texts linebuffer inBackticks p
      else
        let inBackticks = (if \<not> inBackticks \<and> last line = CHR 0x60 then True
                           else if inBackticks \<and> hd line = CHR 0x60 then False else inBackticks)
        in
        if inBackticks then parse_lines eval texts (linebuffer @ line @ [CHR 0x0A]) inBackticks p
        else if last line = CHR 0x5C then parse_lines eval texts (linebuffer @ butlast line) inBackticks p
        else
          do { (err, p) \<leftarrow> eval (linebuffer @ line) p;
               if err \<noteq> None then Some (err, p) else parse_lines eval texts [] inBackticks p })"

text \<open>\<open>filepath.Join\<close> and \<open>filepath.Dir\<close> on Unix.\<close>

definition filepath_Dir :: "string \<Rightarrow> string" where
  "filepath_Dir path = clean_path (CHR ''/'') (rev (dropWhile (\<lambda>c. c \<noteq> CHR ''/'') (rev path)))"

definition enter_file :: "string \<Rightarrow> Parser \<Rightarrow> Parser" where
  "enter_file profilePath p =
     (let profilePath = TrimSpace profilePath;
          profilePath = (if HasPrefix profilePath ''/'' then profilePath else path_Join (p_currentDir p) profilePath)
      in p\<lparr>p_currentFile := profilePath, p_currentDir := filepath_Dir profilePath\<rparr>)"

text \<open>The loop of \<open>FromFile\<close> over the files; \<open>fromString\<close> parses what a file contains.\<close>

fun parse_files :: "(string \<Rightarrow> Parser \<Rightarrow> parse_result) \<Rightarrow> string list \<Rightarrow> Parser \<Rightarrow> parse_result" where
  "parse_files fromString [] p = Some (None, p)"
| "parse_files fromString (f # fs) p =
     (let lastDir = p_currentDir p; p = enter_file f p in
      case fs_ReadFile (p_root p) (p_currentFile p) of
        NotExist \<Rightarrow> Some (Some ''file does not exist'', p)
      | ReadError err \<Rightarrow> Some (Some err, p)
      | Content file \<Rightarrow>
          do { (err, p) \<leftarrow> fromString file p;
               if err \<noteq> None then Some (err, p) else parse_files fromString fs (p\<lparr>p_currentDir := lastDir\<rparr>) })"

definition from_file :: "(string \<Rightarrow> Parser \<Rightarrow> parse_result) \<Rightarrow> string \<Rightarrow> Parser \<Rightarrow> parse_result" where
  "from_file fromString profilePath p =
     (if CHR ''*'' \<in> set profilePath then
        (case fs_Glob (p_root p) profilePath of
           Inl err \<Rightarrow> Some (Some err, p)
         | Inr files \<Rightarrow> parse_files fromString files p)
      else parse_files fromString [profilePath] p)"

definition from_string :: "host \<Rightarrow> (string \<Rightarrow> Parser \<Rightarrow> parse_result) \<Rightarrow> string \<Rightarrow> Parser \<Rightarrow> parse_result" where
  "from_string h includeFile data p = parse_lines (evaluateLine h includeFile) (scan_lines data) [] False p"

primrec FromFile_n :: "nat \<Rightarrow> host \<Rightarrow> string \<Rightarrow> Parser \<Rightarrow> parse_result" where
  "FromFile_n 0 h = (\<lambda>_ _. None)"
| "FromFile_n (Suc n) h = from_file (from_string h (FromFile_n n h))"

definition FromFile :: "host \<Rightarrow> string \<Rightarrow> Parser \<Rightarrow> parse_result" where
  "FromFile = FromFile_n (Suc maxIncludeRecursion)"

definition FromString :: "host \<Rightarrow> string \<Rightarrow> Parser \<Rightarrow> parse_result" where
  "FromString h = from_string h (FromFile h)"

section \<open>Relations that a parser step keeps\<close>

text \<open>
  A relation between the states of the parser before and after that is closed under what the parser
  does itself and under every directive holds across whole files and strings.
\<close>

locale parser_relation =
  fixes R :: "Parser \<Rightarrow> Parser \<Rightarrow> bool"
  assumes refl: "R p p"
    and trans: "R p q \<Longrightarrow> R q r \<Longrightarrow> R p r"
    and position: "R p (p\<lparr>p_currentLine := l\<rparr>)" "R p (p\<lparr>p_currentDir := path\<rparr>)" "R p (p\<lparr>p_currentFile := f\<rparr>)"
    and included: "p_includeCount p < maxIncludeRecursion \<Longrightarrow> R p (p\<lparr>p_includeCount := Suc (p_includeCount p)\<rparr>)"
    and no_wd: "R p (p\<lparr>p_options := enter_failed opts p\<rparr>)"
    and directive: "map_of directivesMap name = Some d \<Longrightarrow> d h (enter_directive wd opts p) = Some (err, opt) \<Longrightarrow>
      R p (p\<lparr>p_options := opt\<rparr>)"
begin

definition steps :: "(string \<Rightarrow> Parser \<Rightarrow> parse_result) \<Rightarrow> bool" where
  "steps f \<longleftrightarrow> (\<forall>s p err p'. f s p = Some (err, p') \<longrightarrow> R p p')"

lemma evaluateLine_steps:
  assumes "steps inc"
  shows "steps (evaluateLine h inc)"
proof -
  have inc: "R p p'" if "inc opts (p\<lparr>p_includeCount := Suc (p_includeCount p)\<rparr>) = Some (err, p')"
    "p_includeCount p < maxIncludeRecursion" for opts p err p'
    using assms that trans [OF included [OF that(2)]] unfolding steps_def by blast
  show ?thesis
    unfolding steps_def evaluateLine_def Let_def
    by (auto simp: refl no_wd directive not_le split: if_split_asm prod.split_asm option.split_asm sum.split_asm
        intro: inc)
qed

lemma parse_lines_steps:
  assumes "steps eval" "parse_lines eval texts buf bt p = Some (err, p')"
  shows "R p p'"
  using assms(2)
proof (induction texts arbitrary: buf bt p)
  case (Cons t texts)
  let ?p = "p\<lparr>p_currentLine := p_currentLine p + 1\<rparr>"
  have p: "R p ?p" by (rule position)
  show ?case
  proof (cases "\<exists>buf bt. parse_lines eval texts buf bt ?p = Some (err, p')")
    case True
    with Cons.IH trans [OF p] show ?thesis by blast
  next
    case False
    with Cons.prems obtain s err1 q where q: "eval s ?p = Some (err1, q)"
      "(if err1 \<noteq> None then Some (err1, q) else parse_lines eval texts [] False q) = Some (err, p')"
      by (auto simp: Let_def split: if_split_asm)
    with assms(1) have "R ?p q" unfolding steps_def by blast
    then have "R p q" by (rule trans [OF p])
    moreover have "R q p'" using q(2) Cons.IH [of "[]" False q] refl by (cases err1) simp_all
    ultimately show ?thesis by (rule trans)
  qed
qed (simp add: refl)

lemma from_string_steps: "steps inc \<Longrightarrow> steps (from_string h inc)"
  using parse_lines_steps [OF evaluateLine_steps] unfolding steps_def from_string_def by blast

lemma enter_file_step: "R p (enter_file f p)"
  using trans [OF position(3) position(2)] by (simp add: enter_file_def Let_def)

lemma parse_files_steps:
  assumes "steps fromString" "parse_files fromString files p = Some (err, p')"
  shows "R p p'"
  using assms(2)
proof (induction files arbitrary: p)
  case (Cons f files)
  let ?p = "enter_file f p"
  show ?case
  proof (cases "fs_ReadFile (p_root ?p) (p_currentFile ?p)")
    case (Content body)
    with Cons.prems obtain err1 q where q: "fromString body ?p = Some (err1, q)"
      "(if err1 \<noteq> None then Some (err1, q) else parse_files fromString files (q\<lparr>p_currentDir := p_currentDir p\<rparr>)) = Some (err, p')"
      by (auto simp: Let_def)
    with assms(1) have "R ?p q" unfolding steps_def by blast
    then have "R p q" by (rule trans [OF enter_file_step])
    moreover have "R q p'"
    proof (cases err1)
      case None
      with q(2) have "parse_files fromString files (q\<lparr>p_currentDir := p_currentDir p\<rparr>) = Some (err, p')" by simp
      from Cons.IH [OF this] show ?thesis by (rule trans [OF position(2)])
    qed (use q(2) in \<open>simp add: refl\<close>)
    ultimately show ?thesis by (rule trans)
  qed (use Cons.prems enter_file_step in \<open>auto simp: Let_def\<close>)
qed (simp add: refl)

lemma FromFile_n_steps: "steps (FromFile_n n h)"
proof (induction n)
  case (Suc n)
  have "R p p'" if "FromFile_n (Suc n) h s p = Some (err, p')" for s p err p'
    using that parse_files_steps [OF from_string_steps [OF Suc]]
    by (auto simp: from_file_def refl simp del: parse_files.simps split: if_split_asm sum.split_asm)
  then show ?case unfolding steps_def by blast
qed (simp add: steps_def)

lemma FromFile_steps: "FromFile h s p = Some (err, p') \<Longrightarrow> R p p'"
  using FromFile_n_steps unfolding steps_def FromFile_def by blast

lemma FromString_steps: "FromString h s p = Some (err, p') \<Longrightarrow> R p p'"
  using from_string_steps [OF FromFile_n_steps] unfolding steps_def FromString_def FromFile_def by blast

end

section \<open>What configurations keep\<close>

lemma enter_keeps: "keeps (p_options p) (enter_directive wd opts p)"
  by (simp add: keeps_def enter_directive_def Let_def)

lemma directive_result:
  assumes "map_of directivesMap name = Some d" "d h (enter_directive wd opts p) = Some (err, opt)"
  shows "keeps (p_options p) opt"
proof -
  have "directive_keeps d" using map_of_SomeD [OF assms(1)] directivesMap_keeps by auto
  with assms(2) have "keeps (enter_directive wd opts p) opt" unfolding directive_keeps_def by blast
  with enter_keeps keeps_trans show ?thesis by blast
qed

interpretation kept: parser_relation "\<lambda>p p'. keeps (p_options p) (p_options p')"
  by unfold_locales (auto simp: keeps_refl directive_result enter_failed_def enter_keeps intro: keeps_trans)

interpretation counted: parser_relation
  "\<lambda>p p'. p_includeCount p \<le> p_includeCount p' \<and> p_includeCount p' \<le> max maxIncludeRecursion (p_includeCount p)"
  by unfold_locales auto

section \<open>The bound on includes\<close>

lemma parse_lines_cong:
  assumes "\<And>s q. c \<le> p_includeCount q \<Longrightarrow> eval1 s q = eval2 s q" "counted.steps eval1" "c \<le> p_includeCount p"
  shows "parse_lines eval1 texts buf bt p = parse_lines eval2 texts buf bt p"
  using assms(3)
proof (induction texts arbitrary: buf bt p)
  case (Cons t texts)
  let ?p = "p\<lparr>p_currentLine := p_currentLine p + 1\<rparr>"
  have eval: "(do { (err, p) \<leftarrow> eval1 s ?p; if err \<noteq> None then Some (err, p) else parse_lines eval1 texts [] b p }) =
    (do { (err, p) \<leftarrow> eval2 s ?p; if err \<noteq> None then Some (err, p) else parse_lines eval2 texts [] b p })" for s b
  proof (cases "eval1 s ?p")
    case None
    with assms(1) [of ?p s] Cons.prems show ?thesis by simp
  next
    case (Some res)
    obtain err q where q: "eval1 s ?p = Some (err, q)" using Some by (cases res) simp
    with assms(2) Cons.prems have "c \<le> p_includeCount q" unfolding counted.steps_def by fastforce
    with q assms(1) [of ?p s] Cons show ?thesis by simp
  qed
  show ?case using Cons eval by (simp add: Let_def)
qed simp

lemma parse_files_cong:
  assumes "\<And>s q. c \<le> p_includeCount q \<Longrightarrow> f1 s q = f2 s q" "counted.steps f1" "c \<le> p_includeCount p"
  shows "parse_files f1 files p = parse_files f2 files p"
  using assms(3)
proof (induction files arbitrary: p)
  case (Cons f files)
  let ?p = "enter_file f p"
  have p: "p_includeCount ?p = p_includeCount p" by (simp add: enter_file_def Let_def)
  have "(do { (err, q) \<leftarrow> f1 s ?p; if err \<noteq> None then Some (err, q) else parse_files f1 files (q\<lparr>p_currentDir := d\<rparr>) }) =
    (do { (err, q) \<leftarrow> f2 s ?p; if err \<noteq> None then Some (err, q) else parse_files f2 files (q\<lparr>p_currentDir := d\<rparr>) })" for s d
  proof (cases "f1 s ?p")
    case None
    with assms(1) [of ?p s] Cons.prems p show ?thesis by simp
  next
    case (Some res)
    obtain err q where q: "f1 s ?p = Some (err, q)" using Some by (cases res) simp
    with assms(2) Cons.prems p have "c \<le> p_includeCount q" unfolding counted.steps_def by fastforce
    with q assms(1) [of ?p s] Cons p show ?thesis by simp
  qed
  then show ?case by (simp add: Let_def split: read_result.split)
qed simp

lemma evaluateLine_cong:
  assumes "\<And>opts q. p_includeCount p < maxIncludeRecursion \<Longrightarrow> p_includeCount q = Suc (p_includeCount p) \<Longrightarrow> inc1 opts q = inc2 opts q"
  shows "evaluateLine h inc1 s p = evaluateLine h inc2 s p"
  using assms unfolding evaluateLine_def Let_def
  by (auto simp: not_le split: prod.split)

lemma from_string_cong:
  assumes "\<And>opts q. c < p_includeCount q \<Longrightarrow> p_includeCount q \<le> maxIncludeRecursion \<Longrightarrow> inc1 opts q = inc2 opts q"
    "counted.steps inc1" "c \<le> p_includeCount p"
  shows "from_string h inc1 s p = from_string h inc2 s p"
  unfolding from_string_def
  by (rule parse_lines_cong [OF _ counted.evaluateLine_steps [OF assms(2)] assms(3)])
    (rule evaluateLine_cong, rule assms(1), auto)

lemma FromFile_Suc_cong:
  assumes "\<And>opts q. p_includeCount p < p_includeCount q \<Longrightarrow> p_includeCount q \<le> maxIncludeRecursion \<Longrightarrow>
    FromFile_n n h opts q = FromFile_n m h opts q"
  shows "FromFile_n (Suc n) h f p = FromFile_n (Suc m) h f p"
proof -
  have "parse_files (from_string h (FromFile_n n h)) files p = parse_files (from_string h (FromFile_n m h)) files p" for files
    by (rule parse_files_cong [OF _ counted.from_string_steps [OF counted.FromFile_n_steps] order_refl])
      (rule from_string_cong [OF assms counted.FromFile_n_steps])
  then show ?thesis by (simp add: from_file_def del: parse_files.simps split: sum.split)
qed

lemma FromFile_n_cong:
  assumes "maxIncludeRecursion \<le> n + p_includeCount p" "maxIncludeRecursion \<le> m + p_includeCount p"
  shows "FromFile_n (Suc n) h f p = FromFile_n (Suc m) h f p"
  using assms
proof (induction n arbitrary: m f p)
  case 0
  then show ?case by (intro FromFile_Suc_cong) simp
next
  case (Suc n)
  show ?case
  proof (rule FromFile_Suc_cong)
    fix opts and q :: Parser
    assume q: "p_includeCount p < p_includeCount q" "p_includeCount q \<le> maxIncludeRecursion"
    with Suc.prems obtain k where "m = Suc k" by (cases m) auto
    with Suc.IH [of q k opts] Suc.prems q show "FromFile_n (Suc n) h opts q = FromFile_n m h opts q" by simp
  qed
qed

section \<open>Trimming of one-byte text\<close>

lemma runes_ascii_string: "is_ascii s \<Longrightarrow> runes s = map (\<lambda>c. (byte c, [c])) s"
  by (induction s) (simp_all add: is_ascii_def runes_ascii)

lemma TrimSpace_ascii:
  assumes "is_ascii s" "s \<noteq> []" "\<not> IsSpace (byte (hd s))" "\<not> IsSpace (byte (last s))"
  shows "TrimSpace s = s"
proof -
  let ?sp = "\<lambda>(r, _ :: string). IsSpace r" and ?rs = "map (\<lambda>c. (byte c, [c])) s"
  have "dropWhile ?sp ?rs = ?rs" using assms(2,3) by (cases s) simp_all
  moreover have "dropWhile ?sp (rev ?rs) = rev ?rs" using assms(2,4) by (cases s rule: rev_cases) simp_all
  moreover have "concat (map snd ?rs) = s" by (induction s) simp_all
  ultimately show ?thesis using assms(1) by (simp only: TrimSpace_def runes_ascii_string Let_def rev_rev_ident)
qed

section \<open>A concrete host\<close>

definition demo_host :: host where
  "demo_host = \<lparr>h_libs = no_libs, h_ext = no_extern, h_OpenFile = (\<lambda>_ _. None), h_Getwd = Inr ''/''\<rparr>"

definition any_text :: Regexp where
  "any_text = \<lparr>MatchString = (\<lambda>_. True), FindStringSubmatch = (\<lambda>s. [s]), SubexpNames = [[]], FindAllStringSubmatch = (\<lambda>s _. [[s]])\<rparr>"

definition demo_parser :: Parser where
  "demo_parser = NewParser \<lparr>fs_ReadFile = (\<lambda>_. NotExist), fs_Glob = (\<lambda>_. Inr [])\<rparr> (NewWAF any_text) new_settings initial_ids"

lemma scan_line: "CHR 0x0A \<notin> set s \<Longrightarrow> s \<noteq> [] \<Longrightarrow> last s \<noteq> CHR 0x0D \<Longrightarrow> length s < 65536 \<Longrightarrow> scan_lines s = [s]"
  by (simp add: scan_lines_def Split_no_sep_whole drop_cr_def)

lemma FromString_line:
  assumes "is_ascii s" "s \<noteq> []" "\<not> IsSpace (byte (hd s))" "\<not> IsSpace (byte (last s))" "hd s \<noteq> CHR ''#''"
    "last s \<notin> {CHR 0x60, CHR 0x5C}" "CHR 0x0A \<notin> set s" "length s < 65536"
    "evaluateLine h (FromFile h) s (p\<lparr>p_currentLine := p_currentLine p + 1\<rparr>) = Some (None, p')"
  shows "FromString h s p = Some (None, p')"
proof -
  have "last s \<noteq> CHR 0x0D" using assms(4) by (auto simp: IsSpace_def)
  with assms show ?thesis by (simp add: FromString_def from_string_def scan_line TrimSpace_ascii)
qed

lemma demo_marker:
  obtains p' where "FromString demo_host ''SecMarker end'' demo_parser = Some (None, p')"
    "length (w_Rules (o_WAF (p_options p'))) = 1"
proof -
  have low: "ToLower ''SecMarker'' = ''secmarker''"
    by (simp add: ToLower_def is_ascii_def lower_ascii_def in_range_def char_of_def bit_Suc_0_iff)
  have cut: "Cut ''SecMarker end'' (CHR '' '') = (''SecMarker'', ''end'', True)" by (simp add: Cut_def)
  have dir: "map_of directivesMap ''secmarker'' = Some directiveSecMarker" by (simp add: directivesMap_def)
  obtain p' where p': "evaluateLine demo_host (FromFile demo_host) ''SecMarker end'' (demo_parser\<lparr>p_currentLine := p_currentLine demo_parser + 1\<rparr>) = Some (None, p')"
    "length (w_Rules (o_WAF (p_options p'))) = 1"
    by (simp add: evaluateLine_def low cut dir line_opts_def demo_host_def directiveSecMarker_def add_rule_def Add_def
      demo_parser_def NewParser_def NewWAF_def NewRuleGroup_def enter_directive_def Let_def)
  have "FromString demo_host ''SecMarker end'' demo_parser = Some (None, p')"
    by (rule FromString_line [OF _ _ _ _ _ _ _ _ p'(1)]) (simp_all add: is_ascii_def IsSpace_def)
  with p'(2) that show thesis by blast
qed

section \<open>Properties\<close>

text \<open>
  C17. Includes cannot make the parser run forever: a bound on the depth of nested files that the
  counter of includes leaves open does not change the result, so the parser that is modelled with
  the depth 101 is the one of the code. And at most 100 includes are followed in all.
\<close>

theorem FromFile_depth:
  assumes "maxIncludeRecursion \<le> n + p_includeCount p"
  shows "FromFile_n (Suc n) h f p = FromFile h f p \<and>
    (\<forall>err p'. FromFile h f p = Some (err, p') \<longrightarrow> p_includeCount p' \<le> max maxIncludeRecursion (p_includeCount p))"
  using FromFile_n_cong [of n p maxIncludeRecursion h f] assms counted.FromFile_steps [of h f p]
  by (auto simp: FromFile_def)

theorem FromFile_depth_witness:
  "FromFile_n (Suc 300) demo_host ''/a'' demo_parser = FromFile demo_host ''/a'' demo_parser"
  using FromFile_depth [of 300 demo_parser demo_host "''/a''"] by (simp add: maxIncludeRecursion_def)

text \<open>
  C16. However a configuration adds, removes and updates rules, no two rules share an identifier, and
  every rule with an identifier heads a chain of rules that know their parent.
\<close>

theorem FromString_rules:
  assumes "FromString h data p = Some (err, p')" "rules_ok (w_Rules (o_WAF (p_options p)))"
  shows "rules_ok (w_Rules (o_WAF (p_options p')))"
  using kept.FromString_steps [OF assms(1)] assms(2) by (simp add: keeps_def)

theorem FromString_rules_witness:
  "\<exists>p'. FromString demo_host ''SecMarker end'' demo_parser = Some (None, p') \<and>
     rules_ok (w_Rules (o_WAF (p_options p'))) \<and> length (w_Rules (o_WAF (p_options p'))) = 1"
proof -
  obtain p' where p': "FromString demo_host ''SecMarker end'' demo_parser = Some (None, p')"
    "length (w_Rules (o_WAF (p_options p'))) = 1" by (rule demo_marker)
  have "rules_ok (w_Rules (o_WAF (p_options demo_parser)))"
    by (simp add: demo_parser_def NewParser_def NewWAF_def NewRuleGroup_def rules_ok_def unique_ids_def chains_ok_def)
  from FromString_rules [OF p'(1) this] p' show ?thesis by blast
qed

text \<open>
  No configuration changes what the engine does with a request body over the limit: the
  directive SecRequestBodyLimitAction sets a field that nothing reads.
\<close>

theorem limit_action_ignored:
  assumes "FromString h data (NewParser osfs (NewWAF any) settings ids) = Some (err, p')"
  shows "w_RequestBodyLimitAction (o_WAF (p_options p')) = RequestBodyLimitActionProcessPartial"
  using kept.FromString_steps [OF assms] by (simp add: keeps_def NewParser_def NewWAF_def)

theorem limit_action_ignored_witness:
  "\<exists>p'. FromString demo_host ''SecRequestBodyLimitAction Reject'' demo_parser = Some (None, p') \<and>
     s_RejectOnRequestBodyLimit (o_settings (p_options p')) \<and>
     w_RequestBodyLimitAction (o_WAF (p_options p')) = RequestBodyLimitActionProcessPartial"
proof -
  have low: "ToLower ''SecRequestBodyLimitAction'' = ''secrequestbodylimitaction''" "ToLower ''Reject'' = ''reject''"
    by (simp_all add: ToLower_def is_ascii_def lower_ascii_def in_range_def char_of_def bit_Suc_0_iff)
  have cut: "Cut ''SecRequestBodyLimitAction Reject'' (CHR '' '') = (''SecRequestBodyLimitAction'', ''Reject'', True)"
    by (simp add: Cut_def)
  have dir: "map_of directivesMap ''secrequestbodylimitaction'' = Some directiveSecRequestBodyLimitAction"
    by (simp add: directivesMap_def)
  obtain p' where p': "evaluateLine demo_host (FromFile demo_host) ''SecRequestBodyLimitAction Reject''
      (demo_parser\<lparr>p_currentLine := p_currentLine demo_parser + 1\<rparr>) = Some (None, p')"
    "s_RejectOnRequestBodyLimit (o_settings (p_options p'))"
    by (simp add: evaluateLine_def low cut dir line_opts_def demo_host_def directiveSecRequestBodyLimitAction_def
      ok_opts_def enter_directive_def Let_def)
  have "FromString demo_host ''SecRequestBodyLimitAction Reject'' demo_parser = Some (None, p')"
    by (rule FromString_line [OF _ _ _ _ _ _ _ _ p'(1)]) (simp_all add: is_ascii_def IsSpace_def)
  with p'(2) limit_action_ignored [of demo_host _ _ any_text new_settings initial_ids None p']
  show ?thesis by (auto simp: demo_parser_def)
qed

section \<open>Lines\<close>

text \<open>A line that ends in a backslash, and one that ends the directive.\<close>

definition code_line :: "string \<Rightarrow> bool" where
  "code_line text \<longleftrightarrow> TrimSpace text \<noteq> [] \<and> hd (TrimSpace text) \<noteq> CHR ''#'' \<and> last (TrimSpace text) \<noteq> CHR 0x60"

definition continued :: "string \<Rightarrow> bool" where
  "continued text \<longleftrightarrow> code_line text \<and> last (TrimSpace text) = CHR 0x5C"

definition fragments :: "string list \<Rightarrow> string" where
  "fragments texts = concat (map (\<lambda>t. butlast (TrimSpace t)) texts)"

lemma parse_lines_continued:
  "list_all continued texts \<Longrightarrow> parse_lines eval (texts @ rest) buf False p =
     parse_lines eval rest (buf @ fragments texts) False (p\<lparr>p_currentLine := p_currentLine p + int (length texts)\<rparr>)"
proof (induction texts arbitrary: buf p)
  case (Cons t texts)
  then show ?case by (simp add: continued_def code_line_def fragments_def Let_def add.assoc)
qed (simp add: fragments_def)

text \<open>
  Lines that end in a backslash are one directive with the line behind them: they are evaluated
  as a single line, trimmed and joined, at the number of its last line.
\<close>

theorem parse_lines_continuation:
  assumes "list_all continued texts" "code_line text" "\<not> continued text"
  shows "parse_lines eval (texts @ text # rest) [] False p =
    do { (err, p) \<leftarrow> eval (fragments texts @ TrimSpace text) (p\<lparr>p_currentLine := p_currentLine p + int (length texts) + 1\<rparr>);
         if err \<noteq> None then Some (err, p) else parse_lines eval rest [] False p }"
  using assms by (simp add: parse_lines_continued continued_def code_line_def)

theorem parse_lines_continuation_witness:
  "parse_lines (\<lambda>s p. Some (Some s, p)) [''SecRule '' @ [CHR 0x5C], ''  ARGS''] [] False demo_parser =
     Some (Some ''SecRule ARGS'', demo_parser\<lparr>p_currentLine := 2\<rparr>)"
proof -
  have trim: "TrimSpace (''SecRule '' @ [CHR 0x5C]) = ''SecRule '' @ [CHR 0x5C]" "TrimSpace ''  ARGS'' = ''ARGS''"
    by (simp_all add: TrimSpace_def runes_ascii IsSpace_def)
  then have "list_all continued [''SecRule '' @ [CHR 0x5C]]" "code_line ''  ARGS''" "\<not> continued ''  ARGS''"
    by (simp_all add: continued_def code_line_def)
  from parse_lines_continuation [OF this, of "\<lambda>s p. Some (Some s, p)" "[]" demo_parser] trim show ?thesis
    by (simp add: fragments_def demo_parser_def NewParser_def)
qed

text \<open>
  Two ends of a configuration are lost without an error: a directive whose last line ends in a
  backslash, and everything from a line of 64 KiB on.
\<close>

theorem FromString_lost:
  assumes "list_all continued (scan_lines data)"
  shows "FromString h data p = Some (None, p\<lparr>p_currentLine := p_currentLine p + int (length (scan_lines data))\<rparr>) \<and>
    (\<forall>long rest. 65536 \<le> length long \<and> CHR 0x0A \<notin> set long \<longrightarrow> FromString h (long @ CHR 0x0A # rest) p = Some (None, p))"
proof -
  have "scan_lines (long @ CHR 0x0A # rest) = []" if "65536 \<le> length long" "CHR 0x0A \<notin> set long" for long rest
  proof -
    have "long \<noteq> []" using that(1) by auto
    with that show ?thesis by (auto simp: scan_lines_def Split_append_sep Let_def)
  qed
  with parse_lines_continued [OF assms, of "evaluateLine h (FromFile h)" "[]" "[]" p]
  show ?thesis by (simp add: FromString_def from_string_def)
qed

theorem FromString_lost_witness:
  "FromString demo_host (''SecRuleEngine Off '' @ [CHR 0x5C]) demo_parser = Some (None, demo_parser\<lparr>p_currentLine := 1\<rparr>)"
proof -
  let ?s = "''SecRuleEngine Off '' @ [CHR 0x5C]"
  have "scan_lines ?s = [?s]" by (rule scan_line) simp_all
  moreover have "TrimSpace ?s = ?s" by (rule TrimSpace_ascii) (simp_all add: is_ascii_def IsSpace_def)
  ultimately have "list_all continued (scan_lines ?s)" "length (scan_lines ?s) = 1"
    by (simp_all add: continued_def code_line_def)
  with FromString_lost [of ?s demo_host demo_parser] show ?thesis by (simp add: demo_parser_def NewParser_def)
qed

section \<open>Datasets\<close>

text \<open>A line of a dataset.\<close>

definition entry :: "string \<Rightarrow> bool" where
  "entry l \<longleftrightarrow> l \<noteq> [] \<and> TrimSpace l = l \<and> hd l \<noteq> CHR ''#'' \<and> hd l \<noteq> CHR 0x60 \<and> CHR 0x0A \<notin> set l"

definition entries :: "string list \<Rightarrow> string" where
  "entries ls = concat (map (\<lambda>l. l @ [CHR 0x0A]) ls)"

lemma parse_lines_entries:
  "list_all entry ls \<Longrightarrow> parse_lines eval (ls @ rest) buf True p =
     parse_lines eval rest (buf @ entries ls) True (p\<lparr>p_currentLine := p_currentLine p + int (length ls)\<rparr>)"
proof (induction ls arbitrary: buf p)
  case (Cons l ls)
  then show ?case by (simp add: entry_def entries_def Let_def add.assoc)
qed (simp add: entries_def)

lemma dataset_lines_entries:
  assumes "list_all entry ls"
  shows "dataset_lines (CHR 0x0A # entries ls) = ls"
proof -
  have sp: "Split (entries ls) (CHR 0x0A) = ls @ [[]]"
    using assms by (induction ls) (simp_all add: entries_def entry_def Split_append_sep)
  have "map TrimSpace ls = ls" "filter (\<lambda>s. s \<noteq> [] \<and> hd s \<noteq> CHR ''#'') ls = ls"
    using assms by (induction ls) (simp_all add: entry_def)
  with sp show ?thesis by (simp add: dataset_lines_def TrimSpace_def)
qed

lemma dataset_directive:
  "ToLower ''SecDataset'' = ''secdataset''" "map_of directivesMap ''secdataset'' = Some directiveSecDataset"
  by (simp add: ToLower_def is_ascii_def lower_ascii_def in_range_def char_of_def bit_Suc_0_iff, simp add: directivesMap_def)

text \<open>
  A dataset that is written between backticks, one entry per line, is stored under its name, with
  the entries as they are written.
\<close>

theorem SecDataset_lines:
  assumes "list_all entry ls" "CHR '' '' \<notin> set name" "is_ascii name" "h_Getwd h = Inr wd"
  shows "\<exists>p'. parse_lines (evaluateLine h inc) ((''SecDataset '' @ name @ '' '' @ [CHR 0x60]) # ls @ [[CHR 0x60]]) [] False p = Some (None, p') \<and>
    o_Datasets (p_options p') = (o_Datasets (p_options p))(name \<mapsto> ls)"
proof -
  let ?first = "''SecDataset '' @ name @ '' '' @ [CHR 0x60]"
  let ?data = "''SecDataset '' @ name @ '' '' @ [CHR 0x60] @ [CHR 0x0A] @ entries ls @ [CHR 0x60]"
  let ?d = "[CHR 0x60] @ [CHR 0x0A] @ entries ls @ [CHR 0x60]"
  have trim: "TrimSpace ?first = ?first" "TrimSpace [CHR 0x60] = [CHR 0x60]"
    using assms(3) by (auto intro!: TrimSpace_ascii simp: is_ascii_def IsSpace_def)
  have ev: "\<exists>p'. evaluateLine h inc ?data q = Some (None, p') \<and> o_Datasets (p_options p') = (o_Datasets (p_options q))(name \<mapsto> ls)" for q
  proof -
    have "Cut ?data (CHR '' '') = (''SecDataset'', name @ '' '' @ ?d, True)"
      using Cut_found [of "CHR '' ''" "''SecDataset''" "name @ '' '' @ ?d"] by simp
    moreover have "line_opts (name @ '' '' @ ?d) = name @ '' '' @ ?d"
      by (simp add: line_opts_def)
    moreover have "Cut (name @ '' '' @ ?d) (CHR '' '') = (name, ?d, True)"
      using Cut_found [of "CHR '' ''" name ?d] assms(2) by simp
    moreover have "TrimByte ?d (CHR 0x60) = CHR 0x0A # entries ls"
    proof -
      have "entries ls = [] \<or> last (entries ls) = CHR 0x0A" by (cases ls rule: rev_cases) (simp_all add: entries_def)
      then show ?thesis
        by (cases "entries ls" rule: rev_cases) (simp_all add: TrimByte_def)
    qed
    ultimately show ?thesis
      using assms(4) dataset_lines_entries [OF assms(1)]
      by (simp add: evaluateLine_def dataset_directive directiveSecDataset_def enter_directive_def ok_opts_def Let_def)
  qed
  obtain p' where p': "evaluateLine h inc ?data (p\<lparr>p_currentLine := p_currentLine p + int (length ls) + 2\<rparr>) = Some (None, p')"
    "o_Datasets (p_options p') = (o_Datasets (p_options p))(name \<mapsto> ls)"
    using ev [of "p\<lparr>p_currentLine := p_currentLine p + int (length ls) + 2\<rparr>"] by auto
  have "parse_lines (evaluateLine h inc) (?first # ls @ [[CHR 0x60]]) [] False p = Some (None, p')"
    using p'(1) parse_lines_entries [OF assms(1), of "evaluateLine h inc" "[[CHR 0x60]]" "?first @ [CHR 0x0A]"
        "p\<lparr>p_currentLine := p_currentLine p + 1\<rparr>"] trim
    by (simp add: Let_def algebra_simps)
  with p'(2) show ?thesis by blast
qed

theorem SecDataset_lines_witness:
  "\<exists>p'. parse_lines (evaluateLine demo_host (FromFile demo_host)) [''SecDataset bad '' @ [CHR 0x60], ''evil'', [CHR 0x60]] [] False
     demo_parser = Some (None, p') \<and> o_Datasets (p_options p') = [''bad'' \<mapsto> [''evil'']]"
proof -
  have "TrimSpace ''evil'' = ''evil''" by (rule TrimSpace_ascii) (simp_all add: is_ascii_def IsSpace_def)
  then have "list_all entry [''evil'']" by (simp add: entry_def)
  from SecDataset_lines [OF this, of "''bad''" demo_host "''/''" "FromFile demo_host" demo_parser] show ?thesis
    by (simp add: is_ascii_def demo_host_def demo_parser_def NewParser_def)
qed

end
