(* ===== verification/Coraza.thy ===== *)
theory Coraza
  imports Seclang
begin

text \<open>
  The public interface (src/config.go, src/waf.go): configurations built by a chain of \<open>With\<close>
  functions, and the WAF that a configuration describes.

  Configurations are objects behind pointers, and a WAF configuration points to the configurations of
  its parts; the documentation promises that they are immutable. So the model has a store with one list of
  objects per type, and a pointer is a position in its list. The rules of a WAF configuration are a slice, a length
  and a pointer to an array in the store, which is where configurations could share what they should not.
  Rules given as objects (\<open>WithRules\<close>) are values.
\<close>

section \<open>Objects\<close>

record wafRule =
  wr_rule :: "ChainedRule option"
  wr_str :: string
  wr_file :: string

text \<open>A slice of rules: its array, of which the length is the capacity of the slice, and its length. A nil slice has no array.\<close>

record rules_slice =
  sl_array :: "nat option"
  sl_len :: nat

record wafConfig =
  c_rules :: rules_slice
  c_auditLog :: "nat option"
  c_contentInjection :: bool
  c_requestBody :: "nat option"
  c_responseBody :: "nat option"
  c_debugLogger :: "stdDebugLogger option"
  c_errorCallback :: bool
  c_fsRoot :: "FS option"

record requestBodyConfig =
  rq_limit :: int
  rq_inMemoryLimit :: int

record responseBodyConfig =
  rs_limit :: int
  rs_inMemoryLimit :: int
  rs_mimeTypes :: "string list"

record auditLogConfig =
  al_relevantOnly :: bool
  al_parts :: string
  al_logger :: "LogWriter option"

record config_store =
  st_arrays :: "wafRule list list"
  st_waf :: "wafConfig list"
  st_request :: "requestBodyConfig list"
  st_response :: "responseBodyConfig list"
  st_audit :: "auditLogConfig list"

type_synonym config_op = "config_store \<Rightarrow> config_store \<times> nat"

section \<open>Slices\<close>

definition no_rule :: wafRule where
  "no_rule = \<lparr>wr_rule = None, wr_str = [], wr_file = []\<rparr>"

definition nil_slice :: rules_slice where
  "nil_slice = \<lparr>sl_array = None, sl_len = 0\<rparr>"

definition slice_cap :: "config_store \<Rightarrow> rules_slice \<Rightarrow> nat" where
  "slice_cap s sl = (case sl_array sl of None \<Rightarrow> 0 | Some a \<Rightarrow> length (st_arrays s ! a))"

definition slice_elems :: "config_store \<Rightarrow> rules_slice \<Rightarrow> wafRule list" where
  "slice_elems s sl = (case sl_array sl of None \<Rightarrow> [] | Some a \<Rightarrow> take (sl_len sl) (st_arrays s ! a))"

definition make_rules :: "nat \<Rightarrow> config_store \<Rightarrow> config_store \<times> rules_slice" where
  "make_rules n s = (s\<lparr>st_arrays := st_arrays s @ [replicate n no_rule]\<rparr>, \<lparr>sl_array = Some (length (st_arrays s)), sl_len = n\<rparr>)"

definition copy_rules :: "rules_slice \<Rightarrow> rules_slice \<Rightarrow> config_store \<Rightarrow> config_store" where
  "copy_rules dst src s =
     (case sl_array dst of
        None \<Rightarrow> s
      | Some a \<Rightarrow>
          let n = min (sl_len dst) (sl_len src)
          in s\<lparr>st_arrays := (st_arrays s)[a := take n (slice_elems s src) @ drop n (st_arrays s ! a)]\<rparr>)"

text \<open>
  \<open>append\<close>: in place when the array has room, whoever else uses it, or else into a new array. How much room the
  new array has is up to the runtime, \<open>grow\<close>.
\<close>

definition append_rule :: "(nat \<Rightarrow> nat) \<Rightarrow> wafRule \<Rightarrow> config_store \<times> rules_slice \<Rightarrow> config_store \<times> rules_slice" where
  "append_rule grow r = (\<lambda>(s, sl).
     if sl_len sl < slice_cap s sl then
       let a = the (sl_array sl)
       in (s\<lparr>st_arrays := (st_arrays s)[a := (st_arrays s ! a)[sl_len sl := r]]\<rparr>, sl\<lparr>sl_len := sl_len sl + 1\<rparr>)
     else
       (s\<lparr>st_arrays := st_arrays s @ [slice_elems s sl @ r # replicate (grow (sl_len sl)) no_rule]\<rparr>,
        \<lparr>sl_array = Some (length (st_arrays s)), sl_len = sl_len sl + 1\<rparr>))"

section \<open>New configurations\<close>

definition NewWAFConfig :: config_op where
  "NewWAFConfig s = (s\<lparr>st_waf := st_waf s @ [\<lparr>c_rules = nil_slice, c_auditLog = None, c_contentInjection = False, c_requestBody = None,
     c_responseBody = None, c_debugLogger = None, c_errorCallback = False, c_fsRoot = None\<rparr>]\<rparr>, length (st_waf s))"

definition NewRequestBodyConfig :: config_op where
  "NewRequestBodyConfig s = (s\<lparr>st_request := st_request s @ [\<lparr>rq_limit = 0, rq_inMemoryLimit = 0\<rparr>]\<rparr>, length (st_request s))"

definition NewResponseBodyConfig :: config_op where
  "NewResponseBodyConfig s =
     (s\<lparr>st_response := st_response s @ [\<lparr>rs_limit = 0, rs_inMemoryLimit = 0, rs_mimeTypes = []\<rparr>]\<rparr>, length (st_response s))"

definition NewAuditLogConfig :: config_op where
  "NewAuditLogConfig s =
     (s\<lparr>st_audit := st_audit s @ [\<lparr>al_relevantOnly = False, al_parts = [], al_logger = None\<rparr>]\<rparr>, length (st_audit s))"

section \<open>Configuring a WAF\<close>

definition wafConfig_clone :: "nat \<Rightarrow> config_op" where
  "wafConfig_clone c s =
     (let config = st_waf s ! c;
          (s, rules) = make_rules (sl_len (c_rules config)) s;
          s = copy_rules rules (c_rules config) s
      in (s\<lparr>st_waf := st_waf s @ [config\<lparr>c_rules := rules\<rparr>]\<rparr>, length (st_waf s)))"

text \<open>\<open>ret := c.clone()\<close>, an assignment to \<open>ret\<close>, and \<open>return ret\<close>.\<close>

definition with_waf :: "(wafConfig \<Rightarrow> wafConfig) \<Rightarrow> nat \<Rightarrow> config_op" where
  "with_waf f c s = (let (s, ret) = wafConfig_clone c s in (s\<lparr>st_waf := (st_waf s)[ret := f (st_waf s ! ret)]\<rparr>, ret))"

text \<open>\<open>ret := c.clone()\<close>, \<open>ret.rules = append(ret.rules, r)\<close> for each of the rules, and \<open>return ret\<close>.\<close>

definition add_wafRules :: "(nat \<Rightarrow> nat) \<Rightarrow> wafRule list \<Rightarrow> nat \<Rightarrow> config_op" where
  "add_wafRules grow rs c s =
     (let (s, ret) = wafConfig_clone c s;
          (s, rules) = fold (append_rule grow) rs (s, c_rules (st_waf s ! ret))
      in (s\<lparr>st_waf := (st_waf s)[ret := (st_waf s ! ret)\<lparr>c_rules := rules\<rparr>]\<rparr>, ret))"

definition WithRules :: "(nat \<Rightarrow> nat) \<Rightarrow> ChainedRule option list \<Rightarrow> nat \<Rightarrow> config_op" where
  "WithRules grow rules c s =
     (if rules = [] then (s, c) else add_wafRules grow (map (\<lambda>r. no_rule\<lparr>wr_rule := r\<rparr>) rules) c s)"

definition WithDirectivesFromFile :: "(nat \<Rightarrow> nat) \<Rightarrow> string \<Rightarrow> nat \<Rightarrow> config_op" where
  "WithDirectivesFromFile grow path = add_wafRules grow [no_rule\<lparr>wr_file := path\<rparr>]"

definition WithDirectives :: "(nat \<Rightarrow> nat) \<Rightarrow> string \<Rightarrow> nat \<Rightarrow> config_op" where
  "WithDirectives grow directives = add_wafRules grow [no_rule\<lparr>wr_str := directives\<rparr>]"

definition WithAuditLog :: "nat \<Rightarrow> nat \<Rightarrow> config_op" where
  "WithAuditLog config = with_waf (\<lambda>c. c\<lparr>c_auditLog := Some config\<rparr>)"

definition WithContentInjection :: "nat \<Rightarrow> config_op" where
  "WithContentInjection = with_waf (\<lambda>c. c\<lparr>c_contentInjection := True\<rparr>)"

definition WithRequestBodyAccess :: "nat \<Rightarrow> nat \<Rightarrow> config_op" where
  "WithRequestBodyAccess config = with_waf (\<lambda>c. c\<lparr>c_requestBody := Some config\<rparr>)"

definition WithResponseBodyAccess :: "nat \<Rightarrow> nat \<Rightarrow> config_op" where
  "WithResponseBodyAccess config = with_waf (\<lambda>c. c\<lparr>c_responseBody := Some config\<rparr>)"

definition WithDebugLogger :: "stdDebugLogger option \<Rightarrow> nat \<Rightarrow> config_op" where
  "WithDebugLogger logger = with_waf (\<lambda>c. c\<lparr>c_debugLogger := logger\<rparr>)"

definition WithErrorCallback :: "bool \<Rightarrow> nat \<Rightarrow> config_op" where
  "WithErrorCallback logger = with_waf (\<lambda>c. c\<lparr>c_errorCallback := logger\<rparr>)"

definition WithRootFS :: "FS option \<Rightarrow> nat \<Rightarrow> config_op" where
  "WithRootFS fs = with_waf (\<lambda>c. c\<lparr>c_fsRoot := fs\<rparr>)"

section \<open>Configuring its parts\<close>

definition requestBodyConfig_clone :: "nat \<Rightarrow> config_op" where
  "requestBodyConfig_clone c s = (s\<lparr>st_request := st_request s @ [st_request s ! c]\<rparr>, length (st_request s))"

definition request_WithLimit :: "int \<Rightarrow> nat \<Rightarrow> config_op" where
  "request_WithLimit limit c s =
     (let (s, ret) = requestBodyConfig_clone c s
      in (s\<lparr>st_request := (st_request s)[ret := (st_request s ! ret)\<lparr>rq_limit := limit\<rparr>]\<rparr>, ret))"

definition request_WithInMemoryLimit :: "int \<Rightarrow> nat \<Rightarrow> config_op" where
  "request_WithInMemoryLimit limit c s =
     (let (s, ret) = requestBodyConfig_clone c s
      in (s\<lparr>st_request := (st_request s)[ret := (st_request s ! ret)\<lparr>rq_inMemoryLimit := limit\<rparr>]\<rparr>, ret))"

definition responseBodyConfig_clone :: "nat \<Rightarrow> config_op" where
  "responseBodyConfig_clone c s = (s\<lparr>st_response := st_response s @ [st_response s ! c]\<rparr>, length (st_response s))"

definition response_WithLimit :: "int \<Rightarrow> nat \<Rightarrow> config_op" where
  "response_WithLimit limit c s =
     (let (s, ret) = responseBodyConfig_clone c s
      in (s\<lparr>st_response := (st_response s)[ret := (st_response s ! ret)\<lparr>rs_limit := limit\<rparr>]\<rparr>, ret))"

definition response_WithInMemoryLimit :: "int \<Rightarrow> nat \<Rightarrow> config_op" where
  "response_WithInMemoryLimit limit c s =
     (let (s, ret) = responseBodyConfig_clone c s
      in (s\<lparr>st_response := (st_response s)[ret := (st_response s ! ret)\<lparr>rs_inMemoryLimit := limit\<rparr>]\<rparr>, ret))"

definition WithMimeTypes :: "string list \<Rightarrow> nat \<Rightarrow> config_op" where
  "WithMimeTypes mimeTypes c s =
     (let (s, ret) = responseBodyConfig_clone c s
      in (s\<lparr>st_response := (st_response s)[ret := (st_response s ! ret)\<lparr>rs_mimeTypes := mimeTypes\<rparr>]\<rparr>, ret))"

definition auditLogConfig_clone :: "nat \<Rightarrow> config_op" where
  "auditLogConfig_clone c s = (s\<lparr>st_audit := st_audit s @ [st_audit s ! c]\<rparr>, length (st_audit s))"

text \<open>The field of the receiver \<open>c\<close> is set, not that of its clone \<open>ret\<close>.\<close>

definition LogRelevantOnly :: "nat \<Rightarrow> config_op" where
  "LogRelevantOnly c s =
     (let (s, ret) = auditLogConfig_clone c s
      in (s\<lparr>st_audit := (st_audit s)[c := (st_audit s ! c)\<lparr>al_relevantOnly := True\<rparr>]\<rparr>, ret))"

definition WithParts :: "string \<Rightarrow> nat \<Rightarrow> config_op" where
  "WithParts parts c s =
     (let (s, ret) = auditLogConfig_clone c s
      in (s\<lparr>st_audit := (st_audit s)[ret := (st_audit s ! ret)\<lparr>al_parts := parts\<rparr>]\<rparr>, ret))"

definition WithLogger :: "LogWriter option \<Rightarrow> nat \<Rightarrow> config_op" where
  "WithLogger logger c s =
     (let (s, ret) = auditLogConfig_clone c s
      in (s\<lparr>st_audit := (st_audit s)[ret := (st_audit s ! ret)\<lparr>al_logger := logger\<rparr>]\<rparr>, ret))"

section \<open>The WAF of a configuration\<close>

definition invalid_config :: "string \<Rightarrow> string" where
  "invalid_config err = ''invalid WAF config: '' @ err"

text \<open>The loop of \<open>NewWAF\<close> over the rules, on the parser and its WAF.\<close>

fun load_rules :: "host \<Rightarrow> wafRule list \<Rightarrow> Parser \<Rightarrow> parse_result" where
  "load_rules h [] p = Some (None, p)"
| "load_rules h (r # rs) p =
     do { (err, p) \<leftarrow>
            (case wr_rule r of
               Some rule \<Rightarrow>
                 let (err, rules) = Add (Some rule) (w_Rules (o_WAF (p_options p)))
                 in Some (err, p\<lparr>p_options := set_rules rules (p_options p)\<rparr>)
             | None \<Rightarrow>
                 if wr_str r \<noteq> [] then FromString h (wr_str r) p
                 else if wr_file r \<noteq> [] then FromFile h (wr_file r) p
                 else Some (None, p));
          (case err of Some e \<Rightarrow> Some (Some (invalid_config e), p) | None \<Rightarrow> load_rules h rs p) }"

definition apply_auditLog :: "auditLogConfig \<Rightarrow> DirectiveOptions \<Rightarrow> DirectiveOptions" where
  "apply_auditLog a opt =
     (let opt = set_waf (\<lambda>w. w\<lparr>w_AuditEngine := (if al_relevantOnly a then AuditEngineRelevantOnly else AuditEngineOn),
            w_AuditLogParts := al_parts a\<rparr>) opt
      in case al_logger a of
           None \<Rightarrow> opt
         | Some l \<Rightarrow> set_setting (\<lambda>s. s\<lparr>s_AuditLogWriter := l\<rparr>) (set_waf (\<lambda>w. w\<lparr>w_AuditLogWriter := True\<rparr>) opt))"

definition apply_requestBody :: "requestBodyConfig \<Rightarrow> DirectiveOptions \<Rightarrow> string + DirectiveOptions" where
  "apply_requestBody r opt =
     (if rq_limit r \<le> 0 then Inl ''request body limit should be bigger than 0''
      else if rq_limit r < rq_inMemoryLimit r then Inl ''request body limit should be at least the memory limit''
      else Inr (set_waf (\<lambda>w. w\<lparr>w_RequestBodyAccess := True, w_RequestBodyLimit := rq_limit r,
             w_RequestBodyInMemoryLimit := rq_inMemoryLimit r\<rparr>) opt))"

definition apply_responseBody :: "responseBodyConfig \<Rightarrow> DirectiveOptions \<Rightarrow> string + DirectiveOptions" where
  "apply_responseBody r opt =
     (if rs_limit r \<le> 0 then Inl ''response body limit should be bigger than 0''
      else Inr (set_waf (\<lambda>w. w\<lparr>w_ResponseBodyAccess := True, w_ResponseBodyLimit := rs_limit r\<rparr>) opt))"

text \<open>\<open>if r := p; r != nil\<close>, with a step that may fail.\<close>

definition when_set :: "'c option \<Rightarrow> ('c \<Rightarrow> 'o \<Rightarrow> string + 'o) \<Rightarrow> 'o \<Rightarrow> string + 'o" where
  "when_set c f opt = (case c of None \<Rightarrow> Inr opt | Some x \<Rightarrow> f x opt)"

definition deref :: "'c list \<Rightarrow> nat option \<Rightarrow> 'c option" where
  "deref objects p = map_option (\<lambda>a. objects ! a) p"

definition apply_config :: "config_store \<Rightarrow> wafConfig \<Rightarrow> DirectiveOptions \<Rightarrow> string + DirectiveOptions" where
  "apply_config s c opt =
     (let opt = (case deref (st_audit s) (c_auditLog c) of None \<Rightarrow> opt | Some a \<Rightarrow> apply_auditLog a opt);
          opt = (if c_contentInjection c then set_waf (\<lambda>w. w\<lparr>w_ContentInjection := True\<rparr>) opt else opt)
      in case when_set (deref (st_request s) (c_requestBody c)) apply_requestBody opt of
           Inl err \<Rightarrow> Inl err
         | Inr opt \<Rightarrow>
             (case when_set (deref (st_response s) (c_responseBody c)) apply_responseBody opt of
                Inl err \<Rightarrow> Inl err
              | Inr opt \<Rightarrow> Inr (if c_errorCallback c then set_waf (SetErrorCallback True) opt else opt)))"

text \<open>
  The result is the WAF with its settings, in the record of a directive's options. The parameters are the
  host, the file system of the system, the compiled expression \<^verbatim>\<open>.*\<close>, and the tables of
  transformations, which all WAFs share.
\<close>

definition coraza_NewWAF :: "host \<Rightarrow> FS \<Rightarrow> Regexp \<Rightarrow> transformationIDs \<Rightarrow> config_store \<Rightarrow> nat \<Rightarrow> (string + DirectiveOptions) go" where
  "coraza_NewWAF h osfs any ids s config =
     (let c = st_waf s ! config;
          settings = (case c_debugLogger c of None \<Rightarrow> new_settings | Some l \<Rightarrow> new_settings\<lparr>s_Logger := l\<rparr>);
          parser = NewParser osfs (NewWAF any) settings ids;
          parser = (case c_fsRoot c of None \<Rightarrow> parser | Some root \<Rightarrow> SetRoot root parser)
      in do { (err, parser) \<leftarrow> load_rules h (slice_elems s (c_rules c)) parser;
              Some (case err of Some e \<Rightarrow> Inl e | None \<Rightarrow> apply_config s c (p_options parser)) })"

text \<open>The methods of \<open>wafWrapper\<close> pass on to the WAF.\<close>

definition wrapper_NewTransaction :: "DirectiveOptions \<Rightarrow> nat list \<Rightarrow> nat list \<Rightarrow> Transaction option \<Rightarrow> Transaction option" where
  "wrapper_NewTransaction w = NewTransaction (o_WAF w)"

definition wrapper_NewTransactionWithID :: "DirectiveOptions \<Rightarrow> nat list \<Rightarrow> nat list \<Rightarrow> string \<Rightarrow> Transaction option \<Rightarrow> Transaction option" where
  "wrapper_NewTransactionWithID w = NewTransactionWithID (o_WAF w)"

section \<open>Immutability\<close>

text \<open>
  The contract of a \<open>With\<close> function on a good store, for what can be seen of the objects: it leaves every
  object alone and returns a new one, the changed copy of its receiver.
\<close>

locale copy_on_write =
  fixes good :: "config_store \<Rightarrow> bool" and objects :: "config_store \<Rightarrow> 'a list" and op :: "nat \<Rightarrow> config_op" and change :: "'a \<Rightarrow> 'a"
  assumes op: "good s \<Longrightarrow> c < length (objects s) \<Longrightarrow> objects (fst (op c s)) = objects s @ [change (objects s ! c)]"
    and ret: "snd (op c s) = length (objects s)"
begin

lemma kept: "good s \<Longrightarrow> c < length (objects s) \<Longrightarrow> a < length (objects s) \<Longrightarrow> objects (fst (op c s)) ! a = objects s ! a"
  by (simp add: op nth_append)

lemma returned: "good s \<Longrightarrow> c < length (objects s) \<Longrightarrow> objects (fst (op c s)) ! snd (op c s) = change (objects s ! c)"
  by (simp add: op ret nth_append)

end

lemmas waf_ops = WithAuditLog_def WithContentInjection_def WithRequestBodyAccess_def
  WithResponseBodyAccess_def WithDebugLogger_def WithErrorCallback_def WithRootFS_def

lemmas rule_ops = WithRules_def WithDirectivesFromFile_def WithDirectives_def

lemmas part_ops = request_WithLimit_def request_WithInMemoryLimit_def response_WithLimit_def response_WithInMemoryLimit_def
  WithMimeTypes_def WithParts_def WithLogger_def requestBodyConfig_clone_def responseBodyConfig_clone_def auditLogConfig_clone_def

text \<open>Pointers point to objects, and a slice is within its array.\<close>

definition slice_wf :: "config_store \<Rightarrow> rules_slice \<Rightarrow> bool" where
  "slice_wf s sl \<longleftrightarrow> (case sl_array sl of
     None \<Rightarrow> sl_len sl = 0
   | Some a \<Rightarrow> a < length (st_arrays s) \<and> sl_len sl \<le> length (st_arrays s ! a))"

definition pointers_wf :: "config_store \<Rightarrow> wafConfig \<Rightarrow> bool" where
  "pointers_wf s c \<longleftrightarrow> (\<forall>a. c_auditLog c = Some a \<longrightarrow> a < length (st_audit s)) \<and>
     (\<forall>a. c_requestBody c = Some a \<longrightarrow> a < length (st_request s)) \<and> (\<forall>a. c_responseBody c = Some a \<longrightarrow> a < length (st_response s))"

definition store_wf :: "config_store \<Rightarrow> bool" where
  "store_wf s \<longleftrightarrow> (\<forall>c\<in>set (st_waf s). slice_wf s (c_rules c) \<and> pointers_wf s c)"

lemma slice_waf [simp]: "slice_wf (s\<lparr>st_waf := x\<rparr>) sl = slice_wf s sl" "slice_elems (s\<lparr>st_waf := x\<rparr>) sl = slice_elems s sl"
  by (simp_all add: slice_wf_def slice_elems_def split: option.split)

text \<open>What can be seen of a WAF configuration: its rules, and its other fields.\<close>

definition waf_view :: "config_store \<Rightarrow> wafConfig \<Rightarrow> wafRule list \<times> wafConfig" where
  "waf_view s c = (slice_elems s (c_rules c), c\<lparr>c_rules := nil_slice\<rparr>)"

abbreviation waf_views :: "config_store \<Rightarrow> (wafRule list \<times> wafConfig) list" where
  "waf_views s \<equiv> map (waf_view s) (st_waf s)"

text \<open>A clone has an array of its own, behind all others, with the rules of its original.\<close>

lemma slice_elems_grow:
  assumes "slice_wf s sl" "prefix (st_arrays s) (st_arrays s')"
  shows "slice_elems s' sl = slice_elems s sl" "slice_wf s' sl"
  using assms by (auto simp: slice_wf_def slice_elems_def nth_append elim!: prefixE split: option.splits)

lemma slice_elems_length: "slice_wf s sl \<Longrightarrow> length (slice_elems s sl) = sl_len sl"
  by (auto simp: slice_wf_def slice_elems_def split: option.splits)

lemma wafConfig_clone_shape:
  "\<exists>A. wafConfig_clone c s = (s\<lparr>st_arrays := st_arrays s @ [A],
     st_waf := st_waf s @ [(st_waf s ! c)\<lparr>c_rules := \<lparr>sl_array = Some (length (st_arrays s)), sl_len = sl_len (c_rules (st_waf s ! c))\<rparr>\<rparr>]\<rparr>,
     length (st_waf s)) \<and> (slice_wf s (c_rules (st_waf s ! c)) \<longrightarrow> A = slice_elems s (c_rules (st_waf s ! c)))"
proof -
  let ?sl = "c_rules (st_waf s ! c)"
  let ?s = "s\<lparr>st_arrays := st_arrays s @ [replicate (sl_len ?sl) no_rule]\<rparr>"
  have "slice_wf s ?sl \<Longrightarrow> slice_elems ?s ?sl = slice_elems s ?sl" by (rule slice_elems_grow) simp_all
  then show ?thesis
    by (auto simp: wafConfig_clone_def make_rules_def copy_rules_def Let_def slice_elems_length)
qed

text \<open>Appending to a slice with an array of its own, which the store \<open>s0\<close> did not have, leaves the arrays of \<open>s0\<close> alone.\<close>

definition own_slice :: "config_store \<Rightarrow> wafRule list \<Rightarrow> config_store \<times> rules_slice \<Rightarrow> bool" where
  "own_slice s0 xs = (\<lambda>(s, sl). s = s0\<lparr>st_arrays := st_arrays s\<rparr> \<and> prefix (st_arrays s0) (st_arrays s) \<and> slice_wf s sl \<and>
     slice_elems s sl = xs \<and> (\<exists>a. sl_array sl = Some a \<and> length (st_arrays s0) \<le> a))"

lemma own_slice_append:
  assumes "own_slice s0 xs (s, sl)"
  shows "own_slice s0 (xs @ [r]) (append_rule grow r (s, sl))"
proof -
  obtain a where a: "sl_array sl = Some a" "length (st_arrays s0) \<le> a" "a < length (st_arrays s)" "sl_len sl \<le> length (st_arrays s ! a)"
    and o: "s = s0\<lparr>st_arrays := st_arrays s\<rparr>" "prefix (st_arrays s0) (st_arrays s)" "take (sl_len sl) (st_arrays s ! a) = xs"
    using assms by (auto simp: own_slice_def slice_wf_def slice_elems_def)
  have len: "length xs = sl_len sl" using o(3) a(4) by auto
  obtain zs where zs: "st_arrays s = st_arrays s0 @ zs" using o(2) by (auto elim: prefixE)
  have upd: "s\<lparr>st_arrays := ys\<rparr> = s0\<lparr>st_arrays := ys\<rparr>" for ys by (subst o(1)) simp
  show ?thesis
  proof (cases "sl_len sl < slice_cap s sl")
    case True
    then have n: "sl_len sl < length (st_arrays s ! a)" by (simp add: slice_cap_def a(1))
    have "prefix (st_arrays s0) ((st_arrays s)[a := (st_arrays s ! a)[sl_len sl := r]])"
      using a(2) by (simp add: zs list_update_append)
    moreover have "take (Suc (sl_len sl)) ((st_arrays s ! a)[sl_len sl := r]) = xs @ [r]"
      using n o(3) by (simp add: take_Suc_conv_app_nth)
    ultimately show ?thesis
      using True a n by (simp add: append_rule_def own_slice_def slice_wf_def slice_elems_def upd Let_def)
  next
    case False
    have "prefix (st_arrays s0) (st_arrays s @ [ys])" for ys by (simp add: zs)
    with False show ?thesis
      using a o(3) len prefix_length_le [OF o(2)]
      by (auto simp: append_rule_def own_slice_def slice_wf_def slice_elems_def upd nth_append)
  qed
qed

lemma own_slice_fold:
  "own_slice s0 xs (s, sl) \<Longrightarrow> own_slice s0 (xs @ rs) (fold (append_rule grow) rs (s, sl))"
proof (induction rs arbitrary: xs s sl)
  case (Cons r rs)
  obtain s1 sl1 where a: "append_rule grow r (s, sl) = (s1, sl1)" by fastforce
  with own_slice_append [OF Cons.prems, of r grow] Cons.IH [of "xs @ [r]" s1 sl1] show ?case by simp
qed simp

text \<open>The results of the functions on WAF configurations: a new configuration, and new arrays.\<close>

lemma with_waf_shape:
  "\<exists>A. with_waf f c s = (s\<lparr>st_arrays := st_arrays s @ [A],
     st_waf := st_waf s @ [f ((st_waf s ! c)\<lparr>c_rules := \<lparr>sl_array = Some (length (st_arrays s)), sl_len = sl_len (c_rules (st_waf s ! c))\<rparr>\<rparr>)]\<rparr>,
     length (st_waf s)) \<and> (slice_wf s (c_rules (st_waf s ! c)) \<longrightarrow> A = slice_elems s (c_rules (st_waf s ! c)))"
proof -
  from wafConfig_clone_shape [of c s] obtain A where "wafConfig_clone c s = (s\<lparr>st_arrays := st_arrays s @ [A],
     st_waf := st_waf s @ [(st_waf s ! c)\<lparr>c_rules := \<lparr>sl_array = Some (length (st_arrays s)), sl_len = sl_len (c_rules (st_waf s ! c))\<rparr>\<rparr>]\<rparr>,
     length (st_waf s))" "slice_wf s (c_rules (st_waf s ! c)) \<longrightarrow> A = slice_elems s (c_rules (st_waf s ! c))" by blast
  then show ?thesis by (intro exI [of _ A]) (simp add: with_waf_def)
qed

lemma with_waf_eq:
  assumes "slice_wf s (c_rules (st_waf s ! c))"
  shows "with_waf f c s = (s\<lparr>st_arrays := st_arrays s @ [slice_elems s (c_rules (st_waf s ! c))],
     st_waf := st_waf s @ [f ((st_waf s ! c)\<lparr>c_rules := \<lparr>sl_array = Some (length (st_arrays s)), sl_len = sl_len (c_rules (st_waf s ! c))\<rparr>\<rparr>)]\<rparr>,
     length (st_waf s))"
  using with_waf_shape [of f c s] assms by auto

text \<open>One new configuration with a slice of its own, with the rules \<open>xs\<close>, and the fields of \<open>c'\<close>.\<close>

definition adds_config :: "config_store \<Rightarrow> wafRule list \<Rightarrow> wafConfig \<Rightarrow> config_store \<times> nat \<Rightarrow> bool" where
  "adds_config s xs c' = (\<lambda>(s', ret). ret = length (st_waf s) \<and>
     (\<exists>A sl. own_slice s xs (s\<lparr>st_arrays := A\<rparr>, sl) \<and> s' = s\<lparr>st_arrays := A, st_waf := st_waf s @ [c'\<lparr>c_rules := sl\<rparr>]\<rparr>))"

lemma with_waf_adds:
  assumes "slice_wf s (c_rules (st_waf s ! c))" "\<And>c sl. f (c\<lparr>c_rules := sl\<rparr>) = (f c)\<lparr>c_rules := sl\<rparr>"
  shows "adds_config s (slice_elems s (c_rules (st_waf s ! c))) (f (st_waf s ! c)) (with_waf f c s)"
proof -
  let ?sl = "c_rules (st_waf s ! c)"
  show ?thesis unfolding with_waf_eq [OF assms(1)] assms(2) adds_config_def prod.case
    by (intro conjI exI [of _ "st_arrays s @ [slice_elems s ?sl]"] exI [of _ "\<lparr>sl_array = Some (length (st_arrays s)), sl_len = sl_len ?sl\<rparr>"])
      (simp_all add: own_slice_def slice_wf_def slice_elems_def [of _ "\<lparr>sl_array = _, sl_len = _\<rparr>"] slice_elems_length [OF assms(1)])
qed

lemma add_wafRules_adds:
  assumes "slice_wf s (c_rules (st_waf s ! c))"
  shows "adds_config s (slice_elems s (c_rules (st_waf s ! c)) @ rs) (st_waf s ! c) (add_wafRules grow rs c s)"
proof -
  let ?sl = "c_rules (st_waf s ! c)" and ?xs = "slice_elems s (c_rules (st_waf s ! c))"
  let ?new = "\<lparr>sl_array = Some (length (st_arrays s)), sl_len = sl_len ?sl\<rparr>"
  let ?waf = "st_waf s @ [(st_waf s ! c)\<lparr>c_rules := ?new\<rparr>]"
  from wafConfig_clone_shape [of c s] assms have clone: "wafConfig_clone c s =
      (s\<lparr>st_arrays := st_arrays s @ [?xs], st_waf := ?waf\<rparr>, length (st_waf s))" by auto
  let ?s0 = "s\<lparr>st_waf := ?waf\<rparr>"
  have own: "own_slice ?s0 ?xs (s\<lparr>st_arrays := st_arrays s @ [?xs], st_waf := ?waf\<rparr>, ?new)"
    by (simp add: own_slice_def slice_wf_def slice_elems_def [of _ "\<lparr>sl_array = _, sl_len = _\<rparr>"] slice_elems_length [OF assms])
  obtain s1 sl where f: "fold (append_rule grow) rs (s\<lparr>st_arrays := st_arrays s @ [?xs], st_waf := ?waf\<rparr>, ?new) = (s1, sl)"
    by (rule prod.exhaust)
  from own_slice_fold [OF own, of rs grow] have o: "own_slice ?s0 (?xs @ rs) (s1, sl)" unfolding f .
  have s1: "s1 = ?s0\<lparr>st_arrays := st_arrays s1\<rparr>" using o by (simp add: own_slice_def)
  have waf: "st_waf s1 = ?waf" by (subst s1) simp
  have "add_wafRules grow rs c s = (s1\<lparr>st_waf := st_waf s @ [(st_waf s ! c)\<lparr>c_rules := sl\<rparr>]\<rparr>, length (st_waf s))"
    unfolding add_wafRules_def clone using f waf by (simp add: Let_def)
  moreover have "s1\<lparr>st_waf := st_waf s @ [(st_waf s ! c)\<lparr>c_rules := sl\<rparr>]\<rparr> =
      s\<lparr>st_arrays := st_arrays s1, st_waf := st_waf s @ [(st_waf s ! c)\<lparr>c_rules := sl\<rparr>]\<rparr>" by (subst s1) simp
  moreover have "own_slice s (?xs @ rs) (s\<lparr>st_arrays := st_arrays s1\<rparr>, sl)"
    using o by (auto simp: own_slice_def slice_wf_def slice_elems_def)
  ultimately show ?thesis by (auto simp: adds_config_def)
qed

lemma adds_config_views:
  assumes "store_wf s" "adds_config s xs c' p"
  shows "waf_views (fst p) = waf_views s @ [(xs, c'\<lparr>c_rules := nil_slice\<rparr>)]"
proof -
  obtain A sl where o: "own_slice s xs (s\<lparr>st_arrays := A\<rparr>, sl)" "fst p = s\<lparr>st_arrays := A, st_waf := st_waf s @ [c'\<lparr>c_rules := sl\<rparr>]\<rparr>"
    using assms(2) by (cases p) (auto simp: adds_config_def)
  have "slice_elems (fst p) (c_rules c) = slice_elems s (c_rules c)" if "c \<in> set (st_waf s)" for c
    by (rule slice_elems_grow) (use o that assms(1) in \<open>auto simp: own_slice_def store_wf_def\<close>)
  moreover have "slice_elems (fst p) sl = xs" using o by (auto simp: own_slice_def slice_elems_def)
  ultimately show ?thesis using o(2) by (simp add: waf_view_def)
qed

lemma waf_op_ret: "snd (with_waf f c s) = length (st_waf s)" "snd (add_wafRules grow rs c s) = length (st_waf s)"
proof -
  obtain t where "wafConfig_clone c s = (t, length (st_waf s))" using wafConfig_clone_shape [of c s] by blast
  then show "snd (with_waf f c s) = length (st_waf s)" "snd (add_wafRules grow rs c s) = length (st_waf s)"
    by (simp_all add: with_waf_def add_wafRules_def split_beta)
qed

lemma store_wf_nth: "store_wf s \<Longrightarrow> c < length (st_waf s) \<Longrightarrow> slice_wf s (c_rules (st_waf s ! c))"
  "store_wf s \<Longrightarrow> c < length (st_waf s) \<Longrightarrow> pointers_wf s (st_waf s ! c)"
  by (simp_all add: store_wf_def)

lemma with_waf_cow:
  assumes "\<And>c sl. f (c\<lparr>c_rules := sl\<rparr>) = (f c)\<lparr>c_rules := sl\<rparr>"
  shows "copy_on_write store_wf waf_views (with_waf f) (\<lambda>(xs, c). (xs, f c))"
proof
  fix s c
  assume w: "store_wf s" "c < length (waf_views s)"
  with adds_config_views [OF w(1) with_waf_adds [OF store_wf_nth(1) assms]]
  show "waf_views (fst (with_waf f c s)) = waf_views s @ [(\<lambda>(xs, c). (xs, f c)) (waf_views s ! c)]"
    by (simp add: waf_view_def assms)
qed (simp add: waf_op_ret)

lemma add_wafRules_cow: "copy_on_write store_wf waf_views (add_wafRules grow rs) (\<lambda>(xs, c). (xs @ rs, c))"
proof
  fix s c
  assume w: "store_wf s" "c < length (waf_views s)"
  with adds_config_views [OF w(1) add_wafRules_adds [OF store_wf_nth(1)]]
  show "waf_views (fst (add_wafRules grow rs c s)) = waf_views s @ [(\<lambda>(xs, c). (xs @ rs, c)) (waf_views s ! c)]"
    by (simp add: waf_view_def)
qed (simp add: waf_op_ret)

interpretation WithDirectives: copy_on_write store_wf waf_views "WithDirectives grow directives"
    "\<lambda>(xs, c). (xs @ [no_rule\<lparr>wr_str := directives\<rparr>], c)" for grow directives
  unfolding WithDirectives_def by (rule add_wafRules_cow)

interpretation WithDirectivesFromFile: copy_on_write store_wf waf_views "WithDirectivesFromFile grow path"
    "\<lambda>(xs, c). (xs @ [no_rule\<lparr>wr_file := path\<rparr>], c)" for grow path
  unfolding WithDirectivesFromFile_def by (rule add_wafRules_cow)

interpretation WithAuditLog: copy_on_write store_wf waf_views "WithAuditLog a" "\<lambda>(xs, c). (xs, c\<lparr>c_auditLog := Some a\<rparr>)" for a
  unfolding WithAuditLog_def by (rule with_waf_cow) simp

interpretation WithContentInjection: copy_on_write store_wf waf_views "WithContentInjection" "\<lambda>(xs, c). (xs, c\<lparr>c_contentInjection := True\<rparr>)"
  unfolding WithContentInjection_def by (rule with_waf_cow) simp

interpretation WithRequestBodyAccess: copy_on_write store_wf waf_views "WithRequestBodyAccess a" "\<lambda>(xs, c). (xs, c\<lparr>c_requestBody := Some a\<rparr>)" for a
  unfolding WithRequestBodyAccess_def by (rule with_waf_cow) simp

interpretation WithResponseBodyAccess: copy_on_write store_wf waf_views "WithResponseBodyAccess a" "\<lambda>(xs, c). (xs, c\<lparr>c_responseBody := Some a\<rparr>)" for a
  unfolding WithResponseBodyAccess_def by (rule with_waf_cow) simp

interpretation request_WithLimit: copy_on_write "\<lambda>_. True" st_request "request_WithLimit l" "\<lambda>c. c\<lparr>rq_limit := l\<rparr>" for l
  by unfold_locales (simp_all add: part_ops Let_def)

interpretation request_WithInMemoryLimit: copy_on_write "\<lambda>_. True" st_request "request_WithInMemoryLimit l" "\<lambda>c. c\<lparr>rq_inMemoryLimit := l\<rparr>" for l
  by unfold_locales (simp_all add: part_ops Let_def)

interpretation response_WithLimit: copy_on_write "\<lambda>_. True" st_response "response_WithLimit l" "\<lambda>c. c\<lparr>rs_limit := l\<rparr>" for l
  by unfold_locales (simp_all add: part_ops Let_def)

interpretation response_WithInMemoryLimit: copy_on_write "\<lambda>_. True" st_response "response_WithInMemoryLimit l" "\<lambda>c. c\<lparr>rs_inMemoryLimit := l\<rparr>" for l
  by unfold_locales (simp_all add: part_ops Let_def)

interpretation WithMimeTypes: copy_on_write "\<lambda>_. True" st_response "WithMimeTypes m" "\<lambda>c. c\<lparr>rs_mimeTypes := m\<rparr>" for m
  by unfold_locales (simp_all add: part_ops Let_def)

interpretation WithParts: copy_on_write "\<lambda>_. True" st_audit "WithParts m" "\<lambda>c. c\<lparr>al_parts := m\<rparr>" for m
  by unfold_locales (simp_all add: part_ops Let_def)

interpretation WithLogger: copy_on_write "\<lambda>_. True" st_audit "WithLogger m" "\<lambda>c. c\<lparr>al_logger := m\<rparr>" for m
  by unfold_locales (simp_all add: part_ops Let_def)

text \<open>Programs that build configurations, with every function but \<^const>\<open>LogRelevantOnly\<close>.\<close>

inductive config_step :: "config_store \<Rightarrow> config_store \<Rightarrow> bool" where
  "config_step s (fst (NewWAFConfig s))"
| "config_step s (fst (NewRequestBodyConfig s))"
| "config_step s (fst (NewResponseBodyConfig s))"
| "config_step s (fst (NewAuditLogConfig s))"
| "c < length (st_waf s) \<Longrightarrow> config_step s (fst (WithRules grow rules c s))"
| "c < length (st_waf s) \<Longrightarrow> config_step s (fst (WithDirectivesFromFile grow path c s))"
| "c < length (st_waf s) \<Longrightarrow> config_step s (fst (WithDirectives grow text c s))"
| "c < length (st_waf s) \<Longrightarrow> a < length (st_audit s) \<Longrightarrow> config_step s (fst (WithAuditLog a c s))"
| "c < length (st_waf s) \<Longrightarrow> config_step s (fst (WithContentInjection c s))"
| "c < length (st_waf s) \<Longrightarrow> a < length (st_request s) \<Longrightarrow> config_step s (fst (WithRequestBodyAccess a c s))"
| "c < length (st_waf s) \<Longrightarrow> a < length (st_response s) \<Longrightarrow> config_step s (fst (WithResponseBodyAccess a c s))"
| "c < length (st_waf s) \<Longrightarrow> config_step s (fst (WithDebugLogger l c s))"
| "c < length (st_waf s) \<Longrightarrow> config_step s (fst (WithErrorCallback cb c s))"
| "c < length (st_waf s) \<Longrightarrow> config_step s (fst (WithRootFS fs c s))"
| "c < length (st_request s) \<Longrightarrow> config_step s (fst (request_WithLimit n c s))"
| "c < length (st_request s) \<Longrightarrow> config_step s (fst (request_WithInMemoryLimit n c s))"
| "c < length (st_response s) \<Longrightarrow> config_step s (fst (response_WithLimit n c s))"
| "c < length (st_response s) \<Longrightarrow> config_step s (fst (response_WithInMemoryLimit n c s))"
| "c < length (st_response s) \<Longrightarrow> config_step s (fst (WithMimeTypes mt c s))"
| "c < length (st_audit s) \<Longrightarrow> config_step s (fst (WithParts parts c s))"
| "c < length (st_audit s) \<Longrightarrow> config_step s (fst (WithLogger lw c s))"

text \<open>Objects and arrays do not change.\<close>

definition extends :: "config_store \<Rightarrow> config_store \<Rightarrow> bool" where
  "extends s s' \<longleftrightarrow> prefix (st_arrays s) (st_arrays s') \<and> prefix (st_waf s) (st_waf s') \<and> prefix (st_request s) (st_request s') \<and>
     prefix (st_response s) (st_response s') \<and> prefix (st_audit s) (st_audit s')"

lemma extends_refl: "extends s s" by (simp add: extends_def)

lemma extends_trans: "extends s s' \<Longrightarrow> extends s' s'' \<Longrightarrow> extends s s''"
  unfolding extends_def by (auto intro: prefix_order.trans)

lemma store_wf_grow:
  assumes "store_wf s" "extends s s'" "st_waf s' = st_waf s"
  shows "store_wf s'"
  using assms slice_elems_grow(2) [of s _ s'] by (fastforce simp: store_wf_def pointers_wf_def extends_def dest: prefix_length_le)

lemma adds_config_ok:
  assumes "store_wf s" "adds_config s xs c' p" "pointers_wf s c'"
  shows "extends s (fst p) \<and> store_wf (fst p)"
proof -
  obtain A sl where o: "own_slice s xs (s\<lparr>st_arrays := A\<rparr>, sl)" "fst p = s\<lparr>st_arrays := A, st_waf := st_waf s @ [c'\<lparr>c_rules := sl\<rparr>]\<rparr>"
    using assms(2) by (cases p) (auto simp: adds_config_def)
  have e: "prefix (st_arrays s) (st_arrays (fst p))" and new: "slice_wf (fst p) sl"
    using o by (auto simp: own_slice_def slice_wf_def)
  then have "extends s (fst p)" using o(2) by (simp add: extends_def)
  moreover have "store_wf (fst p)"
    using assms(1,3) slice_elems_grow(2) [OF _ e] new o(2) by (auto simp: store_wf_def pointers_wf_def)
  ultimately show ?thesis ..
qed

lemma with_waf_ok:
  assumes "store_wf s" "c < length (st_waf s)" "pointers_wf s (f (st_waf s ! c))" "\<And>c sl. f (c\<lparr>c_rules := sl\<rparr>) = (f c)\<lparr>c_rules := sl\<rparr>"
  shows "extends s (fst (with_waf f c s)) \<and> store_wf (fst (with_waf f c s))"
  by (rule adds_config_ok [OF assms(1) with_waf_adds [OF store_wf_nth(1) [OF assms(1,2)] assms(4)] assms(3)])

lemma add_wafRules_ok:
  assumes "store_wf s" "c < length (st_waf s)"
  shows "extends s (fst (add_wafRules grow rs c s)) \<and> store_wf (fst (add_wafRules grow rs c s))"
  by (rule adds_config_ok [OF assms(1) add_wafRules_adds]) (simp_all add: store_wf_nth assms)

lemma grown_ok: "store_wf s \<Longrightarrow> extends s s' \<Longrightarrow> st_waf s' = st_waf s \<Longrightarrow> extends s s' \<and> store_wf s'"
  using store_wf_grow by blast

lemma pointers_wf_update:
  "pointers_wf s c \<Longrightarrow> a < length (st_audit s) \<Longrightarrow> pointers_wf s (c\<lparr>c_auditLog := Some a\<rparr>)"
  "pointers_wf s c \<Longrightarrow> b < length (st_request s) \<Longrightarrow> pointers_wf s (c\<lparr>c_requestBody := Some b\<rparr>)"
  "pointers_wf s c \<Longrightarrow> d < length (st_response s) \<Longrightarrow> pointers_wf s (c\<lparr>c_responseBody := Some d\<rparr>)"
  "pointers_wf s (c\<lparr>c_contentInjection := i\<rparr>) = pointers_wf s c" "pointers_wf s (c\<lparr>c_debugLogger := l\<rparr>) = pointers_wf s c"
  "pointers_wf s (c\<lparr>c_errorCallback := cb\<rparr>) = pointers_wf s c" "pointers_wf s (c\<lparr>c_fsRoot := fs\<rparr>) = pointers_wf s c"
  by (simp_all add: pointers_wf_def)

lemma config_step_ok:
  assumes "config_step s s'" "store_wf s"
  shows "extends s s' \<and> store_wf s'"
  using assms
proof (cases rule: config_step.cases)
  case 1
  have "slice_wf s nil_slice" by (simp add: slice_wf_def nil_slice_def)
  with 1 assms(2) show ?thesis by (simp add: NewWAFConfig_def extends_def store_wf_def pointers_wf_def)
qed (((simp add: rule_ops waf_ops extends_refl add_wafRules_ok with_waf_ok pointers_wf_update store_wf_nth; fail) |
    (rule grown_ok; simp add: extends_def part_ops Let_def NewRequestBodyConfig_def NewResponseBodyConfig_def NewAuditLogConfig_def; fail))+)

lemma extends_nth:
  assumes "extends s s'"
  shows "c < length (st_waf s) \<Longrightarrow> st_waf s' ! c = st_waf s ! c" "c < length (st_request s) \<Longrightarrow> st_request s' ! c = st_request s ! c"
    "c < length (st_response s) \<Longrightarrow> st_response s' ! c = st_response s ! c" "c < length (st_audit s) \<Longrightarrow> st_audit s' ! c = st_audit s ! c"
  using assms by (auto simp: extends_def nth_append elim!: prefixE)

lemma apply_config_extends:
  assumes "extends s s'" "store_wf s" "c < length (st_waf s)"
  shows "apply_config s' (st_waf s ! c) = apply_config s (st_waf s ! c)"
proof -
  note n = extends_nth [OF assms(1)] and p = store_wf_nth(2) [OF assms(2,3), unfolded pointers_wf_def]
  have "deref (st_audit s') (c_auditLog (st_waf s ! c)) = deref (st_audit s) (c_auditLog (st_waf s ! c))"
    using p n(4) by (cases "c_auditLog (st_waf s ! c)") (simp_all add: deref_def)
  moreover have "deref (st_request s') (c_requestBody (st_waf s ! c)) = deref (st_request s) (c_requestBody (st_waf s ! c))"
    using p n(2) by (cases "c_requestBody (st_waf s ! c)") (simp_all add: deref_def)
  moreover have "deref (st_response s') (c_responseBody (st_waf s ! c)) = deref (st_response s) (c_responseBody (st_waf s ! c))"
    using p n(3) by (cases "c_responseBody (st_waf s ! c)") (simp_all add: deref_def)
  ultimately show ?thesis unfolding apply_config_def fun_eq_iff by metis
qed

lemma coraza_NewWAF_cong:
  assumes "slice_elems s (c_rules (st_waf s ! c)) = slice_elems s' (c_rules (st_waf s' ! c'))" "c_debugLogger (st_waf s ! c) = c_debugLogger (st_waf s' ! c')"
    "c_fsRoot (st_waf s ! c) = c_fsRoot (st_waf s' ! c')" "apply_config s (st_waf s ! c) = apply_config s' (st_waf s' ! c')"
  shows "coraza_NewWAF h osfs any ids s c = coraza_NewWAF h osfs any ids s' c'"
  unfolding coraza_NewWAF_def Let_def assms ..

text \<open>
  C20. Configurations are immutable: whatever is built from a configuration or from its parts afterwards, with
  any function of the package but \<open>LogRelevantOnly\<close> and however \<open>append\<close> sizes its arrays, it describes the same WAF. In particular two
  configurations that add rules to the same one do not overwrite each other's rules. The configuration gets its rules from texts and files: a rule
  given as an object belongs to its caller, and the WAF itself may change it.
\<close>

theorem config_immutable:
  assumes "config_step\<^sup>*\<^sup>* s s'" "store_wf s" "c < length (st_waf s)"
    and "\<forall>r\<in>set (slice_elems s (c_rules (st_waf s ! c))). wr_rule r = None"
  shows "coraza_NewWAF h osfs any ids s' c = coraza_NewWAF h osfs any ids s c"
proof -
  have "extends s s' \<and> store_wf s'" using assms(1,2)
  proof (induction rule: rtranclp_induct)
    case (step y z)
    then show ?case using config_step_ok [OF step(2)] extends_trans [of s y z] by simp
  qed (simp add: extends_refl)
  then have e: "extends s s'" ..
  then have "prefix (st_arrays s) (st_arrays s')" by (simp add: extends_def)
  from slice_elems_grow(1) [OF store_wf_nth(1) [OF assms(2,3)] this] show ?thesis
    by (intro coraza_NewWAF_cong; simp only: extends_nth(1) [OF e assms(3)] apply_config_extends [OF e assms(2,3)])
qed

definition no_configs :: config_store where
  "no_configs = \<lparr>st_arrays = [], st_waf = [], st_request = [], st_response = [], st_audit = []\<rparr>"

text \<open>
  A configuration with one directive, whose array has room for another rule, and two that each add a directive to it:
  the first of them keeps its own one.
\<close>

theorem config_immutable_witness:
  "\<exists>base first both. base = fst (WithDirectives (\<lambda>_. 1) ''SecMarker a'' 0 (fst (NewWAFConfig no_configs))) \<and>
     first = fst (WithDirectives (\<lambda>_. 1) ''SecMarker b'' 1 base) \<and> both = fst (WithDirectives (\<lambda>_. 1) ''SecMarker c'' 1 first) \<and>
     length (st_waf first) = 3 \<and> length (st_waf both) = 4 \<and>
     coraza_NewWAF demo_host \<lparr>fs_ReadFile = (\<lambda>_. NotExist), fs_Glob = (\<lambda>_. Inr [])\<rparr> any_text initial_ids both 2 =
     coraza_NewWAF demo_host \<lparr>fs_ReadFile = (\<lambda>_. NotExist), fs_Glob = (\<lambda>_. Inr [])\<rparr> any_text initial_ids first 2"
proof -
  let ?new = "fst (NewWAFConfig no_configs)"
  let ?base = "fst (WithDirectives (\<lambda>_. 1) ''SecMarker a'' 0 ?new)"
  let ?first = "fst (WithDirectives (\<lambda>_. 1) ''SecMarker b'' 1 ?base)" and ?both = "fst (WithDirectives (\<lambda>_. 1) ''SecMarker c'' 1
      (fst (WithDirectives (\<lambda>_. 1) ''SecMarker b'' 1 ?base)))"
  have wf0: "store_wf ?new" by (simp add: store_wf_def NewWAFConfig_def no_configs_def slice_wf_def nil_slice_def pointers_wf_def)
  have v0: "waf_views ?new = [([], st_waf ?new ! 0)]"
    by (simp add: NewWAFConfig_def no_configs_def waf_view_def slice_elems_def nil_slice_def)
  have wf1: "store_wf ?base" unfolding WithDirectives_def by (rule add_wafRules_ok [THEN conjunct2, OF wf0]) (simp add: NewWAFConfig_def)
  have v1: "waf_views ?base = waf_views ?new @ [([no_rule\<lparr>wr_str := ''SecMarker a''\<rparr>], st_waf ?new ! 0)]"
    using WithDirectives.op [OF wf0, of 0] v0 by simp
  have l1: "length (st_waf ?base) = 2" using arg_cong [OF v1, of length] v0 by simp
  have wf2: "store_wf ?first" unfolding WithDirectives_def
    by (rule add_wafRules_ok [THEN conjunct2]) (use wf1 l1 in \<open>simp_all add: WithDirectives_def\<close>)
  have v2: "waf_views ?first = waf_views ?base @ [([no_rule\<lparr>wr_str := ''SecMarker a''\<rparr>, no_rule\<lparr>wr_str := ''SecMarker b''\<rparr>], st_waf ?new ! 0)]"
  proof -
    have "waf_views ?first = waf_views ?base @ [(\<lambda>(xs, c). (xs @ [no_rule\<lparr>wr_str := ''SecMarker b''\<rparr>], c)) (waf_views ?base ! 1)]"
      by (rule WithDirectives.op [OF wf1]) (use l1 in simp)
    moreover have "waf_views ?base ! 1 = ([no_rule\<lparr>wr_str := ''SecMarker a''\<rparr>], st_waf ?new ! 0)" unfolding v1 v0 by simp
    ultimately show ?thesis by (simp only: prod.case append.simps)
  qed
  have l2: "length (st_waf ?first) = 3" using arg_cong [OF v2, of length] l1 by simp
  have l3: "length (st_waf ?both) = 4"
    using arg_cong [OF WithDirectives.op [OF wf2, of 1 "\<lambda>_. 1" "''SecMarker c''"], of length] l2 by simp
  have "waf_views ?first ! 2 = ([no_rule\<lparr>wr_str := ''SecMarker a''\<rparr>, no_rule\<lparr>wr_str := ''SecMarker b''\<rparr>], st_waf ?new ! 0)"
    unfolding v2 using l1 by (simp add: nth_append)
  then have "slice_elems ?first (c_rules (st_waf ?first ! 2)) = [no_rule\<lparr>wr_str := ''SecMarker a''\<rparr>, no_rule\<lparr>wr_str := ''SecMarker b''\<rparr>]"
    using l2 by (simp add: waf_view_def)
  then have n: "\<forall>r\<in>set (slice_elems ?first (c_rules (st_waf ?first ! 2))). wr_rule r = None" by (simp add: no_rule_def)
  have "config_step\<^sup>*\<^sup>* ?first ?both" using l2 by (intro r_into_rtranclp config_step.intros) simp
  from config_immutable [OF this wf2 _ n] l2 l3 show ?thesis by simp
qed

lemma apply_config_stages:
  assumes "apply_config s c opt = Inr opt'"
  obtains o1 o2 o3 where "o1 = (case deref (st_audit s) (c_auditLog c) of None \<Rightarrow> opt | Some a \<Rightarrow> apply_auditLog a opt)"
    "when_set (deref (st_request s) (c_requestBody c)) apply_requestBody
       (if c_contentInjection c then set_waf (\<lambda>w. w\<lparr>w_ContentInjection := True\<rparr>) o1 else o1) = Inr o2"
    "when_set (deref (st_response s) (c_responseBody c)) apply_responseBody o2 = Inr o3"
    "opt' = (if c_errorCallback c then set_waf (SetErrorCallback True) o3 else o3)"
  using assms unfolding apply_config_def Let_def by (auto split: sum.split_asm)

lemma apply_auditLog_fields:
  "w_Rules (o_WAF (apply_auditLog a opt)) = w_Rules (o_WAF opt)"
  "w_RequestBodyLimitAction (o_WAF (apply_auditLog a opt)) = w_RequestBodyLimitAction (o_WAF opt)"
  "w_AuditEngine (o_WAF (apply_auditLog a opt)) = (if al_relevantOnly a then AuditEngineRelevantOnly else AuditEngineOn)"
  by (simp_all add: apply_auditLog_def Let_def split: option.split)

lemma request_stage:
  assumes "when_set c apply_requestBody opt = Inr opt'"
  shows "w_Rules (o_WAF opt') = w_Rules (o_WAF opt)" "w_RequestBodyLimitAction (o_WAF opt') = w_RequestBodyLimitAction (o_WAF opt)"
    "w_AuditEngine (o_WAF opt') = w_AuditEngine (o_WAF opt)"
    "c \<noteq> None \<Longrightarrow> w_RequestBodyAccess (o_WAF opt') \<and> 0 < w_RequestBodyLimit (o_WAF opt') \<and>
      w_RequestBodyInMemoryLimit (o_WAF opt') \<le> w_RequestBodyLimit (o_WAF opt')"
  using assms by (auto simp: when_set_def apply_requestBody_def split: option.split_asm if_split_asm)

lemma response_stage:
  assumes "when_set c apply_responseBody opt = Inr opt'"
  shows "w_Rules (o_WAF opt') = w_Rules (o_WAF opt)" "w_RequestBodyLimitAction (o_WAF opt') = w_RequestBodyLimitAction (o_WAF opt)"
    "w_AuditEngine (o_WAF opt') = w_AuditEngine (o_WAF opt)" "w_RequestBodyAccess (o_WAF opt') = w_RequestBodyAccess (o_WAF opt)"
    "w_RequestBodyLimit (o_WAF opt') = w_RequestBodyLimit (o_WAF opt)"
    "w_RequestBodyInMemoryLimit (o_WAF opt') = w_RequestBodyInMemoryLimit (o_WAF opt)"
    "c \<noteq> None \<Longrightarrow> w_ResponseBodyAccess (o_WAF opt') \<and> 0 < w_ResponseBodyLimit (o_WAF opt')"
  using assms by (auto simp: when_set_def apply_responseBody_def split: option.split_asm if_split_asm)

lemma coraza_NewWAF_built:
  assumes "coraza_NewWAF h osfs any ids s c = Some (Inr opt)"
  obtains p0 p where "load_rules h (slice_elems s (c_rules (st_waf s ! c))) p0 = Some (None, p)" "o_WAF (p_options p0) = NewWAF any"
    "apply_config s (st_waf s ! c) (p_options p) = Inr opt"
proof -
  let ?c = "st_waf s ! c"
  let ?settings = "case c_debugLogger ?c of None \<Rightarrow> new_settings | Some l \<Rightarrow> new_settings\<lparr>s_Logger := l\<rparr>"
  let ?p = "NewParser osfs (NewWAF any) ?settings ids"
  let ?p0 = "case c_fsRoot ?c of None \<Rightarrow> ?p | Some root \<Rightarrow> SetRoot root ?p"
  obtain err p where "load_rules h (slice_elems s (c_rules ?c)) ?p0 = Some (err, p)"
    "(case err of Some e \<Rightarrow> Inl e | None \<Rightarrow> apply_config s ?c (p_options p)) = Inr opt"
    using assms unfolding coraza_NewWAF_def Let_def by (auto simp: bind_eq_Some_conv)
  then have "load_rules h (slice_elems s (c_rules ?c)) ?p0 = Some (None, p)" "apply_config s ?c (p_options p) = Inr opt" by (auto split: option.split_asm)
  moreover have "o_WAF (p_options ?p0) = NewWAF any" by (simp add: NewParser_def SetRoot_def split: option.split)
  ultimately show ?thesis using that by blast
qed

text \<open>
  The exception: \<open>LogRelevantOnly\<close> changes its receiver and returns an unchanged copy, so a WAF with the
  audit log configuration that it returns logs every transaction.
\<close>

theorem LogRelevantOnly_ignored:
  assumes "NewAuditLogConfig s = (s1, a)" "LogRelevantOnly a s1 = (s2, b)"
    and "WithAuditLog b c s2 = (s3, d)" "c < length (st_waf s)"
    and "coraza_NewWAF h osfs any ids s3 d = Some (Inr opt)"
  shows "w_AuditEngine (o_WAF opt) = AuditEngineOn \<and> al_relevantOnly (st_audit s2 ! a)"
proof -
  let ?n = "length (st_audit s)"
  have a: "a = ?n" "st_audit s1 = st_audit s @ [\<lparr>al_relevantOnly = False, al_parts = [], al_logger = None\<rparr>]" "st_waf s1 = st_waf s"
    using assms(1) by (auto simp: NewAuditLogConfig_def)
  have b: "b = Suc ?n" "st_audit s2 ! b = \<lparr>al_relevantOnly = False, al_parts = [], al_logger = None\<rparr>" "al_relevantOnly (st_audit s2 ! a)"
    "st_waf s2 = st_waf s"
    using assms(2) a by (auto simp: LogRelevantOnly_def auditLogConfig_clone_def nth_append)
  have d: "c_auditLog (st_waf s3 ! d) = Some b" "st_audit s3 = st_audit s2"
    using with_waf_shape [of "\<lambda>c. c\<lparr>c_auditLog := Some b\<rparr>" c s2] assms(3) by (auto simp: WithAuditLog_def)
  obtain p0 p where "load_rules h (slice_elems s3 (c_rules (st_waf s3 ! d))) p0 = Some (None, p)" "o_WAF (p_options p0) = NewWAF any"
    "apply_config s3 (st_waf s3 ! d) (p_options p) = Inr opt" using assms(5) by (rule coraza_NewWAF_built)
  from this(3) have "w_AuditEngine (o_WAF opt) = AuditEngineOn"
  proof (rule apply_config_stages)
    fix o1 o2 o3
    assume st: "o1 = (case deref (st_audit s3) (c_auditLog (st_waf s3 ! d)) of None \<Rightarrow> p_options p | Some a \<Rightarrow> apply_auditLog a (p_options p))"
      "when_set (deref (st_request s3) (c_requestBody (st_waf s3 ! d))) apply_requestBody
         (if c_contentInjection (st_waf s3 ! d) then set_waf (\<lambda>w. w\<lparr>w_ContentInjection := True\<rparr>) o1 else o1) = Inr o2"
      "when_set (deref (st_response s3) (c_responseBody (st_waf s3 ! d))) apply_responseBody o2 = Inr o3"
      "opt = (if c_errorCallback (st_waf s3 ! d) then set_waf (SetErrorCallback True) o3 else o3)"
    have "w_AuditEngine (o_WAF o1) = AuditEngineOn" using st(1) d b(2) by (simp add: deref_def apply_auditLog_fields)
    with request_stage(3) [OF st(2)] response_stage(3) [OF st(3)] st(4) show ?thesis by (simp add: SetErrorCallback_def)
  qed
  with b(3) show ?thesis by simp
qed

lemma chains_ok_Add: "chains_ok rules \<Longrightarrow> chains_ok [rule] \<Longrightarrow> chains_ok (snd (Add (Some rule) rules))"
  by (auto simp: Add_def chains_ok_def)

lemma load_rules_keeps:
  assumes "load_rules h rs p = Some (err, p')" "\<forall>r\<in>set rs. \<forall>rule. wr_rule r = Some rule \<longrightarrow> chains_ok [rule]"
  shows "keeps (p_options p) (p_options p')"
  using assms
proof (induction rs arbitrary: p)
  case (Cons r rs)
  then obtain err1 p1 where step: "(case wr_rule r of
        Some rule \<Rightarrow> let (err, rules) = Add (Some rule) (w_Rules (o_WAF (p_options p)))
          in Some (err, p\<lparr>p_options := set_rules rules (p_options p)\<rparr>)
      | None \<Rightarrow> if wr_str r \<noteq> [] then FromString h (wr_str r) p
          else if wr_file r \<noteq> [] then FromFile h (wr_file r) p else Some (None, p)) = Some (err1, p1)"
    and rest: "(case err1 of Some e \<Rightarrow> Some (Some (invalid_config e), p1) | None \<Rightarrow> load_rules h rs p1) = Some (err, p')"
    by auto
  have "keeps (p_options p) (p_options p1)"
  proof (cases "wr_rule r")
    case None
    with step show ?thesis by (auto simp: keeps_refl split: if_split_asm dest: kept.FromString_steps kept.FromFile_steps)
  next
    case (Some rule)
    let ?rules = "w_Rules (o_WAF (p_options p))"
    have "chains_ok [rule]" using Cons.prems(2) Some by (simp del: split_paired_All)
    then have "rules_ok ?rules \<Longrightarrow> rules_ok (snd (Add (Some rule) ?rules))"
      unfolding rules_ok_def using unique_ids_Add chains_ok_Add by blast
    with step Some show ?thesis by (auto simp: keeps_def split: prod.split_asm)
  qed
  moreover have "keeps (p_options p1) (p_options p')"
    using rest Cons.IH [of p1] Cons.prems(2) by (auto simp: keeps_refl split: option.split_asm)
  ultimately show ?case by (rule keeps_trans)
qed (simp add: keeps_refl)

lemma apply_config_result:
  assumes "apply_config s c opt = Inr opt'"
  shows "w_Rules (o_WAF opt') = w_Rules (o_WAF opt)" "w_RequestBodyLimitAction (o_WAF opt') = w_RequestBodyLimitAction (o_WAF opt)"
    "c_requestBody c \<noteq> None \<Longrightarrow> w_RequestBodyAccess (o_WAF opt') \<and> 0 < w_RequestBodyLimit (o_WAF opt') \<and>
      w_RequestBodyInMemoryLimit (o_WAF opt') \<le> w_RequestBodyLimit (o_WAF opt')"
    "c_responseBody c \<noteq> None \<Longrightarrow> w_ResponseBodyAccess (o_WAF opt') \<and> 0 < w_ResponseBodyLimit (o_WAF opt')"
proof -
  from assms obtain o1 o2 o3 where st: "o1 = (case deref (st_audit s) (c_auditLog c) of None \<Rightarrow> opt | Some a \<Rightarrow> apply_auditLog a opt)"
    "when_set (deref (st_request s) (c_requestBody c)) apply_requestBody
       (if c_contentInjection c then set_waf (\<lambda>w. w\<lparr>w_ContentInjection := True\<rparr>) o1 else o1) = Inr o2"
    "when_set (deref (st_response s) (c_responseBody c)) apply_responseBody o2 = Inr o3"
    "opt' = (if c_errorCallback c then set_waf (SetErrorCallback True) o3 else o3)" by (rule apply_config_stages)
  note q = request_stage [OF st(2)] and r = response_stage [OF st(3)]
  have "w_Rules (o_WAF o1) = w_Rules (o_WAF opt)" "w_RequestBodyLimitAction (o_WAF o1) = w_RequestBodyLimitAction (o_WAF opt)"
    using st(1) by (simp_all add: apply_auditLog_fields split: option.split)
  with q r st(4) show "w_Rules (o_WAF opt') = w_Rules (o_WAF opt)"
    "w_RequestBodyLimitAction (o_WAF opt') = w_RequestBodyLimitAction (o_WAF opt)" by (simp_all add: SetErrorCallback_def)
  show "w_RequestBodyAccess (o_WAF opt') \<and> 0 < w_RequestBodyLimit (o_WAF opt') \<and>
      w_RequestBodyInMemoryLimit (o_WAF opt') \<le> w_RequestBodyLimit (o_WAF opt')" if "c_requestBody c \<noteq> None"
    using that q(4) r(4-6) st(4) by (simp add: deref_def SetErrorCallback_def)
  show "w_ResponseBodyAccess (o_WAF opt') \<and> 0 < w_ResponseBodyLimit (o_WAF opt')" if "c_responseBody c \<noteq> None"
    using that r(7) st(4) by (simp add: deref_def SetErrorCallback_def)
qed

text \<open>
  C21. A WAF that is built has valid settings: its rules have unique identifiers and well-formed chains when the
  rules given as objects do, and configured limits are positive, with the memory limit within the limit.
\<close>

theorem NewWAF_valid:
  assumes "coraza_NewWAF h osfs any ids s c = Some (Inr opt)"
    and "\<forall>r\<in>set (slice_elems s (c_rules (st_waf s ! c))). \<forall>rule. wr_rule r = Some rule \<longrightarrow> chains_ok [rule]"
  shows "rules_ok (w_Rules (o_WAF opt)) \<and> w_RequestBodyLimitAction (o_WAF opt) = RequestBodyLimitActionProcessPartial \<and>
    (c_requestBody (st_waf s ! c) \<noteq> None \<longrightarrow> w_RequestBodyAccess (o_WAF opt) \<and> 0 < w_RequestBodyLimit (o_WAF opt) \<and>
      w_RequestBodyInMemoryLimit (o_WAF opt) \<le> w_RequestBodyLimit (o_WAF opt)) \<and>
    (c_responseBody (st_waf s ! c) \<noteq> None \<longrightarrow> w_ResponseBodyAccess (o_WAF opt) \<and> 0 < w_ResponseBodyLimit (o_WAF opt))"
proof -
  obtain p0 p where l: "load_rules h (slice_elems s (c_rules (st_waf s ! c))) p0 = Some (None, p)" and p0: "o_WAF (p_options p0) = NewWAF any"
    and a: "apply_config s (st_waf s ! c) (p_options p) = Inr opt" using assms(1) by (rule coraza_NewWAF_built)
  have "rules_ok (w_Rules (o_WAF (p_options p0)))" by (simp add: p0 NewWAF_def NewRuleGroup_def rules_ok_def unique_ids_def chains_ok_def)
  with load_rules_keeps [OF l assms(2)] p0 have k: "rules_ok (w_Rules (o_WAF (p_options p)))"
    "w_RequestBodyLimitAction (o_WAF (p_options p)) = RequestBodyLimitActionProcessPartial" by (simp_all add: keeps_def NewWAF_def)
  show ?thesis using apply_config_result [OF a] k by simp
qed

text \<open>
  The MIME types of a response body configuration have no effect: the WAF keeps those of its directives.
\<close>

theorem WithMimeTypes_ignored:
  assumes "WithMimeTypes types r s = (s1, r1)" "WithResponseBodyAccess r c s = (s2, c2)"
    and "WithResponseBodyAccess r1 c s1 = (s3, c3)" "r < length (st_response s)" "c < length (st_waf s)" "store_wf s"
  shows "coraza_NewWAF h osfs any ids s3 c3 = coraza_NewWAF h osfs any ids s2 c2"
proof -
  have r: "s1 = s\<lparr>st_response := st_response s @ [(st_response s ! r)\<lparr>rs_mimeTypes := types\<rparr>]\<rparr>" "r1 = length (st_response s)"
    using assms(1) by (simp_all add: part_ops Let_def)
  let ?sl = "\<lparr>sl_array = Some (length (st_arrays s)), sl_len = sl_len (c_rules (st_waf s ! c))\<rparr>"
    and ?arrays = "st_arrays s @ [slice_elems s (c_rules (st_waf s ! c))]"
  have e1: "slice_wf s (c_rules (st_waf s ! c))" "slice_wf s1 (c_rules (st_waf s1 ! c))"
    "slice_elems s1 (c_rules (st_waf s ! c)) = slice_elems s (c_rules (st_waf s ! c))"
    using store_wf_nth(1) [OF assms(6,5)] r(1) by (simp_all add: slice_wf_def slice_elems_def split: option.splits)
  have st: "s2 = s\<lparr>st_arrays := ?arrays, st_waf := st_waf s @ [(st_waf s ! c)\<lparr>c_rules := ?sl, c_responseBody := Some r\<rparr>]\<rparr>" "c2 = length (st_waf s)"
    "s3 = s1\<lparr>st_arrays := ?arrays, st_waf := st_waf s @ [(st_waf s ! c)\<lparr>c_rules := ?sl, c_responseBody := Some r1\<rparr>]\<rparr>" "c3 = length (st_waf s)"
    using assms(2,3) with_waf_eq [OF e1(1)] with_waf_eq [OF e1(2)] e1(3) r(1) by (simp_all add: WithResponseBodyAccess_def)
  have e: "deref (st_audit s3) (c_auditLog (st_waf s3 ! c3)) = deref (st_audit s2) (c_auditLog (st_waf s2 ! c2))"
    "deref (st_request s3) (c_requestBody (st_waf s3 ! c3)) = deref (st_request s2) (c_requestBody (st_waf s2 ! c2))"
    "c_contentInjection (st_waf s3 ! c3) = c_contentInjection (st_waf s2 ! c2)"
    "c_errorCallback (st_waf s3 ! c3) = c_errorCallback (st_waf s2 ! c2)"
    using st r by (simp_all add: nth_append)
  have w: "when_set (deref (st_response s3) (c_responseBody (st_waf s3 ! c3))) apply_responseBody =
      when_set (deref (st_response s2) (c_responseBody (st_waf s2 ! c2))) apply_responseBody"
    using st r assms(4) by (simp add: deref_def nth_append fun_eq_iff when_set_def apply_responseBody_def)
  have "apply_config s3 (st_waf s3 ! c3) = apply_config s2 (st_waf s2 ! c2)" unfolding fun_eq_iff apply_config_def e w by simp
  then show ?thesis using st r by (intro coraza_NewWAF_cong) (simp_all add: nth_append slice_elems_def)
qed

section \<open>Witnesses\<close>

abbreviation empty_fs :: FS where
  "empty_fs \<equiv> \<lparr>fs_ReadFile = (\<lambda>_. NotExist), fs_Glob = (\<lambda>_. Inr [])\<rparr>"

text \<open>\<open>NewWAFConfig().WithDirectives("SecMarker end").WithRequestBodyAccess(NewRequestBodyConfig().WithLimit(10))\<close>\<close>

definition demo_configs :: config_store where
  "demo_configs =
     fst (WithRequestBodyAccess 1 1 (fst (request_WithLimit 10 0 (fst (NewRequestBodyConfig
       (fst (WithDirectives (\<lambda>_. 0) ''SecMarker end'' 0 (fst (NewWAFConfig no_configs)))))))))"

lemma demo_configs_config:
  "\<exists>sl. st_waf demo_configs ! 2 = \<lparr>c_rules = sl, c_auditLog = None, c_contentInjection = False, c_requestBody = Some 1,
     c_responseBody = None, c_debugLogger = None, c_errorCallback = False, c_fsRoot = None\<rparr>"
  "slice_elems demo_configs (c_rules (st_waf demo_configs ! 2)) = [no_rule\<lparr>wr_str := ''SecMarker end''\<rparr>]"
  "st_request demo_configs = [\<lparr>rq_limit = 0, rq_inMemoryLimit = 0\<rparr>, \<lparr>rq_limit = 10, rq_inMemoryLimit = 0\<rparr>]"
  by (simp_all add: demo_configs_def no_configs_def NewWAFConfig_def WithDirectives_def with_waf_def NewRequestBodyConfig_def
      part_ops WithRequestBodyAccess_def add_wafRules_def wafConfig_clone_def make_rules_def copy_rules_def append_rule_def
      slice_cap_def slice_elems_def nil_slice_def)

theorem NewWAF_valid_witness:
  "\<exists>opt. coraza_NewWAF demo_host empty_fs any_text initial_ids demo_configs 2 = Some (Inr opt) \<and> rules_ok (w_Rules (o_WAF opt)) \<and>
     w_RequestBodyAccess (o_WAF opt)"
proof -
  obtain p' where p': "FromString demo_host ''SecMarker end'' demo_parser = Some (None, p')" by (rule demo_marker)
  obtain sl where c: "st_waf demo_configs ! 2 = \<lparr>c_rules = sl, c_auditLog = None, c_contentInjection = False, c_requestBody = Some 1,
     c_responseBody = None, c_debugLogger = None, c_errorCallback = False, c_fsRoot = None\<rparr>" using demo_configs_config(1) by blast
  have r: "slice_elems demo_configs sl = [no_rule\<lparr>wr_str := ''SecMarker end''\<rparr>]" using demo_configs_config(2) c by simp
  from p' have "\<exists>opt. coraza_NewWAF demo_host empty_fs any_text initial_ids demo_configs 2 = Some (Inr opt)"
    by (simp add: coraza_NewWAF_def c r demo_configs_config(3) demo_parser_def no_rule_def apply_config_def deref_def when_set_def
        apply_requestBody_def Let_def)
  then obtain opt where o: "coraza_NewWAF demo_host empty_fs any_text initial_ids demo_configs 2 = Some (Inr opt)" ..
  from NewWAF_valid [OF o] o show ?thesis by (simp add: c r no_rule_def)
qed

theorem LogRelevantOnly_ignored_witness:
  "\<exists>s1 a s2 b s3 d opt. NewAuditLogConfig (fst (NewWAFConfig no_configs)) = (s1, a) \<and> LogRelevantOnly a s1 = (s2, b) \<and>
     WithAuditLog b 0 s2 = (s3, d) \<and> coraza_NewWAF demo_host empty_fs any_text initial_ids s3 d = Some (Inr opt) \<and>
     w_AuditEngine (o_WAF opt) = AuditEngineOn"
proof -
  let ?s = "fst (NewWAFConfig no_configs)"
  obtain s1 a where 1: "NewAuditLogConfig ?s = (s1, a)" by fastforce
  obtain s2 b where 2: "LogRelevantOnly a s1 = (s2, b)" by fastforce
  obtain s3 d where 3: "WithAuditLog b 0 s2 = (s3, d)" by fastforce
  have "\<exists>opt. coraza_NewWAF demo_host empty_fs any_text initial_ids s3 d = Some (Inr opt)"
    using 1 2 3 by (auto simp: coraza_NewWAF_def NewWAFConfig_def no_configs_def NewAuditLogConfig_def LogRelevantOnly_def
        auditLogConfig_clone_def WithAuditLog_def with_waf_def wafConfig_clone_def make_rules_def copy_rules_def slice_elems_def
        nil_slice_def apply_config_def deref_def when_set_def)
  then obtain opt where 4: "coraza_NewWAF demo_host empty_fs any_text initial_ids s3 d = Some (Inr opt)" ..
  have "0 < length (st_waf ?s)" by (simp add: NewWAFConfig_def)
  from LogRelevantOnly_ignored [OF 1 2 3 this 4] 1 2 3 4 show ?thesis by blast
qed

end
