(* ===== verification/Body_Processors.thy ===== *)
theory Body_Processors
  imports Rule_Build
begin

text \<open>
  The body processors (src/bodyprocessors): what they store of a request body in the variables.

  The parsers of the formats are libraries: \<^verbatim>\<open>gjson\<close>, \<^verbatim>\<open>encoding/xml\<close>,
  \<^verbatim>\<open>mime\<close> and \<^verbatim>\<open>mime/multipart\<close>. They are the fields of \<open>parsers\<close>, which
  say what the processors see of them: the items of a JSON value, the tokens of an XML document,
  the parts of a multipart body, each with the error they end with. The operating system creates
  the temporary files of uploads, with the names \<open>TempName\<close>.

  A processor returns its error and the transaction. \<^const>\<open>None\<close> stands for a panic, and in
  the multipart processor for the end of the process: \<open>log.Fatalf\<close> exits.
\<close>

section \<open>The libraries\<close>

text \<open>\<open>gjson.Result\<close>: a container with what \<open>ForEach\<close> passes to its callback, a
  string, null, or anything else with its raw text.\<close>

datatype gjson_key = KString string | KNum int

datatype gjson = GJSON "(gjson_key \<times> gjson) list" | GString string | GNull | GOther string

datatype xml_token = StartElement "string list" | CharData string | OtherToken

record Part =
  p_FormName :: string
  p_Header :: "(string \<times> string list) list"
  p_data :: string
  p_err :: "string option"

record parsers =
  gjson_Parse :: "string \<Rightarrow> (gjson_key \<times> gjson) list"
  xml_Tokens :: "string \<Rightarrow> xml_token list \<times> string option"
  ParseMediaType :: "string \<Rightarrow> string + (string \<times> (string \<times> string) list)"
  multipart_Parts :: "string \<Rightarrow> string \<Rightarrow> Part list \<times> string option"
  TempName :: "nat \<Rightarrow> string"

section \<open>URLENCODED\<close>

definition urlencoded_ProcessRequest :: "runtime \<Rightarrow> string \<Rightarrow> Transaction \<Rightarrow> string option \<times> Transaction" where
  "urlencoded_ProcessRequest rt b tx =
     (let values = ParseQuery b (CHR ''&'');
          tx = fold (\<lambda>k. upd_col ArgsPost (\<lambda>m. Map_Set m k (map_get values k))) (rt_ord rt (map fst values)) tx;
          tx = set_var RequestBody b tx
      in (None, set_var RequestBodyLength (Itoa (int (length b))) tx))"

section \<open>JSON\<close>

text \<open>
  \<open>readItems\<close>: \<open>res\<close> is the Go map, \<open>n\<close> the count \<open>arrayLen\<close> so far. The callback
  restores \<open>objKey\<close> after each item.
\<close>

definition item_key :: "string \<Rightarrow> gjson_key \<Rightarrow> string" where
  "item_key objKey k = objKey @ ''.'' @ (case k of KString s \<Rightarrow> s | KNum i \<Rightarrow> Itoa i)"

function readItems :: "(gjson_key \<times> gjson) list \<Rightarrow> string \<Rightarrow> nat \<Rightarrow> (string \<times> string) list \<Rightarrow> (string \<times> string) list" where
  "readItems [] objKey n res = (if n > 0 then AList.update objKey (Itoa (int n)) res else res)"
| "readItems ((k, v) # items) objKey n res =
     (let key = item_key objKey k;
          n = (case k of KString _ \<Rightarrow> n | KNum _ \<Rightarrow> n + 1);
          res = (case v of
             GJSON is \<Rightarrow> readItems is key 0 res
           | GString s \<Rightarrow> AList.update key s res
           | GNull \<Rightarrow> AList.update key [] res
           | GOther raw \<Rightarrow> AList.update key raw res)
      in readItems items objKey n res)"
  by pat_completeness auto
termination
  by (relation "measure (\<lambda>(is, _). size_list (size_prod (\<lambda>_. 0) size) is)") auto

definition readJSON :: "parsers \<Rightarrow> string \<Rightarrow> (string \<times> string) list" where
  "readJSON ps s = readItems (gjson_Parse ps s) ''json'' 0 []"

definition json_store :: "string \<Rightarrow> string \<Rightarrow> Transaction \<Rightarrow> Transaction" where
  "json_store key value tx =
     (let tx = (if key \<in> set (map fst (Map_Data (col tx ArgsGet)))
                then upd_col ArgsGet (\<lambda>m. Map_Remove m key) tx else tx)
      in upd_col ArgsPost (\<lambda>m. Map_SetIndex m key 0 value) tx)"

definition json_ProcessRequest :: "parsers \<Rightarrow> runtime \<Rightarrow> string \<Rightarrow> Transaction \<Rightarrow> string option \<times> Transaction" where
  "json_ProcessRequest ps rt b tx =
     (let data = readJSON ps b in
      (None, fold (\<lambda>k. json_store k (the (map_of data k))) (rt_ord rt (map fst data)) tx))"

section \<open>XML\<close>

fun readXML :: "xml_token list \<Rightarrow> string list \<Rightarrow> string list \<Rightarrow> string list \<times> string list" where
  "readXML [] attrs contents = (attrs, contents)"
| "readXML (StartElement as # ts) attrs contents = readXML ts (attrs @ as) contents"
| "readXML (CharData s # ts) attrs contents =
     (let c = TrimSpace s in readXML ts attrs (if c \<noteq> [] then contents @ [c] else contents))"
| "readXML (OtherToken # ts) attrs contents = readXML ts attrs contents"

text \<open>In TinyGo builds the processor is a stub.\<close>

definition xml_ProcessRequest :: "parsers \<Rightarrow> runtime \<Rightarrow> string \<Rightarrow> Transaction \<Rightarrow> string option \<times> Transaction" where
  "xml_ProcessRequest ps rt b tx =
     (if rt_tiny rt then (Some ''not implemented'', tx)
      else
        let (tokens, err) = xml_Tokens ps b in
        (case err of
           Some e \<Rightarrow> (Some e, tx)
         | None \<Rightarrow>
             let (values, contents) = readXML tokens [] [];
                 tx = upd_col RequestXML (\<lambda>m. Map_Set m ''//@*'' values) tx
             in (None, upd_col RequestXML (\<lambda>m. Map_Set m ''/*'' contents) tx)))"

section \<open>MULTIPART\<close>

definition originFileName :: "parsers \<Rightarrow> Part \<Rightarrow> string" where
  "originFileName ps p =
     (let v = first_or (map_get (p_Header p) ''Content-Disposition'') [] in
      case ParseMediaType ps v of
        Inl _ \<Rightarrow> []
      | Inr (_, params) \<Rightarrow> (case map_of params ''filename'' of None \<Rightarrow> [] | Some f \<Rightarrow> f))"

text \<open>\<open>io.Copy(temp, p)\<close> to a temporary file, or to nowhere in TinyGo builds: the size or the error.\<close>

definition upload_size :: "runtime \<Rightarrow> Part \<Rightarrow> string + int" where
  "upload_size rt p =
     (if rt_tiny rt then (case p_err p of Some e \<Rightarrow> Inl e | None \<Rightarrow> Inr (int (length (p_data p))))
      else
        case CreateTemp_err (rt_os rt) of
          Some e \<Rightarrow> Inl e
        | None \<Rightarrow>
            (case File_Write (rt_os rt) (p_data p) of
               (_, Some e) \<Rightarrow> Inl e
             | (n, None) \<Rightarrow> (case p_err p of Some e \<Rightarrow> Inl e | None \<Rightarrow> Inr (int n))))"

definition part_headers :: "runtime \<Rightarrow> Part \<Rightarrow> Transaction \<Rightarrow> Transaction" where
  "part_headers rt p tx =
     fold (\<lambda>key. fold (\<lambda>value. upd_col MultipartPartHeaders
         (\<lambda>m. Map_Add m (p_FormName p) (key @ '': '' @ value))) (map_get (p_Header p) key))
       (rt_ord rt (map fst (p_Header p))) tx"

text \<open>One turn of the loop: \<open>k\<close> numbers the temporary files; the result is the error, or the new total.\<close>

definition process_part :: "parsers \<Rightarrow> runtime \<Rightarrow> nat \<Rightarrow> int \<Rightarrow> Part \<Rightarrow> Transaction \<Rightarrow> (string + int) \<times> Transaction" where
  "process_part ps rt k totalSize p tx =
     (let tx = part_headers rt p tx; filename = originFileName ps p in
      if filename \<noteq> [] then
        (case upload_size rt p of
           Inl e \<Rightarrow> (Inl e, tx)
         | Inr sz \<Rightarrow>
             let tx = (if rt_tiny rt then tx else upd_col FilesTmpNames (\<lambda>m. Map_Add m [] (TempName ps k)) tx);
                 totalSize = totalSize + sz;
                 tx = upd_col Files (\<lambda>m. Map_Add m [] filename) tx;
                 tx = upd_col FilesSizes (\<lambda>m. Map_SetIndex m filename 0 (Itoa sz)) tx;
                 tx = upd_col FilesNames (\<lambda>m. Map_Add m [] (p_FormName p)) tx
             in (Inr totalSize, set_var FilesCombinedSize (Itoa totalSize) tx))
      else
        (case p_err p of
           Some e \<Rightarrow> (Inl e, tx)
         | None \<Rightarrow>
             let totalSize = totalSize + int (length (p_data p));
                 tx = upd_col ArgsPost (\<lambda>m. Map_Add m (p_FormName p) (p_data p)) tx
             in (Inr totalSize, set_var FilesCombinedSize (Itoa totalSize) tx)))"

fun process_parts :: "parsers \<Rightarrow> runtime \<Rightarrow> nat \<Rightarrow> int \<Rightarrow> Part list \<Rightarrow> string option \<Rightarrow> Transaction \<Rightarrow> string option \<times> Transaction" where
  "process_parts ps rt k totalSize [] err tx = (err, tx)"
| "process_parts ps rt k totalSize (p # parts) err tx =
     (case process_part ps rt k totalSize p tx of
        (Inl e, tx) \<Rightarrow> (Some e, tx)
      | (Inr totalSize, tx) \<Rightarrow> process_parts ps rt (k + 1) totalSize parts err tx)"

definition multipart_ProcessRequest :: "parsers \<Rightarrow> runtime \<Rightarrow> string \<Rightarrow> string \<Rightarrow> Transaction \<Rightarrow> (string option \<times> Transaction) go" where
  "multipart_ProcessRequest ps rt mime b tx =
     (case ParseMediaType ps mime of
        Inl _ \<Rightarrow> None
      | Inr (mediaType, params) \<Rightarrow>
          if \<not> HasPrefix mediaType ''multipart/'' then Some (Some ''not a multipart body'', tx)
          else
            let boundary = (case map_of params ''boundary'' of None \<Rightarrow> [] | Some x \<Rightarrow> x);
                (parts, err) = multipart_Parts ps boundary b
            in Some (process_parts ps rt 0 0 parts err tx))"

section \<open>The registry\<close>

datatype BodyProcessor = urlencodedBodyProcessor | jsonBodyProcessor | xmlBodyProcessor | multipartBodyProcessor

definition processors :: "(string \<times> BodyProcessor) list" where
  "processors = [(''json'', jsonBodyProcessor), (''multipart'', multipartBodyProcessor),
     (''urlencoded'', urlencodedBodyProcessor), (''xml'', xmlBodyProcessor)]"

definition bodyprocessors_Get :: "string \<Rightarrow> string + BodyProcessor" where
  "bodyprocessors_Get name =
     (case map_of processors (ToLower name) of
        None \<Rightarrow> Inl (''invalid bodyprocessor '' @ name)
      | Some p \<Rightarrow> Inr p)"

fun ProcessRequest :: "BodyProcessor \<Rightarrow> parsers \<Rightarrow> runtime \<Rightarrow> string \<Rightarrow> string \<Rightarrow> Transaction \<Rightarrow> (string option \<times> Transaction) go" where
  "ProcessRequest urlencodedBodyProcessor ps rt mime b tx = Some (urlencoded_ProcessRequest rt b tx)"
| "ProcessRequest jsonBodyProcessor ps rt mime b tx = Some (json_ProcessRequest ps rt b tx)"
| "ProcessRequest xmlBodyProcessor ps rt mime b tx = Some (xml_ProcessRequest ps rt b tx)"
| "ProcessRequest multipartBodyProcessor ps rt mime b tx = multipart_ProcessRequest ps rt mime b tx"

section \<open>What the processors leave alone\<close>

lemma only_vars_urlencoded: "only_vars t (snd (urlencoded_ProcessRequest rt b t))"
  unfolding urlencoded_ProcessRequest_def Let_def snd_conv by (intro inv_intros only_vars_fold)

lemma only_vars_json_store [inv_intros]: "only_vars t1 t2 \<Longrightarrow> only_vars t1 (json_store k v t2)"
  unfolding json_store_def Let_def by (auto intro!: inv_intros)

lemma only_vars_json: "only_vars t (snd (json_ProcessRequest ps rt b t))"
  unfolding json_ProcessRequest_def Let_def snd_conv by (intro inv_intros only_vars_fold)

lemma only_vars_xml: "only_vars t (snd (xml_ProcessRequest ps rt b t))"
  unfolding xml_ProcessRequest_def Let_def by (auto split: option.splits prod.splits intro!: inv_intros)

lemma only_vars_part_headers [inv_intros]: "only_vars t1 t2 \<Longrightarrow> only_vars t1 (part_headers rt p t2)"
  unfolding part_headers_def by (intro inv_intros only_vars_fold)

lemma only_vars_process_part: "only_vars t (snd (process_part ps rt k n p t))"
  unfolding process_part_def Let_def
  by (auto split: option.splits sum.splits intro!: inv_intros)

lemma only_vars_process_parts: "only_vars t (snd (process_parts ps rt k n parts err t))"
proof (induction ps rt k n parts err t rule: process_parts.induct)
  case (2 ps rt k n p parts err t)
  obtain r t1 where p: "process_part ps rt k n p t = (r, t1)" by fastforce
  with only_vars_process_part [of t ps rt k n p] have t1: "only_vars t t1" by simp
  show ?case
  proof (cases r)
    case (Inr m)
    with 2 p have "only_vars t1 (snd (process_parts ps rt (k + 1) m parts err t1))" by simp
    with t1 p Inr show ?thesis by (auto intro: only_vars_trans)
  qed (use t1 p in simp)
qed simp

lemma only_vars_ProcessRequest: "ProcessRequest bp ps rt mime b t = Some (err, t') \<Longrightarrow> only_vars t t'"
  using only_vars_urlencoded [of t rt b] only_vars_json [of t ps rt b] only_vars_xml [of t ps rt b]
    only_vars_process_parts [of t ps rt 0 0]
  by (cases bp) (auto simp: multipart_ProcessRequest_def Let_def split: sum.splits if_splits prod.splits,
      metis snd_conv)

lemma tx_wf_urlencoded: "tx_wf t \<Longrightarrow> tx_wf (snd (urlencoded_ProcessRequest rt b t))"
  unfolding urlencoded_ProcessRequest_def Let_def snd_conv by (intro inv_intros tx_wf_fold)

lemma tx_wf_json_store [inv_intros]: "tx_wf t \<Longrightarrow> tx_wf (json_store k v t)"
  unfolding json_store_def Let_def by (auto intro!: inv_intros)

lemma tx_wf_json: "tx_wf t \<Longrightarrow> tx_wf (snd (json_ProcessRequest ps rt b t))"
  unfolding json_ProcessRequest_def Let_def snd_conv by (intro inv_intros tx_wf_fold)

lemma tx_wf_xml: "tx_wf t \<Longrightarrow> tx_wf (snd (xml_ProcessRequest ps rt b t))"
  unfolding xml_ProcessRequest_def Let_def by (auto split: option.splits prod.splits intro!: inv_intros)

lemma tx_wf_Map_Add: "tx_wf t \<Longrightarrow> tx_wf (upd_col v (\<lambda>m. Map_Add m k x) t)"
  by (simp add: Map_Add_def tx_wf_upd_col)

lemma tx_wf_part_headers: "tx_wf t \<Longrightarrow> tx_wf (part_headers rt p t)"
  unfolding part_headers_def by (intro tx_wf_fold tx_wf_Map_Add)

lemma tx_wf_process_part: "tx_wf t \<Longrightarrow> tx_wf (snd (process_part ps rt k n p t))"
  unfolding process_part_def Let_def
  by (auto split: option.splits sum.splits intro!: inv_intros tx_wf_Map_Add tx_wf_part_headers)

lemma tx_wf_process_parts: "tx_wf t \<Longrightarrow> tx_wf (snd (process_parts ps rt k n parts err t))"
proof (induction ps rt k n parts err t rule: process_parts.induct)
  case (2 ps rt k n p parts err t)
  obtain r t1 where p: "process_part ps rt k n p t = (r, t1)" by fastforce
  with tx_wf_process_part [OF 2(2), of ps rt k n p] have t1: "tx_wf t1" by simp
  show ?case
  proof (cases r)
    case (Inr m)
    with 2 p t1 show ?thesis by simp
  qed (use t1 p in simp)
qed simp

lemma tx_wf_ProcessRequest: "ProcessRequest bp ps rt mime b t = Some (err, t') \<Longrightarrow> tx_wf t \<Longrightarrow> tx_wf t'"
  using tx_wf_urlencoded [of t rt b] tx_wf_json [of t ps rt b] tx_wf_xml [of t ps rt b]
    tx_wf_process_parts [of t ps rt 0 0]
  by (cases bp) (auto simp: multipart_ProcessRequest_def Let_def split: sum.splits if_splits prod.splits,
      metis snd_conv)

section \<open>URLENCODED: what is stored, and what a target finds\<close>

lemma Map_Get_Set: "Map_Get (Map_Set m k vs) k' = (if k = k' then vs else Map_Get m k')"
  by (simp add: Map_Set_def map_store.get_set)

lemma Map_Get_fold_Set:
  "distinct ks \<Longrightarrow> Map_Get (col (fold (\<lambda>k. upd_col v (\<lambda>m. Map_Set m k (f k))) ks t) v) k'
     = (if k' \<in> set ks then f k' else Map_Get (col t v) k')"
proof (induction ks arbitrary: t)
  case (Cons k ks)
  then show ?case by (auto simp: Map_Get_Set)
qed simp

lemma urlencoded_Get:
  assumes "range_order (rt_ord rt)" "urlencoded_ProcessRequest rt b t = (err, t')"
  shows "Map_Get (col t' ArgsPost) k =
    (let vs = map snd (filter (\<lambda>(k', _). k' = k) (query_fields b (CHR ''&'')))
     in if vs = [] then Map_Get (col t ArgsPost) k else vs)"
proof -
  let ?pq = "ParseQuery b (CHR ''&'')"
  have "distinct (rt_ord rt (map fst ?pq))" "set (rt_ord rt (map fst ?pq)) = fst ` set (query_fields b (CHR ''&''))"
    using range_order_distinct [OF assms(1) ParseQuery_keys(2)] range_order_set [OF assms(1)]
      ParseQuery_keys(1) [of b "CHR ''&''"] by auto
  moreover have "col t' ArgsPost = col (fold (\<lambda>k. upd_col ArgsPost (\<lambda>m. Map_Set m k (map_get ?pq k)))
      (rt_ord rt (map fst ?pq)) t) ArgsPost"
    using assms(2) by (auto simp: urlencoded_ProcessRequest_def Let_def)
  moreover have "map_get ?pq k = map snd (filter (\<lambda>(k', _). k' = k) (query_fields b (CHR ''&'')))"
    by (simp add: ParseQuery_def parse_query_loop_get)
  moreover have "k \<in> fst ` set fs \<longleftrightarrow> filter (\<lambda>(k', _). k' = k) fs \<noteq> []" for fs :: "(string \<times> string) list"
    by (induction fs) auto
  ultimately show ?thesis by (simp add: Map_Get_fold_Set Let_def)
qed

lemma m_data_fold_Set:
  "fst ` set (m_data (col (fold (\<lambda>k. upd_col v (\<lambda>m. Map_Set m k (f k))) ks t) v))
     = set ks \<union> fst ` set (m_data (col t v))"
proof (induction ks arbitrary: t)
  case (Cons k ks)
  then show ?case by (auto simp: Map_Set_def Map_SetCS_def dom_update)
qed simp

text \<open>
  The URLENCODED processor stores under every decoded key of the body its decoded values in
  order, replacing earlier ones, whatever the order in which the parsed map is ranged over, and
  keeps the body and its length.
\<close>

theorem urlencoded_values:
  assumes "range_order (rt_ord rt)" "ProcessRequest urlencodedBodyProcessor ps rt mime b t = Some (err, t')"
  shows "err = None \<and> var t' RequestBody = b \<and> var t' RequestBodyLength = Itoa (int (length b)) \<and>
    Map_Get (col t' ArgsPost) k =
      (let vs = map snd (filter (\<lambda>(k', _). k' = k) (query_fields b (CHR ''&'')))
       in if vs = [] then Map_Get (col t ArgsPost) k else vs)"
proof -
  from assms(2) have u: "urlencoded_ProcessRequest rt b t = (err, t')" by simp
  then have "err = None \<and> var t' RequestBody = b \<and> var t' RequestBodyLength = Itoa (int (length b))"
    by (auto simp: urlencoded_ProcessRequest_def Let_def)
  with urlencoded_Get [OF assms(1) u] show ?thesis by blast
qed

lemma AddVariable_plain:
  assumes "AddVariable lb v key False r = Some r'" "length key \<le> 2 \<or> hd key \<noteq> CHR ''/''"
  shows "last (r_variables r') = \<lparr>rv_Name = variable_Name v, rv_Count = False, rv_Variable = v, rv_KeyRx = None,
    rv_KeyStr = ToLower key, rv_Exceptions = []\<rparr>"
  using assms by (auto simp: AddVariable_def selector_def)

text \<open>
  The processor keeps the case of the keys, while a rule looks for its target in lower case:
  when a body has a field whose key contains a capital letter, a rule with this key as its target
  \<^verbatim>\<open>ARGS_POST:key\<close> does not see the field.
\<close>

theorem urlencoded_capital_missed:
  assumes "range_order (rt_ord rt)" "ProcessRequest urlencodedBodyProcessor ps rt mime b t = Some (err, t')"
    and "(key, x) \<in> set (query_fields b (CHR ''&''))" "ToLower key \<notin> fst ` set (query_fields b (CHR ''&''))"
    and "m_data (col t ArgsPost) = []" "ToLower key \<noteq> []" "hd key \<noteq> CHR ''/''"
    and "AddVariable lb ArgsPost key False r = Some r'"
  shows "x \<in> set (Map_Get (col t' ArgsPost) key) \<and> GetField (rt_ord rt) (last (r_variables r')) t' = Some []"
proof
  from assms(2) have u: "urlencoded_ProcessRequest rt b t = (err, t')" by simp
  let ?fs = "query_fields b (CHR ''&'')"
  let ?vs = "map snd (filter (\<lambda>(k', _). k' = key) ?fs)"
  have x: "x \<in> set ?vs" using assms(3) by force
  then have "?vs \<noteq> []" by (metis empty_iff empty_set)
  with urlencoded_Get [OF assms(1) u, of key] have "Map_Get (col t' ArgsPost) key = ?vs"
    unfolding Let_def by (simp only: if_False)
  with x show "x \<in> set (Map_Get (col t' ArgsPost) key)" by simp
  let ?pq = "ParseQuery b (CHR ''&'')"
  have "col t' ArgsPost = col (fold (\<lambda>k. upd_col ArgsPost (\<lambda>m. Map_Set m k (map_get ?pq k)))
      (rt_ord rt (map fst ?pq)) t) ArgsPost"
    using u by (auto simp: urlencoded_ProcessRequest_def Let_def)
  then have "fst ` set (m_data (col t' ArgsPost)) = fst ` set ?fs"
    using assms(5) range_order_set [OF assms(1)] ParseQuery_keys(1) [of b "CHR ''&''"]
    by (simp add: m_data_fold_Set)
  with assms(4) have "map_of (m_data (col t' ArgsPost)) (ToLower key) = None" by (simp add: map_of_eq_None_iff)
  then show "GetField (rt_ord rt) (last (r_variables r')) t' = Some []"
    unfolding AddVariable_plain [OF assms(8) disjI2 [OF assms(7)]]
    using assms(6) by (simp add: GetField_def tx_Collection_def simple_variables_def map_variables_def
      find_matches_def Map_FindString_def)
qed

section \<open>JSON: leaves and paths\<close>

text \<open>The texts a JSON value is stored as, with their keys, in the order of the document.\<close>

fun leaf_text :: "gjson \<Rightarrow> string option" where
  "leaf_text (GJSON is) = None"
| "leaf_text (GString s) = Some s"
| "leaf_text GNull = Some []"
| "leaf_text (GOther raw) = Some raw"

function leaves :: "(gjson_key \<times> gjson) list \<Rightarrow> string \<Rightarrow> (string \<times> string) list" where
  "leaves [] objKey = []"
| "leaves ((k, v) # items) objKey =
     (case v of
        GJSON is \<Rightarrow> leaves is (item_key objKey k) @
          (let n = length (filter (\<lambda>(k, _). \<exists>i. k = KNum i) is) in
           if n > 0 then [(item_key objKey k, Itoa (int n))] else [])
      | _ \<Rightarrow> [(item_key objKey k, the (leaf_text v))]) @ leaves items objKey"
  by pat_completeness auto
termination
  by (relation "measure (\<lambda>(is, _). size_list (size_prod (\<lambda>_. 0) size) is)") auto

abbreviation store_all :: "(string \<times> string) list \<Rightarrow> (string \<times> string) list \<Rightarrow> (string \<times> string) list" where
  "store_all kvs res \<equiv> fold (\<lambda>(k, v). AList.update k v) kvs res"

lemma filter_KNum_Cons:
  "length (filter (\<lambda>(k, _). \<exists>i. k = KNum i) ((k, v) # is)) =
     (case k of KString _ \<Rightarrow> 0 | KNum _ \<Rightarrow> 1) + length (filter (\<lambda>(k, _). \<exists>i. k = KNum i) is)"
  by (cases k) auto

lemma readItems_leaves:
  "readItems is objKey n res = store_all (leaves is objKey @
     (let m = n + length (filter (\<lambda>(k, _). \<exists>i. k = KNum i) is) in if m > 0 then [(objKey, Itoa (int m))] else [])) res"
proof (induction "is" objKey n res rule: readItems.induct)
  case (2 k v items objKey n res)
  let ?n = "case k of KString _ \<Rightarrow> n | KNum _ \<Rightarrow> n + 1"
  have n: "n + length (filter (\<lambda>(k, _). \<exists>i. k = KNum i) ((k, v) # items))
      = ?n + length (filter (\<lambda>(k, _). \<exists>i. k = KNum i) items)"
    unfolding filter_KNum_Cons by (cases k) auto
  note IH = "2.IH"(2) [OF refl refl refl]
  show ?case
  proof (cases v)
    case (GJSON is')
    then show ?thesis
      unfolding n using IH "2.IH"(1) [OF refl refl GJSON] by (simp add: Let_def)
  qed (use IH n in \<open>simp_all add: Let_def\<close>)
qed simp

text \<open>The value that a path of keys leads to.\<close>

fun json_at :: "gjson_key list \<Rightarrow> (gjson_key \<times> gjson) list \<Rightarrow> gjson option" where
  "json_at [] is = None"
| "json_at [k] is = map_of is k"
| "json_at (k # ks) is = (case map_of is k of Some (GJSON js) \<Rightarrow> json_at ks js | _ \<Rightarrow> None)"

definition dotted :: "string \<Rightarrow> gjson_key list \<Rightarrow> string" where
  "dotted objKey ks = foldl item_key objKey ks"

lemma leaves_item:
  "(k, v) \<in> set is \<Longrightarrow> leaf_text v = Some s \<Longrightarrow> (item_key objKey k, s) \<in> set (leaves is objKey)"
  by (induction "is") (auto split: gjson.splits)

lemma leaves_sub:
  "(k, GJSON js) \<in> set is \<Longrightarrow> set (leaves js (item_key objKey k)) \<subseteq> set (leaves is objKey)"
  by (induction "is") (auto split: gjson.splits)

lemma json_at_leaves:
  "json_at ks is = Some v \<Longrightarrow> leaf_text v = Some s \<Longrightarrow> (dotted objKey ks, s) \<in> set (leaves is objKey)"
proof (induction ks "is" arbitrary: objKey rule: json_at.induct)
  case (2 k "is")
  then show ?case by (auto simp: dotted_def dest: map_of_SomeD leaves_item)
next
  case (3 k k' ks "is")
  then obtain js where "map_of is k = Some (GJSON js)" "json_at (k' # ks) js = Some v"
    by (auto split: option.splits gjson.splits)
  with 3 have "(dotted (item_key objKey k) (k' # ks), s) \<in> set (leaves js (item_key objKey k))"
    "(k, GJSON js) \<in> set is"
    by (auto dest: map_of_SomeD)
  with leaves_sub show ?case by (fastforce simp: dotted_def)
qed simp

lemma map_of_store_all:
  "distinct (map fst kvs) \<Longrightarrow> (k, v) \<in> set kvs \<Longrightarrow> map_of (store_all kvs res) k = Some v"
proof -
  have keep: "k \<notin> fst ` set kvs \<Longrightarrow> map_of (store_all kvs res) k = map_of res k" for kvs res
    by (induction kvs arbitrary: res) (auto simp: update_conv)
  show "distinct (map fst kvs) \<Longrightarrow> (k, v) \<in> set kvs \<Longrightarrow> map_of (store_all kvs res) k = Some v"
    by (induction kvs arbitrary: res) (auto simp: keep update_conv image_iff)
qed

lemma distinct_store_all: "distinct (map fst res) \<Longrightarrow> distinct (map fst (store_all kvs res))"
  by (induction kvs arbitrary: res) (auto simp: distinct_update)

lemma json_store_Get:
  "Map_Get (col (json_store k v t) ArgsPost) k' =
     (if k = k' then v # tl (Map_Get (col t ArgsPost) k) else Map_Get (col t ArgsPost) k')"
  "Map_Get (col (json_store k v t) ArgsGet) k' = (if k = k' then [] else Map_Get (col t ArgsGet) k')"
proof -
  show "Map_Get (col (json_store k v t) ArgsPost) k' =
     (if k = k' then v # tl (Map_Get (col t ArgsPost) k) else Map_Get (col t ArgsPost) k')"
    by (simp add: json_store_def Let_def Map_SetIndex_def Map_Get_SetIndex0)
  have "k \<notin> fst ` set (m_data m) \<Longrightarrow> Map_Get m k = []" for m
    by (auto simp: Map_Get_def map_get_def map_of_eq_None_iff [symmetric] split: option.splits)
  then show "Map_Get (col (json_store k v t) ArgsGet) k' = (if k = k' then [] else Map_Get (col t ArgsGet) k')"
    by (auto simp: json_store_def Let_def map_store.get_remove Map_Data_def image_image case_prod_unfold)
qed

lemma json_fold_Get:
  "distinct ks \<Longrightarrow> Map_Get (col (fold (\<lambda>k. json_store k (f k)) ks t) ArgsPost) k' =
     (if k' \<in> set ks then f k' # tl (Map_Get (col t ArgsPost) k') else Map_Get (col t ArgsPost) k')"
  "Map_Get (col (fold (\<lambda>k. json_store k (f k)) ks t) ArgsGet) k' =
     (if k' \<in> set ks then [] else Map_Get (col t ArgsGet) k')"
  by (induction ks arbitrary: t) (auto simp: json_store_Get)

text \<open>
  C32. The JSON processor stores every scalar of the document in ARGS_POST under the dotted path
  that leads to it, as its text, and removes an argument of that name from ARGS_GET, when the
  dotted paths of the document are distinct.
\<close>

theorem json_leaf_stored:
  assumes "range_order (rt_ord rt)" "ProcessRequest jsonBodyProcessor ps rt mime b t = Some (err, t')"
    and "json_at path (gjson_Parse ps b) = Some v" "leaf_text v = Some s"
    and "distinct (''json'' # map fst (leaves (gjson_Parse ps b) ''json''))"
  shows "err = None \<and> Map_Get (col t' ArgsPost) (dotted ''json'' path) =
      s # tl (Map_Get (col t ArgsPost) (dotted ''json'' path)) \<and>
    Map_Get (col t' ArgsGet) (dotted ''json'' path) = []"
proof -
  let ?data = "readJSON ps b" and ?k = "dotted ''json'' path"
  let ?kvs = "leaves (gjson_Parse ps b) ''json'' @
     (let m = 0 + length (filter (\<lambda>(k, _). \<exists>i. k = KNum i) (gjson_Parse ps b)) in if m > 0 then [(''json'', Itoa (int m))] else [])"
  have data: "?data = store_all ?kvs []"
    unfolding readJSON_def readItems_leaves ..
  have "distinct (map fst ?kvs)" using assms(5) by (auto simp: Let_def)
  moreover have "(?k, s) \<in> set ?kvs" using json_at_leaves [OF assms(3,4)] by simp
  ultimately have k: "map_of ?data ?k = Some s" unfolding data by (rule map_of_store_all)
  have "distinct (map fst ?data)" unfolding data by (rule distinct_store_all) simp
  then have ks: "distinct (rt_ord rt (map fst ?data))" "?k \<in> set (rt_ord rt (map fst ?data))"
    using range_order_distinct [OF assms(1)] range_order_set [OF assms(1)] k
    by (auto dest: map_of_SomeD simp: image_iff) force
  from assms(2) have "err = None" "t' = fold (\<lambda>k. json_store k (the (map_of ?data k))) (rt_ord rt (map fst ?data)) t"
    by (auto simp: json_ProcessRequest_def Let_def)
  with ks k show ?thesis by (simp add: json_fold_Get)
qed

section \<open>MULTIPART: files and fields\<close>

definition is_file :: "parsers \<Rightarrow> Part \<Rightarrow> bool" where
  "is_file ps p \<longleftrightarrow> originFileName ps p \<noteq> []"

definition part_size :: "parsers \<Rightarrow> runtime \<Rightarrow> Part \<Rightarrow> int" where
  "part_size ps rt p = (if is_file ps p then (case upload_size rt p of Inl _ \<Rightarrow> 0 | Inr n \<Rightarrow> n)
     else int (length (p_data p)))"

lemma part_headers_col: "v \<noteq> MultipartPartHeaders \<Longrightarrow> col (part_headers rt p t) v = col t v"
  unfolding part_headers_def
  by (rule fold_invariant [where P = "\<lambda>u. col u v = col t v" and Q = "\<lambda>_. True"], simp, simp,
      rule fold_invariant [where P = "\<lambda>u. col u v = col t v" and Q = "\<lambda>_. True"]) simp_all

lemma Map_Get_Add [simp]: "Map_Get (Map_Add m k v) k' = Map_Get m k' @ (if k = k' then [v] else [])"
  by (simp add: Map_Add_def)

lemma process_part_ok:
  assumes "process_part ps rt k n p t = (Inr m, t')"
  shows "m = n + part_size ps rt p \<and> var t' FilesCombinedSize = Itoa m \<and>
    Map_Get (col t' Files) [] = Map_Get (col t Files) [] @ (if is_file ps p then [originFileName ps p] else []) \<and>
    Map_Get (col t' ArgsPost) key = Map_Get (col t ArgsPost) key @
      (if \<not> is_file ps p \<and> p_FormName p = key then [p_data p] else [])"
  using assms
  by (auto simp: process_part_def Let_def is_file_def part_size_def part_headers_col
      split: if_splits sum.splits option.splits)

lemma process_parts_ok:
  "process_parts ps rt k n parts err t = (None, t') \<Longrightarrow>
    (parts \<noteq> [] \<longrightarrow> var t' FilesCombinedSize = Itoa (n + (\<Sum>p\<leftarrow>parts. part_size ps rt p))) \<and>
    Map_Get (col t' Files) [] = Map_Get (col t Files) [] @ map (originFileName ps) (filter (is_file ps) parts) \<and>
    Map_Get (col t' ArgsPost) key = Map_Get (col t ArgsPost) key @
      map p_data (filter (\<lambda>p. \<not> is_file ps p \<and> p_FormName p = key) parts)"
proof (induction ps rt k n parts err t rule: process_parts.induct)
  case (2 ps rt k n p parts err t)
  then obtain m t1 where p: "process_part ps rt k n p t = (Inr m, t1)"
    and r: "process_parts ps rt (k + 1) m parts err t1 = (None, t')"
    by (auto split: prod.splits sum.splits)
  have "parts = [] \<Longrightarrow> t' = t1" using r by simp
  with "2.IH" [OF p [symmetric] refl r] process_part_ok [OF p, of key] show ?case
    by (cases "parts = []") (auto simp: add.assoc)
qed simp

text \<open>
  C33. When the MULTIPART processor succeeds, the names of the uploaded files are appended to FILES
  and the contents of the fields to ARGS_POST under their names, in the order of the parts, and
  FILES_COMBINED_SIZE is the total size of all parts, of the fields as well as of the files.
\<close>

theorem multipart_stored:
  assumes "ProcessRequest multipartBodyProcessor ps rt mime b t = Some (None, t')"
    and "ParseMediaType ps mime = Inr (mt, params)" "multipart_Parts ps boundary b = (parts, err)"
    and "map_of params ''boundary'' = Some boundary"
  shows "Map_Get (col t' Files) [] = Map_Get (col t Files) [] @ map (originFileName ps) (filter (is_file ps) parts) \<and>
    Map_Get (col t' ArgsPost) key = Map_Get (col t ArgsPost) key @
      map p_data (filter (\<lambda>p. \<not> is_file ps p \<and> p_FormName p = key) parts) \<and>
    (parts \<noteq> [] \<longrightarrow> var t' FilesCombinedSize = Itoa (\<Sum>p\<leftarrow>parts. part_size ps rt p))"
proof -
  from assms have "process_parts ps rt 0 0 parts err t = (None, t')"
    by (auto simp: multipart_ProcessRequest_def split: if_splits)
  from process_parts_ok [OF this, of key] show ?thesis by simp
qed

section \<open>Witnesses\<close>

text \<open>Libraries that return one fixed document: \<^verbatim>\<open>{"a": "x", "b": [2]}\<close>, and a form with
  the file \<open>f.txt\<close> and the field \<open>q\<close>.\<close>

definition demo_rt :: runtime where
  "demo_rt = \<lparr>rt_ord = rev, rt_libs = no_libs, rt_os = os_ok, rt_tiny = False\<rparr>"

definition demo_file :: Part where
  "demo_file = \<lparr>p_FormName = ''up'', p_Header = [(''Content-Disposition'', [''file''])], p_data = ''abc'', p_err = None\<rparr>"

definition demo_field :: Part where
  "demo_field = \<lparr>p_FormName = ''q'', p_Header = [], p_data = ''hello'', p_err = None\<rparr>"

definition demo_parsers :: parsers where
  "demo_parsers = \<lparr>gjson_Parse = (\<lambda>_. [(KString ''a'', GString ''x''), (KString ''b'', GJSON [(KNum 0, GOther ''2'')])]),
     xml_Tokens = (\<lambda>_. ([], None)),
     ParseMediaType = (\<lambda>s. if s = ''file'' then Inr (''form-data'', [(''filename'', ''f.txt'')])
       else if s = [] then Inl ''mime: no media type'' else Inr (''multipart/form-data'', [(''boundary'', ''B'')])),
     multipart_Parts = (\<lambda>_ _. ([demo_file, demo_field], None)),
     TempName = (\<lambda>_. ''crzmp1'')\<rparr>"

lemma range_order_rev [simp]: "range_order rev"
  by (simp add: range_order_def)

lemma capital_fields: "query_fields ''A=1'' (CHR ''&'') = [(''A'', ''1'')]" "ToLower ''A'' = ''a''"
  by (simp_all add: query_fields_def split_field_def QueryUnescape_other)
    (simp add: ToLower_def is_ascii_def lower_ascii_def in_range_def char_of_def bit_Suc_0_iff)

theorem urlencoded_values_witness:
  "Map_Get (col (snd (urlencoded_ProcessRequest demo_rt ''A=1'' blank_tx)) ArgsPost) ''A'' = [''1'']"
proof -
  have "ProcessRequest urlencodedBodyProcessor demo_parsers demo_rt [] ''A=1'' blank_tx =
      Some (None, snd (urlencoded_ProcessRequest demo_rt ''A=1'' blank_tx))"
    by (simp add: urlencoded_ProcessRequest_def Let_def)
  from urlencoded_values [OF _ this, of "''A''"] show ?thesis
    by (simp add: demo_rt_def capital_fields)
qed

theorem urlencoded_capital_missed_witness:
  "\<exists>rv t'. urlencoded_ProcessRequest demo_rt ''A=1'' blank_tx = (None, t') \<and>
     ''1'' \<in> set (Map_Get (col t' ArgsPost) ''A'') \<and> rv_Variable rv = ArgsPost \<and> GetField rev rv t' = Some []"
proof -
  obtain t' where u: "urlencoded_ProcessRequest demo_rt ''A=1'' blank_tx = (None, t')"
    by (simp add: urlencoded_ProcessRequest_def Let_def)
  obtain r' where r': "AddVariable no_libs ArgsPost ''A'' False (NewRule 2) = Some r'"
    by (simp add: AddVariable_def selector_def)
  have "m_data (col blank_tx ArgsPost) = []" by (simp add: blank_tx_def NewTransactionVariables_def NewMap_def)
  then have "''1'' \<in> set (Map_Get (col t' ArgsPost) ''A'') \<and> GetField (rt_ord demo_rt) (last (r_variables r')) t' = Some []"
    using u by (intro urlencoded_capital_missed [where ps = demo_parsers and b = "''A=1''" and t = blank_tx and mime = "[]",
        OF _ _ _ _ _ _ _ r']) (simp_all add: capital_fields, simp add: demo_rt_def)
  with u AddVariable_plain [OF r'] show ?thesis
    by (intro exI [of _ "last (r_variables r')"] exI [of _ t']) (simp add: demo_rt_def)
qed

theorem json_leaf_stored_witness:
  "Map_Get (col (snd (json_ProcessRequest demo_parsers demo_rt [] blank_tx)) ArgsPost) ''json.b.0'' = [''2'']"
proof -
  have p: "ProcessRequest jsonBodyProcessor demo_parsers demo_rt [] [] blank_tx =
      Some (None, snd (json_ProcessRequest demo_parsers demo_rt [] blank_tx))"
    by (simp add: json_ProcessRequest_def Let_def)
  have "json_at [KString ''b'', KNum 0] (gjson_Parse demo_parsers []) = Some (GOther ''2'')"
    by (simp add: demo_parsers_def)
  moreover have "distinct (''json'' # map fst (leaves (gjson_Parse demo_parsers []) ''json''))"
    by (simp add: demo_parsers_def item_key_def Let_def Itoa_def)
  moreover have "dotted ''json'' [KString ''b'', KNum 0] = ''json.b.0''"
    by code_simp
  ultimately show ?thesis
    using json_leaf_stored [OF _ p, of "[KString ''b'', KNum 0]" "GOther ''2''" "''2''"]
    by (simp add: demo_rt_def)
qed

theorem multipart_stored_witness:
  "\<exists>t'. multipart_ProcessRequest demo_parsers demo_rt ''m'' [] blank_tx = Some (None, t') \<and>
     Map_Get (col t' Files) [] = [''f.txt''] \<and> Map_Get (col t' ArgsPost) ''q'' = [''hello''] \<and>
     var t' FilesCombinedSize = Itoa 8"
proof -
  have o: "originFileName demo_parsers demo_file = ''f.txt''" "originFileName demo_parsers demo_field = []"
    by (simp_all add: originFileName_def demo_file_def demo_field_def demo_parsers_def first_or_def map_get_def Let_def)
  have u: "upload_size demo_rt demo_file = Inr 3"
    by (simp add: upload_size_def demo_rt_def os_ok_def demo_file_def)
  have l: "ParseMediaType demo_parsers ''m'' = Inr (''multipart/form-data'', [(''boundary'', ''B'')])"
      "multipart_Parts demo_parsers ''B'' [] = ([demo_file, demo_field], None)"
    by (simp_all add: demo_parsers_def)
  have "p_err demo_field = None" by (simp add: demo_field_def)
  then obtain t' where t': "multipart_ProcessRequest demo_parsers demo_rt ''m'' [] blank_tx = Some (None, t')"
    using o u l by (simp add: multipart_ProcessRequest_def process_part_def Let_def HasPrefix_def)
  then have "ProcessRequest multipartBodyProcessor demo_parsers demo_rt ''m'' [] blank_tx = Some (None, t')" by simp
  from multipart_stored [OF this, of "''multipart/form-data''" "[(''boundary'', ''B'')]" "''B''" "[demo_file, demo_field]" None "''q''"]
  show ?thesis using t' o u
    by (simp add: demo_parsers_def is_file_def part_size_def demo_field_def demo_file_def)
qed

end
