(* ===== verification/Phases.thy ===== *)
theory Phases
  imports Waf Body_Processors
begin

text \<open>
  The phases of a transaction (src/internal/corazawaf/transaction.go): the five \<open>Process\<close>
  functions, writing the request body within its limit, reading a whole request, and the decision
  to write the audit log.

  \<open>it\<close> in the results is the interruption that the function returns. The document that is
  written to the audit log is not part of the model; \<open>AuditWrites\<close> counts the writes.
\<close>

section \<open>The request\<close>

text \<open>\<open>tx.WAF.Rules.Eval(phase, tx); return tx.interruption\<close>\<close>

definition run_phase :: "runtime \<Rightarrow> WAF \<Rightarrow> RulePhase \<Rightarrow> Transaction \<Rightarrow> (Interruption option \<times> Transaction) go" where
  "run_phase rt waf phase tx = do { (_, tx) \<leftarrow> Eval rt waf phase tx; Some (interruption tx, tx) }"

definition ProcessRequestHeaders :: "runtime \<Rightarrow> WAF \<Rightarrow> Transaction \<Rightarrow> (Interruption option \<times> Transaction) go" where
  "ProcessRequestHeaders rt waf tx =
     (if RuleEngine tx = RuleEngineOff then Some (None, tx)
      else if LastPhase tx \<ge> PhaseRequestHeaders then Some (interruption tx, tx)
      else if interruption tx \<noteq> None then Some (interruption tx, tx)
      else run_phase rt waf PhaseRequestHeaders tx)"

definition body_limit_interruption :: Interruption where
  "body_limit_interruption = \<lparr>it_RuleID = 0, it_Action = ''deny'', it_Status = 403, it_Data = []\<rparr>"

definition setAndReturnBodyLimitInterruption :: "Transaction \<Rightarrow> Interruption option \<times> int \<times> string option \<times> Transaction" where
  "setAndReturnBodyLimitInterruption tx =
     (let tx = (set_var InboundErrorData ''1'' tx)\<lparr>interruption := Some body_limit_interruption\<rparr>
      in (interruption tx, 0, None, tx))"

text \<open>The interruption, the error and the transaction.\<close>

definition ProcessRequestBody :: "parsers \<Rightarrow> runtime \<Rightarrow> WAF \<Rightarrow> Transaction \<Rightarrow>
    (Interruption option \<times> string option \<times> Transaction) go" where
  "ProcessRequestBody ps rt waf tx =
     (let run = (\<lambda>tx. do { (it, tx) \<leftarrow> run_phase rt waf PhaseRequestBody tx; Some (it, None, tx) }) in
      if RuleEngine tx = RuleEngineOff then Some (None, None, tx)
      else if LastPhase tx \<ge> PhaseRequestBody then Some (interruption tx, None, tx)
      else if interruption tx \<noteq> None then Some (interruption tx, None, tx)
      else if \<not> RequestBodyAccess tx \<or> bb_length (requestBodyBuffer tx) = 0 then run tx
      else
        let mime = first_or (Map_Get (col tx RequestHeaders) ''content-type'') [];
            body = reader_content (rt_tiny rt) (requestBodyBuffer tx);
            rbp = (if ForceRequestBodyVariable tx then ''URLENCODED'' else var tx ReqbodyProcessor);
            tx = (if ForceRequestBodyVariable tx then set_var ReqbodyProcessor rbp tx else tx);
            rbp = ToLower rbp
        in if rbp = [] then run tx
           else
             (case bodyprocessors_Get rbp of
                Inl _ \<Rightarrow> run (generateReqbodyError ''invalid body processor'' tx)
              | Inr bp \<Rightarrow>
                  do { (err, tx) \<leftarrow> ProcessRequest bp ps rt mime body tx;
                       run (case err of None \<Rightarrow> tx | Some e \<Rightarrow> generateReqbodyError e tx) }))"

text \<open>The interruption, the number of bytes written, the error and the transaction; slicing to a
  negative length panics.\<close>

definition WriteRequestBody :: "parsers \<Rightarrow> runtime \<Rightarrow> WAF \<Rightarrow> string \<Rightarrow> Transaction \<Rightarrow>
    (Interruption option \<times> int \<times> string option \<times> Transaction) go" where
  "WriteRequestBody ps rt waf b tx =
     (let reject = (w_RequestBodyLimitAction waf = RequestBodyLimitActionReject);
          limit = RequestBodyLimit tx;
          len = bb_length (requestBodyBuffer tx)
      in
      if RuleEngine tx = RuleEngineOff then Some (None, 0, None, tx)
      else if \<not> RequestBodyAccess tx then Some (None, 0, None, tx)
      else if limit = len then Some (if reject then interruption tx else None, 0, None, tx)
      else
        let over = (len + int (length b) \<ge> limit) in
        if over \<and> reject then Some (setAndReturnBodyLimitInterruption tx)
        else
          let writingBytes = (if over then limit - len else int (length b)) in
          if writingBytes < 0 then None
          else
            do { (w, err, buf) \<leftarrow> Write (rt_tiny rt) (rt_os rt) (take (nat writingBytes) b) (requestBodyBuffer tx);
                 let tx = tx\<lparr>requestBodyBuffer := buf\<rparr>;
                 (case err of
                    Some e \<Rightarrow> Some (None, 0, Some e, tx)
                  | None \<Rightarrow>
                      if over then
                        do { (_, err, tx) \<leftarrow> ProcessRequestBody ps rt waf tx; Some (interruption tx, w, err, tx) }
                      else Some (interruption tx, w, None, tx)) })"

text \<open>\<open>runProcessRequestBody\<close> is set when a reader of known length reaches the limit, or when the
  buffer is at the limit afterwards.\<close>

definition ReadRequestBodyFrom :: "parsers \<Rightarrow> runtime \<Rightarrow> WAF \<Rightarrow> reader \<Rightarrow> Transaction \<Rightarrow>
    (Interruption option \<times> int \<times> string option \<times> Transaction) go" where
  "ReadRequestBodyFrom ps rt waf r tx =
     (let reject = (w_RequestBodyLimitAction waf = RequestBodyLimitActionReject);
          limit = RequestBodyLimit tx;
          len = bb_length (requestBodyBuffer tx)
      in
      if RuleEngine tx = RuleEngineOff then Some (None, 0, None, tx)
      else if \<not> RequestBodyAccess tx then Some (None, 0, None, tx)
      else if limit = len then Some (if reject then interruption tx else None, 0, None, tx)
      else
        let over = (case rd_Len r of Some l \<Rightarrow> len + l \<ge> limit | None \<Rightarrow> False) in
        if over \<and> reject then Some (setAndReturnBodyLimitInterruption tx)
        else
          let writingBytes = (case rd_Len r of Some l \<Rightarrow> if over then limit - len else l | None \<Rightarrow> limit - len) in
          do { (w, err, buf) \<leftarrow> io_CopyN (rt_tiny rt) (rt_os rt) r writingBytes (requestBodyBuffer tx);
               let tx = tx\<lparr>requestBodyBuffer := buf\<rparr>;
               if err \<noteq> None \<and> err \<noteq> Some ''EOF'' then Some (None, w, err, tx)
               else if bb_length buf = limit \<and> reject then Some (setAndReturnBodyLimitInterruption tx)
               else if over \<or> bb_length buf = limit then
                 do { (_, err, tx) \<leftarrow> ProcessRequestBody ps rt waf tx; Some (interruption tx, w, err, tx) }
               else Some (interruption tx, w, None, tx) })"

section \<open>The response\<close>

definition ProcessResponseHeaders :: "runtime \<Rightarrow> WAF \<Rightarrow> int \<Rightarrow> string \<Rightarrow> Transaction \<Rightarrow>
    (Interruption option \<times> Transaction) go" where
  "ProcessResponseHeaders rt waf code proto tx =
     (if RuleEngine tx = RuleEngineOff then Some (None, tx)
      else if LastPhase tx \<ge> PhaseResponseHeaders then Some (interruption tx, tx)
      else if interruption tx \<noteq> None then Some (interruption tx, tx)
      else
        let tx = set_var ResponseStatus (Itoa code) tx;
            tx = set_var ResponseProtocol proto tx
        in run_phase rt waf PhaseResponseHeaders tx)"

definition IsResponseBodyProcessable :: "WAF \<Rightarrow> Transaction \<Rightarrow> bool" where
  "IsResponseBodyProcessable waf tx = InSlice (var tx ResponseContentType) (w_ResponseBodyMimeTypes waf)"

definition ResponseBodyWriter_Write :: "runtime \<Rightarrow> string \<Rightarrow> Transaction \<Rightarrow> (int \<times> string option \<times> Transaction) go" where
  "ResponseBodyWriter_Write rt b tx =
     do { (n, err, buf) \<leftarrow> Write (rt_tiny rt) (rt_os rt) b (ResponseBodyBuffer tx);
          Some (n, err, tx\<lparr>ResponseBodyBuffer := buf\<rparr>) }"

definition ProcessResponseBody :: "runtime \<Rightarrow> WAF \<Rightarrow> Transaction \<Rightarrow> (Interruption option \<times> string option \<times> Transaction) go" where
  "ProcessResponseBody rt waf tx =
     (let run = (\<lambda>tx. do { (it, tx) \<leftarrow> run_phase rt waf PhaseResponseBody tx; Some (it, None, tx) }) in
      if RuleEngine tx = RuleEngineOff then Some (None, None, tx)
      else if LastPhase tx \<ge> PhaseResponseBody then Some (interruption tx, None, tx)
      else if interruption tx \<noteq> None then Some (interruption tx, None, tx)
      else if \<not> ResponseBodyAccess tx \<or> \<not> IsResponseBodyProcessable waf tx then run tx
      else
        let buf = take (nat (w_ResponseBodyLimit waf)) (reader_content (rt_tiny rt) (ResponseBodyBuffer tx));
            tx = (if Size (ResponseBodyBuffer tx) \<ge> w_ResponseBodyLimit waf
                  then set_var OutboundDataError ''1'' tx else tx);
            tx = set_var ResponseContentLength (Itoa (int (length buf))) tx;
            tx = set_var ResponseBody buf tx
        in run tx)"

section \<open>Logging\<close>

definition audit_relevant :: "WAF \<Rightarrow> Transaction \<Rightarrow> bool" where
  "audit_relevant waf tx \<longleftrightarrow>
     (case AuditEngine tx of
        AuditEngineOff \<Rightarrow> False
      | AuditEngineOn \<Rightarrow> True
      | AuditEngineRelevantOnly \<Rightarrow> audit tx \<and>
          (case w_AuditLogRelevantStatus waf of
             None \<Rightarrow> True
           | Some re \<Rightarrow> MatchString re (var tx ResponseStatus)))"

definition ProcessLogging :: "runtime \<Rightarrow> WAF \<Rightarrow> Transaction \<Rightarrow> Transaction go" where
  "ProcessLogging rt waf tx =
     do { tx \<leftarrow> (if RuleEngine tx \<noteq> RuleEngineOff then map_option snd (Eval rt waf PhaseLogging tx) else Some tx);
          Some (if audit_relevant waf tx \<and> w_AuditLogWriter waf
                then tx\<lparr>AuditWrites := AuditWrites tx + 1\<rparr> else tx) }"

section \<open>Reading a whole request\<close>

text \<open>\<open>strings.SplitN(s, " ", 3)\<close>\<close>

definition SplitN3 :: "string \<Rightarrow> string list" where
  "SplitN3 s =
     (case Cut s (CHR '' '') of
        (a, _, False) \<Rightarrow> [a]
      | (a, rest, True) \<Rightarrow>
          (case Cut rest (CHR '' '') of
             (b, _, False) \<Rightarrow> [a, b]
           | (b, c, True) \<Rightarrow> [a, b, c]))"

text \<open>The loop over the header lines: the error or the lines after the empty one.\<close>

fun read_headers :: "key_order \<Rightarrow> string list \<Rightarrow> Transaction \<Rightarrow> (string + string list) \<times> Transaction" where
  "read_headers ord [] tx = (Inr [], tx)"
| "read_headers ord (l # ls) tx =
     (if l = [] then (Inr ls, tx)
      else
        let (key, val, ok) = Cut l (CHR '':'') in
        if \<not> ok then (Inl ''invalid request header'', tx)
        else read_headers ord ls (AddRequestHeader ord (TrimByte key (CHR '' '')) (TrimByte val (CHR '' '')) tx))"

text \<open>The loop over the lines of the body: \<open>Some (it, err)\<close> when it returns early.\<close>

definition write_line :: "parsers \<Rightarrow> runtime \<Rightarrow> WAF \<Rightarrow> string \<Rightarrow> Transaction \<Rightarrow>
    ((Interruption option \<times> string option) option \<times> Transaction) go" where
  "write_line ps rt waf b tx =
     do { (it, _, err, tx) \<leftarrow> WriteRequestBody ps rt waf b tx;
          Some (case err of
              Some e \<Rightarrow> (Some (None, Some (''cannot write to request body to buffer: '' @ e)), tx)
            | None \<Rightarrow> (if it \<noteq> None then Some (it, None) else None, tx)) }"

fun read_body :: "parsers \<Rightarrow> runtime \<Rightarrow> WAF \<Rightarrow> string \<Rightarrow> string list \<Rightarrow> Transaction \<Rightarrow>
    ((Interruption option \<times> string option) option \<times> Transaction) go" where
  "read_body ps rt waf ct [] tx = Some (None, tx)"
| "read_body ps rt waf ct (l # ls) tx =
     do { (res, tx) \<leftarrow> write_line ps rt waf l tx;
          if res \<noteq> None then Some (res, tx)
          else if ct = ''application/x-www-form-urlencoded'' then read_body ps rt waf ct ls tx
          else
            do { (res, tx) \<leftarrow> write_line ps rt waf [CHR 0x0D, CHR 0x0A] tx;
                 if res \<noteq> None then Some (res, tx) else read_body ps rt waf ct ls tx } }"

definition ParseRequestReader :: "parsers \<Rightarrow> url_parser \<Rightarrow> runtime \<Rightarrow> WAF \<Rightarrow> string \<Rightarrow> Transaction \<Rightarrow>
    (Interruption option \<times> string option \<times> Transaction) go" where
  "ParseRequestReader ps url_Parse rt waf data tx =
     (let ls = scan_lines data in
      case SplitN3 (first_or ls []) of
        [m, u, v] \<Rightarrow>
          (case read_headers (rt_ord rt) (tl ls) (ProcessURI url_Parse (rt_ord rt) u m v tx) of
             (Inl err, tx) \<Rightarrow> Some (None, Some err, tx)
           | (Inr ls, tx) \<Rightarrow>
               do { (it, tx) \<leftarrow> ProcessRequestHeaders rt waf tx;
                    if it \<noteq> None then Some (it, None, tx)
                    else
                      let ctcol = Map_Get (col tx RequestHeaders) ''content-type'';
                          ct = (case ctcol of [] \<Rightarrow> [] | c # _ \<Rightarrow> fst (Cut c (CHR '';'')))
                      in do { (res, tx) \<leftarrow> read_body ps rt waf ct ls tx;
                              (case res of
                                 Some (it, err) \<Rightarrow> Some (it, err, tx)
                               | None \<Rightarrow> ProcessRequestBody ps rt waf tx) } })
      | _ \<Rightarrow> Some (None, Some ''invalid request line'', tx))"

end
