(* ===== verification/Api.thy ===== *)
theory Api
  imports Phases
begin

text \<open>
  The interface of a transaction (src/types/transaction.go) as a state machine: a connector calls
  the operations in any order and with any arguments, and closes the transaction, which the WAF
  may hand out again. What holds in every reachable state.
\<close>

section \<open>Calls\<close>

datatype api_call =
    ProcessConnectionCall string int string int
  | ProcessURICall string string string
  | AddRequestHeaderCall string string
  | AddResponseHeaderCall string string
  | AddArgumentCall ArgumentType string string
  | ProcessRequestHeadersCall
  | WriteRequestBodyCall string
  | ReadRequestBodyFromCall reader
  | ProcessRequestBodyCall
  | ProcessResponseHeadersCall int string
  | ResponseBodyWriteCall string
  | ProcessResponseBodyCall
  | ProcessLoggingCall

record env =
  e_ps :: parsers
  e_url :: url_parser
  e_rt :: runtime
  e_waf :: WAF

fun call :: "env \<Rightarrow> api_call \<Rightarrow> Transaction \<Rightarrow> Transaction go" where
  "call e (ProcessConnectionCall c p s q) t = Some (ProcessConnection c p s q t)"
| "call e (ProcessURICall u m v) t = Some (ProcessURI (e_url e) (rt_ord (e_rt e)) u m v t)"
| "call e (AddRequestHeaderCall k v) t = Some (AddRequestHeader (rt_ord (e_rt e)) k v t)"
| "call e (AddResponseHeaderCall k v) t = Some (AddResponseHeader k v t)"
| "call e (AddArgumentCall a k v) t = Some (AddArgument a k v t)"
| "call e ProcessRequestHeadersCall t = map_option snd (ProcessRequestHeaders (e_rt e) (e_waf e) t)"
| "call e (WriteRequestBodyCall b) t =
     map_option (\<lambda>(_, _, _, t). t) (WriteRequestBody (e_ps e) (e_rt e) (e_waf e) b t)"
| "call e (ReadRequestBodyFromCall r) t =
     map_option (\<lambda>(_, _, _, t). t) (ReadRequestBodyFrom (e_ps e) (e_rt e) (e_waf e) r t)"
| "call e ProcessRequestBodyCall t =
     map_option (\<lambda>(_, _, t). t) (ProcessRequestBody (e_ps e) (e_rt e) (e_waf e) t)"
| "call e (ProcessResponseHeadersCall c p) t = map_option snd (ProcessResponseHeaders (e_rt e) (e_waf e) c p t)"
| "call e (ResponseBodyWriteCall b) t = map_option (\<lambda>(_, _, t). t) (ResponseBodyWriter_Write (e_rt e) b t)"
| "call e ProcessResponseBodyCall t = map_option (\<lambda>(_, _, t). t) (ProcessResponseBody (e_rt e) (e_waf e) t)"
| "call e ProcessLoggingCall t = ProcessLogging (e_rt e) (e_waf e) t"

text \<open>
  The reachable states of one transaction. Between two calls the transactions of other requests may clear the
  \<open>Audit\<close> field of rules, which all of them share.
\<close>

inductive reachable :: "env \<Rightarrow> Transaction \<Rightarrow> bool" for e where
  fresh: "reachable e (newTransactionWithID (e_waf e) cleared i None)"
| recycled: "reachable e t \<Longrightarrow> Close False os t = (err, t') \<Longrightarrow>
    reachable e (newTransactionWithID (e_waf e) cleared i (Some t'))"
| call: "reachable e t \<Longrightarrow> call e c t = Some t' \<Longrightarrow> reachable e t'"
| shared: "reachable e t \<Longrightarrow> reachable e (t\<lparr>AuditCleared := ps\<rparr>)"

section \<open>Progress\<close>

definition progress :: "WAF \<Rightarrow> Transaction \<Rightarrow> Transaction \<Rightarrow> bool" where
  "progress w t t' \<longleftrightarrow> (tx_ok w t \<longrightarrow> tx_ok w t') \<and>
     (LastPhase t \<le> 5 \<longrightarrow> LastPhase t \<le> LastPhase t' \<and> LastPhase t' \<le> 5) \<and>
     (interruption t \<noteq> None \<longrightarrow> interruption t' \<noteq> None) \<and> prefix (matchedRules t) (matchedRules t')"

lemma progress_refl [simp, intro]: "progress w t t"
  by (simp add: progress_def)

lemma progress_trans: "progress w t1 t2 \<Longrightarrow> progress w t2 t3 \<Longrightarrow> progress w t1 t3"
  unfolding progress_def by (auto elim: prefix_order.trans)

lemma progress_vars: "only_vars t t' \<Longrightarrow> (tx_wf t \<longrightarrow> tx_wf t') \<Longrightarrow> progress w t t'"
  by (simp add: progress_def tx_ok_def only_varsD)

lemma progress_request: "bb_options b = bb_options (requestBodyBuffer t) \<Longrightarrow> progress w t (t\<lparr>requestBodyBuffer := b\<rparr>)"
  by (simp add: progress_def tx_ok_def)

lemma progress_response: "bb_options b = bb_options (ResponseBodyBuffer t) \<Longrightarrow> progress w t (t\<lparr>ResponseBodyBuffer := b\<rparr>)"
  by (simp add: progress_def tx_ok_def)

definition limit_hit :: "WAF \<Rightarrow> Transaction \<Rightarrow> Transaction \<Rightarrow> bool" where
  "limit_hit waf t t' \<longleftrightarrow> w_RequestBodyLimitAction waf = RequestBodyLimitActionReject \<and>
     (\<exists>it n err. setAndReturnBodyLimitInterruption t = (it, n, err, t'))"

lemma progress_body_limit: "limit_hit waf t t' \<Longrightarrow> progress w t t'"
  by (auto simp: limit_hit_def setAndReturnBodyLimitInterruption_def Let_def progress_def tx_ok_def tx_wf_def set_var_def
      tv_wf_set_simple)

lemma Eval_step:
  assumes "Eval rt waf p t = Some (b, t')"
  shows "eval_frame (start_phase p t) t'" "keeps_options waf (start_phase p t) t'"
  using eval_rules_frame [OF Eval_unfold(1) [OF assms]] eval_rules_options [OF Eval_unfold(1) [OF assms]] .

lemma progress_Eval:
  assumes "Eval rt waf p t = Some (b, t')" "LastPhase t \<le> p" "p \<le> 5"
  shows "progress waf t t'" "LastPhase t' = p"
  using Eval_step [OF assms(1)] assms(2,3)
  by (auto simp: progress_def tx_ok_def eval_frame_def keeps_options_def start_phase_def)

lemma progress_run_phase:
  assumes "run_phase rt waf p t = Some (it, t')" "LastPhase t \<le> p" "p \<le> 5"
  shows "progress waf t t'" "LastPhase t' = p"
  using assms progress_Eval unfolding run_phase_def by fastforce+

text \<open>
  A phase is open as long as it or a later one has not run, no rule has interrupted, and the
  engine is on. A processing function changes nothing when its phase is closed, and otherwise
  prepares the variables and evaluates the rules of its phase.
\<close>

definition phase_open :: "RulePhase \<Rightarrow> Transaction \<Rightarrow> bool" where
  "phase_open p t \<longleftrightarrow> RuleEngine t \<noteq> RuleEngineOff \<and> LastPhase t < p \<and> interruption t = None"

definition runs_phase :: "runtime \<Rightarrow> WAF \<Rightarrow> RulePhase \<Rightarrow> Transaction \<Rightarrow> Transaction \<Rightarrow> bool" where
  "runs_phase rt waf p t t' \<longleftrightarrow> (\<exists>u it. only_vars t u \<and> (tx_wf t \<longrightarrow> tx_wf u) \<and> run_phase rt waf p u = Some (it, t'))"

lemma runs_phaseI:
  "run_phase rt waf p u = Some (it, t') \<Longrightarrow> only_vars t u \<Longrightarrow> (tx_wf t \<Longrightarrow> tx_wf u) \<Longrightarrow> runs_phase rt waf p t t'"
  unfolding runs_phase_def by blast

lemma ProcessRequestHeaders_phase:
  "ProcessRequestHeaders rt waf t = Some (it, t') \<Longrightarrow>
     if phase_open 1 t then runs_phase rt waf 1 t t' else t' = t"
  by (auto simp: ProcessRequestHeaders_def phase_open_def split: if_splits intro: runs_phaseI)

lemma ProcessRequestBody_phase:
  assumes "ProcessRequestBody ps rt waf t = Some (it, err, t')"
  shows "if phase_open 2 t then runs_phase rt waf 2 t t' else t' = t"
proof (cases "phase_open 2 t")
  case False
  with assms show ?thesis by (auto simp: ProcessRequestBody_def phase_open_def Let_def split: if_splits)
next
  case open': True
  let ?run = "\<lambda>u. Option.bind (run_phase rt waf 2 u) (\<lambda>(it, u). Some (it, None :: string option, u))"
  have run: "?run u = Some (it, err, t') \<Longrightarrow> only_vars t u \<Longrightarrow> (tx_wf t \<Longrightarrow> tx_wf u) \<Longrightarrow> runs_phase rt waf 2 t t'" for u
    by (auto intro: runs_phaseI)
  let ?u = "if ForceRequestBodyVariable t then set_var ReqbodyProcessor ''URLENCODED'' t else t"
  have u: "only_vars t ?u" "tx_wf t \<Longrightarrow> tx_wf ?u" by (auto intro: inv_intros)
  have g: "only_vars t (generateReqbodyError e v)" "tx_wf v \<Longrightarrow> tx_wf (generateReqbodyError e v)"
    if "only_vars t v" for v e using that by (auto intro: inv_intros)
  define m where "m = first_or (Map_Get (col t RequestHeaders) ''content-type'') []"
  define b where "b = reader_content (rt_tiny rt) (requestBodyBuffer t)"
  from open' assms consider "?run t = Some (it, err, t')" | "?run ?u = Some (it, err, t')"
    | "?run (generateReqbodyError ''invalid body processor'' ?u) = Some (it, err, t')"
    | bp e v where "ProcessRequest bp ps rt m b ?u = Some (e, v)"
        "?run (case e of None \<Rightarrow> v | Some e \<Rightarrow> generateReqbodyError e v) = Some (it, err, t')"
    unfolding ProcessRequestBody_def phase_open_def Let_def m_def b_def
    by (simp split: if_splits sum.splits) blast+
  then have "runs_phase rt waf 2 t t'"
  proof cases
    case 1
    then show ?thesis by (rule run) auto
  next
    case 2
    then show ?thesis by (rule run) (use u in auto)
  next
    case 3
    then show ?thesis by (rule run) (use u g in auto)
  next
    case 4
    have v: "only_vars t v" "tx_wf t \<Longrightarrow> tx_wf v"
      using only_vars_trans [OF u(1) only_vars_ProcessRequest [OF 4(1)]] tx_wf_ProcessRequest [OF 4(1)] u(2) by auto
    from 4(2) show ?thesis by (rule run) (use v g in \<open>auto split: option.splits\<close>)
  qed
  with open' show ?thesis by simp
qed

lemma ProcessResponseHeaders_phase:
  "ProcessResponseHeaders rt waf c p t = Some (it, t') \<Longrightarrow>
     if phase_open 3 t then runs_phase rt waf 3 t t' else t' = t"
  by (auto simp: ProcessResponseHeaders_def phase_open_def Let_def split: if_splits intro!: inv_intros elim!: runs_phaseI)

lemma ProcessResponseBody_phase:
  "ProcessResponseBody rt waf t = Some (it, err, t') \<Longrightarrow>
     if phase_open 4 t then runs_phase rt waf 4 t t' else t' = t"
  by (auto simp: ProcessResponseBody_def phase_open_def Let_def split: if_splits
      intro!: inv_intros elim!: runs_phaseI)

lemma progress_runs_phase:
  assumes "runs_phase rt waf p t t'" "LastPhase t < p" "p \<le> 5"
  shows "progress waf t t'" "LastPhase t' = p"
proof -
  from assms(1) obtain u it where u: "only_vars t u" "tx_wf t \<longrightarrow> tx_wf u" "run_phase rt waf p u = Some (it, t')"
    unfolding runs_phase_def by blast
  have "LastPhase u \<le> p" using only_varsD(2) [OF u(1)] assms(2) by simp
  with progress_run_phase [OF u(3) this assms(3)] progress_vars [OF u(1,2)] progress_trans
  show "progress waf t t'" "LastPhase t' = p" by blast+
qed

lemma progress_phase:
  assumes "if phase_open p t then runs_phase rt waf p t t' else t' = t" "p \<le> 5"
  shows "progress waf t t'"
proof (cases "phase_open p t")
  case True
  then have "LastPhase t < p" by (simp add: phase_open_def)
  with True assms progress_runs_phase show ?thesis by auto
qed (use assms in simp)

lemma progress_ProcessLogging:
  assumes "ProcessLogging rt waf t = Some t'"
  shows "progress waf t t'"
proof -
  from assms obtain u where u: "(if RuleEngine t \<noteq> RuleEngineOff then map_option snd (Eval rt waf 5 t) else Some t) = Some u"
    "t' = u \<or> t' = u\<lparr>AuditWrites := AuditWrites u + 1\<rparr>"
    unfolding ProcessLogging_def by (auto split: if_splits)
  have "progress waf t u"
  proof (cases "RuleEngine t \<noteq> RuleEngineOff \<and> LastPhase t \<le> 5")
    case True
    with u(1) obtain b where "Eval rt waf 5 t = Some (b, u)" by auto
    then show ?thesis by (rule progress_Eval) (use True in auto)
  next
    case False
    show ?thesis
    proof (cases "RuleEngine t = RuleEngineOff")
      case False
      with u(1) obtain b where "Eval rt waf 5 t = Some (b, u)" by auto
      from Eval_step [OF this] \<open>\<not> (RuleEngine t \<noteq> RuleEngineOff \<and> LastPhase t \<le> 5)\<close> False show ?thesis
        by (auto simp: progress_def tx_ok_def eval_frame_def keeps_options_def start_phase_def)
    qed (use u in simp)
  qed
  moreover have "progress waf u t'" using u(2) by (auto simp: progress_def tx_ok_def)
  ultimately show ?thesis by (rule progress_trans)
qed

text \<open>What writing to the request body can do.\<close>

definition body_step :: "parsers \<Rightarrow> runtime \<Rightarrow> WAF \<Rightarrow> Transaction \<Rightarrow> Transaction \<Rightarrow> bool" where
  "body_step ps rt waf t t' \<longleftrightarrow> t' = t \<or> limit_hit waf t t' \<or>
     (\<exists>buf it err. bb_options buf = bb_options (requestBodyBuffer t) \<and>
       (t' = t\<lparr>requestBodyBuffer := buf\<rparr> \<or>
        ProcessRequestBody ps rt waf (t\<lparr>requestBodyBuffer := buf\<rparr>) = Some (it, err, t') \<or>
        limit_hit waf (t\<lparr>requestBodyBuffer := buf\<rparr>) t'))"

lemma body_step_WriteRequestBody:
  assumes "WriteRequestBody ps rt waf b t = Some (it, n, err, t')"
  shows "body_step ps rt waf t t'"
  using assms unfolding body_step_def limit_hit_def WriteRequestBody_def Let_def
  by (auto split: if_splits option.splits dest!: Write_options)

lemma body_step_ReadRequestBodyFrom:
  assumes "ReadRequestBodyFrom ps rt waf r t = Some (it, n, err, t')"
  shows "body_step ps rt waf t t'"
proof (cases "RuleEngine t = RuleEngineOff \<or> \<not> RequestBodyAccess t \<or> RequestBodyLimit t = bb_length (requestBodyBuffer t)")
  case True
  with assms have "t' = t"
    unfolding ReadRequestBodyFrom_def Let_def
    by (cases "RuleEngine t = RuleEngineOff"; cases "RequestBodyAccess t"; simp)
  then show ?thesis by (simp add: body_step_def)
next
  case False
  let ?reject = "w_RequestBodyLimitAction waf = RequestBodyLimitActionReject"
  let ?len = "bb_length (requestBodyBuffer t)"
  define over where "over = (case rd_Len r of Some l \<Rightarrow> ?len + l \<ge> RequestBodyLimit t | None \<Rightarrow> False)"
  define k where "k = (case rd_Len r of Some l \<Rightarrow> if over then RequestBodyLimit t - ?len else l | None \<Rightarrow> RequestBodyLimit t - ?len)"
  show ?thesis
  proof (cases "over \<and> ?reject")
    case True
    with assms False have "limit_hit waf t t'"
      by (auto simp: ReadRequestBodyFrom_def Let_def over_def limit_hit_def)
    then show ?thesis unfolding body_step_def by blast
  next
    case nr: False
    obtain w e buf where c: "io_CopyN (rt_tiny rt) (rt_os rt) r k (requestBodyBuffer t) = Some (w, e, buf)"
      and rest: "(if e \<noteq> None \<and> e \<noteq> Some ''EOF'' then Some (None, w, e, t\<lparr>requestBodyBuffer := buf\<rparr>)
        else if bb_length buf = RequestBodyLimit t \<and> ?reject
        then Some (setAndReturnBodyLimitInterruption (t\<lparr>requestBodyBuffer := buf\<rparr>))
        else if over \<or> bb_length buf = RequestBodyLimit t then
          do { (_, err, tx) \<leftarrow> ProcessRequestBody ps rt waf (t\<lparr>requestBodyBuffer := buf\<rparr>);
               Some (interruption tx, w, err, tx) }
        else Some (interruption (t\<lparr>requestBodyBuffer := buf\<rparr>), w, None, t\<lparr>requestBodyBuffer := buf\<rparr>)) =
        Some (it, n, err, t')"
      using assms False nr unfolding ReadRequestBodyFrom_def Let_def over_def [symmetric] k_def [symmetric]
      by (simp only: if_False de_Morgan_disj not_not) auto
    from rest have "t' = t\<lparr>requestBodyBuffer := buf\<rparr> \<or>
        (\<exists>it err. ProcessRequestBody ps rt waf (t\<lparr>requestBodyBuffer := buf\<rparr>) = Some (it, err, t')) \<or>
        limit_hit waf (t\<lparr>requestBodyBuffer := buf\<rparr>) t'"
      by (auto simp: limit_hit_def split: if_splits)
    with io_CopyN_options [OF c] show ?thesis unfolding body_step_def by blast
  qed
qed

lemma body_step_rel:
  assumes "body_step ps rt waf t t'" "\<And>t1 t2 t3. R t1 t2 \<Longrightarrow> R t2 t3 \<Longrightarrow> R t1 t3" "\<And>t. R t t"
    and "\<And>buf. bb_options buf = bb_options (requestBodyBuffer t) \<Longrightarrow> R t (t\<lparr>requestBodyBuffer := buf\<rparr>)"
    and "\<And>u it err u'. u = t \<or> (\<exists>buf. u = t\<lparr>requestBodyBuffer := buf\<rparr>) \<Longrightarrow>
      ProcessRequestBody ps rt waf u = Some (it, err, u') \<Longrightarrow> R u u'"
    and "\<And>u u'. u = t \<or> (\<exists>buf. u = t\<lparr>requestBodyBuffer := buf\<rparr>) \<Longrightarrow> limit_hit waf u u' \<Longrightarrow> R u u'"
  shows "R t t'"
proof -
  consider "t' = t" | "limit_hit waf t t'"
    | buf where "bb_options buf = bb_options (requestBodyBuffer t)"
       "t' = t\<lparr>requestBodyBuffer := buf\<rparr> \<or>
        (\<exists>it err. ProcessRequestBody ps rt waf (t\<lparr>requestBodyBuffer := buf\<rparr>) = Some (it, err, t')) \<or>
        limit_hit waf (t\<lparr>requestBodyBuffer := buf\<rparr>) t'"
    using assms(1) unfolding body_step_def by blast
  then show ?thesis
  proof cases
    case 1
    with assms(3) show ?thesis by simp
  next
    case 2
    then show ?thesis by (rule assms(6) [rotated]) simp
  next
    case 3
    have u: "t\<lparr>requestBodyBuffer := buf\<rparr> = t \<or> (\<exists>b. t\<lparr>requestBodyBuffer := buf\<rparr> = t\<lparr>requestBodyBuffer := b\<rparr>)" by blast
    have "R (t\<lparr>requestBodyBuffer := buf\<rparr>) t'"
      using 3(2) assms(3) [of t'] assms(5) [OF u] assms(6) [OF u] by metis
    with assms(4) [OF 3(1)] show ?thesis by (rule assms(2))
  qed
qed

lemma progress_body_step:
  assumes "body_step ps rt waf t t'"
  shows "progress waf t t'"
  using assms
proof (rule body_step_rel [where R = "progress waf"])
  show "progress waf u u'" if "ProcessRequestBody ps rt waf u = Some (it, err, u')" for u it err u'
    by (rule progress_phase [OF ProcessRequestBody_phase [OF that]]) simp
qed (auto intro: progress_request progress_body_limit progress_trans)

lemma progress_call:
  assumes "call e c t = Some t'"
  shows "progress (e_waf e) t t'"
proof (cases c)
  case (WriteRequestBodyCall b)
  with assms show ?thesis by (auto intro: progress_body_step [OF body_step_WriteRequestBody])
next
  case (ReadRequestBodyFromCall r)
  with assms show ?thesis by (auto intro: progress_body_step [OF body_step_ReadRequestBodyFrom])
next
  case (ResponseBodyWriteCall b)
  with assms show ?thesis
    by (auto simp: ResponseBodyWriter_Write_def dest: Write_options intro: progress_response)
next
  case ProcessLoggingCall
  with assms show ?thesis by (simp add: progress_ProcessLogging)
next
  case ProcessRequestHeadersCall
  with assms show ?thesis by (auto intro: progress_phase [OF ProcessRequestHeaders_phase])
next
  case ProcessRequestBodyCall
  with assms show ?thesis by (auto intro: progress_phase [OF ProcessRequestBody_phase])
next
  case (ProcessResponseHeadersCall k p)
  with assms show ?thesis by (auto intro: progress_phase [OF ProcessResponseHeaders_phase])
next
  case ProcessResponseBodyCall
  with assms show ?thesis by (auto intro: progress_phase [OF ProcessResponseBody_phase])
qed (use assms in \<open>auto intro!: progress_vars inv_intros\<close>)

lemma progress_calls: "foreach cs (call e) t = Some u \<Longrightarrow> progress (e_waf e) t u"
  by (rule foreach_inv [where P = "progress (e_waf e) t"]) (auto intro: progress_trans progress_call)

lemma new_LastPhase: "LastPhase (newTransactionWithID w cleared i pooled) = 0"
  by (cases pooled) (simp_all add: newTransactionWithID_def only_varsD(2) [OF only_vars_set_defaults])

lemma reachable_ok: "reachable e t \<Longrightarrow> tx_ok (e_waf e) t \<and> LastPhase t \<le> 5"
proof (induction rule: reachable.induct)
  case (fresh cleared i)
  then show ?case by (simp add: tx_ok_new new_LastPhase)
next
  case (recycled t os err t' cleared i)
  then have "t' = snd (Close False os t)" by simp
  then have "tx_ok (e_waf e) (newTransactionWithID (e_waf e) cleared i (Some t'))"
    using recycle_eq [of "e_waf e" t cleared i os] recycled tx_ok_new [of "e_waf e" cleared i] by (simp add: tx_ok_def)
  then show ?case by (simp add: new_LastPhase)
next
  case (call t c t')
  with progress_call [OF call.hyps(2)] show ?case by (simp add: progress_def)
next
  case (shared t ps)
  then show ?case by (simp add: tx_ok_def)
qed

section \<open>Properties\<close>

text \<open>
  C10. A transaction that the WAF recycles is as good as a new one: whatever was done with it before
  it was closed, it differs from a fresh transaction at most in the contents of the transformation
  cache, and every phase evaluates to the same result.
\<close>

theorem recycled_like_fresh:
  assumes "reachable e t" "Close False os t = (err, t')"
  shows "newTransactionWithID (e_waf e) cleared i (Some t') =
      (newTransactionWithID (e_waf e) cleared i None)\<lparr>transformationCache := transformationCache t'\<rparr> \<and>
    Eval rt waf p (newTransactionWithID (e_waf e) cleared i (Some t')) =
      Eval rt waf p (newTransactionWithID (e_waf e) cleared i None)"
proof -
  have "tx_ok (e_waf e) t" using reachable_ok [OF assms(1)] by simp
  with recycle_eq [OF this, of cleared i os] tx_ok_Close [OF this assms(2)] assms(2)
  have "newTransactionWithID (e_waf e) cleared i (Some t') =
      (newTransactionWithID (e_waf e) cleared i None)\<lparr>transformationCache := transformationCache t'\<rparr>" by simp
  then show ?thesis by (simp add: Eval_def start_phase_def)
qed

fun phase_of :: "api_call \<Rightarrow> RulePhase option" where
  "phase_of ProcessRequestHeadersCall = Some 1"
| "phase_of ProcessRequestBodyCall = Some 2"
| "phase_of (ProcessResponseHeadersCall c p) = Some 3"
| "phase_of ProcessResponseBodyCall = Some 4"
| "phase_of _ = None"

lemma closed_phase_call:
  assumes "phase_of c = Some p" "\<not> phase_open p t"
  shows "call e c t = Some t"
  using assms by (cases c) (auto simp: phase_open_def ProcessRequestHeaders_def ProcessRequestBody_def
    ProcessResponseHeaders_def ProcessResponseBody_def Let_def)

text \<open>
  C3. Each of the phases 1 to 4 is evaluated at most once, in their order: the last phase never
  decreases along any sequence of calls, and once a phase or a later one has been evaluated, its
  processing function changes nothing in any state that follows. The logging phase is not among them:
  \<open>ProcessLogging\<close> evaluates its rules at every call.
\<close>

theorem phases_once:
  assumes "reachable e t" "foreach cs (call e) t = Some u" "phase_of c = Some p" "p \<le> LastPhase t"
  shows "LastPhase t \<le> LastPhase u \<and> call e c u = Some u"
proof -
  have "LastPhase t \<le> LastPhase u"
    using progress_calls [OF assms(2)] reachable_ok [OF assms(1)] by (simp add: progress_def)
  with assms(3,4) closed_phase_call [of c p u e] show ?thesis by (simp add: phase_open_def)
qed

section \<open>After an interruption, and with the engine off\<close>

text \<open>Calls that leave the verdict and the phase alone.\<close>

definition idle :: "Transaction \<Rightarrow> Transaction \<Rightarrow> bool" where
  "idle t t' \<longleftrightarrow> LastPhase t' = LastPhase t \<and> matchedRules t' = matchedRules t \<and>
     RuleEngine t' = RuleEngine t \<and> (interruption t' = None \<longleftrightarrow> interruption t = None)"

lemma idle_refl [simp]: "idle t t"
  by (simp add: idle_def)

lemma idle_trans: "idle t1 t2 \<Longrightarrow> idle t2 t3 \<Longrightarrow> idle t1 t3"
  by (simp add: idle_def)

lemma idle_vars: "only_vars t t' \<Longrightarrow> idle t t'"
  by (simp add: idle_def only_varsD)

lemma idle_body_limit:
  "limit_hit waf t t' \<Longrightarrow> interruption t \<noteq> None \<Longrightarrow> idle t t'"
  by (auto simp: limit_hit_def setAndReturnBodyLimitInterruption_def Let_def idle_def set_var_def)

lemma ProcessRequestBody_interrupted:
  "ProcessRequestBody ps rt waf u = Some (it, err, t') \<Longrightarrow> interruption u \<noteq> None \<Longrightarrow> t' = u"
  by (auto dest!: ProcessRequestBody_phase simp: phase_open_def split: if_splits)

lemma idle_body_step:
  assumes "body_step ps rt waf t t'" "interruption t \<noteq> None"
  shows "idle t t'"
  using assms(1)
proof (rule body_step_rel)
  show "idle t (t\<lparr>requestBodyBuffer := buf\<rparr>)" for buf by (simp add: idle_def)
  have int: "interruption u \<noteq> None" if "u = t \<or> (\<exists>buf. u = t\<lparr>requestBodyBuffer := buf\<rparr>)" for u
    using that assms(2) by auto
  show "idle u u'" if "u = t \<or> (\<exists>buf. u = t\<lparr>requestBodyBuffer := buf\<rparr>)"
    "ProcessRequestBody ps rt waf u = Some (it, err, u')" for u it err u'
    using ProcessRequestBody_interrupted [OF that(2) int [OF that(1)]] by simp
  show "idle u u'" if "u = t \<or> (\<exists>buf. u = t\<lparr>requestBodyBuffer := buf\<rparr>)"
    "limit_hit waf u u'" for u u'
    using idle_body_limit [OF that(2) int [OF that(1)]] .
qed (erule (1) idle_trans | simp)+

lemma closed_call_same:
  "phase_of c = Some p \<Longrightarrow> \<not> phase_open p t \<Longrightarrow> call e c t = Some t' \<Longrightarrow> t' = t"
  using closed_phase_call by fastforce

lemma idle_call:
  assumes "call e c t = Some t'" "interruption t \<noteq> None" "c \<noteq> ProcessLoggingCall"
  shows "idle t t'"
proof (cases c)
  case (WriteRequestBodyCall b)
  with assms show ?thesis by (auto intro: idle_body_step [OF body_step_WriteRequestBody])
next
  case (ReadRequestBodyFromCall r)
  with assms show ?thesis by (auto intro: idle_body_step [OF body_step_ReadRequestBodyFrom])
next
  case (ResponseBodyWriteCall b)
  with assms show ?thesis by (auto simp: ResponseBodyWriter_Write_def idle_def)
qed (use assms closed_call_same [of c _ t e t'] in \<open>auto simp: phase_open_def intro!: idle_vars inv_intros\<close>)

text \<open>
  C12. An interruption is final: whatever a connector calls afterwards, short of the logging phase,
  the transaction stays interrupted, no rule is evaluated any more and no phase is entered.
\<close>

theorem interruption_final:
  assumes "foreach cs (call e) t = Some u" "interruption t \<noteq> None" "ProcessLoggingCall \<notin> set cs"
  shows "interruption u \<noteq> None \<and> matchedRules u = matchedRules t \<and> LastPhase u = LastPhase t"
proof -
  have "idle t u"
  proof (rule foreach_inv [OF assms(1), of "idle t"])
    show "idle t s'" if "c \<in> set cs" "idle t s" "call e c s = Some s'" for c s s'
    proof (rule idle_trans [OF that(2) idle_call [OF that(3)]])
      show "interruption s \<noteq> None" using that(2) assms(2) by (simp add: idle_def)
      show "c \<noteq> ProcessLoggingCall" using that(1) assms(3) by blast
    qed
  qed simp
  with assms(2) show ?thesis by (simp add: idle_def)
qed

lemma off_call:
  assumes "call e c t = Some t'" "RuleEngine t = RuleEngineOff"
  shows "idle t t' \<and> requestBodyBuffer t' = requestBodyBuffer t \<and> interruption t' = interruption t"
proof (cases c)
  case (WriteRequestBodyCall b)
  with assms show ?thesis by (auto simp: WriteRequestBody_def)
next
  case (ReadRequestBodyFromCall r)
  with assms show ?thesis by (auto simp: ReadRequestBodyFrom_def)
next
  case (ResponseBodyWriteCall b)
  with assms show ?thesis by (auto simp: ResponseBodyWriter_Write_def idle_def)
next
  case ProcessLoggingCall
  with assms show ?thesis by (auto simp: ProcessLogging_def idle_def split: if_splits)
qed (use assms closed_call_same [of c _ t e t'] in
    \<open>auto simp: phase_open_def idle_def only_varsD [OF only_vars_ProcessConnection [OF only_vars_refl]]
      only_varsD [OF only_vars_ProcessURI [OF only_vars_refl]]
      only_varsD [OF only_vars_AddRequestHeader [OF only_vars_refl]]
      only_varsD [OF only_vars_AddResponseHeader [OF only_vars_refl]]
      only_varsD [OF only_vars_AddArgument [OF only_vars_refl]]\<close>)

text \<open>
  With the engine off, no sequence of calls evaluates a rule, interrupts, enters a phase, or
  stores anything of the request body.
\<close>

theorem engine_off_inert:
  assumes "foreach cs (call e) t = Some u" "RuleEngine t = RuleEngineOff"
  shows "matchedRules u = matchedRules t \<and> interruption u = interruption t \<and> LastPhase u = LastPhase t \<and>
    requestBodyBuffer u = requestBodyBuffer t"
proof -
  let ?I = "\<lambda>s. idle t s \<and> requestBodyBuffer s = requestBodyBuffer t \<and> interruption s = interruption t"
  have "?I u"
  proof (rule foreach_inv [OF assms(1), of ?I])
    show "?I s'" if "c \<in> set cs" "?I s" "call e c s = Some s'" for c s s'
      using off_call [OF that(3)] that(2) assms(2) by (auto simp: idle_def)
  qed simp
  then show ?thesis by (simp add: idle_def)
qed

section \<open>The limit of the request body\<close>

lemma runs_phase_buffer: "runs_phase rt waf p t t' \<Longrightarrow> requestBodyBuffer t' = requestBodyBuffer t"
  unfolding runs_phase_def run_phase_def
  by (auto dest!: Eval_step(1) only_varsD(5) simp: eval_frame_def start_phase_def)

lemma ProcessRequestBody_buffer:
  "ProcessRequestBody ps rt waf t = Some (it, err, t') \<Longrightarrow> requestBodyBuffer t' = requestBodyBuffer t"
  by (auto dest!: ProcessRequestBody_phase intro: runs_phase_buffer split: if_splits)

lemma ProcessRequestBody_LastPhase:
  assumes "ProcessRequestBody ps rt waf t = Some (it, err, t')" "RuleEngine t \<noteq> RuleEngineOff" "interruption t = None"
  shows "LastPhase t' \<ge> 2"
proof (cases "LastPhase t < 2")
  case True
  then have "runs_phase rt waf 2 t t'"
    using ProcessRequestBody_phase [OF assms(1)] assms by (simp add: phase_open_def)
  from progress_runs_phase(2) [OF this True] show ?thesis by simp
next
  case False
  with ProcessRequestBody_phase [OF assms(1)] show ?thesis by (simp add: phase_open_def)
qed

text \<open>
  C15. When the limit action is Reject and the body would reach or exceed the limit, writing stores nothing and
  interrupts the transaction with a 403; a body of exactly the limit is rejected as well. This holds in every state of the engine but Off: a
  detection-only engine, which never lets a rule interrupt, interrupts here.
\<close>

theorem WriteRequestBody_reject:
  assumes "RuleEngine t \<noteq> RuleEngineOff" "RequestBodyAccess t"
    and "w_RequestBodyLimitAction waf = RequestBodyLimitActionReject"
    and "bb_length (requestBodyBuffer t) < RequestBodyLimit t"
    and "RequestBodyLimit t \<le> bb_length (requestBodyBuffer t) + int (length b)"
  shows "\<exists>t'. WriteRequestBody ps rt waf b t = Some (Some body_limit_interruption, 0, None, t') \<and>
    interruption t' = Some body_limit_interruption \<and> it_Status body_limit_interruption = 403 \<and>
    var t' InboundErrorData = ''1'' \<and> requestBodyBuffer t' = requestBodyBuffer t \<and> LastPhase t' = LastPhase t"
  using assms
  by (simp add: WriteRequestBody_def setAndReturnBodyLimitInterruption_def Let_def body_limit_interruption_def set_var_def)

text \<open>
  C14. When the limit action is ProcessPartial, the buffer holds the body up to the limit: writing
  appends as many bytes as fit, and once the limit is reached the request body phase has been
  processed. Files are assumed to work.
\<close>

theorem WriteRequestBody_partial:
  assumes "WriteRequestBody ps rt waf b t = Some (it, n, err, t')"
    and "RuleEngine t \<noteq> RuleEngineOff" "RequestBodyAccess t" "interruption t = None"
    and "w_RequestBodyLimitAction waf = RequestBodyLimitActionProcessPartial"
    and "rt_os rt = os_ok" "\<not> rt_tiny rt" "bb_wf (requestBodyBuffer t)"
    and "bb_length (requestBodyBuffer t) < RequestBodyLimit t"
  shows "content (requestBodyBuffer t') = take (nat (RequestBodyLimit t)) (content (requestBodyBuffer t) @ b) \<and>
    bb_wf (requestBodyBuffer t') \<and>
    (RequestBodyLimit t \<le> bb_length (requestBodyBuffer t) + int (length b) \<longrightarrow>
      int (length (content (requestBodyBuffer t'))) = RequestBodyLimit t \<and> LastPhase t' \<ge> 2)"
proof -
  let ?c = "content (requestBodyBuffer t)" and ?limit = "RequestBodyLimit t"
  let ?over = "?limit \<le> bb_length (requestBodyBuffer t) + int (length b)"
  have len: "bb_length (requestBodyBuffer t) = int (length ?c)" using assms(8) by (simp add: bb_wf_def)
  define d where "d = take (nat (if ?over then ?limit - int (length ?c) else int (length b))) b"
  obtain buf where buf: "Write False os_ok d (requestBodyBuffer t) = Some (int (length d), None, buf)" "bb_wf buf"
    "content buf = ?c @ d" by (rule Write_appends [OF assms(8)])
  have cd: "?c @ d = take (nat ?limit) (?c @ b)"
    using assms(9) len by (auto simp: d_def nat_diff_distrib)
  show ?thesis
  proof (cases ?over)
    case True
    with assms buf len obtain it' e' where p: "ProcessRequestBody ps rt waf (t\<lparr>requestBodyBuffer := buf\<rparr>) = Some (it', e', t')"
      by (auto simp: WriteRequestBody_def Let_def d_def split: if_splits)
    have b: "requestBodyBuffer t' = buf" using ProcessRequestBody_buffer [OF p] by simp
    have l: "LastPhase t' \<ge> 2" using ProcessRequestBody_LastPhase [OF p] assms(2,4) by simp
    have c: "content buf = take (nat ?limit) (?c @ b)" using buf(3) cd by (rule trans)
    have "int (length (content buf)) = ?limit" unfolding c using True len assms(9) by simp
    with c l buf(2) show ?thesis unfolding b by blast
  next
    case False
    with assms buf len have "requestBodyBuffer t' = buf"
      by (auto simp: WriteRequestBody_def Let_def d_def split: if_splits)
    with False buf cd show ?thesis by simp
  qed
qed

lemma io_CopyN_ok:
  assumes "bb_wf dst" "rd_err r = None" "0 \<le> k"
  shows "\<exists>n err dst'. io_CopyN False os_ok r k dst = Some (n, err, dst') \<and> (err = None \<or> err = Some ''EOF'') \<and>
    bb_wf dst' \<and> content dst' = content dst @ take (nat k) (rd_data r)"
proof -
  obtain dst' where "io_Copy False os_ok (take (nat k) (rd_data r)) dst = Some (int (length (take (nat k) (rd_data r))), None, dst')"
    "bb_wf dst'" "content dst' = content dst @ take (nat k) (rd_data r)"
    using io_Copy_ok [OF assms(1)] by blast
  with assms(2) show ?thesis by (simp add: io_CopyN_def Let_def)
qed

text \<open>
  Reading the body from a reader stores the same: with ProcessPartial, the bytes of the reader up
  to the limit, whether or not the reader knows its length, so the buffer never exceeds the limit.
\<close>

theorem ReadRequestBodyFrom_partial:
  assumes "ReadRequestBodyFrom ps rt waf r t = Some (it, n, err, t')"
    and "RuleEngine t \<noteq> RuleEngineOff" "RequestBodyAccess t" "interruption t = None"
    and "w_RequestBodyLimitAction waf = RequestBodyLimitActionProcessPartial"
    and "rt_os rt = os_ok" "\<not> rt_tiny rt" "bb_wf (requestBodyBuffer t)"
    and "bb_length (requestBodyBuffer t) < RequestBodyLimit t"
    and "rd_Len r = None \<or> rd_Len r = Some (int (length (rd_data r)))" "rd_err r = None"
  shows "content (requestBodyBuffer t') = take (nat (RequestBodyLimit t)) (content (requestBodyBuffer t) @ rd_data r) \<and>
    bb_wf (requestBodyBuffer t') \<and>
    (RequestBodyLimit t \<le> bb_length (requestBodyBuffer t) + int (length (rd_data r)) \<longrightarrow> LastPhase t' \<ge> 2)"
proof -
  let ?c = "content (requestBodyBuffer t)" and ?limit = "RequestBodyLimit t"
  let ?len = "bb_length (requestBodyBuffer t)"
  define over where "over = (case rd_Len r of Some l \<Rightarrow> ?len + l \<ge> ?limit | None \<Rightarrow> False)"
  define k where "k = (case rd_Len r of Some l \<Rightarrow> if over then ?limit - ?len else l | None \<Rightarrow> ?limit - ?len)"
  have len: "?len = int (length ?c)" using assms(8) by (simp add: bb_wf_def)
  have "0 \<le> k" using assms(9,10) by (auto simp: k_def)
  then obtain w e buf where buf: "io_CopyN False os_ok r k (requestBodyBuffer t) = Some (w, e, buf)"
    "e = None \<or> e = Some ''EOF''" "bb_wf buf" "content buf = ?c @ take (nat k) (rd_data r)"
    using io_CopyN_ok [OF assms(8,11)] by blast
  have c: "content buf = take (nat ?limit) (?c @ rd_data r)"
    using assms(9,10) len buf(4) by (auto simp: k_def over_def nat_diff_distrib)
  have at: "bb_length buf = ?limit" if "?limit \<le> ?len + int (length (rd_data r))"
    using buf(3) that len assms(9) by (simp add: bb_wf_def c)
  have rest: "(if over \<or> bb_length buf = ?limit then
        do { (_, err, tx) \<leftarrow> ProcessRequestBody ps rt waf (t\<lparr>requestBodyBuffer := buf\<rparr>); Some (interruption tx, w, err, tx) }
      else Some (interruption (t\<lparr>requestBodyBuffer := buf\<rparr>), w, None, t\<lparr>requestBodyBuffer := buf\<rparr>)) = Some (it, n, err, t')"
    using assms(1-7,9) buf(1,2) unfolding ReadRequestBodyFrom_def Let_def over_def [symmetric] k_def [symmetric] by auto
  show ?thesis
  proof (cases "over \<or> bb_length buf = ?limit")
    case True
    with rest obtain it' e' where p: "ProcessRequestBody ps rt waf (t\<lparr>requestBodyBuffer := buf\<rparr>) = Some (it', e', t')" by auto
    have b: "requestBodyBuffer t' = buf" using ProcessRequestBody_buffer [OF p] by simp
    have "LastPhase t' \<ge> 2" using ProcessRequestBody_LastPhase [OF p] assms(2,4) by simp
    with b c buf(3) show ?thesis by blast
  next
    case False
    with rest have b: "requestBodyBuffer t' = buf" by auto
    with False at c buf(3) show ?thesis by blast
  qed
qed

section \<open>Detection only\<close>

text \<open>No rule of the WAF switches the engine.\<close>

definition engine_fixed :: "WAF \<Rightarrow> bool" where
  "engine_fixed waf \<longleftrightarrow> (\<forall>rc\<in>set (w_Rules waf). \<forall>r\<in>set (fst rc # snd rc). \<forall>a\<in>rule_actions r. keeps_engine a)"

lemma engine_Eval:
  assumes "Eval rt waf p t = Some (b, t')" "engine_fixed waf"
  shows "engine_kept t t'"
proof -
  have "engine_kept (start_phase p t) t'"
    by (rule eval_rules_engine [OF Eval_unfold(1) [OF assms(1)]]) (use assms(2) in \<open>auto simp: engine_fixed_def\<close>)
  then show ?thesis by (simp add: engine_kept_def start_phase_def)
qed

text \<open>
  The contract of the interface: a relation that every primitive step of a call respects holds across every
  call, whatever the order of the calls.
\<close>

locale call_relation =
  fixes R :: "Transaction \<Rightarrow> Transaction \<Rightarrow> bool" and e :: env
  assumes refl: "R t t"
    and trans: "R t1 t2 \<Longrightarrow> R t2 t3 \<Longrightarrow> R t1 t3"
    and vars: "only_vars t1 t2 \<Longrightarrow> R t1 t2"
    and buffers: "R t (t\<lparr>requestBodyBuffer := buf\<rparr>)" "R t (t\<lparr>ResponseBodyBuffer := buf\<rparr>)"
    and audit: "R t (t\<lparr>AuditWrites := n\<rparr>)"
    and limit: "limit_hit (e_waf e) t1 t2 \<Longrightarrow> R t1 t2"
    and eval: "Eval (e_rt e) (e_waf e) p t1 = Some (b, t2) \<Longrightarrow> R t1 t2"
begin

lemma phase:
  assumes "if phase_open p t then runs_phase (e_rt e) (e_waf e) p t t' else t' = t"
  shows "R t t'"
proof (cases "phase_open p t")
  case True
  with assms obtain u b where "only_vars t u" "Eval (e_rt e) (e_waf e) p u = Some (b, t')"
    by (auto simp: runs_phase_def run_phase_def)
  then show ?thesis using trans vars eval by blast
qed (use assms refl in simp)

lemma body:
  assumes "body_step ps (e_rt e) (e_waf e) t t'"
  shows "R t t'"
  using assms
proof (rule body_step_rel)
  show "R u u'" if "ProcessRequestBody ps (e_rt e) (e_waf e) u = Some (it, err, u')" for u it err u'
    by (rule phase [OF ProcessRequestBody_phase [OF that]])
qed (erule (1) trans | rule refl buffers | erule limit)+

lemma logging:
  assumes "ProcessLogging (e_rt e) (e_waf e) t = Some t'"
  shows "R t t'"
proof -
  from assms obtain u where u: "u = t \<or> (\<exists>b. Eval (e_rt e) (e_waf e) 5 t = Some (b, u))"
    "t' = u \<or> t' = u\<lparr>AuditWrites := AuditWrites u + 1\<rparr>"
    by (fastforce simp: ProcessLogging_def split: if_splits)
  have "R t u" using u(1) refl eval by blast
  moreover have "R u t'" using u(2) refl audit by blast
  ultimately show ?thesis by (rule trans)
qed

lemma call_R:
  assumes "call e c t = Some t'"
  shows "R t t'"
proof (cases c)
  case (WriteRequestBodyCall b)
  with assms show ?thesis by (auto intro: body [OF body_step_WriteRequestBody])
next
  case (ReadRequestBodyFromCall r)
  with assms show ?thesis by (auto intro: body [OF body_step_ReadRequestBodyFrom])
next
  case (ResponseBodyWriteCall b)
  with assms buffers(2) show ?thesis by (auto simp: ResponseBodyWriter_Write_def)
next
  case ProcessLoggingCall
  with assms show ?thesis by (auto intro: logging)
next
  case ProcessRequestHeadersCall
  with assms show ?thesis by (auto intro: phase [OF ProcessRequestHeaders_phase])
next
  case ProcessRequestBodyCall
  with assms show ?thesis by (auto intro: phase [OF ProcessRequestBody_phase])
next
  case (ProcessResponseHeadersCall k p)
  with assms show ?thesis by (auto intro: phase [OF ProcessResponseHeaders_phase])
next
  case ProcessResponseBodyCall
  with assms show ?thesis by (auto intro: phase [OF ProcessResponseBody_phase])
qed (use assms in \<open>auto intro!: vars inv_intros\<close>)

lemma calls_R:
  assumes "foreach cs (call e) t = Some t'"
  shows "R t t'"
  by (rule foreach_inv [OF assms, of "R t"]) (use call_R trans refl in blast)+

end

text \<open>
  An engine that no rule switches, with the limit action ProcessPartial. The conditions on the environment are
  part of the relation, so that the contract holds for every environment.
\<close>

definition engine_stable :: "env \<Rightarrow> Transaction \<Rightarrow> Transaction \<Rightarrow> bool" where
  "engine_stable e t t' \<longleftrightarrow>
     (engine_fixed (e_waf e) \<and> w_RequestBodyLimitAction (e_waf e) = RequestBodyLimitActionProcessPartial \<longrightarrow> engine_kept t t')"

interpretation stable: call_relation "engine_stable e" e for e
proof unfold_locales
  show "engine_stable e t1 t3" if "engine_stable e t1 t2" "engine_stable e t2 t3" for t1 t2 t3
    using that engine_kept_trans unfolding engine_stable_def by blast
  show "engine_stable e t1 t2" if "Eval (e_rt e) (e_waf e) p t1 = Some (b, t2)" for t1 p b t2
    using that engine_Eval unfolding engine_stable_def by blast
qed (auto simp: engine_stable_def engine_kept_def limit_hit_def elim!: only_vars_cases)

text \<open>
  C6. A detection-only WAF never blocks: as long as no rule switches the engine and the body limit
  action is ProcessPartial, no sequence of calls interrupts a transaction.
\<close>

theorem detection_only_never_blocks:
  assumes "foreach cs (call e) t = Some u" "RuleEngine t = RuleEngineDetectionOnly" "engine_fixed (e_waf e)"
    and "w_RequestBodyLimitAction (e_waf e) = RequestBodyLimitActionProcessPartial"
  shows "interruption u = interruption t \<and> RuleEngine u = RuleEngineDetectionOnly"
proof -
  have "engine_kept t u" using stable.calls_R [OF assms(1)] assms(3,4) by (simp add: engine_stable_def)
  with assms(2) show ?thesis by (simp add: engine_kept_def)
qed

section \<open>Logging and the multipart exit\<close>

text \<open>
  C28. A call of \<open>ProcessLogging\<close> adds one entry to the audit log when a writer is configured and the
  audit engine, as the rules of the logging phase leave it, asks for it, and none otherwise. The engine asks for it
  always when it is On, and when it is RelevantOnly for a transaction that a matching rule marked and whose response status
  is relevant. Nothing keeps a second call from adding a second entry.
\<close>

theorem ProcessLogging_audit:
  assumes "ProcessLogging rt waf t = Some t'"
  shows "AuditWrites t' = AuditWrites t +
    (if w_AuditLogWriter waf \<and> (AuditEngine t' = AuditEngineOn \<or>
       (AuditEngine t' = AuditEngineRelevantOnly \<and> audit t' \<and>
        (\<forall>re. w_AuditLogRelevantStatus waf = Some re \<longrightarrow> MatchString re (var t' ResponseStatus)))) then 1 else 0)"
proof -
  from assms obtain u where u: "(if RuleEngine t \<noteq> RuleEngineOff then map_option snd (Eval rt waf 5 t) else Some t) = Some u"
    "t' = (if audit_relevant waf u \<and> w_AuditLogWriter waf then u\<lparr>AuditWrites := AuditWrites u + 1\<rparr> else u)"
    unfolding ProcessLogging_def by auto
  have "AuditWrites u = AuditWrites t"
    using u(1) by (auto dest!: Eval_step(1) simp: eval_frame_def start_phase_def split: if_splits)
  moreover have "audit_relevant waf u \<longleftrightarrow> AuditEngine t' = AuditEngineOn \<or>
       (AuditEngine t' = AuditEngineRelevantOnly \<and> audit t' \<and>
        (\<forall>re. w_AuditLogRelevantStatus waf = Some re \<longrightarrow> MatchString re (var t' ResponseStatus)))"
    using u(2) by (cases "AuditEngine u") (auto simp: audit_relevant_def split: option.splits)
  ultimately show ?thesis using u(2) by simp
qed

lemma prefix_multipart:
  assumes "HasPrefix v ''multipart/form-data''"
  shows "v \<noteq> ''application/x-www-form-urlencoded''"
  using assms by (auto simp: HasPrefix_def)

lemma multipart_Get: "bodyprocessors_Get (ToLower ''MULTIPART'') = Inr multipartBodyProcessor" "ToLower ''MULTIPART'' \<noteq> []"
  by code_simp+

text \<open>
  One request can end the process: a Content-Type header that starts with
  \<^verbatim>\<open>multipart/form-data\<close> selects the multipart processor, and when the rest of the header
  does not parse as a media type, processing the body calls \<open>log.Fatalf\<close>.
\<close>

theorem multipart_header_exits:
  assumes "ToLower key = ''content-type''" "HasPrefix (ToLower value) ''multipart/form-data''"
    and "ParseMediaType ps value = Inl err" "Map_Get (col t RequestHeaders) ''content-type'' = []"
    and "phase_open 2 t" "RequestBodyAccess t" "bb_length (requestBodyBuffer t) \<noteq> 0" "\<not> ForceRequestBodyVariable t"
  shows "ProcessRequestBody ps rt waf (AddRequestHeader ord key value t) = None"
proof -
  let ?u = "AddRequestHeader ord key value t"
  have "ToLower [] = []" by code_simp
  with assms(1) have "key \<noteq> []" by auto
  then have u: "?u = set_var ReqbodyProcessor ''MULTIPART'' (upd_col RequestHeaders (\<lambda>m. Map_AddCS m ''content-type'' key value)
      (upd_col RequestHeadersNames (\<lambda>m. Map_AddUniqueCS m ''content-type'' key ''content-type'') t))"
    using assms(1,2) prefix_multipart [OF assms(2)] by (simp add: AddRequestHeader_def Let_def)
  then have "Map_Get (col ?u RequestHeaders) ''content-type'' = [value]" "var ?u ReqbodyProcessor = ''MULTIPART''"
    using assms(4) by simp_all
  moreover have "only_vars t ?u" by (intro inv_intros)
  note same = only_varsD [OF this]
  have "ForceRequestBodyVariable ?u = ForceRequestBodyVariable t" unfolding u by (simp add: set_var_def upd_col_def)
  ultimately show ?thesis
    using assms(3,5-8) same multipart_Get
    by (simp add: ProcessRequestBody_def phase_open_def Let_def multipart_ProcessRequest_def first_or_def)
qed

section \<open>Witnesses\<close>

definition demo_env :: "RequestBodyLimitAction \<Rightarrow> env" where
  "demo_env a = \<lparr>e_ps = demo_parsers, e_url = (\<lambda>_. Inl []), e_rt = rt0, e_waf = waf0\<lparr>w_RequestBodyLimitAction := a\<rparr>\<rparr>"

abbreviation demo_tx :: "RequestBodyLimitAction \<Rightarrow> Transaction" where
  "demo_tx a \<equiv> newTransactionWithID (e_waf (demo_env a)) [] ''id'' None"

lemma new_fields:
  "RuleEngine (newTransactionWithID w cleared i p) = w_RuleEngine w" "interruption (newTransactionWithID w cleared i p) = None"
  by (cases p; simp add: newTransactionWithID_def only_varsD [OF only_vars_set_defaults])+

lemma Eval_no_rules: "w_Rules waf = [] \<Longrightarrow> Eval rt waf p t = Some (interruption t \<noteq> None, start_phase p t)"
  by (simp add: Eval_def) (simp add: start_phase_def)

lemma demo_headers: "call (demo_env a) ProcessRequestHeadersCall (demo_tx a) = Some (start_phase 1 (demo_tx a))"
proof -
  have "w_Rules (e_waf (demo_env a)) = []" by (simp add: demo_env_def waf0_def)
  then show ?thesis
    by (simp add: ProcessRequestHeaders_def run_phase_def Eval_no_rules new_fields new_LastPhase)
      (simp add: demo_env_def waf0_def)
qed

theorem recycled_like_fresh_witness:
  "\<exists>err t'. Close False os_ok (demo_tx RequestBodyLimitActionReject) = (err, t') \<and>
     Eval rt0 waf0 1 (newTransactionWithID (e_waf (demo_env RequestBodyLimitActionReject)) [] ''b'' (Some t')) =
     Eval rt0 waf0 1 (newTransactionWithID (e_waf (demo_env RequestBodyLimitActionReject)) [] ''b'' None)"
proof -
  obtain err t' where c: "Close False os_ok (demo_tx RequestBodyLimitActionReject) = (err, t')" by fastforce
  from recycled_like_fresh [OF reachable.fresh this] c show ?thesis by blast
qed

theorem phases_once_witness:
  "\<exists>t. LastPhase t = 1 \<and> call (demo_env RequestBodyLimitActionReject) ProcessRequestHeadersCall t = Some t"
proof -
  have r: "reachable (demo_env RequestBodyLimitActionReject) (start_phase 1 (demo_tx RequestBodyLimitActionReject))"
    by (rule reachable.call [OF reachable.fresh demo_headers])
  have "LastPhase (start_phase 1 (demo_tx RequestBodyLimitActionReject)) = 1" by (simp add: start_phase_def)
  with phases_once [OF r, of "[]" _ ProcessRequestHeadersCall 1] show ?thesis by auto
qed

theorem interruption_final_witness:
  "\<exists>u. foreach [ProcessRequestHeadersCall] (call (demo_env RequestBodyLimitActionReject)) (blank_tx\<lparr>interruption := Some body_limit_interruption\<rparr>) = Some u \<and>
     interruption u \<noteq> None"
proof -
  let ?t = "blank_tx\<lparr>interruption := Some body_limit_interruption\<rparr>"
  have "foreach [ProcessRequestHeadersCall] (call (demo_env RequestBodyLimitActionReject)) ?t = Some ?t"
    by (simp add: ProcessRequestHeaders_def)
  with interruption_final [OF this] show ?thesis by auto
qed

theorem engine_off_inert_witness:
  "\<exists>u. foreach [WriteRequestBodyCall ''abc'', ProcessRequestBodyCall] (call (demo_env RequestBodyLimitActionReject)) (blank_tx\<lparr>RuleEngine := RuleEngineOff\<rparr>)
     = Some u \<and> LastPhase u = 0"
proof -
  let ?t = "blank_tx\<lparr>RuleEngine := RuleEngineOff\<rparr>"
  have "foreach [WriteRequestBodyCall ''abc'', ProcessRequestBodyCall] (call (demo_env RequestBodyLimitActionReject)) ?t = Some ?t"
    by (simp add: WriteRequestBody_def ProcessRequestBody_def)
  with engine_off_inert [OF this] show ?thesis by (simp add: blank_tx_def)
qed

theorem WriteRequestBody_reject_witness:
  "\<exists>t'. WriteRequestBody demo_parsers rt0 waf0 ''abcd'' (blank_tx\<lparr>RuleEngine := RuleEngineDetectionOnly\<rparr>) =
     Some (Some body_limit_interruption, 0, None, t') \<and> interruption t' \<noteq> None"
  using WriteRequestBody_reject [of "blank_tx\<lparr>RuleEngine := RuleEngineDetectionOnly\<rparr>" waf0 "''abcd''" demo_parsers rt0]
  by (auto simp: blank_tx_def waf0_def NewBodyBuffer_def)

abbreviation partial_waf :: WAF where
  "partial_waf \<equiv> waf0\<lparr>w_RequestBodyLimitAction := RequestBodyLimitActionProcessPartial\<rparr>"

lemma demo_process: "ProcessRequestBody ps rt0 partial_waf (blank_tx\<lparr>requestBodyBuffer := b\<rparr>) =
    Some (None, None, start_phase 2 (blank_tx\<lparr>requestBodyBuffer := b\<rparr>))"
proof -
  have v: "var blank_tx ReqbodyProcessor = []"
    by (simp add: blank_tx_def NewTransactionVariables_def get_simple_def NewSimple_def)
  have "w_Rules partial_waf = []" by (simp add: waf0_def)
  with v show ?thesis
    by (simp add: ProcessRequestBody_def run_phase_def Eval_no_rules Let_def)
      (simp add: blank_tx_def start_phase_def ToLower_def)
qed

theorem WriteRequestBody_partial_witness:
  "\<exists>it n err t'. WriteRequestBody demo_parsers rt0 partial_waf ''abcdef'' blank_tx = Some (it, n, err, t') \<and>
     content (requestBodyBuffer t') = ''abcd'' \<and> LastPhase t' \<ge> 2"
proof -
  have b: "bb_wf (requestBodyBuffer blank_tx)" "bb_length (requestBodyBuffer blank_tx) = 0"
    "content (requestBodyBuffer blank_tx) = []" "RequestBodyLimit blank_tx = 4" "RuleEngine blank_tx = RuleEngineOn"
    "RequestBodyAccess blank_tx" "interruption blank_tx = None"
    by (simp_all add: blank_tx_def bb_wf_New) (simp add: NewBodyBuffer_def)
  obtain buf where "Write False os_ok ''abcd'' (requestBodyBuffer blank_tx) = Some (int (length ''abcd''), None, buf)"
    by (rule Write_appends [OF b(1)])
  then obtain it n err t' where w: "WriteRequestBody demo_parsers rt0 partial_waf ''abcdef'' blank_tx = Some (it, n, err, t')"
    using b demo_process [of demo_parsers buf] by (simp add: WriteRequestBody_def Let_def rt0_def)
  with WriteRequestBody_partial [OF w] b show ?thesis by (simp add: rt0_def)
qed

theorem ReadRequestBodyFrom_partial_witness:
  "\<exists>it n err t'. ReadRequestBodyFrom demo_parsers rt0 partial_waf \<lparr>rd_Len = None, rd_data = ''abcdef'', rd_err = None\<rparr> blank_tx =
     Some (it, n, err, t') \<and> content (requestBodyBuffer t') = ''abcd''"
proof -
  let ?r = "\<lparr>rd_Len = None, rd_data = ''abcdef'', rd_err = None\<rparr>"
  have b: "bb_wf (requestBodyBuffer blank_tx)" "bb_length (requestBodyBuffer blank_tx) = 0"
    "content (requestBodyBuffer blank_tx) = []" "RequestBodyLimit blank_tx = 4" "RuleEngine blank_tx = RuleEngineOn"
    "RequestBodyAccess blank_tx" "interruption blank_tx = None"
    by (simp_all add: blank_tx_def bb_wf_New) (simp add: NewBodyBuffer_def)
  from io_CopyN_ok [OF b(1), of ?r 4] obtain n err buf where
    c: "io_CopyN False os_ok ?r 4 (requestBodyBuffer blank_tx) = Some (n, err, buf)" "err = None \<or> err = Some ''EOF''"
    "bb_wf buf" "content buf = ''abcd''" using b(3) by auto
  then have "bb_length buf = 4" by (simp add: bb_wf_def)
  with c b demo_process [of demo_parsers buf] obtain it n err t' where
    w: "ReadRequestBodyFrom demo_parsers rt0 partial_waf ?r blank_tx = Some (it, n, err, t')"
    by (auto simp: ReadRequestBodyFrom_def Let_def rt0_def)
  with ReadRequestBodyFrom_partial [OF w] b show ?thesis by (simp add: rt0_def)
qed

theorem detection_only_never_blocks_witness:
  "\<exists>u. foreach [ProcessRequestHeadersCall] (call (demo_env RequestBodyLimitActionProcessPartial))
      (blank_tx\<lparr>RuleEngine := RuleEngineDetectionOnly\<rparr>) = Some u \<and> interruption u = None"
proof -
  let ?t = "blank_tx\<lparr>RuleEngine := RuleEngineDetectionOnly\<rparr>" and ?e = "demo_env RequestBodyLimitActionProcessPartial"
  have f: "engine_fixed (e_waf ?e)" "w_RequestBodyLimitAction (e_waf ?e) = RequestBodyLimitActionProcessPartial" "w_Rules (e_waf ?e) = []"
    by (simp_all add: demo_env_def waf0_def engine_fixed_def)
  then have "foreach [ProcessRequestHeadersCall] (call ?e) ?t = Some (start_phase 1 ?t)"
    by (simp add: ProcessRequestHeaders_def run_phase_def Eval_no_rules) (simp add: blank_tx_def)
  with detection_only_never_blocks [OF this _ f(1,2)] show ?thesis by (simp add: blank_tx_def)
qed

theorem ProcessLogging_audit_witness:
  "\<exists>t'. ProcessLogging rt0 (waf0\<lparr>w_AuditLogWriter := True\<rparr>) (blank_tx\<lparr>AuditEngine := AuditEngineOn\<rparr>) = Some t' \<and> AuditWrites t' = 1"
proof -
  let ?w = "waf0\<lparr>w_AuditLogWriter := True\<rparr>" and ?t = "blank_tx\<lparr>AuditEngine := AuditEngineOn\<rparr>"
  have "w_Rules ?w = []" by (simp add: waf0_def)
  then have "ProcessLogging rt0 ?w ?t = Some ((start_phase 5 ?t)\<lparr>AuditWrites := 1\<rparr>)"
    by (simp add: ProcessLogging_def Eval_no_rules) (simp add: blank_tx_def start_phase_def audit_relevant_def waf0_def)
  with ProcessLogging_audit [OF this] show ?thesis by (simp add: start_phase_def blank_tx_def)
qed

theorem multipart_header_exits_witness:
  "ProcessRequestBody (demo_parsers\<lparr>ParseMediaType := (\<lambda>_. Inl ''mime: invalid media parameter'')\<rparr>) rt0 waf0
     (AddRequestHeader (\<lambda>ks. ks) ''content-type'' ''multipart/form-data; x''
       (blank_tx\<lparr>requestBodyBuffer := (NewBodyBuffer (body_options waf0))\<lparr>bb_buffer := ''a'', bb_length := 1\<rparr>\<rparr>)) = None"
proof -
  have "ToLower ''content-type'' = ''content-type''" "ToLower ''multipart/form-data; x'' = ''multipart/form-data; x''"
    by code_simp+
  moreover have "RuleEngine blank_tx = RuleEngineOn" "LastPhase blank_tx = 0" "interruption blank_tx = None"
    "RequestBodyAccess blank_tx" "\<not> ForceRequestBodyVariable blank_tx"
    by (simp_all add: blank_tx_def)
  ultimately show ?thesis
    by (intro multipart_header_exits [where err = "''mime: invalid media parameter''"])
      (simp_all add: HasPrefix_def phase_open_def)
qed

end
