(* ===== verification/Http.thy ===== *)
theory Http
  imports Api
begin

text \<open>
  The HTTP middleware (src/http/middleware.go, src/http/interceptor.go): a request goes through the
  request phases of a transaction, then a handler answers it into an interceptor, which runs the
  response phases and decides what reaches the client.

  The interface \<^verbatim>\<open>http.ResponseWriter\<close> is a record of what the server of
  \<^verbatim>\<open>net/http\<close> keeps: the header map, what has been sent of the status, and the body. A
  parameter of type \<open>send\<close> says how many bytes of a write the connection takes, and its error. A handler is
  arbitrary code: the list of the calls it makes on the response writer, given the body it reads.
\<close>

section \<open>The response writer of net/http\<close>

type_synonym http_header = "(string \<times> string list) list"

record ResponseWriter =
  rw_Header :: http_header
  rw_status :: "int option"
  rw_body :: string
  rw_Flusher :: bool
  rw_ReaderFrom :: bool

text \<open>The first call fixes the status; an invalid code panics.\<close>

definition rw_WriteHeader :: "int \<Rightarrow> ResponseWriter \<Rightarrow> ResponseWriter go" where
  "rw_WriteHeader code w =
     (if rw_status w \<noteq> None then Some w
      else if code < 100 \<or> code > 999 then None
      else Some (w\<lparr>rw_status := Some code\<rparr>))"

type_synonym send = "ResponseWriter \<Rightarrow> string \<Rightarrow> nat \<times> string option"

definition implicit_ok :: "ResponseWriter \<Rightarrow> ResponseWriter" where
  "implicit_ok w = (if rw_status w = None then w\<lparr>rw_status := Some 200\<rparr> else w)"

definition rw_Write :: "send \<Rightarrow> string \<Rightarrow> ResponseWriter \<Rightarrow> nat \<times> string option \<times> ResponseWriter" where
  "rw_Write snd_bytes b w =
     (let w = implicit_ok w; (n, err) = snd_bytes w b in (n, err, w\<lparr>rw_body := rw_body w @ take n b\<rparr>))"

section \<open>The interceptor\<close>

definition obtainStatusCodeFromInterruptionOrDefault :: "Interruption \<Rightarrow> int \<Rightarrow> int" where
  "obtainStatusCodeFromInterruptionOrDefault it defaultStatusCode =
     (if it_Action it = ''deny'' then (if it_Status it = 0 then 503 else it_Status it) else defaultStatusCode)"

record rwInterceptor =
  i_w :: ResponseWriter
  i_tx :: Transaction
  i_statusCode :: int
  i_proto :: string
  i_hasStatusCode :: bool

text \<open>\<open>for k, vv := range header { for _, v := range vv { add(k, v) } }\<close>\<close>

definition each_header :: "key_order \<Rightarrow> http_header \<Rightarrow> (string \<Rightarrow> string \<Rightarrow> Transaction \<Rightarrow> Transaction) \<Rightarrow> Transaction \<Rightarrow> Transaction" where
  "each_header ord hs add = fold (\<lambda>k. fold (add k) (map_get hs k)) (ord (map fst hs))"

definition i_WriteHeader :: "env \<Rightarrow> int \<Rightarrow> rwInterceptor \<Rightarrow> rwInterceptor go" where
  "i_WriteHeader e statusCode i =
     (if i_hasStatusCode i then Some i
      else
        let tx = each_header (rt_ord (e_rt e)) (rw_Header (i_w i)) AddResponseHeader (i_tx i) in
        do { (it, tx) \<leftarrow> ProcessResponseHeaders (e_rt e) (e_waf e) statusCode (i_proto i) tx;
             Some (i\<lparr>i_tx := tx, i_hasStatusCode := True,
               i_statusCode := (case it of None \<Rightarrow> statusCode
                 | Some it \<Rightarrow> obtainStatusCodeFromInterruptionOrDefault it statusCode)\<rparr>) })"

text \<open>\<open>Write\<close>: the number of bytes that the caller is told, and the error, are the first components.\<close>

definition i_Write :: "env \<Rightarrow> send \<Rightarrow> string \<Rightarrow> rwInterceptor \<Rightarrow> (int \<times> string option \<times> rwInterceptor) go" where
  "i_Write e sd b i =
     do { i \<leftarrow> (if i_hasStatusCode i then Some i else i_WriteHeader e 200 i);
          if interruption (i_tx i) \<noteq> None then Some (0, None, i)
          else if ResponseBodyAccess (i_tx i) then
            do { (n, err, tx) \<leftarrow> ResponseBodyWriter_Write (e_rt e) b (i_tx i); Some (n, err, i\<lparr>i_tx := tx\<rparr>) }
          else let (n, err, w) = rw_Write sd b (i_w i) in Some (int n, err, i\<lparr>i_w := w\<rparr>) }"

text \<open>
  \<^verbatim>\<open>io.Copy\<close> to the response writer: 32 KiB at a time, until a write fails or is short.
\<close>

function copy_out :: "send \<Rightarrow> string \<Rightarrow> ResponseWriter \<Rightarrow> string option \<times> ResponseWriter" where
  "copy_out sd src w =
     (if src = [] then (None, w)
      else
        let (n, err, w) = rw_Write sd (take 32768 src) w in
        if err \<noteq> None then (err, w)
        else if n \<noteq> length (take 32768 src) then (Some ''short write'', w)
        else copy_out sd (drop 32768 src) w)"
  by pat_completeness auto
termination
  by (relation "measure (\<lambda>(_, src, _). length src)") auto

declare copy_out.simps [simp del]

text \<open>The response processor that \<open>wrap\<close> returns; reading the buffer back has no error.\<close>

definition responseProcessor :: "env \<Rightarrow> send \<Rightarrow> rwInterceptor \<Rightarrow> (string option \<times> rwInterceptor) go" where
  "responseProcessor e sd i =
     (let header = (\<lambda>code err i. do { w \<leftarrow> rw_WriteHeader code (i_w i); Some (err, i\<lparr>i_w := w\<rparr>) }) in
      if interruption (i_tx i) \<noteq> None then header (i_statusCode i) None i
      else if ResponseBodyAccess (i_tx i) \<and> IsResponseBodyProcessable (e_waf e) (i_tx i) then
        do { (it, err, tx) \<leftarrow> ProcessResponseBody (e_rt e) (e_waf e) (i_tx i);
             let i = i\<lparr>i_tx := tx\<rparr>;
             (case err of
                Some e \<Rightarrow> header 500 (Some e) i
              | None \<Rightarrow>
                  (case it of
                     Some it \<Rightarrow> header (obtainStatusCodeFromInterruptionOrDefault it (i_statusCode i)) None i
                   | None \<Rightarrow>
                       do { w \<leftarrow> rw_WriteHeader (i_statusCode i) (i_w i);
                            let (err, w) = copy_out sd (reader_content (rt_tiny (e_rt e)) (ResponseBodyBuffer (i_tx i))) w;
                            (case err of
                               None \<Rightarrow> Some (None, i\<lparr>i_w := w\<rparr>)
                             | Some e \<Rightarrow> header 500 (Some (''failed to copy the response body: '' @ e)) (i\<lparr>i_w := w\<rparr>)) })) }
      else header (i_statusCode i) None i)"

definition wrap :: "ResponseWriter \<Rightarrow> string \<Rightarrow> Transaction \<Rightarrow> rwInterceptor" where
  "wrap w proto tx = \<lparr>i_w = w, i_tx = tx, i_statusCode = 0, i_proto = proto, i_hasStatusCode = False\<rparr>"

section \<open>Handlers\<close>

text \<open>
  The calls of a handler. The wrapped writer offers \<open>Flush\<close> and \<open>ReadFrom\<close> when the original
  one does, and they are those of the original.
\<close>

datatype handler_call =
    SetHeader string "string list"
  | CallWriteHeader int
  | CallWrite string
  | CallFlush
  | CallReadFrom string

fun plain_call :: "send \<Rightarrow> handler_call \<Rightarrow> ResponseWriter \<Rightarrow> ResponseWriter go" where
  "plain_call sd (SetHeader k vs) w = Some (w\<lparr>rw_Header := AList.update k vs (rw_Header w)\<rparr>)"
| "plain_call sd (CallWriteHeader c) w = rw_WriteHeader c w"
| "plain_call sd (CallWrite b) w = (let (_, _, w) = rw_Write sd b w in Some w)"
| "plain_call sd CallFlush w = Some (if rw_Flusher w then implicit_ok w else w)"
| "plain_call sd (CallReadFrom b) w = Some (if rw_ReaderFrom w then snd (copy_out sd b w) else w)"

fun wrapped_call :: "env \<Rightarrow> send \<Rightarrow> handler_call \<Rightarrow> rwInterceptor \<Rightarrow> rwInterceptor go" where
  "wrapped_call e sd (CallWriteHeader c) i = i_WriteHeader e c i"
| "wrapped_call e sd (CallWrite b) i = map_option (\<lambda>(_, _, i). i) (i_Write e sd b i)"
| "wrapped_call e sd c i = do { w \<leftarrow> plain_call sd c (i_w i); Some (i\<lparr>i_w := w\<rparr>) }"

section \<open>The middleware\<close>

text \<open>A body of \<^const>\<open>None\<close> is nil or \<^verbatim>\<open>http.NoBody\<close>.\<close>

record Request =
  q_RemoteAddr :: string
  q_URL :: string
  q_Method :: string
  q_Proto :: string
  q_Header :: http_header
  q_Host :: string
  q_Body :: "reader option"

text \<open>\<open>strings.LastIndexByte\<close> and the two parts of the address.\<close>

definition split_addr :: "string \<Rightarrow> string \<times> int" where
  "split_addr addr =
     (if CHR '':'' \<in> set addr then
        let port = rev (takeWhile (\<lambda>c. c \<noteq> CHR '':'') (rev addr)) in
        (take (length addr - length port - 1) addr, atoi_val port)
      else ([], 0))"

definition request_headers :: "env \<Rightarrow> Request \<Rightarrow> Transaction \<Rightarrow> Transaction" where
  "request_headers e req tx =
     (let (client, cport) = split_addr (q_RemoteAddr req); ord = rt_ord (e_rt e);
          tx = ProcessConnection client cport [] 0 tx;
          tx = ProcessURI (e_url e) ord (q_URL req) (q_Method req) (q_Proto req) tx;
          tx = each_header ord (q_Header req) (AddRequestHeader ord) tx
      in if q_Host req \<noteq> [] then AddRequestHeader ord ''Host'' (q_Host req) tx else tx)"

text \<open>
  \<open>io.MultiReader(rbr, req.Body)\<close>: what the buffer holds, then what is left of the body after
  \<open>n\<close> bytes were read from it.
\<close>

definition multi_reader :: "string \<Rightarrow> nat \<Rightarrow> reader \<Rightarrow> reader" where
  "multi_reader held n r = \<lparr>rd_Len = None, rd_data = held @ drop n (rd_data r), rd_err = rd_err r\<rparr>"

definition processRequest :: "env \<Rightarrow> Request \<Rightarrow> Transaction \<Rightarrow>
    (Interruption option \<times> string option \<times> Transaction \<times> Request) go" where
  "processRequest e req tx =
     do { (it, tx) \<leftarrow> ProcessRequestHeaders (e_rt e) (e_waf e) (request_headers e req tx);
          if it \<noteq> None then Some (it, None, tx, req)
          else
            (let finish = (\<lambda>tx req. do { (it, err, tx) \<leftarrow> ProcessRequestBody (e_ps e) (e_rt e) (e_waf e) tx; Some (it, err, tx, req) }) in
             case q_Body req of
               Some body \<Rightarrow>
                 if RequestBodyAccess tx then
                   do { (it, n, err, tx) \<leftarrow> ReadRequestBodyFrom (e_ps e) (e_rt e) (e_waf e) body tx;
                        if err \<noteq> None then Some (None, Some (''failed to append request body: '' @ the err), tx, req)
                        else if it \<noteq> None then Some (it, None, tx, req)
                        else finish tx (req\<lparr>q_Body := Some (multi_reader
                               (reader_content (rt_tiny (e_rt e)) (requestBodyBuffer tx)) (nat n) body)\<rparr>) }
                 else finish tx req
             | None \<Rightarrow> finish tx req) }"

definition body_bytes :: "Request \<Rightarrow> string" where
  "body_bytes req = (case q_Body req of None \<Rightarrow> [] | Some r \<Rightarrow> rd_data r)"

text \<open>
  \<open>WrapHandler\<close> for the transaction \<open>tx\<close> that \<open>NewTransaction\<close> returned: the response, the
  messages to the logger and the closed transaction. \<open>ProcessLogging\<close> and \<open>Close\<close> are deferred.
\<close>

definition serve :: "env \<Rightarrow> send \<Rightarrow> (string \<Rightarrow> handler_call list) \<Rightarrow> Request \<Rightarrow> Transaction \<Rightarrow> ResponseWriter \<Rightarrow>
    (ResponseWriter \<times> string list \<times> Transaction) go" where
  "serve e sd h req tx w =
     (if RuleEngine tx = RuleEngineOff then
        do { w \<leftarrow> foreach (h (body_bytes req)) (plain_call sd) w; Some (w, [], tx) }
      else
        do { (it, err, tx, req) \<leftarrow> processRequest e req tx;
             (case err of
                Some e \<Rightarrow> Some (w, [''failed to process request: '' @ e], tx)
              | None \<Rightarrow>
                  (case it of
                     Some it \<Rightarrow>
                       do { w \<leftarrow> rw_WriteHeader (obtainStatusCodeFromInterruptionOrDefault it 200) w; Some (w, [], tx) }
                   | None \<Rightarrow>
                       do { i \<leftarrow> foreach (h (body_bytes req)) (wrapped_call e sd) (wrap w (q_Proto req) tx);
                            (err, i) \<leftarrow> responseProcessor e sd i;
                            Some (i_w i, (case err of None \<Rightarrow> [] | Some e \<Rightarrow> [''failed to process response: '' @ e]), i_tx i) })) })"

definition WrapHandler :: "env \<Rightarrow> send \<Rightarrow> (string \<Rightarrow> handler_call list) \<Rightarrow> Request \<Rightarrow> Transaction \<Rightarrow> ResponseWriter \<Rightarrow>
    (ResponseWriter \<times> string list \<times> Transaction) go" where
  "WrapHandler e sd h req tx w =
     do { (w, msgs, tx) \<leftarrow> serve e sd h req tx w;
          tx \<leftarrow> ProcessLogging (e_rt e) (e_waf e) tx;
          let (err, tx) = Close (rt_tiny (e_rt e)) (rt_os (e_rt e)) tx;
          Some (w, msgs @ (case err of None \<Rightarrow> [] | Some e \<Rightarrow> [''failed to close the transaction: '' @ e]), tx) }"

end
