(* ===== verification/Http_Props.thy ===== *)
theory Http_Props
  imports Http
begin

text \<open>
  What the middleware does to requests and responses: an interrupted exchange leaks nothing, a request that
  passes reaches the handler unchanged, an inspected response that passes reaches the client unchanged, and
  the ways in which a response that passes is changed.
\<close>

section \<open>What the phases keep of the response\<close>

text \<open>Without content injection no rule touches the buffered response body.\<close>

definition response_kept :: "WAF \<Rightarrow> Transaction \<Rightarrow> Transaction \<Rightarrow> bool" where
  "response_kept waf t t' \<longleftrightarrow> \<not> w_ContentInjection waf \<longrightarrow> ResponseBodyBuffer t' = ResponseBodyBuffer t"

lemma response_kept_trans: "response_kept w t1 t2 \<Longrightarrow> response_kept w t2 t3 \<Longrightarrow> response_kept w t1 t3"
  by (simp add: response_kept_def)

lemma response_kept_same: "ResponseBodyBuffer t' = ResponseBodyBuffer t \<Longrightarrow> response_kept w t t'"
  by (simp add: response_kept_def)

lemma response_kept_vars: "only_vars t1 t2 \<Longrightarrow> response_kept w t1 t2"
  by (rule response_kept_same) (rule only_varsD)

lemma response_kept_ctl: "response_kept w t (ctl_Evaluate waf c t)"
  by (rule response_kept_same, cases "ctl_action c")
    (auto simp: ctl_Evaluate_def Let_def keeps_options_fold set_var_def RemoveRuleByID_def
      split: sum.split option.split prod.split)

lemma response_kept_setvar: "setvar_Evaluate s t = Some t' \<Longrightarrow> response_kept w t t'"
  by (auto simp: setvar_Evaluate_def evaluateTxCollection_def Let_def split: option.splits if_splits
      intro!: response_kept_vars inv_intros)

lemma response_kept_action: "action_Evaluate rt waf r a t = Some t' \<Longrightarrow> response_kept waf t t'"
  by (cases a)
    (auto simp: append_Evaluate_def prepend_Evaluate_def disrupt_def Let_def response_kept_def Interrupt_def upd_col_def
      split: if_splits option.splits
      intro: response_kept_ctl [unfolded response_kept_def, rule_format]
        response_kept_setvar [unfolded response_kept_def, rule_format])

interpretation response: step_relation "response_kept waf" "\<lambda>_. True" rt waf for rt waf
  by unfold_locales
    (auto intro: response_kept_vars response_kept_action response_kept_same elim: response_kept_trans)

lemma eval_rules_response: "eval_rules rt waf phase rules t = Some t' \<Longrightarrow> response_kept waf t t'"
proof (rule eval_rules_rel [where R = "response_kept waf"])
  fix rc t t'
  assume "rule_step rt waf phase rc t = Some t'"
  then show "response_kept waf t t'"
  proof (rule rule_step_rel)
    show "response_kept waf t (reset_matched t)" for t by (rule response_kept_vars) (auto intro: inv_intros)
    show "doEvaluate rt waf (fst rc) (snd rc) t = Some (mvs, t') \<Longrightarrow> response_kept waf t t'" for t mvs t'
      by (erule response.R_doEvaluate) simp
  qed (erule (1) response_kept_trans | rule response_kept_same, simp)+
qed (assumption | erule (1) response_kept_trans | rule response_kept_same, simp)+

lemma runs_phase_response:
  assumes "runs_phase rt waf p t t'"
  shows "response_kept waf t t'" "ResponseBodyAccess t' = ResponseBodyAccess t" "requestBodyBuffer t' = requestBodyBuffer t"
proof -
  obtain u it where u: "only_vars t u" "run_phase rt waf p u = Some (it, t')"
    using assms by (auto simp: runs_phase_def)
  then obtain b where e: "Eval rt waf p u = Some (b, t')" by (auto simp: run_phase_def)
  have "response_kept waf (start_phase p u) t'" using eval_rules_response [OF Eval_unfold(1) [OF e]] .
  moreover have "response_kept waf t (start_phase p u)"
    using only_varsD(6) [OF u(1)] by (intro response_kept_same) (simp add: start_phase_def)
  ultimately show "response_kept waf t t'" by (rule response_kept_trans [rotated])
  have "ResponseBodyAccess u = ResponseBodyAccess t" by (subst u(1) [unfolded only_vars_def]) simp
  with Eval_step(1) [OF e] only_varsD(5) [OF u(1)]
  show "ResponseBodyAccess t' = ResponseBodyAccess t" "requestBodyBuffer t' = requestBodyBuffer t"
    by (simp_all add: eval_frame_def start_phase_def)
qed

lemma run_phase_it: "run_phase rt waf p t = Some (it, t') \<Longrightarrow> it = interruption t'"
  by (auto simp: run_phase_def)

lemma ProcessResponseHeaders_result:
  assumes "ProcessResponseHeaders rt waf c p t = Some (it, t')" "interruption t = None"
  shows "it = interruption t'" "response_kept waf t t'" "ResponseBodyAccess t' = ResponseBodyAccess t"
proof -
  show "it = interruption t'"
    using assms by (auto simp: ProcessResponseHeaders_def Let_def split: if_splits dest: run_phase_it)
  show "response_kept waf t t'" "ResponseBodyAccess t' = ResponseBodyAccess t"
    using ProcessResponseHeaders_phase [OF assms(1)] runs_phase_response [of rt waf 3 t t']
    by (auto simp: response_kept_same split: if_splits)
qed

lemma ProcessResponseBody_result:
  assumes "ProcessResponseBody rt waf t = Some (it, err, t')" "interruption t = None"
  shows "it = interruption t'" "err = None" "response_kept waf t t'"
proof -
  show "it = interruption t'" "err = None"
    using assms by (auto simp: ProcessResponseBody_def Let_def split: if_splits dest: run_phase_it)
  show "response_kept waf t t'"
    using ProcessResponseBody_phase [OF assms(1)] runs_phase_response [of rt waf 4 t t']
    by (auto simp: response_kept_same split: if_splits)
qed

lemma only_vars_each_header:
  assumes "\<And>k v t u. only_vars t u \<Longrightarrow> only_vars t (add k v u)"
  shows "only_vars t (each_header ord hs add t)"
  unfolding each_header_def by (intro only_vars_fold assms) (auto simp: only_vars_def)

section \<open>The interceptor\<close>

lemma rw_WriteHeader_fresh: "rw_WriteHeader c w = Some w' \<Longrightarrow> rw_status w = None \<Longrightarrow> w' = w\<lparr>rw_status := Some c\<rparr>"
  by (auto simp: rw_WriteHeader_def split: if_splits)

text \<open>The calls that the interceptor sees.\<close>

fun intercepted :: "handler_call \<Rightarrow> bool" where
  "intercepted CallFlush = False"
| "intercepted (CallReadFrom b) = False"
| "intercepted c = True"

lemma i_WriteHeader_fresh:
  assumes "i_WriteHeader e c i = Some i'" "\<not> i_hasStatusCode i" "interruption (i_tx i) = None"
  shows "i_w i' = i_w i" "i_hasStatusCode i'"
    "i_statusCode i' = (case interruption (i_tx i') of None \<Rightarrow> c | Some it \<Rightarrow> obtainStatusCodeFromInterruptionOrDefault it c)"
    "response_kept (e_waf e) (i_tx i) (i_tx i')" "ResponseBodyAccess (i_tx i') = ResponseBodyAccess (i_tx i)"
proof -
  let ?tx = "each_header (rt_ord (e_rt e)) (rw_Header (i_w i)) AddResponseHeader (i_tx i)"
  have ov: "only_vars (i_tx i) ?tx" by (rule only_vars_each_header) (rule inv_intros)
  obtain it tx where p: "ProcessResponseHeaders (e_rt e) (e_waf e) c (i_proto i) ?tx = Some (it, tx)"
    and i': "i' = i\<lparr>i_tx := tx, i_hasStatusCode := True, i_statusCode := (case it of None \<Rightarrow> c
      | Some it \<Rightarrow> obtainStatusCodeFromInterruptionOrDefault it c)\<rparr>"
    using assms(1,2) by (auto simp: i_WriteHeader_def Let_def)
  have none: "interruption ?tx = None" using only_varsD(1) [OF ov] assms(3) by simp
  note r = ProcessResponseHeaders_result [OF p none]
  have "ResponseBodyAccess ?tx = ResponseBodyAccess (i_tx i)" by (subst ov [unfolded only_vars_def]) simp
  with i' r response_kept_vars [OF ov, of "e_waf e"] show "i_w i' = i_w i" "i_hasStatusCode i'"
    "i_statusCode i' = (case interruption (i_tx i') of None \<Rightarrow> c | Some it \<Rightarrow> obtainStatusCodeFromInterruptionOrDefault it c)"
    "response_kept (e_waf e) (i_tx i) (i_tx i')" "ResponseBodyAccess (i_tx i') = ResponseBodyAccess (i_tx i)"
    by (auto intro: response_kept_trans)
qed

text \<open>The status that a handler chooses by its intercepted calls: that of the first one that has a status; 0 is none.\<close>

fun first_status :: "handler_call list \<Rightarrow> int" where
  "first_status [] = 0"
| "first_status (CallWriteHeader c # calls) = c"
| "first_status (CallWrite b # calls) = 200"
| "first_status (_ # calls) = first_status calls"

text \<open>
  What holds while a handler that chooses the status \<open>s\<close> makes intercepted calls on a fresh interceptor of
  the writer \<open>w\<close>: nothing is sent before the status is known, or when the response is interrupted or
  buffered, and the status that the interceptor keeps is that of the interruption, or \<open>s\<close>.
\<close>

definition held :: "ResponseWriter \<Rightarrow> int \<Rightarrow> rwInterceptor \<Rightarrow> bool" where
  "held w s i \<longleftrightarrow> (\<not> i_hasStatusCode i \<longrightarrow> interruption (i_tx i) = None \<and> i_statusCode i = 0) \<and>
     (\<not> i_hasStatusCode i \<or> interruption (i_tx i) \<noteq> None \<or> ResponseBodyAccess (i_tx i) \<longrightarrow>
        rw_body (i_w i) = rw_body w \<and> rw_status (i_w i) = rw_status w) \<and>
     (i_hasStatusCode i \<longrightarrow> i_statusCode i =
        (case interruption (i_tx i) of None \<Rightarrow> s | Some it \<Rightarrow> obtainStatusCodeFromInterruptionOrDefault it s)) \<and>
     (rw_status w = None \<longrightarrow> rw_status (i_w i) \<in> {None, Some 200})"

lemma held_WriteHeader:
  assumes "i_WriteHeader e c i = Some i'" "held w s i" "\<not> i_hasStatusCode i \<Longrightarrow> c = s"
  shows "held w s i'" "i_hasStatusCode i'"
proof -
  show "i_hasStatusCode i'" using assms i_WriteHeader_fresh [OF assms(1)]
    by (cases "i_hasStatusCode i") (auto simp: i_WriteHeader_def held_def)
  show "held w s i'"
  proof (cases "i_hasStatusCode i")
    case True
    with assms show ?thesis by (simp add: i_WriteHeader_def)
  next
    case False
    with assms(2) have none: "interruption (i_tx i) = None" by (simp add: held_def)
    from i_WriteHeader_fresh [OF assms(1) False none] assms(2,3) False show ?thesis
      by (auto simp: held_def split: option.splits)
  qed
qed

lemma held_call:
  assumes "wrapped_call e sd c i = Some i'" "held w s i" "intercepted c" "\<not> i_hasStatusCode i \<Longrightarrow> s = first_status (c # calls)"
  shows "held w s i' \<and> (\<not> i_hasStatusCode i' \<longrightarrow> s = first_status calls)"
proof (cases c)
  case (CallWrite b)
  obtain j where j: "(if i_hasStatusCode i then Some i else i_WriteHeader e 200 i) = Some j" "held w s j" "i_hasStatusCode j"
    using assms(1,2,4) CallWrite held_WriteHeader [of e 200 i _ w s] by (auto simp: i_Write_def split: if_splits)
  with assms(1) CallWrite show ?thesis
    by (auto simp: i_Write_def ResponseBodyWriter_Write_def rw_Write_def implicit_ok_def held_def Let_def
        split: if_split_asm prod.split_asm)
next
  case (CallWriteHeader d)
  with assms held_WriteHeader [of e d i i' w s] show ?thesis by simp
next
  case (SetHeader k vs)
  with assms show ?thesis by (auto simp: held_def)
qed (use assms(3) in simp_all)

lemma held_calls_from:
  assumes "foreach calls (wrapped_call e sd) i = Some i'" "list_all intercepted calls" "held w s i"
    "\<not> i_hasStatusCode i \<Longrightarrow> s = first_status calls"
  shows "held w s i' \<and> (\<not> i_hasStatusCode i' \<longrightarrow> s = 0)"
  using assms
proof (induction calls arbitrary: i)
  case (Cons c calls)
  then obtain j where j: "wrapped_call e sd c i = Some j" "foreach calls (wrapped_call e sd) j = Some i'"
    by (auto split: option.splits)
  have "held w s j \<and> (\<not> i_hasStatusCode j \<longrightarrow> s = first_status calls)"
    by (rule held_call [OF j(1)]) (use Cons.prems in auto)
  with Cons.IH [OF j(2)] Cons.prems(2) show ?case by auto
qed auto

lemma held_calls:
  assumes "foreach calls (wrapped_call e sd) (wrap w proto tx) = Some i" "list_all intercepted calls" "interruption tx = None"
  shows "held w (first_status calls) i" "\<not> i_hasStatusCode i \<Longrightarrow> first_status calls = 0"
  using held_calls_from [OF assms(1,2), of w "first_status calls"] assms(3) by (simp_all add: held_def wrap_def)

lemma responseProcessor_interrupted:
  assumes "held w s i" "\<not> i_hasStatusCode i \<Longrightarrow> s = 0" "responseProcessor e sd i = Some (err, i')" "interruption (i_tx i') = Some it"
  shows "err = None \<and> rw_body (i_w i) = rw_body w \<and> rw_status (i_w i) = rw_status w \<and>
    rw_WriteHeader (obtainStatusCodeFromInterruptionOrDefault it s) (i_w i) = Some (i_w i')"
proof -
  consider "interruption (i_tx i) \<noteq> None"
    | "interruption (i_tx i) = None" "ResponseBodyAccess (i_tx i)" "IsResponseBodyProcessable (e_waf e) (i_tx i)"
    | "interruption (i_tx i) = None" "\<not> (ResponseBodyAccess (i_tx i) \<and> IsResponseBodyProcessable (e_waf e) (i_tx i))" by blast
  then show ?thesis
  proof cases
    case 1
    with assms(3) obtain w' where "rw_WriteHeader (i_statusCode i) (i_w i) = Some w'" "err = None" "i' = i\<lparr>i_w := w'\<rparr>"
      by (auto simp: responseProcessor_def Let_def)
    with 1 assms(1,4) show ?thesis by (fastforce simp: held_def)
  next
    case 2
    from assms(3) 2 obtain it' e' tx where p: "ProcessResponseBody (e_rt e) (e_waf e) (i_tx i) = Some (it', e', tx)"
      by (auto simp: responseProcessor_def Let_def)
    note r = ProcessResponseBody_result [OF p 2(1)]
    have e': "e' = None" and k: "rw_status (i_w i) = rw_status w" "rw_body (i_w i) = rw_body w" and s: "i_statusCode i = s"
      using r(2) assms(1,2) 2(1,2) by (auto simp: held_def split: option.splits)
    show ?thesis
    proof (cases it')
      case None
      with assms(3) 2 p e' have "i_tx i' = tx" by (auto simp: responseProcessor_def Let_def split_beta split: option.split_asm)
      with None r(1) assms(4) show ?thesis by simp
    next
      case (Some it'')
      with assms(3) 2 p e' s obtain w' where "rw_WriteHeader (obtainStatusCodeFromInterruptionOrDefault it'' s) (i_w i) = Some w'"
        "err = None" "i' = i\<lparr>i_tx := tx, i_w := w'\<rparr>" by (auto simp: responseProcessor_def Let_def)
      with Some r(1) assms(4) k show ?thesis by auto
    qed
  next
    case 3
    with assms(3,4) show ?thesis by (auto simp: responseProcessor_def Let_def)
  qed
qed

lemma interrupted_writer:
  assumes "held w s i" "\<not> i_hasStatusCode i \<Longrightarrow> s = 0" "responseProcessor e sd i = Some (err, i')" "interruption (i_tx i') = Some it" "rw_status w = None"
  shows "rw_body (i_w i') = rw_body w \<and> rw_status (i_w i') = Some (obtainStatusCodeFromInterruptionOrDefault it s)"
proof -
  from responseProcessor_interrupted [OF assms(1-4)] assms(5) have r: "rw_body (i_w i) = rw_body w"
    "rw_WriteHeader (obtainStatusCodeFromInterruptionOrDefault it s) (i_w i) = Some (i_w i')" "rw_status (i_w i) = None" by auto
  from rw_WriteHeader_fresh [OF r(2,3)] r(1) show ?thesis by auto
qed

section \<open>The request body\<close>

text \<open>What \<^const>\<open>io_CopyN\<close> took from the reader is what it appended.\<close>

lemma io_CopyN_count:
  assumes "io_CopyN False os_ok r k dst = Some (n, err, dst')" "bb_wf dst"
  shows "bb_wf dst'" "content dst' @ drop (nat n) (rd_data r) = content dst @ rd_data r"
proof -
  let ?d = "take (nat k) (rd_data r)"
  obtain d where d: "io_Copy False os_ok ?d dst = Some (int (length ?d), None, d)" "bb_wf d" "content d = content dst @ ?d"
    using io_Copy_ok [OF assms(2)] by blast
  with assms(1) have "dst' = d" "n = int (length ?d)" by (auto simp: io_CopyN_def Let_def split: if_splits)
  with d(2,3) show "bb_wf dst'" "content dst' @ drop (nat n) (rd_data r) = content dst @ rd_data r"
    by (simp_all add: min_def)
qed

lemma ReadRequestBodyFrom_taken:
  assumes "ReadRequestBodyFrom ps rt waf r t = Some (None, n, None, t')"
    and "rt_os rt = os_ok" "\<not> rt_tiny rt" "bb_wf (requestBodyBuffer t)"
  shows "content (requestBodyBuffer t') @ drop (nat n) (rd_data r) = content (requestBodyBuffer t) @ rd_data r"
proof (cases "t' = t \<and> n = 0")
  case False
  have "\<exists>k err w u. io_CopyN False os_ok r k (requestBodyBuffer t) = Some (n, err, w) \<and>
      (t' = t\<lparr>requestBodyBuffer := w\<rparr> \<or> ProcessRequestBody ps rt waf (t\<lparr>requestBodyBuffer := w\<rparr>) = Some (u, None, t'))"
    using assms(1-3) False unfolding ReadRequestBodyFrom_def Let_def setAndReturnBodyLimitInterruption_def
    by (auto split: if_split_asm)
  then obtain k err w u where c: "io_CopyN False os_ok r k (requestBodyBuffer t) = Some (n, err, w)"
    and "t' = t\<lparr>requestBodyBuffer := w\<rparr> \<or> ProcessRequestBody ps rt waf (t\<lparr>requestBodyBuffer := w\<rparr>) = Some (u, None, t')" by blast
  then have "requestBodyBuffer t' = w" by (auto dest: ProcessRequestBody_buffer)
  with io_CopyN_count(2) [OF c assms(4)] show ?thesis by simp
qed simp

lemma only_vars_request_headers: "only_vars t (request_headers e req t)"
proof -
  have h: "only_vars t (each_header ord hs (AddRequestHeader ord') u)" if "only_vars t u" for ord hs ord' u
    by (rule only_vars_trans [OF that]) (rule only_vars_each_header, rule inv_intros)
  show ?thesis by (auto simp: request_headers_def Let_def split_beta intro!: inv_intros h)
qed

lemma ProcessRequestHeaders_buffer:
  "ProcessRequestHeaders rt waf t = Some (it, t') \<Longrightarrow> requestBodyBuffer t' = requestBodyBuffer t"
  using runs_phase_response(3) [of rt waf 1 t t'] by (auto dest!: ProcessRequestHeaders_phase split: if_splits)

text \<open>
  C9. A request that the rules let pass reaches the handler as it came: the middleware reads the body
  for inspection, up to the limit, and the handler reads the same bytes and the same final error from
  the buffer followed by the rest of the body; no other part of the request changes.
\<close>

theorem processRequest_body:
  assumes "processRequest e req tx = Some (None, None, tx', req')"
    and "rt_os (e_rt e) = os_ok" "\<not> rt_tiny (e_rt e)" "bb_wf (requestBodyBuffer tx)" "content (requestBodyBuffer tx) = []"
  shows "body_bytes req' = body_bytes req \<and> map_option rd_err (q_Body req') = map_option rd_err (q_Body req) \<and>
    req'\<lparr>q_Body := None\<rparr> = req\<lparr>q_Body := None\<rparr>"
proof -
  obtain t1 where p: "ProcessRequestHeaders (e_rt e) (e_waf e) (request_headers e req tx) = Some (None, t1)"
    using assms(1) by (auto simp: processRequest_def split: if_splits)
  have b: "requestBodyBuffer t1 = requestBodyBuffer tx"
    using ProcessRequestHeaders_buffer [OF p] only_varsD(5) [OF only_vars_request_headers [of tx e req]] by simp
  show ?thesis
  proof (cases "q_Body req' = q_Body req")
    case True
    with assms(1) p show ?thesis by (auto simp: processRequest_def body_bytes_def Let_def split: option.splits if_splits)
  next
    case False
    then obtain body n t2 where r: "ReadRequestBodyFrom (e_ps e) (e_rt e) (e_waf e) body t1 = Some (None, n, None, t2)"
      and q: "q_Body req = Some body" "req' = req\<lparr>q_Body := Some (multi_reader (content (requestBodyBuffer t2)) (nat n) body)\<rparr>"
      using assms(1,3) p by (auto simp: processRequest_def Let_def reader_content_def split: option.split_asm if_split_asm)
    with ReadRequestBodyFrom_taken [OF r assms(2,3)] b assms(4,5) show ?thesis
      by (simp add: body_bytes_def multi_reader_def)
  qed
qed

section \<open>The middleware\<close>

text \<open>A request that is not interrupted leaves the transaction without an interruption.\<close>

lemma ProcessRequestHeaders_passed:
  "ProcessRequestHeaders rt waf t = Some (it, t') \<Longrightarrow> interruption t = None \<Longrightarrow> it = interruption t'"
  by (auto simp: ProcessRequestHeaders_def split: if_splits dest: run_phase_it)

lemma ProcessRequestBody_passed:
  "ProcessRequestBody ps rt waf t = Some (it, err, t') \<Longrightarrow> interruption t = None \<Longrightarrow> it = interruption t' \<and> err = None"
  by (auto simp: ProcessRequestBody_def Let_def split: if_splits sum.splits dest: run_phase_it)

lemma ReadRequestBodyFrom_passed:
  assumes "ReadRequestBodyFrom ps rt waf r t = Some (it, n, None, t')" "interruption t = None"
  shows "interruption t' = it"
  using assms unfolding ReadRequestBodyFrom_def Let_def setAndReturnBodyLimitInterruption_def
  by (auto split: if_split_asm)

lemma processRequest_it:
  assumes "processRequest e req tx = Some (it, None, tx', req')" "interruption tx = None"
  shows "it = interruption tx'"
proof -
  obtain it1 t1 where p: "ProcessRequestHeaders (e_rt e) (e_waf e) (request_headers e req tx) = Some (it1, t1)"
    using assms(1) by (auto simp: processRequest_def)
  have "interruption (request_headers e req tx) = None"
    using only_varsD(1) [OF only_vars_request_headers [of tx e req]] assms(2) by simp
  with p have it1: "it1 = interruption t1" by (rule ProcessRequestHeaders_passed)
  show ?thesis
  proof (cases it1)
    case None
    have "(\<exists>u. interruption u = None \<and> ProcessRequestBody (e_ps e) (e_rt e) (e_waf e) u = Some (it, None, tx')) \<or> interruption tx' = it"
      using assms(1) p None it1
      by (auto simp: processRequest_def Let_def split: option.split_asm if_split_asm dest!: ReadRequestBodyFrom_passed)
    then show ?thesis using ProcessRequestBody_passed by blast
  next
    case (Some x)
    with assms(1) p have "it = it1" "tx' = t1" by (auto simp: processRequest_def)
    with it1 show ?thesis by simp
  qed
qed

text \<open>
  C7. Blocking is complete: when a rule of a phase up to the response body interrupts the transaction, or
  the request body is over its limit, the client receives not a byte of what the handler wrote, and the
  status is that of the interruption (503 when it has none) for the action deny. For drop and redirect, which
  the middleware does not carry out, the status is 200 when the request was interrupted, and the handler's
  own one, which it chose by its first call, when the response was. The handlers are those that only use the header, WriteHeader and
  Write of the response writer, which are the calls that the interceptor sees, and the request is processed without
  an error.
\<close>

theorem serve_interrupted:
  assumes "serve e sd h req tx w = Some (w', msgs, tx')" "msgs = []" "interruption tx' = Some it"
    and "RuleEngine tx \<noteq> RuleEngineOff" "interruption tx = None" "rw_status w = None"
    and "\<forall>b. list_all intercepted (h b)"
  shows "\<exists>it1 t1 req1. processRequest e req tx = Some (it1, None, t1, req1) \<and> rw_body w' = rw_body w \<and>
    rw_status w' = Some (if it_Action it = ''deny'' then (if it_Status it = 0 then 503 else it_Status it)
      else if it1 \<noteq> None then 200 else first_status (h (body_bytes req1)))"
proof -
  obtain it1 t1 req1 where p: "processRequest e req tx = Some (it1, None, t1, req1)"
    using assms(1,2,4) by (auto simp: serve_def split: option.split_asm)
  have it1: "it1 = interruption t1" by (rule processRequest_it [OF p assms(5)])
  let ?s = "if it1 \<noteq> None then 200 else first_status (h (body_bytes req1))"
  have "rw_body w' = rw_body w \<and> rw_status w' = Some (obtainStatusCodeFromInterruptionOrDefault it ?s)"
  proof (cases it1)
    case None
    obtain i err i' where f: "foreach (h (body_bytes req1)) (wrapped_call e sd) (wrap w (q_Proto req1) t1) = Some i"
      "responseProcessor e sd i = Some (err, i')" "w' = i_w i'" "tx' = i_tx i'"
      using assms(1,2,4) p None by (auto simp: serve_def split: option.split_asm)
    have h: "list_all intercepted (h (body_bytes req1))" "interruption t1 = None" using assms(7) None it1 by simp_all
    from interrupted_writer [OF held_calls [OF f(1) h] f(2) _ assms(6)] f(3,4) assms(3) None show ?thesis by auto
  next
    case (Some x)
    then have "rw_WriteHeader (obtainStatusCodeFromInterruptionOrDefault x 200) w = Some w'" "tx' = t1"
      using assms(1,2,4) p by (auto simp: serve_def)
    with rw_WriteHeader_fresh [OF this(1) assms(6)] Some it1 assms(3) show ?thesis by auto
  qed
  with p show ?thesis by (auto simp: obtainStatusCodeFromInterruptionOrDefault_def)
qed

section \<open>Transparency\<close>

text \<open>A connection that takes every byte.\<close>

definition sends_all :: "send \<Rightarrow> bool" where
  "sends_all sd \<longleftrightarrow> (\<forall>w b. sd w b = (length b, None))"

lemma rw_Write_all: "sends_all sd \<Longrightarrow> rw_Write sd b w = (length b, None, (implicit_ok w)\<lparr>rw_body := rw_body w @ b\<rparr>)"
  by (simp add: rw_Write_def sends_all_def implicit_ok_def)

lemma copy_out_all:
  assumes "sends_all sd" "rw_status w \<noteq> None"
  shows "copy_out sd src w = (None, w\<lparr>rw_body := rw_body w @ src\<rparr>)"
  using assms(2)
proof (induction "length src" arbitrary: src w rule: less_induct)
  case less
  show ?case
  proof (cases "src = []")
    case False
    let ?w = "w\<lparr>rw_body := rw_body w @ take 32768 src\<rparr>"
    have "copy_out sd src w = copy_out sd (drop 32768 src) ?w"
      using False less.prems by (auto simp: copy_out.simps [of sd src w] rw_Write_all [OF assms(1)] implicit_ok_def)
    also have "\<dots> = (None, ?w\<lparr>rw_body := rw_body ?w @ drop 32768 src\<rparr>)"
      by (rule less.hyps) (use False less.prems in simp_all)
    finally show ?thesis by simp
  qed (simp add: copy_out.simps)
qed

text \<open>
  The simulation between the response \<open>p\<close> of a handler without the middleware and the interceptor
  \<open>i\<close> around a fresh writer: the status waits in \<open>statusCode\<close> and the body in the buffer.
\<close>

definition buffers :: "ResponseWriter \<Rightarrow> rwInterceptor \<Rightarrow> bool" where
  "buffers p i \<longleftrightarrow> i_w i = p\<lparr>rw_status := None, rw_body := []\<rparr> \<and>
     rw_status p = (if i_hasStatusCode i then Some (i_statusCode i) else None) \<and>
     (\<not> i_hasStatusCode i \<longrightarrow> i_statusCode i = 0) \<and>
     interruption (i_tx i) = None \<and> ResponseBodyAccess (i_tx i) \<and>
     bb_wf (ResponseBodyBuffer (i_tx i)) \<and> content (ResponseBodyBuffer (i_tx i)) = rw_body p"

definition stopped :: "rwInterceptor \<Rightarrow> bool" where
  "stopped i \<longleftrightarrow> i_hasStatusCode i \<and> interruption (i_tx i) \<noteq> None"

lemma buffers_WriteHeader:
  assumes "i_WriteHeader e c i = Some i'" "rw_WriteHeader c p = Some p'" "buffers p i" "\<not> w_ContentInjection (e_waf e)"
  shows "buffers p' i' \<or> stopped i'"
proof (cases "i_hasStatusCode i")
  case True
  with assms show ?thesis by (auto simp: i_WriteHeader_def rw_WriteHeader_def buffers_def)
next
  case False
  with assms(3) have none: "interruption (i_tx i) = None" by (simp add: buffers_def)
  note f = i_WriteHeader_fresh [OF assms(1) False none]
  have p': "p' = p\<lparr>rw_status := Some c\<rparr>" "100 \<le> c" "c \<le> 999"
    using assms(2,3) False by (auto simp: rw_WriteHeader_def buffers_def split: if_splits)
  show ?thesis
  proof (cases "interruption (i_tx i')")
    case None
    with f p' assms(3,4) show ?thesis by (simp add: buffers_def response_kept_def)
  qed (use f(2) in \<open>simp add: stopped_def\<close>)
qed

lemma buffers_call:
  assumes "wrapped_call e sd c i = Some i'" "plain_call sd c p = Some p'" "buffers p i" "intercepted c"
    and "\<not> w_ContentInjection (e_waf e)" "rt_os (e_rt e) = os_ok" "\<not> rt_tiny (e_rt e)" "sends_all sd"
  shows "buffers p' i' \<or> stopped i'"
proof (cases c)
  case (SetHeader k vs)
  with assms(1-3) show ?thesis by (auto simp: buffers_def)
next
  case (CallWriteHeader d)
  with assms(1-3,5) buffers_WriteHeader show ?thesis by simp
next
  case (CallWrite b)
  obtain j where j: "(if i_hasStatusCode i then Some i else i_WriteHeader e 200 i) = Some j"
    using assms(1) CallWrite by (auto simp: i_Write_def)
  have p': "p' = (implicit_ok p)\<lparr>rw_body := rw_body p @ b\<rparr>"
    using assms(2) CallWrite by (simp add: rw_Write_all [OF assms(8)])
  have "buffers (implicit_ok p) j \<or> stopped j"
  proof (cases "i_hasStatusCode i")
    case True
    with j assms(3) show ?thesis by (simp add: implicit_ok_def buffers_def)
  next
    case False
    with assms(3) have "rw_WriteHeader 200 p = Some (implicit_ok p)" by (simp add: rw_WriteHeader_def implicit_ok_def buffers_def)
    with False j assms(3,5) buffers_WriteHeader show ?thesis by simp
  qed
  then show ?thesis
  proof
    assume "stopped j"
    with assms(1) j CallWrite show ?thesis by (auto simp: i_Write_def stopped_def split: if_split_asm)
  next
    assume B: "buffers (implicit_ok p) j"
    then have wf: "bb_wf (ResponseBodyBuffer (i_tx j))" by (simp add: buffers_def)
    obtain buf where w: "Write False os_ok b (ResponseBodyBuffer (i_tx j)) = Some (int (length b), None, buf)"
      "bb_wf buf" "content buf = content (ResponseBodyBuffer (i_tx j)) @ b" using Write_appends [OF wf] by metis
    have "wrapped_call e sd c i = Some (j\<lparr>i_tx := i_tx j\<lparr>ResponseBodyBuffer := buf\<rparr>\<rparr>)"
      unfolding CallWrite wrapped_call.simps i_Write_def j using B w(1) assms(6,7)
      by (simp add: buffers_def ResponseBodyWriter_Write_def)
    then have "i' = j\<lparr>i_tx := i_tx j\<lparr>ResponseBodyBuffer := buf\<rparr>\<rparr>" using assms(1) by simp
    moreover have "rw_body (implicit_ok p) = rw_body p" by (simp add: implicit_ok_def)
    ultimately have "buffers p' i'" using B w(2,3) p' by (simp add: buffers_def split: if_splits)
    then show ?thesis ..
  qed
qed (use assms(4) in simp_all)

lemma stopped_call: "wrapped_call e sd c i = Some i' \<Longrightarrow> stopped i \<Longrightarrow> intercepted c \<Longrightarrow> stopped i'"
  by (cases c) (auto simp: i_WriteHeader_def i_Write_def stopped_def)

lemma buffers_calls:
  assumes "foreach calls (wrapped_call e sd) i = Some i'" "foreach calls (plain_call sd) p = Some p'"
    and "buffers p i \<or> stopped i" "list_all intercepted calls"
    and "\<not> w_ContentInjection (e_waf e)" "rt_os (e_rt e) = os_ok" "\<not> rt_tiny (e_rt e)" "sends_all sd"
  shows "buffers p' i' \<or> stopped i'"
  using assms(1-4)
proof (induction calls arbitrary: i p)
  case (Cons c calls)
  then obtain i1 p1 where s: "wrapped_call e sd c i = Some i1" "plain_call sd c p = Some p1"
    "foreach calls (wrapped_call e sd) i1 = Some i'" "foreach calls (plain_call sd) p1 = Some p'" by (auto split: option.splits)
  have "buffers p1 i1 \<or> stopped i1"
    using Cons.prems(3,4) buffers_call [OF s(1,2) _ _ assms(5-8)] stopped_call [OF s(1)] by auto
  with Cons.IH s(3,4) Cons.prems(4) show ?case by simp
qed auto

text \<open>
  C8. When no rule interrupts the response and its body is inspected, the client receives exactly what
  the handler answered: the status, the header and every byte of the body, as without the middleware.
  This is for handlers that only use the header, WriteHeader and Write of the response writer (Flush and ReadFrom
  bypass the interceptor), a content type that is inspected, no content injection, temporary files that
  work, and a connection that takes every byte.
\<close>

theorem transparent_response:
  assumes "foreach calls (plain_call sd) w = Some p" "foreach calls (wrapped_call e sd) (wrap w proto tx) = Some i"
    and "responseProcessor e sd i = Some (err, i')" "interruption (i_tx i') = None"
    and "list_all intercepted calls" "rw_status w = None" "rw_body w = []"
    and "interruption tx = None" "ResponseBodyAccess tx" "IsResponseBodyProcessable (e_waf e) (i_tx i)"
    and "bb_wf (ResponseBodyBuffer tx)" "content (ResponseBodyBuffer tx) = []"
    and "\<not> w_ContentInjection (e_waf e)" "rt_os (e_rt e) = os_ok" "\<not> rt_tiny (e_rt e)" "sends_all sd"
  shows "err = None \<and> i_w i' = p"
proof -
  have "buffers w (wrap w proto tx)" using assms(6-9,11,12) by (simp add: buffers_def wrap_def)
  then have or: "buffers p i \<or> stopped i" using buffers_calls [OF assms(2,1) _ assms(5,13-16)] by blast
  have "interruption (i_tx i) = None"
    using assms(3,4) by (cases "interruption (i_tx i)") (auto simp: responseProcessor_def Let_def)
  with or have B: "buffers p i" by (simp add: stopped_def)
  then have none: "interruption (i_tx i) = None" "ResponseBodyAccess (i_tx i)" by (simp_all add: buffers_def)
  obtain it e1 t1 where P: "ProcessResponseBody (e_rt e) (e_waf e) (i_tx i) = Some (it, e1, t1)"
    using assms(3,10) none by (auto simp: responseProcessor_def Let_def)
  note r = ProcessResponseBody_result [OF P none(1)]
  have "it = None"
  proof (cases it)
    case (Some x)
    with assms(3,10) none P r(2) have "i_tx i' = t1" by (auto simp: responseProcessor_def Let_def)
    with assms(4) r(1) show ?thesis by simp
  qed simp
  then obtain w' where h: "rw_WriteHeader (i_statusCode i) (i_w i) = Some w'"
    using assms(3,10) none P r(2) by (auto simp: responseProcessor_def Let_def)
  have w': "w' = p\<lparr>rw_body := []\<rparr>"
    using h B assms(6) by (auto simp: rw_WriteHeader_def buffers_def split: if_splits)
  have sent: "rw_status w' \<noteq> None"
    using h by (cases "rw_status (i_w i)") (auto simp: rw_WriteHeader_def split: if_splits)
  have buf: "content (ResponseBodyBuffer t1) = rw_body p" using r(3) assms(13) B by (simp add: response_kept_def buffers_def)
  have "copy_out sd (reader_content (rt_tiny (e_rt e)) (ResponseBodyBuffer t1)) w' = (None, p)"
    using copy_out_all [OF assms(16) sent, of "rw_body p"] buf assms(15) by (simp add: reader_content_def w')
  with assms(3,10) none P r(2) \<open>it = None\<close> h show ?thesis by (auto simp: responseProcessor_def Let_def)
qed

section \<open>Responses that change\<close>

text \<open>
  What a handler's calls do to the interceptor when the response body is not inspected: the writer
  gets a status only from \<^verbatim>\<open>net/http\<close>, at the first write.
\<close>

definition direct :: "bool \<Rightarrow> rwInterceptor \<Rightarrow> bool" where
  "direct wrote i \<longleftrightarrow> \<not> ResponseBodyAccess (i_tx i) \<and> (\<not> i_hasStatusCode i \<longrightarrow> interruption (i_tx i) = None) \<and>
     (interruption (i_tx i) = None \<longrightarrow> rw_status (i_w i) = (if wrote then Some 200 else None) \<and> (wrote \<longrightarrow> i_hasStatusCode i))"

fun is_write :: "handler_call \<Rightarrow> bool" where
  "is_write (CallWrite b) = True"
| "is_write _ = False"

lemma direct_WriteHeader:
  assumes "i_WriteHeader e c i = Some i'" "direct wr i"
  shows "direct wr i'" "i_hasStatusCode i'"
proof -
  have "direct wr i' \<and> i_hasStatusCode i'"
  proof (cases "i_hasStatusCode i")
    case True
    with assms show ?thesis by (simp add: i_WriteHeader_def)
  next
    case False
    with assms(2) have none: "interruption (i_tx i) = None" by (simp add: direct_def)
    from i_WriteHeader_fresh [OF assms(1) False none] none assms(2) show ?thesis by (simp add: direct_def)
  qed
  then show "direct wr i'" "i_hasStatusCode i'" by simp_all
qed

lemma direct_call:
  assumes "wrapped_call e sd c i = Some i'" "direct wr i" "intercepted c"
  shows "direct (wr \<or> is_write c) i'"
proof (cases c)
  case (CallWrite b)
  obtain j where j: "(if i_hasStatusCode i then Some i else i_WriteHeader e 200 i) = Some j" "direct wr j" "i_hasStatusCode j"
    using assms(1,2) CallWrite direct_WriteHeader [of e 200 i] by (auto simp: i_Write_def split: if_splits)
  with assms(1) CallWrite show ?thesis
    by (auto simp: i_Write_def rw_Write_def implicit_ok_def direct_def Let_def split: if_split_asm prod.split_asm)
next
  case (CallWriteHeader d)
  with assms direct_WriteHeader(1) show ?thesis by simp
next
  case (SetHeader k vs)
  with assms show ?thesis by (auto simp: direct_def)
qed (use assms(3) in simp_all)

lemma direct_calls:
  assumes "foreach calls (wrapped_call e sd) i = Some i'" "direct wr i" "list_all intercepted calls"
  shows "direct (wr \<or> list_ex is_write calls) i'"
  using assms
proof (induction calls arbitrary: i wr)
  case (Cons c calls)
  then obtain i1 where s: "wrapped_call e sd c i = Some i1" "foreach calls (wrapped_call e sd) i1 = Some i'" by (auto split: option.splits)
  have "direct (wr \<or> is_write c) i1" by (rule direct_call [OF s(1)]) (use Cons.prems in simp_all)
  from Cons.IH [OF s(2) this] Cons.prems(3) show ?case by (simp add: disj_assoc)
qed simp

text \<open>
  With the inspection of response bodies off, the status that a handler sets is lost as soon as it
  writes a body: the client receives 200, whatever the handler passed to \<open>WriteHeader\<close>.
\<close>

theorem uninspected_status:
  assumes "foreach calls (wrapped_call e sd) (wrap w proto tx) = Some i" "responseProcessor e sd i = Some (err, i')"
    and "list_all intercepted calls" "list_ex is_write calls" "rw_status w = None"
    and "\<not> ResponseBodyAccess tx" "interruption tx = None" "interruption (i_tx i') = None"
  shows "rw_status (i_w i') = Some 200"
proof -
  have "direct False (wrap w proto tx)" using assms(5-7) by (simp add: direct_def wrap_def)
  from direct_calls [OF assms(1) this assms(3)] assms(4) have d: "direct True i" by simp
  then have "i_tx i' = i_tx i" "rw_status (i_w i') = rw_status (i_w i)" if "interruption (i_tx i) = None"
    using assms(2) that by (auto simp: responseProcessor_def direct_def rw_WriteHeader_def Let_def)
  moreover have "interruption (i_tx i) = None"
    using assms(2,8) by (cases "interruption (i_tx i)") (auto simp: responseProcessor_def Let_def)
  ultimately show ?thesis using d by (simp add: direct_def)
qed

text \<open>
  With the inspection of response bodies on, a response whose content type is not one of the inspected
  ones loses its body: the interceptor buffers what the handler writes and nothing sends the buffer.
\<close>

theorem unprocessable_body_lost:
  assumes "foreach calls (wrapped_call e sd) (wrap w proto tx) = Some i" "responseProcessor e sd i = Some (err, i')"
    and "list_all intercepted calls" "interruption tx = None" "interruption (i_tx i) = None"
    and "ResponseBodyAccess (i_tx i)" "\<not> IsResponseBodyProcessable (e_waf e) (i_tx i)"
  shows "rw_body (i_w i') = rw_body w"
proof -
  note held_calls(1) [OF assms(1,3,4)]
  with assms(2,5-7) show ?thesis by (auto simp: responseProcessor_def rw_WriteHeader_def held_def Let_def split: if_splits)
qed

text \<open>
  A handler that answers without a status and without a body, which \<^verbatim>\<open>net/http\<close> completes with
  200, makes the middleware panic unless a rule interrupts the response: the status is still 0.
\<close>

theorem silent_handler_panics:
  assumes "interruption tx = None" "rw_status w = None" "\<not> (ResponseBodyAccess tx \<and> IsResponseBodyProcessable (e_waf e) tx)"
  shows "foreach (map (\<lambda>(k, vs). SetHeader k vs) hs) (wrapped_call e sd) (wrap w proto tx) \<bind> responseProcessor e sd = None"
proof -
  have "\<exists>w'. foreach (map (\<lambda>(k, vs). SetHeader k vs) hs) (wrapped_call e sd) (wrap w proto tx) = Some (wrap w' proto tx) \<and> rw_status w' = None"
    using assms(2)
  proof (induction hs arbitrary: w)
    case (Cons h hs)
    show ?case using Cons.IH [of "w\<lparr>rw_Header := AList.update (fst h) (snd h) (rw_Header w)\<rparr>"] Cons.prems
      by (cases h) (simp add: wrap_def)
  qed auto
  with assms(1,3) show ?thesis by (auto simp: responseProcessor_def rw_WriteHeader_def wrap_def Let_def)
qed

text \<open>
  The wrapped writer passes \<open>ReadFrom\<close> to the original one: a handler that answers with
  \<^verbatim>\<open>io.Copy\<close> sends its body, with status 200, past the response rules, and an interruption
  decided afterwards changes nothing of it.
\<close>

theorem ReadFrom_not_intercepted:
  assumes "rw_ReaderFrom w" "rw_status w = None" "b \<noteq> []" "sends_all sd"
    and "foreach (CallReadFrom b # calls) (wrapped_call e sd) (wrap w proto tx) = Some i"
    and "list_all intercepted calls" "responseProcessor e sd i = Some (err, i')" "interruption tx = None" "interruption (i_tx i') \<noteq> None"
  shows "rw_status (i_w i') = Some 200 \<and> rw_body (i_w i') = rw_body w @ b"
proof -
  let ?w = "snd (copy_out sd b w)"
  have c: "copy_out sd b w = copy_out sd b (implicit_ok w)"
    using assms(2,3) by (simp add: copy_out.simps [of sd b] rw_Write_def implicit_ok_def)
  have w: "?w = (implicit_ok w)\<lparr>rw_body := rw_body w @ b\<rparr>"
    unfolding c using copy_out_all [OF assms(4), of "implicit_ok w" b] by (simp add: implicit_ok_def)
  have "foreach calls (wrapped_call e sd) (wrap ?w proto tx) = Some i" using assms(1,5) by (simp add: wrap_def)
  note h = held_calls [OF this assms(6,8)]
  obtain it where "interruption (i_tx i') = Some it" using assms(9) by blast
  with responseProcessor_interrupted [OF h assms(7)]
  obtain d where "rw_WriteHeader d (i_w i) = Some (i_w i')" "rw_body (i_w i) = rw_body ?w" "rw_status (i_w i) = rw_status ?w"
    by blast
  then show ?thesis using assms(2) by (auto simp: w rw_WriteHeader_def implicit_ok_def)
qed

section \<open>Witnesses\<close>

definition http_env :: "ChainedRule list \<Rightarrow> string list \<Rightarrow> env" where
  "http_env rules mime = \<lparr>e_ps = demo_parsers, e_url = (\<lambda>_. Inl []), e_rt = rt0,
     e_waf = waf0\<lparr>w_Rules := rules, w_ResponseBodyMimeTypes := mime\<rparr>\<rparr>"

definition demo_writer :: ResponseWriter where
  "demo_writer = \<lparr>rw_Header = [], rw_status = None, rw_body = [], rw_Flusher = True, rw_ReaderFrom = True\<rparr>"

definition demo_send :: send where
  "demo_send w b = (length b, None)"

definition demo_handler :: "handler_call list" where
  "demo_handler = [SetHeader ''Content-Type'' [''text/html''], CallWriteHeader 201, CallWrite ''hi'']"

lemma demo_each_header:
  "each_header (\<lambda>ks. ks) [(''Content-Type'', [''text/html''])] AddResponseHeader t =
     set_var ResponseContentType ''text/html''
      (upd_col ResponseHeaders (\<lambda>m. Map_AddCS m ''content-type'' ''Content-Type'' ''text/html'')
      (upd_col ResponseHeadersNames (\<lambda>m. Map_AddUniqueCS m ''content-type'' ''Content-Type'' ''content-type'') t))"
proof -
  have "ToLower ''Content-Type'' = ''content-type''" "Cut ''text/html'' CHR '';'' = (''text/html'', [], False)" by code_simp+
  then show ?thesis by (simp add: each_header_def AddResponseHeader_def map_get_def Let_def)
qed

definition demo_http_tx :: "bool \<Rightarrow> Transaction" where
  "demo_http_tx access = blank_tx\<lparr>ResponseBodyAccess := access\<rparr>"

text \<open>The transaction after the response headers of the sample handler, without rules.\<close>

definition headers_tx :: "bool \<Rightarrow> Transaction" where
  "headers_tx access = start_phase 3 (set_var ResponseProtocol ''HTTP/1.1'' (set_var ResponseStatus (Itoa 201)
     (each_header (\<lambda>ks. ks) [(''Content-Type'', [''text/html''])] AddResponseHeader (demo_http_tx access))))"

lemma headers_tx_fields:
  "interruption (headers_tx a) = None" "ResponseBodyAccess (headers_tx a) = a" "RuleEngine (headers_tx a) = RuleEngineOn"
  "LastPhase (headers_tx a) = 3" "ResponseBodyBuffer (headers_tx a) = NewBodyBuffer \<lparr>TmpPath = [], MemoryLimit = 2\<rparr>"
  "var (headers_tx a) ResponseContentType = ''text/html''"
  by (simp_all add: headers_tx_def demo_each_header demo_http_tx_def start_phase_def set_var_def upd_col_def)
    (simp_all add: blank_tx_def)

lemma demo_WriteHeader:
  "i_WriteHeader (http_env [] mime) 201 \<lparr>i_w = w, i_tx = demo_http_tx a, i_statusCode = 0, i_proto = ''HTTP/1.1'', i_hasStatusCode = False\<rparr> =
     Some \<lparr>i_w = w, i_tx = headers_tx a, i_statusCode = 201, i_proto = ''HTTP/1.1'', i_hasStatusCode = True\<rparr>"
  if "rw_Header w = [(''Content-Type'', [''text/html''])]"
proof -
  let ?t = "each_header (\<lambda>ks. ks) [(''Content-Type'', [''text/html''])] AddResponseHeader (demo_http_tx a)"
  have "only_vars (demo_http_tx a) ?t" by (rule only_vars_each_header) (rule inv_intros)
  note o = only_varsD [OF this]
  have "RuleEngine ?t = RuleEngineOn" "LastPhase ?t = 0" "interruption ?t = None" "w_Rules (e_waf (http_env [] mime)) = []"
    using o by (simp_all add: demo_http_tx_def http_env_def waf0_def) (simp_all add: blank_tx_def)
  then have "ProcessResponseHeaders (e_rt (http_env [] mime)) (e_waf (http_env [] mime)) 201 ''HTTP/1.1'' ?t = Some (None, headers_tx a)"
    using headers_tx_fields(1) [of a] by (simp add: ProcessResponseHeaders_def run_phase_def Eval_no_rules headers_tx_def)
  with that show ?thesis by (simp add: i_WriteHeader_def) (simp add: http_env_def rt0_def)
qed

abbreviation html_writer :: ResponseWriter where
  "html_writer \<equiv> demo_writer\<lparr>rw_Header := [(''Content-Type'', [''text/html''])]\<rparr>"

lemma demo_calls_buffered:
  obtains buf where "bb_wf buf" "content buf = ''hi''"
    "foreach demo_handler (wrapped_call (http_env [] mime) demo_send) (wrap demo_writer ''HTTP/1.1'' (demo_http_tx True)) =
      Some \<lparr>i_w = html_writer, i_tx = (headers_tx True)\<lparr>ResponseBodyBuffer := buf\<rparr>, i_statusCode = 201,
        i_proto = ''HTTP/1.1'', i_hasStatusCode = True\<rparr>"
proof -
  obtain buf where "Write False os_ok ''hi'' (NewBodyBuffer \<lparr>TmpPath = [], MemoryLimit = 2\<rparr>) = Some (int (length ''hi''), None, buf)"
    "bb_wf buf" "content buf = content (NewBodyBuffer \<lparr>TmpPath = [], MemoryLimit = 2\<rparr>) @ ''hi''"
    using Write_appends [OF bb_wf_New] by metis
  then show ?thesis
    by (intro that) (simp_all add: demo_handler_def wrap_def demo_writer_def demo_WriteHeader i_Write_def headers_tx_fields
        ResponseBodyWriter_Write_def http_env_def [of "[]" mime, THEN arg_cong, of e_rt] rt0_def)
qed

lemma sends_all_demo: "sends_all demo_send"
  by (simp add: sends_all_def demo_send_def)

lemma demo_handler_plain:
  "foreach demo_handler (plain_call demo_send) demo_writer =
     Some \<lparr>rw_Header = [(''Content-Type'', [''text/html''])], rw_status = Some 201, rw_body = ''hi'', rw_Flusher = True, rw_ReaderFrom = True\<rparr>"
  by (simp add: demo_handler_def demo_writer_def rw_WriteHeader_def rw_Write_def implicit_ok_def demo_send_def)

lemma demo_handler_intercepted: "list_all intercepted demo_handler" "list_ex is_write demo_handler"
  by (simp_all add: demo_handler_def)

lemma http_env_waf:
  "w_ResponseBodyMimeTypes (e_waf (http_env rules mime)) = mime" "w_Rules (e_waf (http_env rules mime)) = rules"
  "\<not> w_ContentInjection (e_waf (http_env rules mime))" "e_rt (http_env rules mime) = rt0"
  by (simp_all add: http_env_def waf0_def)

lemma ProcessResponseBody_no_rules:
  assumes "w_Rules waf = []" "RuleEngine t \<noteq> RuleEngineOff" "LastPhase t < 4" "interruption t = None"
  shows "\<exists>t'. ProcessResponseBody rt waf t = Some (None, None, t') \<and> interruption t' = None"
  using assms by (auto simp: ProcessResponseBody_def run_phase_def Eval_no_rules start_phase_def set_var_def Let_def)

theorem transparent_response_witness:
  "\<exists>i err i'. foreach demo_handler (wrapped_call (http_env [] [''text/html'']) demo_send) (wrap demo_writer ''HTTP/1.1'' (demo_http_tx True)) = Some i \<and>
     responseProcessor (http_env [] [''text/html'']) demo_send i = Some (err, i') \<and> rw_status (i_w i') = Some 201 \<and> rw_body (i_w i') = ''hi''"
proof -
  let ?e = "http_env [] [''text/html'']"
  obtain buf where b: "bb_wf buf" "content buf = ''hi''"
    "foreach demo_handler (wrapped_call ?e demo_send) (wrap demo_writer ''HTTP/1.1'' (demo_http_tx True)) =
      Some \<lparr>i_w = html_writer, i_tx = (headers_tx True)\<lparr>ResponseBodyBuffer := buf\<rparr>, i_statusCode = 201,
        i_proto = ''HTTP/1.1'', i_hasStatusCode = True\<rparr>" (is "_ = Some ?i")
    by (rule demo_calls_buffered)
  have p: "IsResponseBodyProcessable (e_waf ?e) (i_tx ?i)"
    using headers_tx_fields(6) [of True] by (simp add: IsResponseBodyProcessable_def http_env_waf)
  obtain t where t: "ProcessResponseBody (e_rt ?e) (e_waf ?e) (i_tx ?i) = Some (None, None, t)" "interruption t = None"
    using ProcessResponseBody_no_rules [of "e_waf ?e" "i_tx ?i"] headers_tx_fields [of True] by (auto simp: http_env_waf)
  have "copy_out demo_send d (html_writer\<lparr>rw_status := Some 201\<rparr>) = (None, html_writer\<lparr>rw_status := Some 201, rw_body := d\<rparr>)" for d
    using copy_out_all [OF sends_all_demo, of "html_writer\<lparr>rw_status := Some 201\<rparr>" d] by (simp add: demo_writer_def)
  with p t headers_tx_fields [of True] have "\<exists>err i'. responseProcessor ?e demo_send ?i = Some (err, i') \<and> interruption (i_tx i') = None"
    by (simp add: responseProcessor_def rw_WriteHeader_def demo_writer_def)
  then obtain err i' where r: "responseProcessor ?e demo_send ?i = Some (err, i')" "interruption (i_tx i') = None" by blast
  have "err = None \<and> i_w i' = \<lparr>rw_Header = [(''Content-Type'', [''text/html''])], rw_status = Some 201, rw_body = ''hi'', rw_Flusher = True, rw_ReaderFrom = True\<rparr>"
    by (rule transparent_response [OF demo_handler_plain b(3) r])
      (use p in \<open>simp_all add: demo_handler_intercepted sends_all_demo http_env_waf\<close>,
       simp_all add: demo_writer_def demo_http_tx_def rt0_def blank_tx_def bb_wf_New)
  with b(3) r(1) show ?thesis by auto
qed

theorem uninspected_status_witness:
  "\<exists>i err i'. foreach demo_handler (wrapped_call (http_env [] []) demo_send) (wrap demo_writer ''HTTP/1.1'' (demo_http_tx False)) = Some i \<and>
     responseProcessor (http_env [] []) demo_send i = Some (err, i') \<and> rw_status (i_w i') = Some 200"
proof -
  let ?i = "\<lparr>i_w = html_writer\<lparr>rw_status := Some 200, rw_body := ''hi''\<rparr>, i_tx = headers_tx False, i_statusCode = 201,
    i_proto = ''HTTP/1.1'', i_hasStatusCode = True\<rparr>"
  have f: "foreach demo_handler (wrapped_call (http_env [] []) demo_send) (wrap demo_writer ''HTTP/1.1'' (demo_http_tx False)) = Some ?i"
    by (simp add: demo_handler_def wrap_def demo_writer_def demo_WriteHeader i_Write_def headers_tx_fields rw_Write_def implicit_ok_def demo_send_def)
  have r: "responseProcessor (http_env [] []) demo_send ?i = Some (None, ?i)"
    by (simp add: responseProcessor_def headers_tx_fields rw_WriteHeader_def)
  from uninspected_status [OF f r demo_handler_intercepted] headers_tx_fields f r show ?thesis
    by (simp add: demo_writer_def demo_http_tx_def blank_tx_def)
qed

theorem unprocessable_body_lost_witness:
  "\<exists>i err i'. foreach demo_handler (wrapped_call (http_env [] []) demo_send) (wrap demo_writer ''HTTP/1.1'' (demo_http_tx True)) = Some i \<and>
     responseProcessor (http_env [] []) demo_send i = Some (err, i') \<and> rw_body (i_w i') = []"
proof -
  let ?e = "http_env [] []"
  obtain buf where b: "foreach demo_handler (wrapped_call ?e demo_send) (wrap demo_writer ''HTTP/1.1'' (demo_http_tx True)) =
      Some \<lparr>i_w = html_writer, i_tx = (headers_tx True)\<lparr>ResponseBodyBuffer := buf\<rparr>, i_statusCode = 201,
        i_proto = ''HTTP/1.1'', i_hasStatusCode = True\<rparr>" (is "_ = Some ?i")
    using demo_calls_buffered by metis
  have p: "\<not> IsResponseBodyProcessable (e_waf ?e) (i_tx ?i)" by (simp add: IsResponseBodyProcessable_def http_env_waf)
  have r: "responseProcessor ?e demo_send ?i = Some (None, ?i\<lparr>i_w := html_writer\<lparr>rw_status := Some 201\<rparr>\<rparr>)"
    using p by (simp add: responseProcessor_def headers_tx_fields rw_WriteHeader_def demo_writer_def)
  from unprocessable_body_lost [OF b r demo_handler_intercepted(1)] p b r show ?thesis
    by (simp add: demo_writer_def demo_http_tx_def headers_tx_fields blank_tx_def)
qed

theorem silent_handler_panics_witness:
  "foreach (map (\<lambda>(k, vs). SetHeader k vs) [(''X'', [''y''])]) (wrapped_call (http_env [] []) demo_send)
     (wrap demo_writer ''HTTP/1.1'' (demo_http_tx False)) \<bind> responseProcessor (http_env [] []) demo_send = None"
  by (rule silent_handler_panics) (simp_all add: demo_writer_def demo_http_tx_def blank_tx_def)

text \<open>An unconditional rule of phase 3 that denies, as \<^verbatim>\<open>SecAction "id:7,phase:3,deny,status:403"\<close>.\<close>

definition deny_response :: Rule where
  "deny_response = (NewRule 3)\<lparr>ID := 7, Phase := 3, r_DisruptiveStatus := 403,
     r_actions := [\<lparr>a_Name = ''deny'', a_Param = [], a_Function = act_deny\<rparr>]\<rparr>"

lemma deny_response_facts:
  "rule_actions deny_response = {act_deny}" "ID deny_response = 7" "Phase deny_response = 3" "r_operator deny_response = None"
  "chain_ok deny_response []" "r_ParentID deny_response = 0" "r_DisruptiveStatus deny_response = 403"
  "rule_verdict deny_response = Some \<lparr>it_RuleID = 7, it_Action = ''deny'', it_Status = 403, it_Data = []\<rparr>"
  "actions_of (\<lambda>t. t = ActionTypeNondisruptive) deny_response = []"
  "actions_of (\<lambda>t. t = ActionTypeDisruptive \<or> t = ActionTypeFlow) deny_response = [act_deny]"
  by (simp_all add: deny_response_def NewRule_def rule_actions_def chain_ok_def actions_of_def rule_verdict_def effective_id_def)

lemma Eval_deny_response:
  assumes "w_Rules waf = [(deny_response, [])]" "RuleEngine t = RuleEngineOn" "interruption t = None"
    and "ruleRemoveByID t = []" "SkipAfter t = []" "Skip t = 0"
  obtains t' where "Eval rt0 waf 3 t = Some (True, t')" "interruption t' = rule_verdict deny_response"
proof -
  let ?t = "reset_matched (start_phase 3 t)"
  obtain t1 where m: "matchRuleValues rt0 waf deny_response ?t = Some ([zero_MatchData], t1)"
    by (simp add: matchRuleValues_def rule_matchVariable_def deny_response_facts Let_def)
  have "\<exists>u. disruptive_actions rt0 waf deny_response t1 = Some u" by (simp add: disruptive_actions_def deny_response_facts)
  with m obtain mvs u where d: "doEvaluate rt0 waf deny_response [] ?t = Some (mvs, u)" "mvs \<noteq> []"
    by (auto simp: doEvaluate.simps finish_parent_def deny_response_facts)
  have "RuleEngine ?t = RuleEngineOn" using assms(2) by (simp add: reset_matched_def upd_col_def start_phase_def)
  with doEvaluate_outcome [OF d deny_response_facts(5)] have i: "interruption u = rule_verdict deny_response"
    by (simp add: deny_response_facts keeps_engine_def)
  have "Eval rt0 waf 3 t = Some (interruption u \<noteq> None, u\<lparr>Capture := False\<rparr>)"
    using assms d(1) by (simp add: Eval_def rule_step_def deny_response_facts) (simp add: start_phase_def)
  with i that show ?thesis by (auto simp: deny_response_facts)
qed

text \<open>The status that the sample rule leaves: 403, or 201 for an action other than deny.\<close>

lemma demo_denied:
  obtains t it c where "i_WriteHeader (http_env [(deny_response, [])] []) 201 (wrap w ''HTTP/1.1'' (demo_http_tx a)) =
      Some \<lparr>i_w = w, i_tx = t, i_statusCode = c, i_proto = ''HTTP/1.1'', i_hasStatusCode = True\<rparr>"
    "interruption t = Some it" "c = 403 \<or> c = 201"
proof -
  let ?e = "http_env [(deny_response, [])] []"
  let ?t = "each_header (\<lambda>ks. ks) (rw_Header w) AddResponseHeader (demo_http_tx a)"
  let ?u = "set_var ResponseProtocol ''HTTP/1.1'' (set_var ResponseStatus (Itoa 201) ?t)"
  have o: "only_vars (demo_http_tx a) ?t" by (rule only_vars_each_header) (rule inv_intros)
  then have ou: "only_vars (demo_http_tx a) ?u" by (intro inv_intros)
  have f: "RuleEngine ?u = RuleEngineOn" "interruption ?u = None" "ruleRemoveByID ?u = []" "SkipAfter ?u = []" "Skip ?u = 0"
    by (subst ou [unfolded only_vars_def], simp add: demo_http_tx_def blank_tx_def)+
  have f': "RuleEngine ?t = RuleEngineOn" "interruption ?t = None" "LastPhase ?t = 0"
    by (subst o [unfolded only_vars_def], simp add: demo_http_tx_def blank_tx_def)+
  obtain t where t: "Eval rt0 (e_waf ?e) 3 ?u = Some (True, t)" "interruption t = rule_verdict deny_response"
    using Eval_deny_response [OF _ f, of "e_waf ?e"] by (auto simp: http_env_waf)
  then obtain it where it: "interruption t = Some it" "it_Status it = 403" by (simp add: deny_response_facts)
  have "ProcessResponseHeaders rt0 (e_waf ?e) 201 ''HTTP/1.1'' ?t = Some (Some it, t)"
    using t(1) it(1) f' by (simp add: ProcessResponseHeaders_def run_phase_def)
  then have "i_WriteHeader ?e 201 (wrap w ''HTTP/1.1'' (demo_http_tx a)) = Some \<lparr>i_w = w, i_tx = t,
      i_statusCode = obtainStatusCodeFromInterruptionOrDefault it 201, i_proto = ''HTTP/1.1'', i_hasStatusCode = True\<rparr>"
    by (simp add: i_WriteHeader_def wrap_def http_env_waf) (simp add: rt0_def)
  with it that show ?thesis by (simp add: obtainStatusCodeFromInterruptionOrDefault_def)
qed

text \<open>A POST request whose body is longer than the limit of 4 bytes.\<close>

abbreviation demo_body :: reader where
  "demo_body \<equiv> \<lparr>rd_Len = None, rd_data = ''abcdef'', rd_err = None\<rparr>"

definition demo_request :: Request where
  "demo_request = \<lparr>q_RemoteAddr = ''1.2.3.4:80'', q_URL = ''/'', q_Method = ''POST'', q_Proto = ''HTTP/1.1'', q_Header = [],
     q_Host = ''a'', q_Body = Some demo_body\<rparr>"

text \<open>The transaction after phase 1 of this request, without rules.\<close>

definition demo_started :: "RequestBodyLimitAction \<Rightarrow> Transaction" where
  "demo_started a = start_phase 1 (request_headers (demo_env a) demo_request blank_tx)"

lemma demo_env_fields:
  "e_rt (demo_env a) = rt0" "e_ps (demo_env a) = demo_parsers" "w_RequestBodyLimitAction (e_waf (demo_env a)) = a" "w_Rules (e_waf (demo_env a)) = []"
  by (simp_all add: demo_env_def waf0_def)

lemma demo_headers_var: "var (request_headers (demo_env a) demo_request blank_tx) ReqbodyProcessor = []"
proof -
  have "ToLower ''Host'' = ''host''" "Cut ''/'' CHR ''#'' = (''/'', [], False)" by code_simp+
  then have "var (request_headers (demo_env a) demo_request blank_tx) ReqbodyProcessor = var blank_tx ReqbodyProcessor"
    by (simp add: request_headers_def demo_request_def Let_def split_beta each_header_def AddRequestHeader_def ProcessURI_def
        ProcessConnection_def demo_env_def rt0_def)
  then show ?thesis by (simp add: blank_tx_def NewTransactionVariables_def get_simple_def NewSimple_def)
qed

lemma demo_started_fields:
  "RuleEngine (demo_started a) = RuleEngineOn" "interruption (demo_started a) = None" "LastPhase (demo_started a) = 1"
  "RequestBodyAccess (demo_started a)" "RequestBodyLimit (demo_started a) = 4" "\<not> ForceRequestBodyVariable (demo_started a)"
  "requestBodyBuffer (demo_started a) = NewBodyBuffer \<lparr>TmpPath = [], MemoryLimit = 2\<rparr>"
  "bb_length (requestBodyBuffer (demo_started a)) = 0" "var (demo_started a) ReqbodyProcessor = []"
proof -
  let ?t = "request_headers (demo_env a) demo_request blank_tx"
  have ov: "?t = blank_tx\<lparr>variables := variables ?t\<rparr>"
    using only_vars_request_headers [of blank_tx "demo_env a" demo_request] by (simp add: only_vars_def)
  have "RuleEngine ?t = RuleEngineOn" "interruption ?t = None" "RequestBodyAccess ?t" "RequestBodyLimit ?t = 4"
    "\<not> ForceRequestBodyVariable ?t" "requestBodyBuffer ?t = NewBodyBuffer \<lparr>TmpPath = [], MemoryLimit = 2\<rparr>"
    by (subst ov, simp add: blank_tx_def)+
  then show "RuleEngine (demo_started a) = RuleEngineOn" "interruption (demo_started a) = None" "LastPhase (demo_started a) = 1"
    "RequestBodyAccess (demo_started a)" "RequestBodyLimit (demo_started a) = 4" "\<not> ForceRequestBodyVariable (demo_started a)"
    "requestBodyBuffer (demo_started a) = NewBodyBuffer \<lparr>TmpPath = [], MemoryLimit = 2\<rparr>"
    "bb_length (requestBodyBuffer (demo_started a)) = 0" "var (demo_started a) ReqbodyProcessor = []"
    using demo_headers_var [of a] by (simp_all add: demo_started_def start_phase_def NewBodyBuffer_def)
qed

lemma demo_started:
  "ProcessRequestHeaders rt0 (e_waf (demo_env a)) (request_headers (demo_env a) demo_request blank_tx) = Some (None, demo_started a)"
proof -
  let ?t = "request_headers (demo_env a) demo_request blank_tx"
  have ov: "?t = blank_tx\<lparr>variables := variables ?t\<rparr>"
    using only_vars_request_headers [of blank_tx "demo_env a" demo_request] by (simp add: only_vars_def)
  have "RuleEngine ?t = RuleEngineOn" "interruption ?t = None" "LastPhase ?t = 0" by (subst ov, simp add: blank_tx_def)+
  then show ?thesis using demo_started_fields(2) [of a]
    by (simp add: ProcessRequestHeaders_def run_phase_def Eval_no_rules demo_env_fields demo_started_def)
qed

lemma demo_request_body: "q_Body demo_request = Some demo_body"
  by (simp add: demo_request_def)

lemma demo_copy:
  obtains n err buf where "io_CopyN False os_ok demo_body 4 (requestBodyBuffer (demo_started a)) = Some (n, err, buf)"
    "err = None \<or> err = Some ''EOF''" "bb_length buf = 4"
proof -
  have b: "bb_wf (requestBodyBuffer (demo_started a))" "content (requestBodyBuffer (demo_started a)) = []"
    by (simp_all add: demo_started_fields bb_wf_New)
  obtain n err buf where c: "io_CopyN False os_ok demo_body 4 (requestBodyBuffer (demo_started a)) = Some (n, err, buf)"
    "err = None \<or> err = Some ''EOF''" "bb_wf buf" "content buf = ''abcd''"
    using io_CopyN_ok [OF b(1), of demo_body 4] b(2) by auto
  from c(3,4) have "bb_length buf = 4" by (simp add: bb_wf_def)
  with c(1,2) that show ?thesis by blast
qed

lemma ProcessRequestBody_plain:
  assumes "w_Rules waf = []" "RuleEngine t = RuleEngineOn" "LastPhase t < 2" "interruption t = None"
    and "var t ReqbodyProcessor = []" "\<not> ForceRequestBodyVariable t"
  shows "ProcessRequestBody ps rt waf t = Some (None, None, start_phase 2 t)"
proof -
  have "ToLower [] = []" by code_simp
  with assms show ?thesis by (simp add: ProcessRequestBody_def run_phase_def Eval_no_rules Let_def) (simp add: start_phase_def)
qed

theorem processRequest_body_witness:
  "\<exists>tx' req'. processRequest (demo_env RequestBodyLimitActionProcessPartial) demo_request blank_tx = Some (None, None, tx', req') \<and>
     body_bytes req' = ''abcdef''"
proof -
  let ?e = "demo_env RequestBodyLimitActionProcessPartial" and ?s = "demo_started RequestBodyLimitActionProcessPartial"
  obtain n err buf where c: "io_CopyN False os_ok demo_body 4 (requestBodyBuffer ?s) = Some (n, err, buf)"
    "err = None \<or> err = Some ''EOF''" "bb_length buf = 4" by (rule demo_copy)
  let ?u = "start_phase 2 (?s\<lparr>requestBodyBuffer := buf\<rparr>)"
  have u: "RuleEngine ?u = RuleEngineOn" "LastPhase ?u = 2" "interruption ?u = None" by (simp_all add: start_phase_def demo_started_fields)
  have "ProcessRequestBody demo_parsers rt0 (e_waf ?e) (?s\<lparr>requestBodyBuffer := buf\<rparr>) = Some (None, None, ?u)"
    by (rule ProcessRequestBody_plain) (simp_all add: demo_started_fields demo_env_fields)
  then have r: "ReadRequestBodyFrom demo_parsers rt0 (e_waf ?e) demo_body ?s = Some (None, n, None, ?u)"
    using c u(3) by (auto simp: ReadRequestBodyFrom_def Let_def rt0_def demo_started_fields(1-6,8) demo_env_fields)
  have "ProcessRequestBody demo_parsers rt0 (e_waf ?e) ?u = Some (None, None, ?u)"
    using u by (simp add: ProcessRequestBody_def)
  with r demo_started have "\<exists>req'. processRequest ?e demo_request blank_tx = Some (None, None, ?u, req')"
    by (simp add: processRequest_def demo_env_fields demo_started_fields demo_request_def)
  then obtain req' where q: "processRequest ?e demo_request blank_tx = Some (None, None, ?u, req')" ..
  from processRequest_body [OF q] show ?thesis using q
    by (auto simp: demo_env_fields rt0_def blank_tx_def bb_wf_New body_bytes_def demo_request_def)
qed

theorem ReadFrom_not_intercepted_witness:
  "\<exists>i err i'. foreach (CallReadFrom ''secret'' # [CallWriteHeader 201]) (wrapped_call (http_env [(deny_response, [])] []) demo_send)
       (wrap demo_writer ''HTTP/1.1'' (demo_http_tx True)) = Some i \<and>
     responseProcessor (http_env [(deny_response, [])] []) demo_send i = Some (err, i') \<and> interruption (i_tx i') \<noteq> None \<and>
     rw_status (i_w i') = Some 200 \<and> rw_body (i_w i') = ''secret''"
proof -
  let ?e = "http_env [(deny_response, [])] []" and ?w = "snd (copy_out demo_send ''secret'' demo_writer)"
  obtain t it c where d: "i_WriteHeader ?e 201 (wrap ?w ''HTTP/1.1'' (demo_http_tx True)) =
      Some \<lparr>i_w = ?w, i_tx = t, i_statusCode = c, i_proto = ''HTTP/1.1'', i_hasStatusCode = True\<rparr>" (is "_ = Some ?i")
    and it: "interruption t = Some it" "c = 403 \<or> c = 201" by (rule demo_denied)
  have w: "rw_ReaderFrom demo_writer" "rw_status demo_writer = None" "rw_body demo_writer = []" by (simp_all add: demo_writer_def)
  have f: "foreach (CallReadFrom ''secret'' # [CallWriteHeader 201]) (wrapped_call ?e demo_send) (wrap demo_writer ''HTTP/1.1'' (demo_http_tx True)) = Some ?i"
    using d w(1) by (simp add: wrap_def)
  have "\<exists>w'. rw_WriteHeader c ?w = Some w'" using it(2) by (auto simp: rw_WriteHeader_def)
  then obtain w' where r: "responseProcessor ?e demo_send ?i = Some (None, ?i\<lparr>i_w := w'\<rparr>)"
    using it(1) by (auto simp: responseProcessor_def)
  have "interruption (demo_http_tx True) = None" by (simp add: demo_http_tx_def blank_tx_def)
  with ReadFrom_not_intercepted [OF w(1,2) _ sends_all_demo f _ r] w(3) it(1) f r show ?thesis by simp
qed

theorem serve_interrupted_witness:
  "\<exists>w' tx'. serve (demo_env RequestBodyLimitActionReject) demo_send (\<lambda>_. demo_handler) demo_request blank_tx demo_writer = Some (w', [], tx') \<and>
     rw_status w' = Some 403 \<and> rw_body w' = []"
proof -
  let ?e = "demo_env RequestBodyLimitActionReject" and ?s = "demo_started RequestBodyLimitActionReject"
  obtain n err buf where c: "io_CopyN False os_ok demo_body 4 (requestBodyBuffer ?s) = Some (n, err, buf)"
    "err = None \<or> err = Some ''EOF''" "bb_length buf = 4" by (rule demo_copy)
  define t where "t = (set_var InboundErrorData ''1'' (?s\<lparr>requestBodyBuffer := buf\<rparr>))\<lparr>interruption := Some body_limit_interruption\<rparr>"
  then have t: "interruption t = Some body_limit_interruption" by simp
  have "ReadRequestBodyFrom demo_parsers rt0 (e_waf ?e) demo_body ?s = Some (Some body_limit_interruption, 0, None, t)"
    using c by (auto simp: t_def ReadRequestBodyFrom_def setAndReturnBodyLimitInterruption_def Let_def rt0_def
        demo_started_fields(1-6,8) demo_env_fields)
  with demo_started have "processRequest ?e demo_request blank_tx = Some (Some body_limit_interruption, None, t, demo_request)"
    using demo_request_body by (simp add: processRequest_def demo_env_fields demo_started_fields)
  then have r: "serve ?e demo_send (\<lambda>_. demo_handler) demo_request blank_tx demo_writer = Some (demo_writer\<lparr>rw_status := Some 403\<rparr>, [], t)"
    by (simp add: serve_def blank_tx_def body_limit_interruption_def obtainStatusCodeFromInterruptionOrDefault_def rw_WriteHeader_def demo_writer_def)
  have "rw_body (demo_writer\<lparr>rw_status := Some 403\<rparr>) = rw_body demo_writer"
    using serve_interrupted [OF r refl t] by (simp add: demo_handler_intercepted blank_tx_def demo_writer_def)
  with r show ?thesis by (simp add: demo_writer_def)
qed

end
