(* ===== verification/Rule_Match.thy ===== *)
theory Rule_Match
  imports Variables Strings_Util
begin

text \<open>
  The log lines of a matched rule (src/internal/corazarules/rule_match.go). They are what operators read and
  what other tools parse, and they carry text that comes from the client, so what matters is which of their
  parts a client can forge.
\<close>

section \<open>Quoting\<close>

text \<open>
  \<^verbatim>\<open>%q\<close>, which is \<^verbatim>\<open>strconv.Quote\<close>. The parameter says which runes past ASCII are
  printable.
\<close>

type_synonym printable = "nat \<Rightarrow> bool"

definition IsPrint :: "printable \<Rightarrow> nat \<Rightarrow> bool" where
  "IsPrint pr r = (if r < 128 then 32 \<le> r \<and> r < 127 else pr r)"

definition lowerhex :: "nat \<Rightarrow> char" where
  "lowerhex n = char_of (if n mod 16 < 10 then 48 + n mod 16 else 87 + n mod 16)"

definition escape_seq :: "char \<Rightarrow> nat \<Rightarrow> nat \<Rightarrow> string" where
  "escape_seq c digits n = CHR 0x5C # c # map (\<lambda>k. lowerhex (n div 16 ^ (digits - 1 - k))) [0..<digits]"

definition appendEscapedRune :: "printable \<Rightarrow> nat \<Rightarrow> string" where
  "appendEscapedRune pr r =
     (if r = 0x22 \<or> r = 0x5C then [CHR 0x5C, char_of r]
      else if IsPrint pr r then EncodeRune r
      else if r = 7 then [CHR 0x5C, CHR ''a'']
      else if r = 8 then [CHR 0x5C, CHR ''b'']
      else if r = 12 then [CHR 0x5C, CHR ''f'']
      else if r = 10 then [CHR 0x5C, CHR ''n'']
      else if r = 13 then [CHR 0x5C, CHR ''r'']
      else if r = 9 then [CHR 0x5C, CHR ''t'']
      else if r = 11 then [CHR 0x5C, CHR ''v'']
      else if r < 32 then escape_seq (CHR ''x'') 2 r
      else if \<not> valid_rune r then escape_seq (CHR ''u'') 4 RuneError
      else if r < 65536 then escape_seq (CHR ''u'') 4 r
      else escape_seq (CHR ''U'') 8 r)"

fun quote_rune :: "printable \<Rightarrow> nat \<times> string \<Rightarrow> string" where
  "quote_rune pr (r, bs) =
     (if r = RuneError \<and> length bs = 1 then escape_seq (CHR ''x'') 2 (byte (hd bs)) else appendEscapedRune pr r)"

definition quoted :: "printable \<Rightarrow> string \<Rightarrow> string" where
  "quoted pr s = concat (map (quote_rune pr) (runes s))"

definition Quote :: "printable \<Rightarrow> string \<Rightarrow> string" where
  "Quote pr s = CHR 0x22 # quoted pr s @ [CHR 0x22]"

section \<open>Log lines\<close>

text \<open>\<^verbatim>\<open>[name %q]\<close>\<close>

definition log_field :: "printable \<Rightarrow> string \<times> string \<Rightarrow> string" where
  "log_field pr f = ''['' @ fst f @ '' '' @ Quote pr (snd f) @ '']''"

definition detail_fields :: "MatchedRule \<Rightarrow> MatchData \<Rightarrow> (string \<times> string) list" where
  "detail_fields mr md =
     (let r = mr_Rule mr; msg = take 200 (md_Message md); data = take 200 (md_Data md) in
      [(''file'', File r), (''line'', Itoa (Line r)), (''id'', Itoa (ID r)), (''rev'', Rev r), (''msg'', msg), (''data'', data),
       (''severity'', severity_String (Severity r)), (''ver'', Version r), (''maturity'', Itoa (Maturity r)),
       (''accuracy'', Itoa (Accuracy r))] @
      map (\<lambda>t. (''tag'', t)) (Tags r) @
      [(''hostname'', mr_ServerIPAddress mr), (''uri'', mr_URI mr), (''unique_id'', mr_TransactionID mr)])"

definition details :: "printable \<Rightarrow> MatchedRule \<Rightarrow> MatchData \<Rightarrow> string" where
  "details pr mr md = Join (map (log_field pr) (detail_fields mr md)) '' ''"

text \<open>\<open>matchData\<close> does not use its argument: the loop variable of the same name hides it.\<close>

definition match_text :: "MatchedRule \<Rightarrow> MatchData \<Rightarrow> string" where
  "match_text mr md =
     (let v = variable_Name (md_Variable md) @ (if md_Key md \<noteq> [] then '':'' @ md_Key md else []);
          value = take 200 (md_Value md)
      in if Operator (mr_Rule mr) \<noteq> []
         then ''Matched '' @ [CHR 0x22] @ ''Operator '' @ [] @ '' matched '' @ value @ '' at '' @ v @ ''.''
         else ''Matched.'' @ [CHR 0x22])"

definition mr_matchData :: "MatchedRule \<Rightarrow> MatchData \<Rightarrow> string" where
  "mr_matchData mr md = concat (map (match_text mr) (mr_MatchedDatas mr))"

definition log_head :: "printable \<Rightarrow> int \<Rightarrow> MatchedRule \<Rightarrow> string" where
  "log_head pr code mr =
     log_field pr (''client'', mr_ClientIPAddress mr) @ '' '' @
     (if mr_Disruptive mr
      then ''Coraza: Access denied with code '' @ Itoa code @ '' (phase '' @ Itoa (Phase (mr_Rule mr)) @ ''). ''
      else ''Coraza: Warning. '')"

definition mr_AuditLog :: "printable \<Rightarrow> int \<Rightarrow> MatchedRule \<Rightarrow> string" where
  "mr_AuditLog pr code mr =
     concat (map (\<lambda>md. log_head pr code mr @ mr_matchData mr md @ details pr mr md @ [CHR 0x0A]) (mr_MatchedDatas mr))"

text \<open>The first message that is set; the index of the first match panics when there is none.\<close>

fun first_set :: "string \<Rightarrow> MatchData list \<Rightarrow> string" where
  "first_set msg [] = msg"
| "first_set msg (md # mds) = (if md_Message md \<noteq> [] then md_Message md else first_set msg mds)"

definition mr_ErrorLog :: "printable \<Rightarrow> int \<Rightarrow> MatchedRule \<Rightarrow> string go" where
  "mr_ErrorLog pr code mr =
     (case mr_MatchedDatas mr of
        [] \<Rightarrow> None
      | md0 # _ \<Rightarrow>
          let msg = take 200 (first_set (md_Message md0) (mr_MatchedDatas mr)) in
          Some (concat (map (\<lambda>md. log_head pr code mr @ msg @ '' '' @ details pr mr md @ [CHR 0x0A]) (mr_MatchedDatas mr))))"

section \<open>Reading a line back\<close>

text \<open>A reader of fields as log tools have it: the text between quotes up to the first quote that no backslash precedes.\<close>

definition before :: "string \<Rightarrow> (string \<times> string) option \<Rightarrow> (string \<times> string) option" where
  "before xs res = map_option (\<lambda>(b, r). (xs @ b, r)) res"

lemma before_simps [simp]: "before [] res = res" "before xs (before ys res) = before (xs @ ys) res" "before xs (Some (b, r)) = Some (xs @ b, r)"
  "before xs res = Some (b, r) \<longleftrightarrow> (\<exists>b'. res = Some (b', r) \<and> b = xs @ b')"
  by (cases res; auto simp: before_def)+

fun scan_quoted :: "string \<Rightarrow> (string \<times> string) option" where
  "scan_quoted [] = None"
| "scan_quoted (c # cs) =
     (if c = CHR 0x22 then Some ([], cs)
      else if c = CHR 0x5C then
        (case cs of [] \<Rightarrow> None | d # ds \<Rightarrow> before [c, d] (scan_quoted ds))
      else before [c] (scan_quoted cs))"

fun scan_name :: "string \<Rightarrow> (string \<times> string) option" where
  "scan_name (c # d # cs) =
     (if c = CHR '' '' \<and> d = CHR 0x22 then Some ([], cs)
      else before [c] (scan_name (d # cs)))"
| "scan_name _ = None"

lemma scan_quoted_shorter: "scan_quoted s = Some (b, r) \<Longrightarrow> length r < length s"
  by (induction s arbitrary: b r rule: scan_quoted.induct) (auto split: if_splits list.splits, fastforce+)

lemma scan_name_shorter: "scan_name s = Some (b, r) \<Longrightarrow> length r < length s"
  by (induction s arbitrary: b r rule: scan_name.induct) (fastforce split: if_splits)+

definition read_field :: "string \<Rightarrow> ((string \<times> string) \<times> string) option" where
  "read_field s =
     (case s of
        [] \<Rightarrow> None
      | c # cs \<Rightarrow>
          if c \<noteq> CHR ''['' then None
          else do { (name, r) \<leftarrow> scan_name cs; (value, r) \<leftarrow> scan_quoted r;
                    if r \<noteq> [] \<and> hd r = CHR '']'' then Some ((name, value), tl r) else None })"

lemma read_field_shorter: "read_field s = Some (f, r) \<Longrightarrow> length r < length s"
  by (auto simp: read_field_def split: list.splits if_splits dest!: scan_quoted_shorter scan_name_shorter)

function read_fields :: "string \<Rightarrow> (string \<times> string) list" where
  "read_fields s =
     (case read_field s of
        None \<Rightarrow> []
      | Some (f, r) \<Rightarrow> f # read_fields (if r \<noteq> [] \<and> hd r = CHR '' '' then tl r else r))"
  by pat_completeness auto
termination
proof (relation "measure length", simp)
  fix s x f r
  assume "read_field s = Some x" "(f, r) = x"
  then have "length r < length s" using read_field_shorter by blast
  then show "(if r \<noteq> [] \<and> hd r = CHR '' '' then tl r else r, s) \<in> measure length" by auto
qed

declare read_fields.simps [simp del]

section \<open>What a client cannot forge\<close>

text \<open>Characters that end neither a quoted text nor a line.\<close>

definition inert :: "char \<Rightarrow> bool" where
  "inert c \<longleftrightarrow> c \<notin> {CHR 0x22, CHR 0x5C, CHR 0x0A}"

lemma inert_char_of:
  assumes "n < 256" "n \<notin> {0x22, 0x5C, 0x0A}"
  shows "inert (char_of (n :: nat))"
proof -
  have "n = byte c" if "char_of n = c" for c using assms(1) that byte_char_of by metis
  from this [of "CHR 0x22"] this [of "CHR 0x5C"] this [of "CHR 0x0A"] assms(2) show ?thesis by (auto simp: inert_def)
qed

lemma EncodeRune_inert:
  assumes "IsPrint pr r" "r \<noteq> 0x22" "r \<noteq> 0x5C"
  shows "list_all inert (EncodeRune r)"
proof (cases "r < 128")
  case True
  with assms show ?thesis by (auto simp: EncodeRune_def IsPrint_def intro!: inert_char_of)
next
  case False
  have "r div 64 < 32" if "r \<le> 2047" using that by linarith
  moreover have "r div 4096 < 16" if "r \<le> 65535" using that by linarith
  moreover have "r div 262144 < 5" if "r \<le> 1114111" using that by linarith
  ultimately show ?thesis using False by (auto simp: EncodeRune_def valid_rune_def intro!: inert_char_of)
qed

lemma lowerhex_inert: "inert (lowerhex n)"
  unfolding lowerhex_def by (rule inert_char_of) (use mod_less_divisor [of 16 n] in \<open>auto simp del: mod_less_divisor\<close>)

text \<open>Text that a scanner passes as a whole, on one line.\<close>

definition scans :: "string \<Rightarrow> bool" where
  "scans xs \<longleftrightarrow> (\<forall>ys. scan_quoted (xs @ ys) = before xs (scan_quoted ys)) \<and> CHR 0x0A \<notin> set xs"

lemma scans_Nil: "scans []" by (simp add: scans_def)

lemma scans_append: "scans xs \<Longrightarrow> scans ys \<Longrightarrow> scans (xs @ ys)"
  by (simp add: scans_def)

lemma scans_char: "inert c \<Longrightarrow> scans [c]"
  by (auto simp: scans_def inert_def)

lemma scans_inert: "list_all inert xs \<Longrightarrow> scans xs"
  using scans_append [OF scans_char] by (induction xs) (auto simp: scans_Nil)

lemma scans_escape: "d \<noteq> CHR 0x0A \<Longrightarrow> scans [CHR 0x5C, d]"
  by (simp add: scans_def)

lemma scans_escape_seq: "d \<noteq> CHR 0x0A \<Longrightarrow> scans (escape_seq d k n)"
  using scans_append [OF scans_escape scans_inert, of d] by (simp add: escape_seq_def list_all_iff lowerhex_inert)

lemma scans_quote_rune: "scans (quote_rune pr x)"
proof (cases x)
  case (Pair r bs)
  have quote_chars: "char_of (34 :: nat) = CHR 0x22" "char_of (92 :: nat) = CHR 0x5C" by code_simp+
  have "scans (appendEscapedRune pr r)"
    using scans_inert [OF EncodeRune_inert [of pr r]] quote_chars by (simp add: appendEscapedRune_def scans_escape scans_escape_seq)
  with Pair show ?thesis by (auto intro!: scans_escape_seq)
qed

lemma scans_quoted: "scans (quoted pr s)"
proof -
  have "scans (concat (map (quote_rune pr) rs))" for rs
    by (induction rs) (simp_all add: scans_Nil scans_append scans_quote_rune)
  then show ?thesis by (simp add: quoted_def)
qed

lemma scan_Quote: "scan_quoted (quoted pr s @ CHR 0x22 # rest) = Some (quoted pr s, rest)"
  using scans_quoted [of pr s] by (simp add: scans_def)

text \<open>The name of a field: its characters are neither spaces nor quotes.\<close>

lemma scan_name_ok: "CHR '' '' \<notin> set name \<Longrightarrow> scan_name (name @ '' '' @ CHR 0x22 # rest) = Some (name, rest)"
proof (induction name)
  case (Cons c name)
  then show ?case by (cases name) auto
qed simp

lemma read_log_field:
  "CHR '' '' \<notin> set (fst f) \<Longrightarrow> read_field (log_field pr f @ rest) = Some ((fst f, quoted pr (snd f)), rest)"
  using scan_name_ok [of "fst f"] scan_Quote [of pr "snd f"]
  by (simp add: read_field_def log_field_def Quote_def)

lemma read_fields_field:
  "CHR '' '' \<notin> set (fst f) \<Longrightarrow> read_fields (log_field pr f @ rest) =
     (fst f, quoted pr (snd f)) # read_fields (if rest \<noteq> [] \<and> hd rest = CHR '' '' then tl rest else rest)"
  by (subst read_fields.simps) (simp add: read_log_field)

lemma read_fields_Join:
  assumes "\<forall>f\<in>set fs. CHR '' '' \<notin> set (fst f)"
  shows "read_fields (Join (map (log_field pr) fs) '' '') = map (\<lambda>(n, v). (n, quoted pr v)) fs"
  using assms
proof (induction fs)
  case Nil
  then show ?case by (simp add: read_fields.simps read_field_def Join_def)
next
  case (Cons f fs)
  let ?rest = "concat (map (\<lambda>x. '' '' @ x) (map (log_field pr) fs))"
  have j: "Join (map (log_field pr) (f # fs)) '' '' = log_field pr f @ ?rest" by (simp only: Join_def list.map list.case)
  have r: "(if ?rest \<noteq> [] \<and> hd ?rest = CHR '' '' then tl ?rest else ?rest) = Join (map (log_field pr) fs) '' ''"
    by (cases fs) (simp_all add: Join_def)
  have "CHR '' '' \<notin> set (fst f)" using Cons.prems by simp
  then have "read_fields (Join (map (log_field pr) (f # fs)) '' '') =
      (fst f, quoted pr (snd f)) # read_fields (Join (map (log_field pr) fs) '' '')"
    unfolding j r [symmetric] by (rule read_fields_field)
  with Cons show ?case by (simp add: case_prod_beta)
qed

lemma log_field_line: "CHR 0x0A \<notin> set (fst f) \<Longrightarrow> CHR 0x0A \<notin> set (log_field pr f)"
  using scans_quoted [of pr "snd f"] by (simp add: log_field_def Quote_def scans_def)

lemma detail_names:
  "f \<in> set (detail_fields mr md) \<Longrightarrow> fst f \<in> {''file'', ''line'', ''id'', ''rev'', ''msg'', ''data'', ''severity'', ''ver'', ''maturity'',
     ''accuracy'', ''tag'', ''hostname'', ''uri'', ''unique_id''}"
  by (auto simp: detail_fields_def Let_def)

lemma Join_line: "\<forall>w\<in>set ws. c \<notin> set w \<Longrightarrow> c \<notin> set sep \<Longrightarrow> c \<notin> set (Join ws sep)"
  by (auto simp: Join_def split: list.split)

lemma details_line: "CHR 0x0A \<notin> set (details pr mr md)"
  unfolding details_def
  by (rule Join_line) (auto intro!: log_field_line dest!: detail_names)

text \<open>
  C30. Nothing that a client sends changes the structure of the details of a log line: whatever bytes the message,
  the data, the URI, the host or the identifier contain, they stay on one line, and a reader gets back exactly the
  fields that were written, each with its text in quoted form.
\<close>

theorem details_fields:
  "read_fields (details pr mr md) = map (\<lambda>(n, v). (n, quoted pr v)) (detail_fields mr md) \<and> CHR 0x0A \<notin> set (details pr mr md)"
proof -
  have "\<forall>f\<in>set (detail_fields mr md). CHR '' '' \<notin> set (fst f)" by (auto dest!: detail_names)
  then show ?thesis using details_line unfolding details_def by (simp add: read_fields_Join)
qed

text \<open>The number of lines of a text that ends in a line feed.\<close>

abbreviation line_count :: "string \<Rightarrow> nat" where
  "line_count s \<equiv> count_list s (CHR 0x0A)"

lemma line_count_none: "CHR 0x0A \<notin> set s \<Longrightarrow> line_count s = 0"
  by (simp add: count_notin)

lemma Itoa_line: "line_count (Itoa n) = 0"
proof (rule line_count_none)
  have "CHR 0x0A \<notin> set (nat_to_dec k)" for k using nat_to_dec_digits [of "CHR 0x0A" k] by (auto simp: in_range_def)
  then show "CHR 0x0A \<notin> set (Itoa n)" by (simp add: Itoa_def)
qed

lemma log_head_line: "line_count (log_head pr code mr) = 0"
  using log_field_line [of "(''client'', mr_ClientIPAddress mr)" pr] by (simp add: log_head_def Itoa_line line_count_none)

text \<open>
  The free text of a log line is not quoted: each line feed in the message of a rule, which may be the value of
  a request variable, starts one more line in the error log. Without line feeds there is one line per match.
\<close>

theorem ErrorLog_lines:
  assumes "mr_ErrorLog pr code mr = Some s"
  shows "line_count s = length (mr_MatchedDatas mr) *
    Suc (line_count (take 200 (first_set (md_Message (hd (mr_MatchedDatas mr))) (mr_MatchedDatas mr))))"
proof -
  have l: "line_count (concat (map (\<lambda>md. log_head pr code mr @ msg @ '' '' @ details pr mr md @ [CHR 0x0A]) mds)) = length mds * Suc (line_count msg)"
    for msg mds by (induction mds) (simp_all add: log_head_line line_count_none details_line)
  obtain md mds where m: "mr_MatchedDatas mr = md # mds" using assms by (cases "mr_MatchedDatas mr") (auto simp: mr_ErrorLog_def)
  then have "s = concat (map (\<lambda>md. log_head pr code mr @ take 200 (first_set (md_Message (hd (mr_MatchedDatas mr))) (mr_MatchedDatas mr)) @
      '' '' @ details pr mr md @ [CHR 0x0A]) (mr_MatchedDatas mr))"
    using assms by (simp add: mr_ErrorLog_def Let_def del: first_set.simps)
  then show ?thesis using l by (simp only:)
qed

theorem ErrorLog_lines_witness:
  "\<exists>s. mr_ErrorLog (\<lambda>_. True) 403 \<lparr>mr_Message = [], mr_Data = [], mr_URI = ''/'', mr_TransactionID = ''t'', mr_Disruptive = False,
      mr_ServerIPAddress = [], mr_ClientIPAddress = ''1.2.3.4'', mr_MatchedDatas = [zero_MatchData\<lparr>md_Message := [CHR ''a'', CHR 0x0A, CHR ''b'']\<rparr>],
      mr_Rule = \<lparr>ID = 1, File = [], Line = 0, Rev = [], Severity = 0, Version = [], Tags = [], Maturity = 0, Accuracy = 0, Operator = [],
        Phase = 2, Raw = [], SecMark = []\<rparr>\<rparr> = Some s \<and> line_count s = 2"
proof -
  let ?mr = "\<lparr>mr_Message = [], mr_Data = [], mr_URI = ''/'', mr_TransactionID = ''t'', mr_Disruptive = False,
      mr_ServerIPAddress = [], mr_ClientIPAddress = ''1.2.3.4'', mr_MatchedDatas = [zero_MatchData\<lparr>md_Message := [CHR ''a'', CHR 0x0A, CHR ''b'']\<rparr>],
      mr_Rule = \<lparr>ID = 1, File = [], Line = 0, Rev = [], Severity = 0, Version = [], Tags = [], Maturity = 0, Accuracy = 0, Operator = [],
        Phase = 2, Raw = [], SecMark = []\<rparr>\<rparr>"
  obtain s where "mr_ErrorLog (\<lambda>_. True) 403 ?mr = Some s" by (simp add: mr_ErrorLog_def)
  with ErrorLog_lines [OF this] show ?thesis by simp
qed

end
