(* ===== verification/Audit_Log.thy ===== *)
theory Audit_Log
  imports Directives Rule_Match Phases
begin

text \<open>
  The audit log: the document of a transaction (\<open>Transaction.AuditLog\<close> of
  src/internal/corazawaf/transaction.go, the types of src/loggers/auditlog.go), the formatters
  (src/loggers/formats.go, formats_json.go) and the writers (serial_writer.go, concurrent_writer.go).

  Time is a parameter: the record \<open>clock\<close> holds the time stamps of the transaction, the time of the call,
  and the formatting of a time in the local zone. \<^verbatim>\<open>encoding/json\<close> and the table of MIME types are
  parameters as well. The debug dump of a transaction (\<open>Transaction.Debug\<close>) is here too.
\<close>

section \<open>The document\<close>

record AuditTransactionRequestFiles =
  af_Name :: string
  af_Size :: int
  af_Mime :: string

record AuditTransactionRequest =
  aq_Method :: string
  aq_Protocol :: string
  aq_URI :: string
  aq_HTTPVersion :: string
  aq_Headers :: "(string \<times> string list) list"
  aq_Body :: string
  aq_Files :: "AuditTransactionRequestFiles list"

record AuditTransactionResponse =
  as_Protocol :: string
  as_Status :: int
  as_Headers :: "(string \<times> string list) list"
  as_Body :: string

record AuditTransactionProducer =
  ap_Connector :: string
  ap_Version :: string
  ap_Server :: string
  ap_RuleEngine :: string
  ap_Stopwatch :: string
  ap_Rulesets :: "string list"

record AuditTransaction =
  at_Timestamp :: string
  at_UnixTimestamp :: int
  at_ID :: string
  at_ClientIP :: string
  at_ClientPort :: int
  at_HostIP :: string
  at_HostPort :: int
  at_ServerID :: string
  at_Request :: AuditTransactionRequest
  at_Response :: AuditTransactionResponse
  at_Producer :: AuditTransactionProducer

record AuditMessageData =
  ad_File :: string
  ad_Line :: int
  ad_ID :: int
  ad_Rev :: string
  ad_Msg :: string
  ad_Data :: string
  ad_Severity :: RuleSeverity
  ad_Ver :: string
  ad_Maturity :: int
  ad_Accuracy :: int
  ad_Tags :: "string list"
  ad_Raw :: string

record AuditMessage =
  am_Actionset :: string
  am_Message :: string
  am_Data :: AuditMessageData

record AuditLog =
  al_Parts :: string
  al_Transaction :: AuditTransaction
  al_Messages :: "AuditMessage list"

text \<open>\<open>ck_stopWatches\<close> holds the phases that have been evaluated with their durations.\<close>

record clock =
  ck_Timestamp :: int
  ck_now :: int
  ck_stopWatches :: "(RulePhase \<times> int) list"
  ck_Format :: "int \<Rightarrow> string \<Rightarrow> string"

definition stop_watch :: "clock \<Rightarrow> RulePhase \<Rightarrow> int" where
  "stop_watch ck p = (case map_of (ck_stopWatches ck) p of None \<Rightarrow> 0 | Some d \<Rightarrow> d)"

definition GetStopWatch :: "clock \<Rightarrow> string" where
  "GetStopWatch ck =
     (let ts = ck_Timestamp ck;
          sum = foldl (\<lambda>s (_, d). wrap64 (s + d)) 0 (ck_stopWatches ck);
          diff = wrap64 (ck_now ck - ts)
      in Itoa ts @ '' '' @ Itoa diff @ ''; combined='' @ Itoa sum @ '', p1='' @ Itoa (stop_watch ck 1) @ '', p2='' @
         Itoa (stop_watch ck 2) @ '', p3='' @ Itoa (stop_watch ck 3) @ '', p4='' @ Itoa (stop_watch ck 4) @
         '', p5='' @ Itoa (stop_watch ck 5))"

text \<open>What the WAF says of its connector, which only embedding code sets.\<close>

record producer =
  ProducerConnector :: string
  ProducerConnectorVersion :: string

text \<open>\<open>filepath.Ext\<close>\<close>

definition Ext :: "string \<Rightarrow> string" where
  "Ext path =
     (let base = rev (takeWhile (\<lambda>c. c \<noteq> CHR ''/'') (rev path)) in
      if CHR ''.'' \<in> set base then CHR ''.'' # rev (takeWhile (\<lambda>c. c \<noteq> CHR ''.'') (rev base)) else [])"

definition audit_file :: "(string \<Rightarrow> string) \<Rightarrow> Transaction \<Rightarrow> string \<Rightarrow> AuditTransactionRequestFiles" where
  "audit_file TypeByExtension tx file =
     \<lparr>af_Name = file,
      af_Size = (case Map_Get (col tx FilesSizes) file of [] \<Rightarrow> 0 | s # _ \<Rightarrow> fst (ParseInt s 10 64)),
      af_Mime = TypeByExtension (Ext file)\<rparr>"

definition audit_message :: "string list \<Rightarrow> MatchedRule \<Rightarrow> MatchData \<Rightarrow> AuditMessage" where
  "audit_message components mr md =
     (let r = mr_Rule mr in
      \<lparr>am_Actionset = Join components '' '', am_Message = md_Message md,
       am_Data = \<lparr>ad_File = File r, ad_Line = Line r, ad_ID = ID r, ad_Rev = Rev r, ad_Msg = md_Message md,
         ad_Data = md_Data md, ad_Severity = Severity r, ad_Ver = Version r, ad_Maturity = Maturity r,
         ad_Accuracy = Accuracy r, ad_Tags = Tags r, ad_Raw = Raw r\<rparr>\<rparr>)"

abbreviation var_Int :: "Transaction \<Rightarrow> RuleVariable \<Rightarrow> int" where
  "var_Int tx v \<equiv> Simple_Int (tv_simple (variables tx) v)"

definition tx_AuditLog :: "clock \<Rightarrow> (string \<Rightarrow> string) \<Rightarrow> producer \<Rightarrow> waf_settings \<Rightarrow> Transaction \<Rightarrow> AuditLog" where
  "tx_AuditLog ck TypeByExtension pd waf tx =
     \<lparr>al_Parts = AuditLogParts tx,
      al_Transaction =
        \<lparr>at_Timestamp = ck_Format ck (ck_Timestamp ck) ''2006/01/02 15:04:05'',
         at_UnixTimestamp = ck_Timestamp ck, at_ID = tx_id tx,
         at_ClientIP = var tx RemoteAddr, at_ClientPort = var_Int tx RemotePort,
         at_HostIP = var tx ServerAddr, at_HostPort = var_Int tx ServerPort, at_ServerID = var tx ServerName,
         at_Request = \<lparr>aq_Method = var tx RequestMethod, aq_Protocol = var tx RequestProtocol, aq_URI = var tx RequestURI,
           aq_HTTPVersion = var tx RequestProtocol, aq_Headers = Map_Data (col tx RequestHeaders),
           aq_Body = var tx RequestBody, aq_Files = map (audit_file TypeByExtension tx) (Map_Get (col tx Files) [])\<rparr>,
         at_Response = \<lparr>as_Protocol = [], as_Status = var_Int tx ResponseStatus,
           as_Headers = Map_Data (col tx ResponseHeaders), as_Body = var tx ResponseBody\<rparr>,
         at_Producer = \<lparr>ap_Connector = ProducerConnector pd, ap_Version = ProducerConnectorVersion pd, ap_Server = [],
           ap_RuleEngine = engine_String (RuleEngine tx), ap_Stopwatch = GetStopWatch ck,
           ap_Rulesets = s_ComponentNames waf\<rparr>\<rparr>,
      al_Messages = concat (map (\<lambda>mr. map (audit_message (s_ComponentNames waf) mr) (mr_MatchedDatas mr)) (matchedRules tx))\<rparr>"

section \<open>Formatters\<close>

subsection \<open>Native\<close>

definition header_lines :: "key_order \<Rightarrow> (string \<times> string list) list \<Rightarrow> string" where
  "header_lines ord hs =
     concat (map (\<lambda>k. concat (map (\<lambda>v. k @ '': '' @ v @ [CHR 0x0A]) (map_get hs k))) (ord (map fst hs)))"

definition native_part :: "key_order \<Rightarrow> AuditLog \<Rightarrow> char \<Rightarrow> string" where
  "native_part ord al c =
     (let t = al_Transaction al; rq = at_Request t; rs = at_Response t in
      if c = CHR ''A'' then
        ''['' @ at_Timestamp t @ ''] '' @ at_ID t @ '' '' @ at_ClientIP t @ '' '' @ Itoa (at_ClientPort t) @ '' '' @
        at_HostIP t @ '' '' @ Itoa (at_HostPort t)
      else if c = CHR ''B'' then
        aq_Method rq @ '' '' @ aq_URI rq @ '' '' @ aq_Protocol rq @ [CHR 0x0A] @ header_lines ord (aq_Headers rq)
      else if c = CHR ''C'' then aq_Body rq
      else if c = CHR ''E'' then as_Body rs
      else if c = CHR ''F'' then header_lines ord (as_Headers rs)
      else if c = CHR ''H'' then
        ''Stopwatch: '' @ [CHR 0x0A] @ ''Response-Body-Transformed: '' @ [CHR 0x0A] @ ''Producer: '' @ [CHR 0x0A] @ ''Server: ''
      else if c = CHR ''K'' then concat (map (\<lambda>m. ad_Raw (am_Data m) @ [CHR 0x0A]) (al_Messages al))
      else [])"

definition native_section :: "string \<Rightarrow> char \<Rightarrow> string \<Rightarrow> string" where
  "native_section boundary c part = ''--'' @ boundary @ ''-'' @ [c] @ ''--'' @ [CHR 0x0A] @ part @ [CHR 0x0A]"

definition native_document :: "key_order \<Rightarrow> string \<Rightarrow> AuditLog \<Rightarrow> string" where
  "native_document ord boundary al = concat (map (\<lambda>c. native_section boundary c (native_part ord al c)) ''ABCEFHKZ'')"

subsection \<open>JSON\<close>

record auditLogLegacyTransaction =
  lt_Time :: string
  lt_TransactionID :: string
  lt_RemoteAddress :: string
  lt_RemotePort :: int
  lt_LocalAddress :: string
  lt_LocalPort :: int

record auditLogLegacyRequest =
  lq_RequestLine :: string
  lq_Headers :: "(string \<times> string) list"

record auditLogLegacyResponse =
  lr_Status :: int
  lr_Protocol :: string
  lr_Headers :: "(string \<times> string) list"

text \<open>The fields that \<open>legacyJSONFormatter\<close> leaves at their zero value are left out.\<close>

record auditLogLegacyData =
  ld_Messages :: "string list"
  ld_Producer :: "string list"
  ld_EngineMode :: string

record auditLogLegacy =
  ll_Transaction :: auditLogLegacyTransaction
  ll_Request :: auditLogLegacyRequest
  ll_Response :: auditLogLegacyResponse
  ll_AuditData :: auditLogLegacyData

definition joined_headers :: "(string \<times> string list) list \<Rightarrow> (string \<times> string) list" where
  "joined_headers hs = map (\<lambda>(k, v). (k, Join v '', '')) hs"

definition legacy_document :: "AuditLog \<Rightarrow> auditLogLegacy" where
  "legacy_document al =
     (let t = al_Transaction al; rq = at_Request t; rs = at_Response t; pd = at_Producer t in
      \<lparr>ll_Transaction = \<lparr>lt_Time = at_Timestamp t, lt_TransactionID = at_ID t, lt_RemoteAddress = at_ClientIP t,
         lt_RemotePort = at_ClientPort t, lt_LocalAddress = at_HostIP t, lt_LocalPort = at_HostPort t\<rparr>,
       ll_Request = \<lparr>lq_RequestLine = aq_Method rq @ '' '' @ aq_URI rq @ '' '' @ aq_HTTPVersion rq,
         lq_Headers = joined_headers (aq_Headers rq)\<rparr>,
       ll_Response = \<lparr>lr_Status = as_Status rs, lr_Protocol = as_Protocol rs, lr_Headers = joined_headers (as_Headers rs)\<rparr>,
       ll_AuditData = \<lparr>ld_Messages = map am_Message (al_Messages al),
         ld_Producer = (if ap_Connector pd \<noteq> [] then [ap_Connector pd] else []) @ ap_Rulesets pd,
         ld_EngineMode = ap_RuleEngine pd\<rparr>\<rparr>)"

text \<open>\<open>json.Marshal\<close> of the two documents; the field \<open>Parts\<close> is tagged \<^verbatim>\<open>json:"-"\<close>.\<close>

record json_lib =
  marshal_audit :: "AuditTransaction \<times> AuditMessage list \<Rightarrow> string + string"
  marshal_legacy :: "auditLogLegacy \<Rightarrow> string + string"

record format_env =
  fe_ord :: key_order
  fe_json :: json_lib
  fe_draws :: "nat list"

text \<open>The document or an error; \<^const>\<open>None\<close> when the random source is used up.\<close>

fun format_log :: "format_env \<Rightarrow> LogFormatter \<Rightarrow> AuditLog \<Rightarrow> (string + string) option" where
  "format_log fe jsonFormatter al = Some (marshal_audit (fe_json fe) (al_Transaction al, al_Messages al))"
| "format_log fe legacyJSONFormatter al = Some (marshal_legacy (fe_json fe) (legacy_document al))"
| "format_log fe nativeFormatter al =
     map_option (\<lambda>(boundary, _). Inr (native_document (fe_ord fe) boundary al)) (RandomString 10 (fe_draws fe))"

section \<open>Writers\<close>

type_synonym audit_files = "string \<rightharpoonup> string"

text \<open>\<open>log.Println\<close> to a file opened for appending, or to \<open>io.Discard\<close>.\<close>

definition println_to :: "string option \<Rightarrow> string \<Rightarrow> audit_files \<Rightarrow> audit_files" where
  "println_to file line fs =
     (case file of
        None \<Rightarrow> fs
      | Some f \<Rightarrow> fs(f \<mapsto> (case fs f of None \<Rightarrow> [] | Some old \<Rightarrow> old) @ line @ [CHR 0x0A]))"

text \<open>The error and the files. A formatter that is nil panics.\<close>

definition serial_Write :: "format_env \<Rightarrow> serialWriter \<Rightarrow> AuditLog \<Rightarrow> audit_files \<Rightarrow> (string option \<times> audit_files) go" where
  "serial_Write fe sl al fs =
     do { f \<leftarrow> sw_formatter sl;
          res \<leftarrow> format_log fe f al;
          Some (case res of Inl err \<Rightarrow> (Some err, fs) | Inr bts \<Rightarrow> (None, println_to (sw_file sl) bts fs)) }"

record write_env =
  we_format :: format_env
  we_clock :: clock
  we_printable :: printable
  we_MkdirAll :: "string \<Rightarrow> int \<Rightarrow> string option"
  we_WriteFile :: "string \<Rightarrow> int \<Rightarrow> string option"

definition log_path :: "clock \<Rightarrow> concurrentWriter \<Rightarrow> AuditLog \<Rightarrow> string \<times> string" where
  "log_path ck cl al =
     (let t = at_UnixTimestamp (al_Transaction al);
          p2 = ''/'' @ ck_Format ck t ''20060102'' @ ''/'' @ ck_Format ck t ''20060102-1504'' @ ''/'';
          logdir = path_Join (cw_auditDir cl) p2;
          fname = ''/'' @ ck_Format ck t ''20060102-150405'' @ ''-'' @ at_ID (al_Transaction al)
      in (logdir, path_Join logdir fname))"

definition index_line :: "printable \<Rightarrow> AuditLog \<Rightarrow> string \<Rightarrow> string" where
  "index_line pr al filepath =
     (let t = al_Transaction al; rq = at_Request t; q = Quote pr in
      at_ClientIP t @ '' '' @ at_HostIP t @ '' - - ['' @ at_Timestamp t @ ''] '' @
      q (aq_Method rq @ '' '' @ aq_URI rq @ '' '' @ aq_HTTPVersion rq) @ '' '' @ Itoa (as_Status (at_Response t)) @ '' 0 '' @
      q ''-'' @ '' '' @ q ''-'' @ '' '' @ at_ID t @ '' '' @ q ''-'' @ '' '' @ filepath @ '' 0 0'')"

definition concurrent_Write :: "write_env \<Rightarrow> concurrentWriter \<Rightarrow> AuditLog \<Rightarrow> audit_files \<Rightarrow> (string option \<times> audit_files) go" where
  "concurrent_Write we cl al fs =
     (let (logdir, filepath) = log_path (we_clock we) cl al in
      if we_MkdirAll we logdir (cw_auditDirMode cl) \<noteq> None then Some (we_MkdirAll we logdir (cw_auditDirMode cl), fs)
      else
        do { f \<leftarrow> cw_formatter cl;
             res \<leftarrow> format_log (we_format we) f al;
             Some (case res of
                     Inl err \<Rightarrow> (Some err, fs)
                   | Inr jsdata \<Rightarrow>
                       (case we_WriteFile we filepath (cw_auditFileMode cl) of
                          Some err \<Rightarrow> (Some err, fs)
                        | None \<Rightarrow> (None, println_to (cw_file cl) (index_line (we_printable we) al filepath) (fs(filepath \<mapsto> jsdata))))) })"

fun writer_Write :: "write_env \<Rightarrow> LogWriter \<Rightarrow> AuditLog \<Rightarrow> audit_files \<Rightarrow> (string option \<times> audit_files) go" where
  "writer_Write we Noop al fs = Some (None, fs)"
| "writer_Write we (Serial sl) al fs = serial_Write (we_format we) sl al fs"
| "writer_Write we (Concurrent cl) al fs = concurrent_Write we cl al fs"

section \<open>The debug dump\<close>

text \<open>\<^verbatim>\<open>%+v\<close> of a pointer to a \<open>MatchData\<close>; a variable is a byte with no \<^verbatim>\<open>String\<close> method.\<close>

definition print_MatchData :: "MatchData \<Rightarrow> string" where
  "print_MatchData md =
     ''&{VariableName_:'' @ md_VariableName md @ '' Variable_:'' @ Itoa (int (md_Variable md)) @ '' Key_:'' @ md_Key md @
     '' Value_:'' @ md_Value md @ '' Message_:'' @ md_Message md @ '' Data_:'' @ md_Data md @ ''}''"

text \<open>The switch over the type of a collection has no case for \<open>SizeProxy\<close>, nor for a variable without a collection.\<close>

fun debug_data :: "key_order \<Rightarrow> Collection option \<Rightarrow> (string \<times> string list) list" where
  "debug_data ord (Some (CSimple c)) = [([], [s_data c])]"
| "debug_data ord (Some (CMap c)) = Map_Data c"
| "debug_data ord (Some (CProxy c)) = Proxy_Data c"
| "debug_data ord (Some (CTranslationProxy c)) = [([], TranslationProxy_Data ord c)]"
| "debug_data ord (Some (CSizeProxy c)) = []"
| "debug_data ord None = []"

definition debug_variable :: "key_order \<Rightarrow> Transaction \<Rightarrow> RuleVariable \<Rightarrow> string" where
  "debug_variable ord tx vr =
     (if variable_Name vr = ''UNKNOWN'' then []
      else
        let data = debug_data ord (tx_Collection (variables tx) vr) in
        variable_Name vr @ (if length data = 1 then '': '' else '':'' @ [CHR 0x0A]) @
        concat (map (\<lambda>k. (if k \<noteq> [] then ''    '' @ k @ '': '' else []) @ Join (map_get data k) '','' @ [CHR 0x0A]) (ord (map fst data))))"

fun debug_matches :: "printable \<Rightarrow> int \<Rightarrow> MatchedRule list \<Rightarrow> string go" where
  "debug_matches pr status [] = Some []"
| "debug_matches pr status (mr # mrs) =
     do { e \<leftarrow> mr_ErrorLog pr status mr;
          rest \<leftarrow> debug_matches pr status mrs;
          Some (e @ [CHR 0x0A, CHR 0x0A] @ ''----------------------- MATCHDATA ---------------------'' @ [CHR 0x0A] @
            concat (map (\<lambda>md. print_MatchData md @ [CHR 0x0A]) (mr_MatchedDatas mr)) @ [CHR 0x0A] @ rest) }"

definition tx_Debug :: "printable \<Rightarrow> key_order \<Rightarrow> Transaction \<Rightarrow> string go" where
  "tx_Debug pr ord tx =
     do { ms \<leftarrow> debug_matches pr (var_Int tx ResponseStatus) (matchedRules tx);
          Some ([CHR 0x0A, CHR 0x0A] @ ''----------------------- ERRORLOG ----------------------'' @ [CHR 0x0A] @ ms @
            [CHR 0x0A] @ ''------------------------ DEBUG ------------------------'' @ [CHR 0x0A] @
            concat (map (debug_variable ord tx) [1..<92])) }"

lemma debug_matches_returns:
  "(\<exists>s. debug_matches pr status mrs = Some s) \<longleftrightarrow> (\<forall>mr\<in>set mrs. mr_MatchedDatas mr \<noteq> [])"
  by (induction mrs) (auto simp: mr_ErrorLog_def Let_def split: list.split)

text \<open>The dump of a transaction panics exactly when one of its matches has no match data.\<close>

theorem Debug_returns:
  "(\<exists>s. tx_Debug pr ord tx = Some s) \<longleftrightarrow> (\<forall>mr\<in>set (matchedRules tx). mr_MatchedDatas mr \<noteq> [])"
  unfolding tx_Debug_def debug_matches_returns [of pr "var_Int tx ResponseStatus", symmetric] by auto

text \<open>The dump never shows the value of \<open>ARGS_COMBINED_SIZE\<close>.\<close>

theorem Debug_size_missing:
  assumes "range_order ord"
  shows "debug_variable ord tx ArgsCombinedSize = ''ARGS_COMBINED_SIZE:'' @ [CHR 0x0A]"
proof -
  have "variable_Name ArgsCombinedSize = ''ARGS_COMBINED_SIZE''" "tx_Collection (variables tx) ArgsCombinedSize = Some (CSizeProxy (argsCombinedSize (variables tx)))"
    by (simp_all add: variable_Name_def rulemap_def tx_Collection_def simple_variables_def map_variables_def)
  moreover have "ord [] = []" using range_order_set [OF assms, of "[]"] by simp
  ultimately show ?thesis by (simp add: debug_variable_def)
qed

section \<open>Reading the native format\<close>

definition marker :: "string \<Rightarrow> string" where
  "marker boundary = CHR 0x0A # ''--'' @ boundary @ ''-''"

text \<open>The sections of a document, each up to the next line that starts with the boundary.\<close>

function read_sections :: "string \<Rightarrow> string \<Rightarrow> (char \<times> string) list" where
  "read_sections b s =
     (let head = ''--'' @ b @ ''-'' in
      if \<not> HasPrefix s head \<or> length s < length head + 4 then []
      else
        let c = s ! length head; rest = drop (length head + 4) s in
        (case Index rest (marker b) of
           None \<Rightarrow> [(c, butlast rest)]
         | Some i \<Rightarrow> (c, take i rest) # read_sections b (drop (i + 1) rest)))"
  by pat_completeness auto
termination
  by (relation "measure (\<lambda>(_, s). length s)") auto

declare read_sections.simps [simp del]

lemma Index_marker:
  assumes "\<not> Contains c m" "m = CHR 0x0A # m1" "CHR 0x0A \<notin> set m1"
  shows "Index (c @ m @ rest) m = Some (length c)"
  using assms(1)
proof (induction c)
  case Nil
  then show ?case using assms(2) by (simp add: HasPrefix_def)
next
  case (Cons x c)
  have c: "\<not> Contains c m" using Cons.prems by (auto simp: Contains_def split: if_split_asm)
  have "\<not> HasPrefix ((x # c) @ m @ rest) m"
  proof
    assume p: "HasPrefix ((x # c) @ m @ rest) m"
    show False
    proof (cases "length m \<le> length (x # c)")
      case True
      then have "take (length m) ((x # c) @ m @ rest) = take (length m) (x # c)" by (simp only: take_append) simp
      with p have "HasPrefix (x # c) m" by (simp add: HasPrefix_def)
      with Cons.prems show False by (simp add: Contains_def)
    next
      case False
      have "m ! length (x # c) = ((x # c) @ m @ rest) ! length (x # c)"
        using p False by (metis HasPrefix_def not_le nth_take)
      also have "\<dots> = CHR 0x0A" using assms(2) by (simp add: nth_append)
      finally have "m1 ! length c = CHR 0x0A" using assms(2) by simp
      moreover have "length c < length m1" using False assms(2) by simp
      ultimately show False using assms(3) by (metis nth_mem)
    qed
  qed
  with Cons.IH [OF c] show ?case by simp
qed

lemma marker_end:
  assumes "\<not> Contains p (marker b)"
  shows "Index (p @ [CHR 0x0A]) (marker b) = None"
proof (rule ccontr)
  assume "Index (p @ [CHR 0x0A]) (marker b) \<noteq> None"
  then have "Contains (p @ [CHR 0x0A]) (marker b)" by (simp add: Contains_def)
  then obtain ps ss where s: "p @ [CHR 0x0A] = ps @ marker b @ ss" by (auto simp: Contains_iff)
  show False
  proof (cases ss rule: rev_cases)
    case Nil
    then have "last (p @ [CHR 0x0A]) = last (marker b)" using s by (simp add: marker_def)
    then show False by (simp add: marker_def)
  next
    case (snoc qs x)
    then have "p = ps @ marker b @ qs" using s by simp
    with assms show False by (auto simp: Contains_iff)
  qed
qed

lemma read_section:
  "read_sections b (native_section b c p @ tail) =
     (case Index (p @ CHR 0x0A # tail) (marker b) of
        None \<Rightarrow> [(c, butlast (p @ CHR 0x0A # tail))]
      | Some i \<Rightarrow> (c, take i (p @ CHR 0x0A # tail)) # read_sections b (drop (i + 1) (p @ CHR 0x0A # tail)))"
proof -
  define head where "head = ''--'' @ b @ ''-''"
  have s: "native_section b c p @ tail = head @ c # CHR ''-'' # CHR ''-'' # CHR 0x0A # p @ CHR 0x0A # tail"
    by (simp add: native_section_def head_def)
  have d: "drop (length head + 4) (head @ c # CHR ''-'' # CHR ''-'' # CHR 0x0A # p @ CHR 0x0A # tail) = p @ CHR 0x0A # tail"
    and n: "(head @ c # CHR ''-'' # CHR ''-'' # CHR 0x0A # p @ CHR 0x0A # tail) ! length head = c" by simp_all
  show ?thesis
    unfolding s read_sections.simps [of b "head @ _"] Let_def head_def [symmetric] d n by (simp add: HasPrefix_def)
qed

lemma read_section_last:
  assumes "\<not> Contains p (marker b)"
  shows "read_sections b (native_section b c p) = [(c, p)]"
  using read_section [of b c p "[]"] marker_end [OF assms] by simp

lemma read_section_next:
  assumes "\<not> Contains p (marker b)" "CHR 0x0A \<notin> set b"
  shows "read_sections b (native_section b c p @ native_section b d q @ rest) = (c, p) # read_sections b (native_section b d q @ rest)"
proof -
  let ?tail = "native_section b d q @ rest"
  have "p @ CHR 0x0A # ?tail = p @ marker b @ (d # CHR ''-'' # CHR ''-'' # CHR 0x0A # q @ CHR 0x0A # rest)"
    by (simp add: marker_def native_section_def)
  then have "Index (p @ CHR 0x0A # ?tail) (marker b) = Some (length p)"
    using Index_marker [OF assms(1), of "''--'' @ b @ ''-''"] assms(2) by (simp add: marker_def)
  then show ?thesis using read_section [of b c p ?tail] by simp
qed

lemma read_sections_document:
  assumes "\<forall>(c, p)\<in>set ps. \<not> Contains p (marker b)" "CHR 0x0A \<notin> set b" "ps \<noteq> []"
  shows "read_sections b (concat (map (\<lambda>(c, p). native_section b c p) ps)) = ps"
  using assms(1,3)
proof (induction ps)
  case (Cons x ps)
  obtain c p where x: "x = (c, p)" by fastforce
  show ?case
  proof (cases ps)
    case Nil
    with Cons.prems x read_section_last show ?thesis by simp
  next
    case (Cons y qs)
    obtain d q where y: "y = (d, q)" by fastforce
    have "\<not> Contains p (marker b)" using Cons.prems x by simp
    from read_section_next [OF this assms(2)] Cons.IH Cons.prems x y Cons show ?thesis by simp
  qed
qed simp

text \<open>
  C31. The native audit log can be read back: unless a part contains a line that starts with the random boundary of
  its document, splitting the document at the lines of its boundary gives the eight parts as they were written.
\<close>

theorem native_sections:
  assumes "RandomString 10 (fe_draws fe) = Some (b, ds)"
    and "\<forall>c\<in>set ''ABCEFHKZ''. \<not> Contains (native_part (fe_ord fe) al c) (marker b)"
  shows "\<exists>doc. format_log fe nativeFormatter al = Some (Inr doc) \<and>
    read_sections b doc = map (\<lambda>c. (c, native_part (fe_ord fe) al c)) ''ABCEFHKZ''"
proof -
  have "CHR 0x0A \<notin> set letterBytes" by code_simp
  with RandomString_letters [OF assms(1)] have b: "CHR 0x0A \<notin> set b" by blast
  have "native_document (fe_ord fe) b al = concat (map (\<lambda>(c, p). native_section b c p) (map (\<lambda>c. (c, native_part (fe_ord fe) al c)) ''ABCEFHKZ''))"
    by (simp add: native_document_def)
  moreover have "read_sections b \<dots> = map (\<lambda>c. (c, native_part (fe_ord fe) al c)) ''ABCEFHKZ''"
    by (rule read_sections_document [OF _ b]) (use assms(2) in auto)
  ultimately show ?thesis using assms(1) by simp
qed

text \<open>
  C40. The parts of the audit log that a configuration asks for, with \<open>SecAuditLogParts\<close>, \<open>ctl:auditLogParts\<close> or
  \<open>WithParts\<close>, change nothing of what any writer writes in any format.
\<close>

theorem audit_parts_ignored:
  "writer_Write we w (tx_AuditLog ck types pd waf (tx\<lparr>AuditLogParts := parts\<rparr>)) fs =
   writer_Write we w (tx_AuditLog ck types pd waf tx) fs"
proof -
  let ?al = "tx_AuditLog ck types pd waf tx"
  have al: "tx_AuditLog ck types pd waf (tx\<lparr>AuditLogParts := parts\<rparr>) = ?al\<lparr>al_Parts := parts\<rparr>"
    by (simp add: tx_AuditLog_def audit_file_def)
  have "native_part ord (?al\<lparr>al_Parts := parts\<rparr>) = native_part ord ?al" for ord by (simp add: fun_eq_iff native_part_def)
  then have f: "format_log fe f (?al\<lparr>al_Parts := parts\<rparr>) = format_log fe f ?al" for fe f
    by (cases f) (simp_all add: legacy_document_def native_document_def)
  have l: "log_path c cl (?al\<lparr>al_Parts := parts\<rparr>) = log_path c cl ?al" "index_line pr (?al\<lparr>al_Parts := parts\<rparr>) = index_line pr ?al" for c cl pr
    by (simp_all add: log_path_def fun_eq_iff index_line_def)
  show ?thesis unfolding al by (cases w) (simp_all only: writer_Write.simps serial_Write_def concurrent_Write_def f l)
qed

text \<open>
  The audit log document has one message for every value that a rule matched, with the identifier, the
  message and the text of its rule, in the order of the matches; nothing else.
\<close>

theorem AuditLog_messages:
  "map (\<lambda>m. (ad_ID (am_Data m), am_Message m, ad_Data (am_Data m), ad_Raw (am_Data m))) (al_Messages (tx_AuditLog ck types pd waf tx)) =
   concat (map (\<lambda>mr. map (\<lambda>md. (ID (mr_Rule mr), md_Message md, md_Data md, Raw (mr_Rule mr))) (mr_MatchedDatas mr)) (matchedRules tx))"
  by (simp add: tx_AuditLog_def map_concat audit_message_def Let_def comp_def)

text \<open>
  The identifier of a transaction, which a connector may take from the request, is part of the path of its log file, and
  \<open>path.Join\<close> resolves the dots in it: the file can be anywhere.
\<close>

theorem log_path_escapes:
  "snd (log_path (ck\<lparr>ck_Format := (\<lambda>_ _. ''2024'')\<rparr>) (new_concurrentWriter\<lparr>cw_auditDir := ''/var/audit''\<rparr>)
     (tx_AuditLog (ck\<lparr>ck_Format := (\<lambda>_ _. ''2024'')\<rparr>) types pd waf (tx\<lparr>tx_id := ''x/../../../../../etc/passwd''\<rparr>))) = ''/etc/passwd''"
proof -
  have "path_Join ''/var/audit'' ''/2024/2024/'' = ''/var/audit/2024/2024''"
    "path_Join ''/var/audit/2024/2024'' ''/2024-x/../../../../../etc/passwd'' = ''/etc/passwd''" by code_simp+
  then show ?thesis by (simp add: log_path_def tx_AuditLog_def Let_def new_concurrentWriter_def)
qed

section \<open>Witnesses\<close>

definition demo_audit :: AuditLog where
  "demo_audit = \<lparr>al_Parts = ''ABZ'',
     al_Transaction = \<lparr>at_Timestamp = ''2024/01/02 03:04:05'', at_UnixTimestamp = 5, at_ID = ''id'', at_ClientIP = ''1.2.3.4'',
       at_ClientPort = 80, at_HostIP = [], at_HostPort = 0, at_ServerID = [],
       at_Request = \<lparr>aq_Method = ''GET'', aq_Protocol = ''HTTP/1.1'', aq_URI = ''/'', aq_HTTPVersion = ''HTTP/1.1'',
         aq_Headers = [(''host'', [''a'', ''b''])], aq_Body = ''x=1'', aq_Files = []\<rparr>,
       at_Response = \<lparr>as_Protocol = [], as_Status = 200, as_Headers = [], as_Body = ''ok''\<rparr>,
       at_Producer = \<lparr>ap_Connector = [], ap_Version = [], ap_Server = [], ap_RuleEngine = ''On'', ap_Stopwatch = [], ap_Rulesets = []\<rparr>\<rparr>,
     al_Messages = []\<rparr>"

definition demo_format :: format_env where
  "demo_format = \<lparr>fe_ord = (\<lambda>ks. ks), fe_json = \<lparr>marshal_audit = (\<lambda>_. Inr []), marshal_legacy = (\<lambda>_. Inr [])\<rparr>, fe_draws = [0, 0]\<rparr>"

theorem native_sections_witness:
  "\<exists>doc. format_log demo_format nativeFormatter demo_audit = Some (Inr doc) \<and>
     map_of (read_sections ''aaaaaaaaaa'' doc) (CHR ''C'') = Some ''x=1''"
proof -
  have r: "RandomString 10 (fe_draws demo_format) = Some (''aaaaaaaaaa'', [0])" by code_simp
  have "list_all (\<lambda>c. \<not> Contains (native_part (fe_ord demo_format) demo_audit c) (marker ''aaaaaaaaaa'')) ''ABCEFHKZ''" by code_simp
  then have "\<forall>c\<in>set ''ABCEFHKZ''. \<not> Contains (native_part (fe_ord demo_format) demo_audit c) (marker ''aaaaaaaaaa'')"
    by (simp only: list_all_iff)
  from native_sections [OF r this] obtain doc where d: "format_log demo_format nativeFormatter demo_audit = Some (Inr doc)"
    "read_sections ''aaaaaaaaaa'' doc = map (\<lambda>c. (c, native_part (fe_ord demo_format) demo_audit c)) ''ABCEFHKZ''" by blast
  have "native_part (fe_ord demo_format) demo_audit (CHR ''C'') = ''x=1''" by (simp add: native_part_def demo_audit_def)
  with d(2) have "map_of (read_sections ''aaaaaaaaaa'' doc) (CHR ''C'') = Some ''x=1''" by simp
  with d(1) show ?thesis by blast
qed

end
