(* ===== verification/Match_Log.thy ===== *)
theory Match_Log
  imports Api Audit_Log
begin

text \<open>
  The log lines of matched rules across whole transactions: \<open>MatchedRule.ErrorLog\<close> reads the first match data of
  its rule without a test, and is called by the callback of the error log and by \<open>Transaction.Debug\<close>.
\<close>

section \<open>Recorded matches have match data\<close>

definition filled :: "Transaction \<Rightarrow> bool" where
  "filled t \<longleftrightarrow> (\<forall>mr\<in>set (matchedRules t) \<union> set (ErrorLog t). mr_MatchedDatas mr \<noteq> [])"

definition keeps_filled :: "Transaction \<Rightarrow> Transaction \<Rightarrow> bool" where
  "keeps_filled t t' \<longleftrightarrow> (filled t \<longrightarrow> filled t')"

lemma keeps_filled_trans: "keeps_filled t1 t2 \<Longrightarrow> keeps_filled t2 t3 \<Longrightarrow> keeps_filled t1 t3"
  by (simp add: keeps_filled_def)

lemma keeps_filled_same: "matchedRules t' = matchedRules t \<Longrightarrow> ErrorLog t' = ErrorLog t \<Longrightarrow> keeps_filled t t'"
  by (simp add: keeps_filled_def filled_def)

lemma keeps_filled_vars: "only_vars t t' \<Longrightarrow> keeps_filled t t'"
  by (erule only_vars_cases) (simp add: keeps_filled_same)

lemma keeps_filled_action:
  assumes "action_Evaluate rt waf r a t = Some t'"
  shows "keeps_filled t t'"
proof (cases "action_Type a = ActionTypeNondisruptive")
  case True
  from no_verdict_action [OF this assms] show ?thesis by (simp add: no_verdict_def keeps_filled_same)
next
  case False
  with assms show ?thesis by (cases a) (auto simp: disrupt_def Interrupt_def intro!: keeps_filled_same)
qed

interpretation filling: step_relation keeps_filled "\<lambda>_. True" rt waf for rt waf
proof unfold_locales
  show "keeps_filled t (t\<lparr>audit := b, matchedRules := matchedRules t @ [mr], ErrorLog := ErrorLog t @ es\<rparr>)"
    if "mr_MatchedDatas mr \<noteq> []" "set es \<subseteq> {mr}" for t b mr es
    using that by (auto simp: keeps_filled_def filled_def)
qed (erule (1) keeps_filled_trans | erule keeps_filled_vars | erule keeps_filled_action | rule keeps_filled_same, simp, simp)+

lemma keeps_filled_Eval:
  assumes "Eval rt waf p t = Some (b, t')"
  shows "keeps_filled t t'"
proof (rule keeps_filled_trans)
  show "keeps_filled t (start_phase p t)" by (rule keeps_filled_same) (simp_all add: start_phase_def)
  show "keeps_filled (start_phase p t) t'"
    using Eval_unfold(1) [OF assms]
  proof (rule eval_rules_rel)
    fix rc t t'
    assume "rule_step rt waf p rc t = Some t'"
    then show "keeps_filled t t'"
    proof (rule rule_step_rel)
      show "keeps_filled t (reset_matched t)" for t by (rule keeps_filled_vars) (auto intro: inv_intros)
      show "doEvaluate rt waf (fst rc) (snd rc) t = Some (mvs, t') \<Longrightarrow> keeps_filled t t'" for t mvs t'
        by (erule filling.R_doEvaluate) simp
    qed (erule (1) keeps_filled_trans | simp add: keeps_filled_same)+
  qed (erule (1) keeps_filled_trans | simp add: keeps_filled_same)+
qed

interpretation filling_calls: call_relation keeps_filled e for e
proof unfold_locales
  show "keeps_filled t1 t2" if "limit_hit (e_waf e) t1 t2" for t1 t2
    using that
    by (auto simp: limit_hit_def setAndReturnBodyLimitInterruption_def Let_def set_var_def intro!: keeps_filled_same)
qed (erule (1) keeps_filled_trans | erule keeps_filled_vars | erule keeps_filled_Eval | rule keeps_filled_same, simp, simp)+

lemma filled_new: "filled (newTransactionWithID w cleared i pooled)"
proof -
  have "filled (set_defaults t)" if "matchedRules t = []" "ErrorLog t = []" for t
    using keeps_filled_vars [OF only_vars_set_defaults [of t]] that by (simp add: keeps_filled_def filled_def)
  then show ?thesis by (cases pooled) (simp_all add: newTransactionWithID_def)
qed

lemma reachable_filled: "reachable e t \<Longrightarrow> filled t"
proof (induction rule: reachable.induct)
  case (call t c t')
  with filling_calls.call_R [OF call(2)] show ?case by (simp add: keeps_filled_def)
next
  case (shared t ps)
  then show ?case by (simp add: filled_def)
qed (simp_all add: filled_new)

lemma ErrorLog_returns: "(\<exists>s. mr_ErrorLog pr code mr = Some s) \<longleftrightarrow> mr_MatchedDatas mr \<noteq> []"
  by (auto simp: mr_ErrorLog_def Let_def split: list.split)

text \<open>
  C29. The error log line of a match never panics: after any sequence of calls, on fresh and on recycled
  transactions, every match that was recorded or handed to the callback of the error log has match data, so
  \<open>ErrorLog\<close> returns a text for it, and so does the debug dump of the transaction.
\<close>

theorem logs_never_panic:
  assumes "reachable e t"
  shows "(\<forall>mr\<in>set (matchedRules t) \<union> set (ErrorLog t). \<exists>s. mr_ErrorLog pr code mr = Some s) \<and> (\<exists>s. tx_Debug pr ord t = Some s)"
  using reachable_filled [OF assms] unfolding ErrorLog_returns Debug_returns filled_def by blast

section \<open>Witness\<close>

text \<open>A WAF whose only rule denies every request in the request body phase.\<close>

definition deny_env :: env where
  "deny_env = (demo_env RequestBodyLimitActionReject)\<lparr>e_waf := deny_waf\<rparr>"

abbreviation deny_tx :: Transaction where
  "deny_tx \<equiv> newTransactionWithID deny_waf [] ''id'' None"

lemma deny_tx_fields:
  "ruleRemoveTargetByID deny_tx = (\<lambda>_. [])" "ruleRemoveByID deny_tx = []" "SkipAfter deny_tx = []" "Skip deny_tx = 0"
  "interruption deny_tx = None" "RuleEngine deny_tx = RuleEngineOn" "LastPhase deny_tx = 0" "RequestBodyAccess deny_tx"
  "bb_length (requestBodyBuffer deny_tx) = 0"
proof -
  have "\<forall>t. \<exists>v. set_defaults t = t\<lparr>variables := v\<rparr>"
    using only_vars_set_defaults unfolding only_vars_def by blast
  then obtain f where "\<forall>t. set_defaults t = t\<lparr>variables := f t\<rparr>" by (rule choice [THEN exE])
  then show "ruleRemoveTargetByID deny_tx = (\<lambda>_. [])" "ruleRemoveByID deny_tx = []" "SkipAfter deny_tx = []" "Skip deny_tx = 0"
    "interruption deny_tx = None" "RuleEngine deny_tx = RuleEngineOn" "LastPhase deny_tx = 0" "RequestBodyAccess deny_tx"
    "bb_length (requestBodyBuffer deny_tx) = 0"
    by (simp_all add: newTransactionWithID_def deny_waf_def waf0_def NewBodyBuffer_def)
qed

lemma deny_call:
  obtains t where "call deny_env ProcessRequestBodyCall deny_tx = Some t" "matchedRules t \<noteq> []"
proof -
  let ?r = "uri_rule op_unconditionalMatch" and ?t = "start_phase 2 deny_tx"
  obtain mvs u where d: "doEvaluate rt0 deny_waf ?r [] (reset_matched ?t) = Some (mvs, u)" "mvs \<noteq> []"
    "eval_rules rt0 deny_waf 2 [(?r, [])] ?t = Some (u\<lparr>Capture := False\<rparr>)"
    by (rule eval_rules_deny [of ?t deny_waf]) (simp_all add: start_phase_def deny_tx_fields)
  then have "Eval rt0 deny_waf 2 deny_tx = Some (interruption u \<noteq> None, u\<lparr>Capture := False\<rparr>)"
    by (simp add: Eval_def deny_waf_def)
  then have "call deny_env ProcessRequestBodyCall deny_tx = Some (u\<lparr>Capture := False\<rparr>)"
    by (simp add: deny_env_def demo_env_def ProcessRequestBody_def run_phase_def deny_tx_fields Let_def)
  moreover have "RuleEngine (reset_matched ?t) = RuleEngineOn"
    using deny_tx_fields(6) by (simp add: reset_matched_def start_phase_def upd_col_def)
  then have "matchedRules u \<noteq> []"
    using doEvaluate_outcome [OF d(1,2) chain_ok_uri_rule] by (auto simp: uri_rule_actions keeps_engine_def)
  ultimately show ?thesis using that by simp
qed

theorem logs_never_panic_witness:
  "\<exists>t. call deny_env ProcessRequestBodyCall deny_tx = Some t \<and> matchedRules t \<noteq> [] \<and> (\<exists>s. tx_Debug (\<lambda>_. True) (\<lambda>ks. ks) t = Some s)"
proof -
  obtain t where t: "call deny_env ProcessRequestBodyCall deny_tx = Some t" "matchedRules t \<noteq> []" by (rule deny_call)
  have "reachable deny_env (newTransactionWithID (e_waf deny_env) [] ''id'' None)" by (rule reachable.fresh)
  then have "reachable deny_env deny_tx" by (simp add: deny_env_def)
  with t(1) have "reachable deny_env t" by (rule reachable.call [rotated])
  from logs_never_panic [OF this] t show ?thesis by blast
qed

end
