(* ===== verification/Cache_Blind.thy ===== *)
theory Cache_Blind
  imports Api
begin

text \<open>
  The transformation cache of a transaction and its calls: a phase empties the cache before it reads it, and
  nothing else reads it, so that a call does the same whatever an earlier request left in the cache.
\<close>

section \<open>Operations on the variables\<close>

abbreviation with_cache :: "cache \<Rightarrow> Transaction \<Rightarrow> Transaction" where
  "with_cache c t \<equiv> t\<lparr>transformationCache := c\<rparr>"

lemma with_cache_vars [simp]: "var (with_cache c t) v = var t v" "col (with_cache c t) v = col t v"
  by simp_all

lemmas blind = cache_commute fold_cache_commute

lemma ProcessConnection_blind: "ProcessConnection a p s q (with_cache c t) = with_cache c (ProcessConnection a p s q t)"
  by (simp add: ProcessConnection_def Let_def blind)

lemma AddArgument_blind: "AddArgument ty k v (with_cache c t) = with_cache c (AddArgument ty k v t)"
  by (simp add: AddArgument_def Let_def blind split: ArgumentType.split)

lemma ExtractArguments_blind: "ExtractArguments ord ty s (with_cache c t) = with_cache c (ExtractArguments ord ty s t)"
  by (simp add: ExtractArguments_def Let_def fold_cache_commute AddArgument_blind)

lemma ProcessURI_blind: "ProcessURI url_Parse ord u m v (with_cache c t) = with_cache c (ProcessURI url_Parse ord u m v t)"
  by (simp add: ProcessURI_def Let_def blind ExtractArguments_blind case_prod_beta split: sum.split)

lemma add_cookie_blind: "add_cookie k vr (with_cache c t) = with_cache c (add_cookie k vr t)"
  by (simp add: add_cookie_def Let_def blind)

lemma AddRequestHeader_blind: "AddRequestHeader ord k v (with_cache c t) = with_cache c (AddRequestHeader ord k v t)"
  by (simp add: AddRequestHeader_def Let_def blind add_cookie_blind)

lemma AddResponseHeader_blind: "AddResponseHeader k v (with_cache c t) = with_cache c (AddResponseHeader k v t)"
  by (simp add: AddResponseHeader_def Let_def blind case_prod_beta)

lemma generateReqbodyError_blind: "generateReqbodyError e (with_cache c t) = with_cache c (generateReqbodyError e t)"
  by (simp add: generateReqbodyError_def Let_def blind)

section \<open>Body processors\<close>

lemma json_store_blind: "json_store k v (with_cache c t) = with_cache c (json_store k v t)"
  by (simp add: json_store_def Let_def blind)

lemma part_headers_blind: "part_headers rt p (with_cache c t) = with_cache c (part_headers rt p t)"
  by (simp add: part_headers_def blind)

lemma process_part_blind: "process_part ps rt k n p (with_cache c t) = apsnd (with_cache c) (process_part ps rt k n p t)"
  by (simp add: process_part_def Let_def blind part_headers_blind split: sum.split option.split)

lemma process_parts_blind:
  "process_parts ps rt k n parts err (with_cache c t) = apsnd (with_cache c) (process_parts ps rt k n parts err t)"
  by (induction ps rt k n parts err t rule: process_parts.induct) (auto simp: process_part_blind split: prod.split sum.split)

lemma ProcessRequest_blind:
  "ProcessRequest bp ps rt mime b (with_cache c t) = map_option (apsnd (with_cache c)) (ProcessRequest bp ps rt mime b t)"
  by (cases bp)
    (simp_all add: urlencoded_ProcessRequest_def json_ProcessRequest_def xml_ProcessRequest_def multipart_ProcessRequest_def Let_def
      blind json_store_blind process_parts_blind case_prod_beta split: option.split sum.split)

section \<open>Phases\<close>

lemma Eval_blind: "Eval rt waf p (with_cache c t) = Eval rt waf p t"
  by (simp add: Eval_def start_phase_def)

lemma run_phase_blind: "run_phase rt waf p (with_cache c t) = run_phase rt waf p t"
  by (simp add: run_phase_def Eval_blind)

text \<open>A call either keeps the cache, as it found it, or gives the same whatever it finds.\<close>

lemma ProcessRequestHeaders_blind:
  "ProcessRequestHeaders rt waf (with_cache c t) = ProcessRequestHeaders rt waf t \<or>
   ProcessRequestHeaders rt waf (with_cache c t) = map_option (apsnd (with_cache c)) (ProcessRequestHeaders rt waf t)"
  by (simp add: ProcessRequestHeaders_def run_phase_blind)

lemma processed_blind:
  "do { (err, tx) \<leftarrow> ProcessRequest bp ps rt mime b (with_cache c t);
        (it, tx) \<leftarrow> run_phase rt waf p (case err of None \<Rightarrow> tx | Some e \<Rightarrow> generateReqbodyError e tx); Some (it, None :: string option, tx) } =
   do { (err, tx) \<leftarrow> ProcessRequest bp ps rt mime b t;
        (it, tx) \<leftarrow> run_phase rt waf p (case err of None \<Rightarrow> tx | Some e \<Rightarrow> generateReqbodyError e tx); Some (it, None, tx) }"
proof (cases "ProcessRequest bp ps rt mime b t")
  case (Some r)
  obtain err u where "r = (err, u)" by fastforce
  with Some show ?thesis by (cases err) (simp_all add: ProcessRequest_blind generateReqbodyError_blind run_phase_blind)
qed (simp add: ProcessRequest_blind)

lemma ProcessRequestBody_blind:
  "ProcessRequestBody ps rt waf (with_cache c t) = ProcessRequestBody ps rt waf t \<or>
   ProcessRequestBody ps rt waf (with_cache c t) = map_option (apsnd (apsnd (with_cache c))) (ProcessRequestBody ps rt waf t)"
proof (cases "RuleEngine t = RuleEngineOff \<or> LastPhase t \<ge> PhaseRequestBody \<or> interruption t \<noteq> None")
  case True
  then show ?thesis by (auto simp: ProcessRequestBody_def Let_def)
next
  case False
  then have "ProcessRequestBody ps rt waf (with_cache c t) = ProcessRequestBody ps rt waf t"
    by (simp add: ProcessRequestBody_def Let_def run_phase_blind cache_commute generateReqbodyError_blind processed_blind split: sum.split)
  then show ?thesis ..
qed

lemma limit_blind:
  "setAndReturnBodyLimitInterruption (with_cache c t) =
     (\<lambda>(it, n, err, t). (it, n, err, with_cache c t)) (setAndReturnBodyLimitInterruption t)"
  by (simp add: setAndReturnBodyLimitInterruption_def Let_def cache_commute)

text \<open>The results of the calls as transactions.\<close>

definition same_call :: "cache \<Rightarrow> Transaction go \<Rightarrow> Transaction go \<Rightarrow> bool" where
  "same_call c r r' \<longleftrightarrow> r' = r \<or> r' = map_option (with_cache c) r"

lemma same_call_refl: "same_call c r r" "same_call c (Some t) (Some (with_cache c t))"
  by (simp_all add: same_call_def)

lemma same_call_Body:
  "same_call c (map_option (\<lambda>(_, _, t). t) (ProcessRequestBody ps rt waf t)) (map_option (\<lambda>(_, _, t). t) (ProcessRequestBody ps rt waf (with_cache c t)))"
proof -
  have "map_option (\<lambda>(_, _, t). t) (map_option (apsnd (apsnd (with_cache c))) r) = map_option (with_cache c) (map_option (\<lambda>(_, _, t). t) r)"
    for r :: "(Interruption option \<times> string option \<times> Transaction) go"
    by (cases r) auto
  with ProcessRequestBody_blind [of ps rt waf c t] show ?thesis by (auto simp: same_call_def)
qed

lemma bind_Body:
  "map_option (\<lambda>(_, _, _, t). t) (do { (_, err, tx) \<leftarrow> ProcessRequestBody ps rt waf t; Some (interruption tx, w, err, tx) }) =
   map_option (\<lambda>(_, _, t). t) (ProcessRequestBody ps rt waf t)"
  by (cases "ProcessRequestBody ps rt waf t") auto

lemma with_cache_buffer: "(with_cache c t)\<lparr>requestBodyBuffer := b\<rparr> = with_cache c (t\<lparr>requestBodyBuffer := b\<rparr>)" by simp

lemma WriteRequestBody_blind:
  "same_call c (map_option (\<lambda>(_, _, _, t). t) (WriteRequestBody ps rt waf b t)) (map_option (\<lambda>(_, _, _, t). t) (WriteRequestBody ps rt waf b (with_cache c t)))"
  unfolding WriteRequestBody_def Let_def with_cache_buffer
  by (auto simp: same_call_refl limit_blind bind_Body same_call_Body case_prod_beta split: option.split bind_split)

text \<open>What \<open>ReadRequestBodyFrom\<close> does after it has copied from the reader.\<close>

definition after_copy :: "parsers \<Rightarrow> runtime \<Rightarrow> WAF \<Rightarrow> int \<Rightarrow> bool \<Rightarrow> (int \<times> string option \<times> BodyBuffer) go \<Rightarrow> Transaction \<Rightarrow>
    (Interruption option \<times> int \<times> string option \<times> Transaction) go" where
  "after_copy ps rt waf limit over res tx =
     do { (w, err, buf) \<leftarrow> res;
          let tx = tx\<lparr>requestBodyBuffer := buf\<rparr>;
          if err \<noteq> None \<and> err \<noteq> Some ''EOF'' then Some (None, w, err, tx)
          else if bb_length buf = limit \<and> w_RequestBodyLimitAction waf = RequestBodyLimitActionReject
            then Some (setAndReturnBodyLimitInterruption tx)
          else if over \<or> bb_length buf = limit then
            do { (_, err, tx) \<leftarrow> ProcessRequestBody ps rt waf tx; Some (interruption tx, w, err, tx) }
          else Some (interruption tx, w, None, tx) }"

lemma after_copy_blind:
  "same_call c (map_option (\<lambda>(_, _, _, t). t) (after_copy ps rt waf limit over res t)) (map_option (\<lambda>(_, _, _, t). t) (after_copy ps rt waf limit over res (with_cache c t)))"
proof (cases res)
  case (Some x)
  obtain w err buf where "x = (w, err, buf)" by (cases x) auto
  with Some show ?thesis
    unfolding after_copy_def Let_def with_cache_buffer
    by (simp add: same_call_refl limit_blind bind_Body same_call_Body case_prod_beta)
qed (simp add: after_copy_def same_call_refl)

lemma ReadRequestBodyFrom_blind:
  "same_call c (map_option (\<lambda>(_, _, _, t). t) (ReadRequestBodyFrom ps rt waf r t)) (map_option (\<lambda>(_, _, _, t). t) (ReadRequestBodyFrom ps rt waf r (with_cache c t)))"
proof -
  define over where "over t = (case rd_Len r of Some l \<Rightarrow> bb_length (requestBodyBuffer t) + l \<ge> RequestBodyLimit t | None \<Rightarrow> False)" for t :: Transaction
  define n where "n t = (case rd_Len r of Some l \<Rightarrow> if over t then RequestBodyLimit t - bb_length (requestBodyBuffer t) else l
    | None \<Rightarrow> RequestBodyLimit t - bb_length (requestBodyBuffer t))" for t :: Transaction
  have eq: "ReadRequestBodyFrom ps rt waf r t =
     (if RuleEngine t = RuleEngineOff then Some (None, 0, None, t)
      else if \<not> RequestBodyAccess t then Some (None, 0, None, t)
      else if RequestBodyLimit t = bb_length (requestBodyBuffer t)
        then Some (if w_RequestBodyLimitAction waf = RequestBodyLimitActionReject then interruption t else None, 0, None, t)
      else if over t \<and> w_RequestBodyLimitAction waf = RequestBodyLimitActionReject then Some (setAndReturnBodyLimitInterruption t)
      else after_copy ps rt waf (RequestBodyLimit t) (over t) (io_CopyN (rt_tiny rt) (rt_os rt) r (n t) (requestBodyBuffer t)) t)" for t
    unfolding ReadRequestBodyFrom_def after_copy_def Let_def over_def n_def by simp
  have "over (with_cache c t) = over t" "n (with_cache c t) = n t" by (cases "rd_Len r"; simp add: over_def n_def)+
  then show ?thesis unfolding eq by (simp add: same_call_refl limit_blind case_prod_beta after_copy_blind)
qed

lemma ProcessResponseHeaders_blind:
  "same_call c (map_option snd (ProcessResponseHeaders rt waf code proto t)) (map_option snd (ProcessResponseHeaders rt waf code proto (with_cache c t)))"
  by (simp add: ProcessResponseHeaders_def Let_def same_call_refl cache_commute run_phase_blind)

lemma ResponseBodyWriter_Write_blind:
  "same_call c (map_option (\<lambda>(_, _, t). t) (ResponseBodyWriter_Write rt b t)) (map_option (\<lambda>(_, _, t). t) (ResponseBodyWriter_Write rt b (with_cache c t)))"
  by (cases "Write (rt_tiny rt) (rt_os rt) b (ResponseBodyBuffer t)") (auto simp: ResponseBodyWriter_Write_def same_call_def)

lemma ProcessResponseBody_blind:
  "same_call c (map_option (\<lambda>(_, _, t). t) (ProcessResponseBody rt waf t)) (map_option (\<lambda>(_, _, t). t) (ProcessResponseBody rt waf (with_cache c t)))"
proof (cases "RuleEngine t = RuleEngineOff \<or> LastPhase t \<ge> PhaseResponseBody \<or> interruption t \<noteq> None")
  case True
  then show ?thesis by (auto simp: ProcessResponseBody_def Let_def same_call_refl)
next
  case False
  have "(if b then with_cache c x else with_cache c y) = with_cache c (if b then x else y)" for b x y by simp
  with False have "ProcessResponseBody rt waf (with_cache c t) = ProcessResponseBody rt waf t"
    by (simp add: ProcessResponseBody_def IsResponseBodyProcessable_def Let_def cache_commute run_phase_blind)
  then show ?thesis by (simp add: same_call_refl)
qed

lemma ProcessLogging_blind: "same_call c (ProcessLogging rt waf t) (ProcessLogging rt waf (with_cache c t))"
proof (cases "RuleEngine t = RuleEngineOff")
  case True
  have a: "audit_relevant waf (with_cache c t) = audit_relevant waf t"
    by (cases "AuditEngine t"; cases "w_AuditLogRelevantStatus waf") (simp_all add: audit_relevant_def)
  have w: "(with_cache c t)\<lparr>AuditWrites := n\<rparr> = with_cache c (t\<lparr>AuditWrites := n\<rparr>)" for n by simp
  show ?thesis
  proof (cases "audit_relevant waf t \<and> w_AuditLogWriter waf")
    case True
    with \<open>RuleEngine t = RuleEngineOff\<close> show ?thesis by (simp add: ProcessLogging_def a w same_call_refl)
  next
    case False
    with \<open>RuleEngine t = RuleEngineOff\<close> show ?thesis by (auto simp: ProcessLogging_def a same_call_refl)
  qed
qed (simp add: ProcessLogging_def Eval_blind same_call_refl)

lemma call_blind: "same_call x (call e c t) (call e c (with_cache x t))"
proof (cases c)
  case ProcessRequestHeadersCall
  then show ?thesis by (simp add: ProcessRequestHeaders_def run_phase_blind same_call_refl)
qed (simp_all add: same_call_refl same_call_Body WriteRequestBody_blind ReadRequestBodyFrom_blind ProcessResponseHeaders_blind
    ResponseBodyWriter_Write_blind ProcessResponseBody_blind ProcessLogging_blind ProcessConnection_blind ProcessURI_blind
    AddRequestHeader_blind AddResponseHeader_blind AddArgument_blind)

lemma tx_ok_cache: "tx_ok w (with_cache c t) = tx_ok w t"
  by (simp add: tx_ok_def)

text \<open>Two transactions that differ at most in their caches, and what a call makes of them.\<close>

definition same_tx :: "Transaction \<Rightarrow> Transaction \<Rightarrow> bool" where
  "same_tx t u \<longleftrightarrow> with_cache (\<lambda>_. None) t = with_cache (\<lambda>_. None) u"

lemma same_tx_refl [simp]: "same_tx t t" "same_tx t (with_cache c t)" "same_tx (with_cache c t) t"
  by (simp_all add: same_tx_def)

lemma same_tx_eq: "same_tx t u \<longleftrightarrow> u = with_cache (transformationCache u) t"
proof
  assume "same_tx t u"
  then have "with_cache (transformationCache u) (with_cache (\<lambda>_. None) t) = with_cache (transformationCache u) (with_cache (\<lambda>_. None) u)"
    unfolding same_tx_def by (rule arg_cong)
  then show "u = with_cache (transformationCache u) t" by simp
next
  assume "u = with_cache (transformationCache u) t"
  then have "with_cache (\<lambda>_. None) u = with_cache (\<lambda>_. None) (with_cache (transformationCache u) t)" by (rule arg_cong)
  then show "same_tx t u" by (simp add: same_tx_def)
qed

lemma same_tx_cleared:
  assumes "same_tx t u"
  shows "same_tx (t\<lparr>AuditCleared := ps\<rparr>) (u\<lparr>AuditCleared := ps\<rparr>)"
proof -
  obtain c where "u = with_cache c t" using assms same_tx_eq by blast
  then have "u\<lparr>AuditCleared := ps\<rparr> = with_cache c (t\<lparr>AuditCleared := ps\<rparr>)" by simp
  then show ?thesis by simp
qed

lemma same_tx_call:
  assumes "same_tx t u" "call e c u = Some u'"
  obtains t' where "call e c t = Some t'" "same_tx t' u'"
proof -
  have "same_call (transformationCache u) (call e c t) (call e c u)"
    using call_blind [of "transformationCache u" e c t] assms(1) [unfolded same_tx_eq] by simp
  then consider "call e c t = Some u'" | t' where "call e c t = Some t'" "u' = with_cache (transformationCache u) t'"
    using assms(2) by (cases "call e c t") (auto simp: same_call_def)
  then show ?thesis using that by cases auto
qed

end
