(* ===== verification/Server.thy ===== *)
theory Server
  imports Cache_Blind "HOL-Library.Multiset"
begin

text \<open>
  The pool of transactions (src/internal/sync) and many requests at once: one WAF, its pool, and the calls of
  all its transactions in any order. A transaction is identified by its address.
\<close>

section \<open>Pools\<close>

text \<open>
  What \<^verbatim>\<open>sync.Pool\<close> may do at a \<^verbatim>\<open>Get\<close>: drop items, and take any item or none. A \<^verbatim>\<open>Get\<close> that takes
  none calls \<^verbatim>\<open>New\<close>, which is \<^const>\<open>None\<close> here.
\<close>

record pool_choice =
  pc_dropped :: "nat list"
  pc_index :: "nat option"

definition std_Get :: "pool_choice \<Rightarrow> nat list \<Rightarrow> nat option \<times> nat list" where
  "std_Get ch pool =
     (let pool = filter (\<lambda>a. a \<notin> set (pc_dropped ch)) pool in
      case pc_index ch of
        None \<Rightarrow> (None, pool)
      | Some i \<Rightarrow> if i < length pool then (Some (pool ! i), take i pool @ drop (Suc i) pool) else (None, pool))"

definition std_Put :: "nat \<Rightarrow> nat list \<Rightarrow> nat list" where
  "std_Put x pool = pool @ [x]"

text \<open>The pool of the TinyGo build is a stack.\<close>

definition tinygo_Get :: "pool_choice \<Rightarrow> nat list \<Rightarrow> nat option \<times> nat list" where
  "tinygo_Get ch pool = (if pool = [] then (None, pool) else (Some (last pool), butlast pool))"

definition tinygo_Put :: "nat \<Rightarrow> nat list \<Rightarrow> nat list" where
  "tinygo_Put x pool = pool @ [x]"

text \<open>The clients of a pool: the objects that they hold, and the next address of \<^verbatim>\<open>new\<close>.\<close>

record 'p clients =
  c_pool :: 'p
  c_held :: "nat list"
  c_next :: nat

definition client_Get :: "(pool_choice \<Rightarrow> 'p \<Rightarrow> nat option \<times> 'p) \<Rightarrow> pool_choice \<Rightarrow> 'p clients \<Rightarrow> nat \<times> 'p clients" where
  "client_Get get ch c =
     (case get ch (c_pool c) of
        (None, p) \<Rightarrow> (c_next c, \<lparr>c_pool = p, c_held = c_next c # c_held c, c_next = Suc (c_next c)\<rparr>)
      | (Some x, p) \<Rightarrow> (x, c\<lparr>c_pool := p, c_held := x # c_held c\<rparr>))"

definition client_Put :: "(nat \<Rightarrow> 'p \<Rightarrow> 'p) \<Rightarrow> nat \<Rightarrow> 'p clients \<Rightarrow> 'p clients" where
  "client_Put put x c = c\<lparr>c_pool := put x (c_pool c), c_held := remove1 x (c_held c)\<rparr>"

text \<open>What a pool promises, in either build.\<close>

locale object_pool =
  fixes get :: "pool_choice \<Rightarrow> 'p \<Rightarrow> nat option \<times> 'p"
    and put :: "nat \<Rightarrow> 'p \<Rightarrow> 'p"
    and items :: "'p \<Rightarrow> nat multiset"
  assumes get_item: "get ch p = (Some x, p') \<Longrightarrow> add_mset x (items p') \<subseteq># items p"
    and get_none: "get ch p = (None, p') \<Longrightarrow> items p' \<subseteq># items p"
    and put_item: "items (put x p) \<subseteq># add_mset x (items p)"
begin

text \<open>No object is in two hands, or in a hand and in the pool.\<close>

definition exclusive :: "'p clients \<Rightarrow> bool" where
  "exclusive c \<longleftrightarrow> (\<forall>x. count (items (c_pool c) + mset (c_held c)) x \<le> (if x < c_next c then 1 else 0))"

lemma exclusive_iff:
  "exclusive c \<longleftrightarrow> (\<forall>y. count (items (c_pool c)) y + count (mset (c_held c)) y \<le> (if y < c_next c then 1 else 0))"
  by (simp only: exclusive_def count_union)

lemma exclusive_once:
  assumes "exclusive c"
  shows "count (items (c_pool c)) x + count (mset (c_held c)) x \<le> 1"
proof -
  have "count (items (c_pool c)) x + count (mset (c_held c)) x \<le> (if x < c_next c then 1 else 0)"
    using assms unfolding exclusive_iff by blast
  then show ?thesis by (rule order_trans) simp
qed

lemma exclusive_distinct:
  assumes "exclusive c"
  shows "distinct (c_held c)"
proof -
  have "count_list (c_held c) x \<le> 1" for x using exclusive_once [OF assms, of x] by (simp add: count_mset)
  then have "\<forall>x. count (mset (c_held c)) x = (if x \<in> set (c_held c) then 1 else 0)"
    by (metis count_mset count_mset_0_iff le_antisym le_eq_less_or_eq less_one)
  then show ?thesis using distinct_count_atmost_1 by blast
qed

lemma item_counts:
  "get ch p = (Some x, p') \<Longrightarrow> count (items p') y + (if y = x then 1 else 0) \<le> count (items p) y"
  "get ch p = (None, p') \<Longrightarrow> count (items p') y \<le> count (items p) y"
  "count (items (put x p)) y \<le> count (items p) y + (if y = x then 1 else 0)"
  using mset_subset_eq_count [OF get_item, of ch p x p' y] mset_subset_eq_count [OF get_none, of ch p p' y]
    mset_subset_eq_count [OF put_item, of x p y] by auto

lemma exclusive_Put:
  assumes "exclusive c" "x \<in> set (c_held c)"
  shows "exclusive (client_Put put x c)"
proof -
  have "count (mset (c_held c)) x \<ge> 1" using assms(2) by (simp add: Suc_le_eq flip: set_mset_mset)
  then have "count (items (put x (c_pool c))) y + count (mset (remove1 x (c_held c))) y \<le> count (items (c_pool c)) y + count (mset (c_held c)) y" for y
    using item_counts(3) [of x "c_pool c" y] by (cases "y = x") simp_all
  with assms(1) have "count (items (put x (c_pool c))) y + count (mset (remove1 x (c_held c))) y \<le> (if y < c_next c then 1 else 0)" for y
    unfolding exclusive_iff using order_trans by blast
  then show ?thesis unfolding exclusive_iff client_Put_def by simp
qed

lemma exclusive_Get:
  assumes "exclusive c" "client_Get get ch c = (x, c')"
  shows "exclusive c'" "x \<notin> set (c_held c)" "c_held c' = x # c_held c"
proof -
  obtain res p where g: "get ch (c_pool c) = (res, p)" by fastforce
  have inv: "count (items (c_pool c)) y + count (mset (c_held c)) y \<le> (if y < c_next c then 1 else 0)" for y
    using assms(1) unfolding exclusive_iff by blast
  show "c_held c' = x # c_held c" using assms(2) g by (auto simp: client_Get_def split: option.splits)
  have "exclusive c' \<and> count (mset (c_held c)) x = 0"
  proof (cases res)
    case None
    have le: "count (items p) y + count (mset (c_held c)) y \<le> (if y < c_next c then 1 else 0)" for y
      using item_counts(2) [of ch "c_pool c" p y] g None inv [of y] by simp
    have "count (items p) y + count (mset (c_next c # c_held c)) y \<le> (if y < Suc (c_next c) then 1 else 0)" for y
      using le [of y] by (cases "y = c_next c") (auto split: if_splits)
    moreover have "x = c_next c" "c' = \<lparr>c_pool = p, c_held = c_next c # c_held c, c_next = Suc (c_next c)\<rparr>"
      using assms(2) g None by (auto simp: client_Get_def)
    ultimately show ?thesis using inv [of "c_next c"] unfolding exclusive_iff by simp
  next
    case (Some z)
    then have z: "z = x" "c' = c\<lparr>c_pool := p, c_held := x # c_held c\<rparr>" using assms(2) g by (auto simp: client_Get_def)
    have le: "count (items p) y + (if y = x then 1 else 0) + count (mset (c_held c)) y \<le> (if y < c_next c then 1 else 0)" for y
      using item_counts(1) [of ch "c_pool c" x p y] g Some z inv [of y] by simp
    have "count (items p) y + count (mset (x # c_held c)) y \<le> (if y < c_next c then 1 else 0)" for y
      using le [of y] by (auto split: if_splits)
    moreover have "count (mset (c_held c)) x = 0" using le [of x] by (simp split: if_splits)
    ultimately show ?thesis unfolding z exclusive_iff by simp
  qed
  then show "exclusive c'" "x \<notin> set (c_held c)" by (simp_all add: count_eq_zero_iff)
qed

end

interpretation std: object_pool std_Get std_Put mset
proof unfold_locales
  have "mset (filter P xs) \<subseteq># mset xs" for P and xs :: "nat list" by simp
  moreover have "add_mset (xs ! i) (mset (take i xs @ drop (Suc i) xs)) = mset xs" if "i < length xs" for i and xs :: "nat list"
    using id_take_nth_drop [OF that] by (metis mset.simps(2) mset_append union_mset_add_mset_right)
  ultimately show "std_Get ch p = (Some x, p') \<Longrightarrow> add_mset x (mset p') \<subseteq># mset p" for ch p x p'
    by (auto simp: std_Get_def Let_def split: option.splits if_splits)
  show "std_Get ch p = (None, p') \<Longrightarrow> mset p' \<subseteq># mset p" for ch p p'
    by (auto simp: std_Get_def Let_def split: option.splits if_splits)
  show "mset (std_Put x p) \<subseteq># add_mset x (mset p)" for x p by (simp add: std_Put_def)
qed

interpretation tinygo: object_pool tinygo_Get tinygo_Put mset
proof unfold_locales
  have "add_mset (last xs) (mset (butlast xs)) = mset xs" if "xs \<noteq> []" for xs :: "nat list"
    using append_butlast_last_id [OF that] by (metis add_mset_add_single mset.simps mset_append)
  then show "tinygo_Get ch p = (Some x, p') \<Longrightarrow> add_mset x (mset p') \<subseteq># mset p" for ch p x p'
    by (auto simp: tinygo_Get_def split: if_splits)
  show "tinygo_Get ch p = (None, p') \<Longrightarrow> mset p' \<subseteq># mset p" for ch p p'
    by (auto simp: tinygo_Get_def split: if_splits)
  show "mset (tinygo_Put x p) \<subseteq># add_mset x (mset p)" for x p by (simp add: tinygo_Put_def)
qed

section \<open>Many requests at once\<close>

text \<open>
  The state of a server: the clients of the pool with the transactions that connectors have open, the heap of
  transactions, and the rules whose \<open>Audit\<close> field has been cleared. A call reads and writes its own transaction and
  that field only; it is one step, so calls interleave and do not overlap. \<open>start_tx\<close> also returns the address of the
  new transaction.
\<close>

record world =
  wd_clients :: "nat list clients"
  wd_heap :: "nat \<Rightarrow> Transaction"
  wd_cleared :: "nat list"

datatype event = NewTx pool_choice string | CallTx nat api_call | CloseTx nat OS

definition start_tx :: "env \<Rightarrow> pool_choice \<Rightarrow> string \<Rightarrow> world \<Rightarrow> nat \<times> world" where
  "start_tx e ch i w =
     (let pooled = fst (std_Get ch (c_pool (wd_clients w)));
          (a, c) = client_Get std_Get ch (wd_clients w)
      in (a, w\<lparr>wd_clients := c,
           wd_heap := (wd_heap w)(a := newTransactionWithID (e_waf e) (wd_cleared w) i (map_option (wd_heap w) pooled))\<rparr>))"

definition call_tx :: "env \<Rightarrow> nat \<Rightarrow> api_call \<Rightarrow> world \<Rightarrow> world go" where
  "call_tx e a c w =
     do { t \<leftarrow> call e c (wd_heap w a\<lparr>AuditCleared := wd_cleared w\<rparr>);
          Some (w\<lparr>wd_heap := (wd_heap w)(a := t), wd_cleared := AuditCleared t\<rparr>) }"

definition close_tx :: "nat \<Rightarrow> OS \<Rightarrow> world \<Rightarrow> world" where
  "close_tx a os w = w\<lparr>wd_clients := client_Put std_Put a (wd_clients w),
     wd_heap := (wd_heap w)(a := snd (Close False os (wd_heap w a)))\<rparr>"

fun server_step :: "env \<Rightarrow> event \<Rightarrow> world \<Rightarrow> world go" where
  "server_step e (NewTx ch i) w = Some (snd (start_tx e ch i w))"
| "server_step e (CallTx a c) w = call_tx e a c w"
| "server_step e (CloseTx a os) w = Some (close_tx a os w)"

text \<open>A connector calls and closes only transactions that it has open; it closes each once.\<close>

fun target :: "event \<Rightarrow> nat option" where
  "target (NewTx ch i) = None"
| "target (CallTx a c) = Some a"
| "target (CloseTx a os) = Some a"

definition disciplined :: "event \<Rightarrow> world \<Rightarrow> bool" where
  "disciplined ev w \<longleftrightarrow> (case target ev of None \<Rightarrow> True | Some a \<Rightarrow> a \<in> set (c_held (wd_clients w)))"

text \<open>
  The events of a server with, for every address, the log of its last transaction: what was shared when it was created, its identifier,
  and its calls, each with what was shared at that moment.
\<close>

type_synonym tx_log = "nat list \<times> string \<times> (nat list \<times> api_call) list"

fun log_event :: "event \<Rightarrow> env \<Rightarrow> world \<Rightarrow> (nat \<Rightarrow> tx_log) \<Rightarrow> nat \<Rightarrow> tx_log" where
  "log_event (NewTx ch i) e w lg = lg(fst (start_tx e ch i w) := (wd_cleared w, i, []))"
| "log_event (CallTx a c) e w lg = (case lg a of (ps, i, cs) \<Rightarrow> lg(a := (ps, i, cs @ [(wd_cleared w, c)])))"
| "log_event (CloseTx a os) e w lg = lg"

inductive server :: "env \<Rightarrow> (nat \<Rightarrow> tx_log) \<Rightarrow> world \<Rightarrow> bool" for e where
  start: "server e lg \<lparr>wd_clients = \<lparr>c_pool = [], c_held = [], c_next = 0\<rparr>, wd_heap = h, wd_cleared = ps\<rparr>"
| event: "server e lg w \<Longrightarrow> disciplined ev w \<Longrightarrow> server_step e ev w = Some w' \<Longrightarrow> server e (log_event ev e w lg) w'"

text \<open>A request on its own: a new transaction that no pool had before, and the calls of its log.\<close>

definition alone :: "env \<Rightarrow> tx_log \<Rightarrow> Transaction go" where
  "alone e = (\<lambda>(ps, i, cs). foreach cs (\<lambda>(ps, c) t. call e c (t\<lparr>AuditCleared := ps\<rparr>)) (newTransactionWithID (e_waf e) ps i None))"

text \<open>
  The invariant: exclusive addresses, open transactions that are as if alone, and closed ones in the pool.
\<close>

definition server_ok :: "env \<Rightarrow> (nat \<Rightarrow> tx_log) \<Rightarrow> world \<Rightarrow> bool" where
  "server_ok e lg w \<longleftrightarrow> std.exclusive (wd_clients w) \<and>
     (\<forall>a\<in>set (c_held (wd_clients w)). \<exists>t. alone e (lg a) = Some t \<and> same_tx t (wd_heap w a)) \<and>
     (\<forall>a\<in>set (c_pool (wd_clients w)). \<exists>t os. tx_ok (e_waf e) t \<and> wd_heap w a = snd (Close False os t))"

lemma tx_ok_calls:
  assumes "foreach cs (\<lambda>(ps, c) t. call e c (t\<lparr>AuditCleared := ps\<rparr>)) t = Some t'" "reachable e t"
  shows "reachable e t'"
  using assms
proof (induction cs arbitrary: t)
  case (Cons pc cs)
  obtain ps c where pc: "pc = (ps, c)" by fastforce
  with Cons.prems(1) obtain u where u: "call e c (t\<lparr>AuditCleared := ps\<rparr>) = Some u"
    "foreach cs (\<lambda>(ps, c) t. call e c (t\<lparr>AuditCleared := ps\<rparr>)) u = Some t'" by (auto split: option.splits)
  have "reachable e u" by (rule reachable.call [OF reachable.shared [OF Cons.prems(2)] u(1)])
  with Cons.IH [OF u(2)] show ?case .
qed simp

lemma alone_ok:
  assumes "alone e l = Some t" "same_tx t u"
  shows "tx_ok (e_waf e) u"
proof -
  obtain ps i cs where "l = (ps, i, cs)" by (cases l)
  with assms(1) have "reachable e t" using tx_ok_calls [OF _ reachable.fresh] by (auto simp: alone_def)
  then have "tx_ok (e_waf e) t" by (rule reachable_ok [THEN conjunct1])
  then show ?thesis using assms(2) unfolding same_tx_eq by (metis tx_ok_cache)
qed

lemma std_Get_items: "std_Get ch p = (res, p') \<Longrightarrow> set p' \<subseteq> set p \<and> (\<forall>x. res = Some x \<longrightarrow> x \<in> set p)"
  using set_mset_mono [OF std.get_item, of ch p _ p'] set_mset_mono [OF std.get_none, of ch p p'] by (cases res) auto

lemma held_not_pooled: "std.exclusive c \<Longrightarrow> a \<in> set (c_held c) \<Longrightarrow> a \<notin> set (c_pool c)"
proof
  assume "std.exclusive c" "a \<in> set (c_held c)" "a \<in> set (c_pool c)"
  moreover have "0 < count (mset xs) a" if "a \<in> set xs" for xs using that by (simp flip: set_mset_mset)
  ultimately have "0 < count (mset (c_held c)) a" "0 < count (mset (c_pool c)) a" "count (mset (c_pool c)) a + count (mset (c_held c)) a \<le> 1"
    using std.exclusive_once by blast+
  then show False by linarith
qed

lemma server_ok_New:
  assumes "server_ok e lg w"
  shows "server_ok e (log_event (NewTx ch i) e w lg) (snd (start_tx e ch i w))"
proof -
  obtain pooled p where g: "std_Get ch (c_pool (wd_clients w)) = (pooled, p)" by fastforce
  obtain a c where c: "client_Get std_Get ch (wd_clients w) = (a, c)" by fastforce
  have ex: "std.exclusive c" "a \<notin> set (c_held (wd_clients w))" "c_held c = a # c_held (wd_clients w)"
    using assms std.exclusive_Get [OF _ c] by (simp_all add: server_ok_def)
  have p: "c_pool c = p" using c g by (auto simp: client_Get_def split: option.splits)
  let ?t = "newTransactionWithID (e_waf e) (wd_cleared w) i (map_option (wd_heap w) pooled)"
    and ?new = "newTransactionWithID (e_waf e) (wd_cleared w) i None"
  have w: "start_tx e ch i w = (a, w\<lparr>wd_clients := c, wd_heap := (wd_heap w)(a := ?t)\<rparr>)"
    by (simp add: start_tx_def g c)
  have "same_tx ?new ?t"
  proof (cases pooled)
    case (Some x)
    then obtain t os where "tx_ok (e_waf e) t" "wd_heap w x = snd (Close False os t)"
      using assms std_Get_items [OF g] by (auto simp: server_ok_def)
    with recycle_eq [of "e_waf e" t "wd_cleared w" i os] Some show ?thesis by simp
  qed simp
  then have "\<exists>t. alone e (wd_cleared w, i, []) = Some t \<and> same_tx t ?t" by (simp add: alone_def)
  moreover have "b \<noteq> a" "b \<in> set (c_pool (wd_clients w))" if "b \<in> set p" for b
    using held_not_pooled [OF ex(1), of a] ex(3) p that std_Get_items [OF g] by auto
  ultimately show ?thesis using assms ex p unfolding server_ok_def by (auto simp: w)
qed

lemma server_ok_Call:
  assumes "server_ok e lg w" "a \<in> set (c_held (wd_clients w))" "call_tx e a c w = Some w'"
  shows "server_ok e (log_event (CallTx a c) e w lg) w'"
proof -
  from assms(3) obtain u' where u: "call e c (wd_heap w a\<lparr>AuditCleared := wd_cleared w\<rparr>) = Some u'"
    "w' = w\<lparr>wd_heap := (wd_heap w)(a := u'), wd_cleared := AuditCleared u'\<rparr>" by (auto simp: call_tx_def)
  obtain ps i cs where l: "lg a = (ps, i, cs)" by (cases "lg a")
  obtain t where t: "alone e (ps, i, cs) = Some t" "same_tx t (wd_heap w a)" and np: "a \<notin> set (c_pool (wd_clients w))"
    using assms(1,2) held_not_pooled [of "wd_clients w" a] by (auto simp: server_ok_def l [symmetric])
  obtain t' where "call e c (t\<lparr>AuditCleared := wd_cleared w\<rparr>) = Some t'" "same_tx t' u'"
    using same_tx_call [OF same_tx_cleared [OF t(2)] u(1)] .
  with t(1) have "alone e (ps, i, cs @ [(wd_cleared w, c)]) = Some t'" "same_tx t' u'"
    by (simp_all add: alone_def foreach_append)
  then show ?thesis using assms(1) np unfolding server_ok_def by (auto simp: u(2) l)
qed

lemma server_ok_Close:
  assumes "server_ok e lg w" "a \<in> set (c_held (wd_clients w))"
  shows "server_ok e lg (close_tx a os w)"
proof -
  let ?c = "client_Put std_Put a (wd_clients w)"
  have ex: "std.exclusive ?c" using assms std.exclusive_Put [of "wd_clients w" a] by (simp add: server_ok_def)
  have c: "c_pool ?c = c_pool (wd_clients w) @ [a]" "c_held ?c = remove1 a (c_held (wd_clients w))" by (simp_all add: client_Put_def std_Put_def)
  have "b \<noteq> a" if "b \<in> set (remove1 a (c_held (wd_clients w)))" for b using held_not_pooled [OF ex, of b] that c by auto
  moreover have "a \<notin> set (c_pool (wd_clients w))" using assms held_not_pooled [of "wd_clients w" a] by (simp add: server_ok_def)
  moreover have "set (remove1 a (c_held (wd_clients w))) \<subseteq> set (c_held (wd_clients w))" by (rule set_remove1_subset)
  moreover have "tx_ok (e_waf e) (wd_heap w a)" using assms alone_ok unfolding server_ok_def by blast
  ultimately show ?thesis
    using assms(1) ex unfolding server_ok_def by (auto simp: close_tx_def c)
qed

lemma server_invariant: "server e lg w \<Longrightarrow> server_ok e lg w"
proof (induction rule: server.induct)
  case (start lg h ps)
  show ?case by (simp add: server_ok_def std.exclusive_iff)
next
  case (event lg w ev w')
  then show ?case
  proof (cases ev)
    case (NewTx ch i)
    with event server_ok_New show ?thesis by (metis option.inject server_step.simps(1))
  next
    case (CallTx a c)
    with event server_ok_Call [of e lg w a c w'] show ?thesis by (simp add: disciplined_def)
  next
    case (CloseTx a os)
    with event server_ok_Close [of e lg w a os] show ?thesis by (auto simp: disciplined_def)
  qed
qed

text \<open>
  C11. Requests that are served at the same time do not disturb each other: whatever calls connectors make on
  their transactions, in whatever order, and whatever the pool does, every open transaction is in the state that its own calls
  produce from a transaction that no request has used before, but for the transformation cache, which a phase empties before it reads it; and no two open
  transactions are the same. Nothing of an earlier or of another request shows, except which rules have
  lost their Audit flag: that field belongs to the rule and is shared, so that each call sees its value at that moment.
\<close>

theorem requests_isolated:
  assumes "server e lg w" "a \<in> set (c_held (wd_clients w))"
  shows "(\<exists>t. alone e (lg a) = Some t \<and> wd_heap w a = t\<lparr>transformationCache := transformationCache (wd_heap w a)\<rparr>) \<and>
    distinct (c_held (wd_clients w))"
proof -
  have ok: "server_ok e lg w" by (rule server_invariant [OF assms(1)])
  then have "distinct (c_held (wd_clients w))" using std.exclusive_distinct unfolding server_ok_def by blast
  with ok assms(2) show ?thesis by (auto simp: server_ok_def same_tx_eq)
qed

text \<open>The pool of the TinyGo build keeps the same promise: an object that it hands out is in no other hands.\<close>

lemma tinygo_exclusive:
  "tinygo.exclusive c \<Longrightarrow> client_Get tinygo_Get ch c = (x, c') \<Longrightarrow> x \<notin> set (c_held c) \<and> tinygo.exclusive c'"
  using tinygo.exclusive_Get by blast

section \<open>Closing twice\<close>

definition empty_world :: world where
  "empty_world = \<lparr>wd_clients = \<lparr>c_pool = [], c_held = [], c_next = 0\<rparr>, wd_heap = (\<lambda>_. blank_tx), wd_cleared = []\<rparr>"

abbreviation take_none :: pool_choice where "take_none \<equiv> \<lparr>pc_dropped = [], pc_index = None\<rparr>"
abbreviation take_first :: pool_choice where "take_first \<equiv> \<lparr>pc_dropped = [], pc_index = Some 0\<rparr>"

text \<open>
  \<open>Close\<close> has no guard: a transaction that is closed twice is in the pool twice, and two later requests share it.
\<close>

theorem double_Close_shares:
  "\<exists>w. foreach [NewTx take_none ''a'', CloseTx 0 os_ok, CloseTx 0 os_ok, NewTx take_first ''b'', NewTx take_first ''c'']
     (server_step e) empty_world = Some w \<and> c_held (wd_clients w) = [0, 0]"
  by (simp add: start_tx_def close_tx_def empty_world_def client_Get_def client_Put_def std_Get_def std_Put_def Let_def)

theorem requests_isolated_witness:
  "\<exists>w c. foreach [NewTx take_none ''a'', CallTx 0 (AddResponseHeaderCall ''k'' ''v''), CloseTx 0 os_ok, NewTx take_first ''b'']
       (server_step (demo_env RequestBodyLimitActionReject)) empty_world = Some w \<and> c_held (wd_clients w) = [0] \<and>
     wd_heap w 0 = (newTransactionWithID (e_waf (demo_env RequestBodyLimitActionReject)) (wd_cleared w) ''b'' None)\<lparr>transformationCache := c\<rparr>"
proof -
  let ?e = "demo_env RequestBodyLimitActionReject" and ?lg = "\<lambda>_. ([], [], []) :: tx_log"
  let ?w1 = "snd (start_tx ?e take_none ''a'' empty_world)"
  obtain w2 where w2: "call_tx ?e 0 (AddResponseHeaderCall ''k'' ''v'') ?w1 = Some w2" by (simp add: call_tx_def)
  let ?w3 = "close_tx 0 os_ok w2"
  let ?w4 = "snd (start_tx ?e take_first ''b'' ?w3)"
  have h1: "c_held (wd_clients ?w1) = [0]" "c_pool (wd_clients ?w1) = []"
    by (simp_all add: start_tx_def empty_world_def client_Get_def std_Get_def Let_def)
  have h2: "c_held (wd_clients w2) = [0]" "c_pool (wd_clients w2) = []" using w2 h1 by (auto simp: call_tx_def)
  have h4: "c_held (wd_clients ?w4) = [0]" "fst (start_tx ?e take_first ''b'' ?w3) = 0" "wd_cleared ?w4 = wd_cleared ?w3"
    using h2 by (simp_all add: start_tx_def close_tx_def client_Get_def client_Put_def std_Get_def std_Put_def Let_def)
  have "server ?e ?lg empty_world" unfolding empty_world_def by (rule server.start)
  then obtain l1 where "server ?e l1 ?w1" using server.event [of ?e ?lg empty_world "NewTx take_none ''a''" ?w1] by (auto simp: disciplined_def)
  then obtain l2 where "server ?e l2 w2"
    using server.event [of ?e l1 ?w1 "CallTx 0 (AddResponseHeaderCall ''k'' ''v'')" w2] h1 w2 by (auto simp: disciplined_def)
  then obtain l3 where "server ?e l3 ?w3"
    using server.event [of ?e l2 w2 "CloseTx 0 os_ok" ?w3] h2 by (auto simp: disciplined_def)
  then have "server ?e (l3(0 := (wd_cleared ?w3, ''b'', []))) ?w4"
    using server.event [of ?e l3 ?w3 "NewTx take_first ''b''" ?w4] h4(2) by (simp add: disciplined_def)
  from requests_isolated [OF this, of 0] h4
  have "wd_heap ?w4 0 = (newTransactionWithID (e_waf ?e) (wd_cleared ?w4) ''b'' None)\<lparr>transformationCache := transformationCache (wd_heap ?w4 0)\<rparr>"
    by (simp add: alone_def)
  moreover have "foreach [NewTx take_none ''a'', CallTx 0 (AddResponseHeaderCall ''k'' ''v''), CloseTx 0 os_ok, NewTx take_first ''b'']
       (server_step ?e) empty_world = Some ?w4" using w2 by simp
  ultimately show ?thesis using h4(1) by blast
qed

end
