(* ===== verification/Tx_Getters.thy ===== *)
theory Tx_Getters
  imports Tx_Variables
begin

text \<open>
  The accessors of \<open>TransactionVariables\<close> (src/internal/corazawaf/transaction.go), and the
  interface of src/rules/transaction.go through which operators, actions and body processors call
  them.

  An accessor is a row of a table: the method's name and the collection that it returns, from the
  state of the variables. The tables are in the order of the source. The interface is the list of
  its methods with the type that each returns. The lemmas compare both with
  \<open>Transaction.Collection\<close>, the access that rules use: the two ways of naming a variable
  reach the same collection.
\<close>

type_synonym getter = "string \<times> (TransactionVariables \<Rightarrow> Collection)"

datatype collection_type = TSimple | TMap | TProxy | TSizeProxy | TTranslationProxy

fun type_of_collection :: "Collection \<Rightarrow> collection_type" where
  "type_of_collection (CSimple s) = TSimple"
| "type_of_collection (CMap m) = TMap"
| "type_of_collection (CProxy p) = TProxy"
| "type_of_collection (CSizeProxy p) = TSizeProxy"
| "type_of_collection (CTranslationProxy p) = TTranslationProxy"

section \<open>The accessors\<close>

definition getters_connection :: "getter list" where
  "getters_connection = [
    (''UserID'', \<lambda>tv. CSimple (tv_simple tv Userid)),
    (''UrlencodedError'', \<lambda>tv. CSimple (tv_simple tv UrlencodedError)),
    (''ResponseContentType'', \<lambda>tv. CSimple (tv_simple tv ResponseContentType)),
    (''UniqueID'', \<lambda>tv. CSimple (tv_simple tv UniqueID)),
    (''ArgsCombinedSize'', \<lambda>tv. CSizeProxy (argsCombinedSize tv)),
    (''AuthType'', \<lambda>tv. CSimple (tv_simple tv AuthType)),
    (''FilesCombinedSize'', \<lambda>tv. CSimple (tv_simple tv FilesCombinedSize)),
    (''FullRequest'', \<lambda>tv. CSimple (tv_simple tv FullRequest)),
    (''FullRequestLength'', \<lambda>tv. CSimple (tv_simple tv FullRequestLength)),
    (''InboundDataError'', \<lambda>tv. CSimple (tv_simple tv InboundDataError)),
    (''MatchedVar'', \<lambda>tv. CSimple (tv_simple tv MatchedVar)),
    (''MatchedVarName'', \<lambda>tv. CSimple (tv_simple tv MatchedVarName)),
    (''MultipartBoundaryQuoted'', \<lambda>tv. CSimple (tv_simple tv MultipartBoundaryQuoted)),
    (''MultipartBoundaryWhitespace'', \<lambda>tv. CSimple (tv_simple tv MultipartBoundaryWhitespace)),
    (''MultipartCrlfLfLines'', \<lambda>tv. CSimple (tv_simple tv MultipartCrlfLfLines)),
    (''MultipartDataAfter'', \<lambda>tv. CSimple (tv_simple tv MultipartDataAfter)),
    (''MultipartDataBefore'', \<lambda>tv. CSimple (tv_simple tv MultipartDataBefore)),
    (''MultipartFileLimitExceeded'', \<lambda>tv. CSimple (tv_simple tv MultipartFileLimitExceeded)),
    (''MultipartHeaderFolding'', \<lambda>tv. CSimple (tv_simple tv MultipartHeaderFolding)),
    (''MultipartInvalidHeaderFolding'', \<lambda>tv. CSimple (tv_simple tv MultipartInvalidHeaderFolding)),
    (''MultipartInvalidPart'', \<lambda>tv. CSimple (tv_simple tv MultipartInvalidPart)),
    (''MultipartInvalidQuoting'', \<lambda>tv. CSimple (tv_simple tv MultipartInvalidQuoting)),
    (''MultipartLfLine'', \<lambda>tv. CSimple (tv_simple tv MultipartLfLine)),
    (''MultipartMissingSemicolon'', \<lambda>tv. CSimple (tv_simple tv MultipartMissingSemicolon)),
    (''MultipartPartHeaders'', \<lambda>tv. CMap (tv_map tv MultipartPartHeaders)),
    (''MultipartStrictError'', \<lambda>tv. CSimple (tv_simple tv MultipartStrictError)),
    (''MultipartUnmatchedBoundary'', \<lambda>tv. CSimple (tv_simple tv MultipartUnmatchedBoundary)),
    (''OutboundDataError'', \<lambda>tv. CSimple (tv_simple tv OutboundDataError)),
    (''PathInfo'', \<lambda>tv. CSimple (tv_simple tv PathInfo)),
    (''QueryString'', \<lambda>tv. CSimple (tv_simple tv QueryString))]"

definition getters_request :: "getter list" where
  "getters_request = [
    (''RemoteAddr'', \<lambda>tv. CSimple (tv_simple tv RemoteAddr)),
    (''RemoteHost'', \<lambda>tv. CSimple (tv_simple tv RemoteHost)),
    (''RemotePort'', \<lambda>tv. CSimple (tv_simple tv RemotePort)),
    (''RequestBodyError'', \<lambda>tv. CSimple (tv_simple tv ReqbodyError)),
    (''RequestBodyErrorMsg'', \<lambda>tv. CSimple (tv_simple tv ReqbodyErrorMsg)),
    (''RequestBodyProcessorError'', \<lambda>tv. CSimple (tv_simple tv ReqbodyProcessorError)),
    (''RequestBodyProcessorErrorMsg'', \<lambda>tv. CSimple (tv_simple tv ReqbodyProcessorErrorMsg)),
    (''RequestBodyProcessor'', \<lambda>tv. CSimple (tv_simple tv ReqbodyProcessor)),
    (''RequestBasename'', \<lambda>tv. CSimple (tv_simple tv RequestBasename)),
    (''RequestBody'', \<lambda>tv. CSimple (tv_simple tv RequestBody)),
    (''RequestBodyLength'', \<lambda>tv. CSimple (tv_simple tv RequestBodyLength)),
    (''RequestFilename'', \<lambda>tv. CSimple (tv_simple tv RequestFilename)),
    (''RequestLine'', \<lambda>tv. CSimple (tv_simple tv RequestLine)),
    (''RequestMethod'', \<lambda>tv. CSimple (tv_simple tv RequestMethod)),
    (''RequestProtocol'', \<lambda>tv. CSimple (tv_simple tv RequestProtocol)),
    (''RequestURI'', \<lambda>tv. CSimple (tv_simple tv RequestURI)),
    (''RequestURIRaw'', \<lambda>tv. CSimple (tv_simple tv RequestURIRaw)),
    (''ResponseBody'', \<lambda>tv. CSimple (tv_simple tv ResponseBody)),
    (''ResponseContentLength'', \<lambda>tv. CSimple (tv_simple tv ResponseContentLength)),
    (''ResponseProtocol'', \<lambda>tv. CSimple (tv_simple tv ResponseProtocol)),
    (''ResponseStatus'', \<lambda>tv. CSimple (tv_simple tv ResponseStatus)),
    (''ServerAddr'', \<lambda>tv. CSimple (tv_simple tv ServerAddr)),
    (''ServerName'', \<lambda>tv. CSimple (tv_simple tv ServerName)),
    (''ServerPort'', \<lambda>tv. CSimple (tv_simple tv ServerPort)),
    (''SessionID'', \<lambda>tv. CSimple (tv_simple tv Sessionid)),
    (''HighestSeverity'', \<lambda>tv. CSimple (tv_simple tv HighestSeverity)),
    (''StatusLine'', \<lambda>tv. CSimple (tv_simple tv StatusLine)),
    (''InboundErrorData'', \<lambda>tv. CSimple (tv_simple tv InboundErrorData)),
    (''Env'', \<lambda>tv. CMap (tv_map tv Env)),
    (''TX'', \<lambda>tv. CMap (tv_map tv TX)),
    (''Rule'', \<lambda>tv. CMap (tv_map tv Rule)),
    (''Duration'', \<lambda>tv. CSimple (tv_simple tv Duration))]"

definition getters_collections :: "getter list" where
  "getters_collections = [
    (''Args'', \<lambda>tv. CProxy (args_proxy tv)),
    (''ArgsGet'', \<lambda>tv. CMap (tv_map tv ArgsGet)),
    (''ArgsPost'', \<lambda>tv. CMap (tv_map tv ArgsPost)),
    (''ArgsPath'', \<lambda>tv. CMap (tv_map tv ArgsPath)),
    (''FilesTmpNames'', \<lambda>tv. CMap (tv_map tv FilesTmpNames)),
    (''Geo'', \<lambda>tv. CMap (tv_map tv Geo)),
    (''Files'', \<lambda>tv. CMap (tv_map tv Files)),
    (''RequestCookies'', \<lambda>tv. CMap (tv_map tv RequestCookies)),
    (''RequestHeaders'', \<lambda>tv. CMap (tv_map tv RequestHeaders)),
    (''ResponseHeaders'', \<lambda>tv. CMap (tv_map tv ResponseHeaders)),
    (''MultipartName'', \<lambda>tv. CMap (tv_map tv MultipartName)),
    (''MatchedVarsNames'', \<lambda>tv. CMap (tv_map tv MatchedVarsNames)),
    (''MultipartFilename'', \<lambda>tv. CMap (tv_map tv MultipartFilename)),
    (''MatchedVars'', \<lambda>tv. CMap (tv_map tv MatchedVars)),
    (''FilesSizes'', \<lambda>tv. CMap (tv_map tv FilesSizes)),
    (''FilesNames'', \<lambda>tv. CMap (tv_map tv FilesNames)),
    (''FilesTmpContent'', \<lambda>tv. CMap (tv_map tv FilesTmpContent)),
    (''ResponseHeadersNames'', \<lambda>tv. CMap (tv_map tv ResponseHeadersNames)),
    (''RequestHeadersNames'', \<lambda>tv. CMap (tv_map tv RequestHeadersNames)),
    (''RequestCookiesNames'', \<lambda>tv. CMap (tv_map tv RequestCookiesNames)),
    (''XML'', \<lambda>tv. CMap (tv_map tv RequestXML)),
    (''RequestXML'', \<lambda>tv. CMap (tv_map tv RequestXML)),
    (''ResponseXML'', \<lambda>tv. CMap (tv_map tv ResponseXML)),
    (''IP'', \<lambda>tv. CMap (tv_map tv IP)),
    (''ArgsNames'', \<lambda>tv. CTranslationProxy (argsNames_proxy tv)),
    (''ArgsGetNames'', \<lambda>tv. CTranslationProxy (NewProxy ArgsGetNames [tv_map tv ArgsGet])),
    (''ArgsPostNames'', \<lambda>tv. CTranslationProxy (NewProxy ArgsPostNames [tv_map tv ArgsPost]))]"

definition getters :: "getter list" where
  "getters = getters_connection @ getters_request @ getters_collections"

text \<open>Calling a method by its name.\<close>

definition call_getter :: "string \<Rightarrow> TransactionVariables \<Rightarrow> Collection option" where
  "call_getter name tv = map_option (\<lambda>g. g tv) (map_of getters name)"

section \<open>The interface\<close>

definition interface_methods :: "(string \<times> collection_type) list" where
  "interface_methods = [
    (''UserID'', TSimple),
    (''UrlencodedError'', TSimple),
    (''ResponseContentType'', TSimple),
    (''UniqueID'', TSimple),
    (''ArgsCombinedSize'', TSizeProxy),
    (''AuthType'', TSimple),
    (''FilesCombinedSize'', TSimple),
    (''FullRequest'', TSimple),
    (''FullRequestLength'', TSimple),
    (''InboundDataError'', TSimple),
    (''MatchedVar'', TSimple),
    (''MatchedVarName'', TSimple),
    (''MultipartBoundaryQuoted'', TSimple),
    (''MultipartBoundaryWhitespace'', TSimple),
    (''MultipartCrlfLfLines'', TSimple),
    (''MultipartDataAfter'', TSimple),
    (''MultipartDataBefore'', TSimple),
    (''MultipartFileLimitExceeded'', TSimple),
    (''MultipartPartHeaders'', TMap),
    (''MultipartHeaderFolding'', TSimple),
    (''MultipartInvalidHeaderFolding'', TSimple),
    (''MultipartInvalidPart'', TSimple),
    (''MultipartInvalidQuoting'', TSimple),
    (''MultipartLfLine'', TSimple),
    (''MultipartMissingSemicolon'', TSimple),
    (''MultipartStrictError'', TSimple),
    (''MultipartUnmatchedBoundary'', TSimple),
    (''OutboundDataError'', TSimple),
    (''PathInfo'', TSimple),
    (''QueryString'', TSimple),
    (''RemoteAddr'', TSimple),
    (''RemoteHost'', TSimple),
    (''RemotePort'', TSimple),
    (''RequestBodyError'', TSimple),
    (''RequestBodyErrorMsg'', TSimple),
    (''RequestBodyProcessorError'', TSimple),
    (''RequestBodyProcessorErrorMsg'', TSimple),
    (''RequestBodyProcessor'', TSimple),
    (''RequestBasename'', TSimple),
    (''RequestBody'', TSimple),
    (''RequestBodyLength'', TSimple),
    (''RequestFilename'', TSimple),
    (''RequestLine'', TSimple),
    (''RequestMethod'', TSimple),
    (''RequestProtocol'', TSimple),
    (''RequestURI'', TSimple),
    (''RequestURIRaw'', TSimple),
    (''ResponseBody'', TSimple),
    (''ResponseContentLength'', TSimple),
    (''ResponseProtocol'', TSimple),
    (''ResponseStatus'', TSimple),
    (''ServerAddr'', TSimple),
    (''ServerName'', TSimple),
    (''ServerPort'', TSimple),
    (''SessionID'', TSimple),
    (''HighestSeverity'', TSimple),
    (''StatusLine'', TSimple),
    (''InboundErrorData'', TSimple),
    (''Env'', TMap),
    (''TX'', TMap),
    (''Rule'', TMap),
    (''Duration'', TSimple),
    (''Args'', TProxy),
    (''ArgsGet'', TMap),
    (''ArgsPost'', TMap),
    (''ArgsPath'', TMap),
    (''FilesTmpNames'', TMap),
    (''Geo'', TMap),
    (''Files'', TMap),
    (''RequestCookies'', TMap),
    (''RequestHeaders'', TMap),
    (''ResponseHeaders'', TMap),
    (''MultipartName'', TMap),
    (''MatchedVarsNames'', TMap),
    (''MultipartFilename'', TMap),
    (''MatchedVars'', TMap),
    (''FilesSizes'', TMap),
    (''FilesNames'', TMap),
    (''FilesTmpContent'', TMap),
    (''ResponseHeadersNames'', TMap),
    (''RequestHeadersNames'', TMap),
    (''RequestCookiesNames'', TMap),
    (''XML'', TMap),
    (''RequestXML'', TMap),
    (''ResponseXML'', TMap),
    (''IP'', TMap),
    (''ArgsNames'', TTranslationProxy),
    (''ArgsGetNames'', TTranslationProxy),
    (''ArgsPostNames'', TTranslationProxy)]"

section \<open>Accessors against the interface and against Collection\<close>

lemmas getters_defs = getters_def getters_connection_def getters_request_def getters_collections_def

lemma distinct_getters: "distinct (map fst getters)"
  by code_simp

text \<open>
  The variable that a method is named after. Most methods have the name of their variable's
  constant; the others are the ones listed.
\<close>

definition method_variables :: "(string \<times> RuleVariable) list" where
  "method_variables = [
    (''UserID'', Userid),
    (''UrlencodedError'', UrlencodedError),
    (''ResponseContentType'', ResponseContentType),
    (''UniqueID'', UniqueID),
    (''ArgsCombinedSize'', ArgsCombinedSize),
    (''AuthType'', AuthType),
    (''FilesCombinedSize'', FilesCombinedSize),
    (''FullRequest'', FullRequest),
    (''FullRequestLength'', FullRequestLength),
    (''InboundDataError'', InboundDataError),
    (''MatchedVar'', MatchedVar),
    (''MatchedVarName'', MatchedVarName),
    (''MultipartBoundaryQuoted'', MultipartBoundaryQuoted),
    (''MultipartBoundaryWhitespace'', MultipartBoundaryWhitespace),
    (''MultipartCrlfLfLines'', MultipartCrlfLfLines),
    (''MultipartDataAfter'', MultipartDataAfter),
    (''MultipartDataBefore'', MultipartDataBefore),
    (''MultipartFileLimitExceeded'', MultipartFileLimitExceeded),
    (''MultipartHeaderFolding'', MultipartHeaderFolding),
    (''MultipartInvalidHeaderFolding'', MultipartInvalidHeaderFolding),
    (''MultipartInvalidPart'', MultipartInvalidPart),
    (''MultipartInvalidQuoting'', MultipartInvalidQuoting),
    (''MultipartLfLine'', MultipartLfLine),
    (''MultipartMissingSemicolon'', MultipartMissingSemicolon),
    (''MultipartPartHeaders'', MultipartPartHeaders),
    (''MultipartStrictError'', MultipartStrictError),
    (''MultipartUnmatchedBoundary'', MultipartUnmatchedBoundary),
    (''OutboundDataError'', OutboundDataError),
    (''PathInfo'', PathInfo),
    (''QueryString'', QueryString),
    (''RemoteAddr'', RemoteAddr),
    (''RemoteHost'', RemoteHost),
    (''RemotePort'', RemotePort),
    (''RequestBodyError'', ReqbodyError),
    (''RequestBodyErrorMsg'', ReqbodyErrorMsg),
    (''RequestBodyProcessorError'', ReqbodyProcessorError),
    (''RequestBodyProcessorErrorMsg'', ReqbodyProcessorErrorMsg),
    (''RequestBodyProcessor'', ReqbodyProcessor),
    (''RequestBasename'', RequestBasename),
    (''RequestBody'', RequestBody),
    (''RequestBodyLength'', RequestBodyLength),
    (''RequestFilename'', RequestFilename),
    (''RequestLine'', RequestLine),
    (''RequestMethod'', RequestMethod),
    (''RequestProtocol'', RequestProtocol),
    (''RequestURI'', RequestURI),
    (''RequestURIRaw'', RequestURIRaw),
    (''ResponseBody'', ResponseBody),
    (''ResponseContentLength'', ResponseContentLength),
    (''ResponseProtocol'', ResponseProtocol),
    (''ResponseStatus'', ResponseStatus),
    (''ServerAddr'', ServerAddr),
    (''ServerName'', ServerName),
    (''ServerPort'', ServerPort),
    (''SessionID'', Sessionid),
    (''HighestSeverity'', HighestSeverity),
    (''StatusLine'', StatusLine),
    (''InboundErrorData'', InboundErrorData),
    (''Env'', Env),
    (''TX'', TX),
    (''Rule'', Rule),
    (''Duration'', Duration),
    (''Args'', Args),
    (''ArgsGet'', ArgsGet),
    (''ArgsPost'', ArgsPost),
    (''ArgsPath'', ArgsPath),
    (''FilesTmpNames'', FilesTmpNames),
    (''Geo'', Geo),
    (''Files'', Files),
    (''RequestCookies'', RequestCookies),
    (''RequestHeaders'', RequestHeaders),
    (''ResponseHeaders'', ResponseHeaders),
    (''MultipartName'', MultipartName),
    (''MatchedVarsNames'', MatchedVarsNames),
    (''MultipartFilename'', MultipartFilename),
    (''MatchedVars'', MatchedVars),
    (''FilesSizes'', FilesSizes),
    (''FilesNames'', FilesNames),
    (''FilesTmpContent'', FilesTmpContent),
    (''ResponseHeadersNames'', ResponseHeadersNames),
    (''RequestHeadersNames'', RequestHeadersNames),
    (''RequestCookiesNames'', RequestCookiesNames),
    (''XML'', XML),
    (''RequestXML'', RequestXML),
    (''ResponseXML'', ResponseXML),
    (''IP'', IP),
    (''ArgsNames'', ArgsNames),
    (''ArgsGetNames'', ArgsGetNames),
    (''ArgsPostNames'', ArgsPostNames)]"

lemma getter_rows:
  "list_all2 (\<lambda>(n, v) (n', g). n = n' \<and> tx_Collection tv v = Some (g tv)) method_variables getters"
  by (simp add: method_variables_def getters_defs tx_Collection_def simple_variables_def map_variables_def)


text \<open>
  The struct implements the interface: every method of the interface has one accessor, which returns
  a collection of the declared type, and the struct has no accessor beside them.
\<close>

lemma interface_permuted:
  "map (\<lambda>(n, g). (n, type_of_collection (g tv))) getters =
     take 18 interface_methods @ take 6 (drop 19 interface_methods) @
     take 1 (drop 18 interface_methods) @ drop 25 interface_methods"
  by (simp add: getters_defs interface_methods_def)

lemma set_moved: "set (take 18 xs @ take 6 (drop 19 xs) @ take 1 (drop 18 xs) @ drop 25 xs) = set xs"
proof -
  have split: "set (drop k xs) = set (take m (drop k xs)) \<union> set (drop (k + m) xs)" for k m
    by (metis add.commute append_take_drop_id drop_drop set_append)
  have "set xs = set (take 18 xs) \<union> set (drop 18 xs)"
    by (metis append_take_drop_id set_append)
  then show ?thesis
    using split[of 18 1] split[of 19 6] by auto
qed

lemma getters_implement:
  "set interface_methods = set (map (\<lambda>(n, g). (n, type_of_collection (g tv))) getters)"
  by (simp only: interface_permuted set_moved)

text \<open>Calling an accessor is reading the collection of its variable.\<close>

lemma getter_collection:
  assumes "(n, v) \<in> set method_variables"
  shows "call_getter n tv = tx_Collection tv v"
proof -
  obtain g where "(n, g) \<in> set getters" "tx_Collection tv v = Some (g tv)"
    using getter_rows[of tv] assms by (fastforce simp: list_all2_conv_all_nth in_set_conv_nth)
  then show ?thesis
    by (simp add: call_getter_def distinct_getters)
qed

lemma collection_has_method:
  assumes "tx_Collection tv v \<noteq> None"
  shows "v \<in> set (map snd method_variables)"
proof -
  have "v \<in> set simple_variables \<union> set map_variables \<union>
      {ArgsCombinedSize, Args, ArgsNames, ArgsGetNames, ArgsPostNames, XML}"
    using assms by (auto simp: tx_Collection_def split: if_splits)
  moreover have "set simple_variables \<union> set map_variables \<union>
      {ArgsCombinedSize, Args, ArgsNames, ArgsGetNames, ArgsPostNames, XML} \<subseteq> set (map snd method_variables)"
    by (simp add: method_variables_def simple_variables_def map_variables_def)
  ultimately show ?thesis
    by blast
qed

text \<open>
  A collection is what \<open>Collection\<close> returns for a variable exactly when an accessor of that
  variable returns it: no variable with a collection lacks an accessor, and no accessor reaches the
  collection of another variable.
\<close>

theorem accessor_complete:
  "tx_Collection tv v = Some c \<longleftrightarrow>
     (\<exists>n. (n, v) \<in> set method_variables \<and> call_getter n tv = Some c)"
proof
  assume c: "tx_Collection tv v = Some c"
  then obtain n where "(n, v) \<in> set method_variables"
    using collection_has_method[of tv v] by auto
  with c show "\<exists>n. (n, v) \<in> set method_variables \<and> call_getter n tv = Some c"
    using getter_collection by metis
next
  assume "\<exists>n. (n, v) \<in> set method_variables \<and> call_getter n tv = Some c"
  then show "tx_Collection tv v = Some c"
    using getter_collection by metis
qed

end
