(* ===== verification/Helpers.thy ===== *)
theory Helpers
  imports Http Directives
begin

text \<open>
  Small helpers at the edges of the program: \<open>ReadFirstFile\<close> (src/internal/io/file.go) against
  \<open>loadFromFile\<close> of the operators; the lines of the debug log (src/loggers/debug.go,
  src/internal/corazawaf/logger.go); and the writer that the HTTP interceptor hands to the handler
  (the last part of \<open>wrap\<close>, src/http/interceptor.go), with the optional interfaces of the
  original writer.
\<close>

section \<open>Finding a file\<close>

text \<open>
  \<open>read\<close> is \<^verbatim>\<open>os.ReadFile\<close> and \<open>stat\<close> says whether \<^verbatim>\<open>os.Stat\<close> has no error.
\<close>

definition os_ReadFile :: "(string \<Rightarrow> read_result) \<Rightarrow> string \<Rightarrow> string + string" where
  "os_ReadFile read f =
     (case read f of Content c \<Rightarrow> Inr c | NotExist \<Rightarrow> Inl ''file does not exist'' | ReadError e \<Rightarrow> Inl e)"

fun read_first :: "(string \<Rightarrow> bool) \<Rightarrow> (string \<Rightarrow> read_result) \<Rightarrow> string \<Rightarrow> string list \<Rightarrow> string + string" where
  "read_first stat read filename [] = Inl (''file '' @ filename @ '' not found'')"
| "read_first stat read filename (p # ps) =
     (if stat (path_Join p filename) then os_ReadFile read (path_Join p filename)
      else read_first stat read filename ps)"

definition ReadFirstFile :: "(string \<Rightarrow> bool) \<Rightarrow> (string \<Rightarrow> read_result) \<Rightarrow> string list \<Rightarrow> string \<Rightarrow> string + string" where
  "ReadFirstFile stat read directories filename =
     (if filename = [] then Inl ''filename is empty''
      else if hd filename = CHR ''/'' then os_ReadFile read filename
      else read_first stat read filename directories)"

text \<open>A file system in which a file can be examined exactly if it exists.\<close>

definition stat_exists :: "(string \<Rightarrow> bool) \<Rightarrow> (string \<Rightarrow> read_result) \<Rightarrow> bool" where
  "stat_exists stat read \<longleftrightarrow> (\<forall>f. stat f \<longleftrightarrow> read f \<noteq> NotExist)"

lemma read_first_load_paths:
  "stat_exists stat read \<Longrightarrow> read_first stat read f ps = Inr c \<longleftrightarrow> load_paths read f ps = Inr c"
  by (induction ps) (auto simp: stat_exists_def os_ReadFile_def split: read_result.split)

text \<open>
  The two searches find the same files: for a name that is not empty and directories that are not
  empty, \<open>ReadFirstFile\<close> returns a content exactly when \<open>loadFromFile\<close>, which the operators
  use, returns it. They differ in their errors.
\<close>

theorem ReadFirstFile_loadFromFile:
  assumes "stat_exists stat read" "filename \<noteq> []" "directories \<noteq> []"
  shows "ReadFirstFile stat read directories filename = Inr c \<longleftrightarrow>
    loadFromFile filename directories read = Inr c"
proof (cases "hd filename = CHR ''/''")
  case True
  then have "HasPrefix filename ''/''"
    using assms(2) by (cases filename) (auto simp: HasPrefix_def)
  then show ?thesis
    using True assms(2) by (simp add: ReadFirstFile_def loadFromFile_def os_ReadFile_def split: read_result.split)
next
  case False
  then have "\<not> HasPrefix filename ''/''"
    by (cases filename) (auto simp: HasPrefix_def)
  then show ?thesis
    using False assms by (simp add: ReadFirstFile_def loadFromFile_def read_first_load_paths)
qed

text \<open>A sample: the directory \<^verbatim>\<open>/b\<close> holds the file.\<close>

definition sample_files :: "string \<Rightarrow> read_result" where
  "sample_files f = (if f = ''/b/x.data'' then Content ''1.2.3.4'' else NotExist)"

theorem ReadFirstFile_loadFromFile_witness:
  "ReadFirstFile (\<lambda>f. sample_files f \<noteq> NotExist) sample_files [''/a'', ''/b''] ''x.data'' = Inr ''1.2.3.4'' \<and>
   loadFromFile ''x.data'' [''/a'', ''/b''] sample_files = Inr ''1.2.3.4''"
proof -
  have l: "loadFromFile ''x.data'' [''/a'', ''/b''] sample_files = Inr ''1.2.3.4''"
    by code_simp
  moreover have "stat_exists (\<lambda>f. sample_files f \<noteq> NotExist) sample_files"
    by (simp add: stat_exists_def)
  ultimately show ?thesis
    using ReadFirstFile_loadFromFile[of "\<lambda>f. sample_files f \<noteq> NotExist" sample_files "''x.data''" "[''/a'', ''/b'']" "''1.2.3.4''"]
    by simp
qed

section \<open>The lines of the debug log\<close>

definition LogLevel_String :: "int \<Rightarrow> string" where
  "LogLevel_String level =
     (if level = 1 then ''INFO''
      else if level = 2 then ''WARN''
      else if level = 3 then ''ERROR''
      else if level = 4 then ''DEBUG''
      else if level = 5 then ''TRACE''
      else ''UNKNOWN'')"

text \<open>
  \<open>formatLog\<close>: the line that the logger prints, if it prints one; \<open>message\<close> is the text that
  \<^verbatim>\<open>fmt.Sprintf\<close> made. The five methods are \<open>formatLog\<close> at their level.
\<close>

definition formatLog :: "stdDebugLogger \<Rightarrow> int \<Rightarrow> string \<Rightarrow> string option" where
  "formatLog l level message =
     (if logs l level then Some (''['' @ LogLevel_String level @ ''] '' @ message) else None)"

definition log_Info :: "stdDebugLogger \<Rightarrow> string \<Rightarrow> string option" where
  "log_Info l = formatLog l 1"

definition log_Warn :: "stdDebugLogger \<Rightarrow> string \<Rightarrow> string option" where
  "log_Warn l = formatLog l 2"

definition log_Error :: "stdDebugLogger \<Rightarrow> string \<Rightarrow> string option" where
  "log_Error l = formatLog l 3"

definition log_Debug :: "stdDebugLogger \<Rightarrow> string \<Rightarrow> string option" where
  "log_Debug l = formatLog l 4"

definition log_Trace :: "stdDebugLogger \<Rightarrow> string \<Rightarrow> string option" where
  "log_Trace l = formatLog l 5"

text \<open>
  The levels are ordered from INFO up, and a logger prints the levels up to its own. At the level
  that \<open>NewWAF\<close> sets and that every invalid level becomes, INFO, it prints information only:
  warnings and errors are dropped.
\<close>

theorem default_level_drops_errors:
  assumes "LogLevel_Invalid level \<or> level = 1"
  shows "log_Info (SetLevel level l) m = Some (''[INFO] '' @ m)"
    and "log_Warn (SetLevel level l) m = None" and "log_Error (SetLevel level l) m = None"
  using assms by (auto simp: log_Info_def log_Warn_def log_Error_def formatLog_def logs_def SetLevel_def
      LogLevel_String_def)

text \<open>Only an invalid level has the name of the unknown one, and the valid names differ.\<close>

lemma LogLevel_String_unknown: "LogLevel_String l = ''UNKNOWN'' \<longleftrightarrow> LogLevel_Invalid l"
  by (auto simp: LogLevel_String_def LogLevel_Invalid_def)

lemma LogLevel_String_inj:
  "\<not> LogLevel_Invalid l \<Longrightarrow> LogLevel_String l = LogLevel_String l' \<longleftrightarrow> l = l'"
  by (auto simp: LogLevel_String_def LogLevel_Invalid_def split: if_splits)

section \<open>The wrapped response writer\<close>

text \<open>The interfaces of \<^verbatim>\<open>net/http\<close> and \<^verbatim>\<open>io\<close> that a response writer may have.\<close>

datatype iface = ResponseWriterI | HijackerI | PusherI | FlusherI | ReaderFromI

datatype embedded = Interceptor iface | Original iface

text \<open>
  The switch over \<open>isHijacker\<close>, \<open>isPusher\<close>, \<open>isFlusher\<close> and \<open>isReader\<close>: the fields of the
  struct that \<open>wrap\<close> returns, each an embedded interface with the value that provides it.
\<close>

fun wrap_struct :: "bool \<Rightarrow> bool \<Rightarrow> bool \<Rightarrow> bool \<Rightarrow> embedded list" where
  "wrap_struct False False False False = [Interceptor ResponseWriterI]"
| "wrap_struct False False False True = [Interceptor ResponseWriterI, Original ReaderFromI]"
| "wrap_struct False False True False = [Interceptor ResponseWriterI, Original FlusherI]"
| "wrap_struct False False True True = [Interceptor ResponseWriterI, Original FlusherI, Original ReaderFromI]"
| "wrap_struct False True False False = [Interceptor ResponseWriterI, Original PusherI]"
| "wrap_struct False True False True = [Interceptor ResponseWriterI, Original PusherI, Original ReaderFromI]"
| "wrap_struct False True True False = [Interceptor ResponseWriterI, Original PusherI, Original FlusherI]"
| "wrap_struct False True True True =
     [Interceptor ResponseWriterI, Original PusherI, Original FlusherI, Original ReaderFromI]"
| "wrap_struct True False False False = [Interceptor ResponseWriterI, Original HijackerI]"
| "wrap_struct True False False True = [Interceptor ResponseWriterI, Original HijackerI, Original ReaderFromI]"
| "wrap_struct True False True False = [Interceptor ResponseWriterI, Original HijackerI, Original FlusherI]"
| "wrap_struct True False True True =
     [Interceptor ResponseWriterI, Original HijackerI, Original FlusherI, Original ReaderFromI]"
| "wrap_struct True True False False = [Interceptor ResponseWriterI, Original HijackerI, Original PusherI]"
| "wrap_struct True True False True =
     [Interceptor ResponseWriterI, Original HijackerI, Original PusherI, Original ReaderFromI]"
| "wrap_struct True True True False =
     [Interceptor ResponseWriterI, Original HijackerI, Original PusherI, Original FlusherI]"
| "wrap_struct True True True True =
     [Interceptor ResponseWriterI, Original HijackerI, Original PusherI, Original FlusherI, Original ReaderFromI]"

text \<open>
  The handler gets exactly the optional interfaces of the original writer, each once, and only
  \<open>Header\<close>, \<open>WriteHeader\<close> and \<open>Write\<close> are the interceptor's.
\<close>

lemma wrap_struct_distinct: "distinct (wrap_struct hj pu fl rd)"
  by (cases hj; cases pu; cases fl; cases rd) simp_all

lemma wrap_struct_offers:
  "set (wrap_struct hj pu fl rd) =
     {Interceptor ResponseWriterI} \<union>
     {Original i | i. i = HijackerI \<and> hj \<or> i = PusherI \<and> pu \<or> i = FlusherI \<and> fl \<or> i = ReaderFromI \<and> rd}"
  by (cases hj; cases pu; cases fl; cases rd) auto

text \<open>The interface whose method a call of a handler is.\<close>

fun call_iface :: "handler_call \<Rightarrow> iface" where
  "call_iface CallFlush = FlusherI"
| "call_iface (CallReadFrom b) = ReaderFromI"
| "call_iface (SetHeader k vs) = ResponseWriterI"
| "call_iface (CallWriteHeader c) = ResponseWriterI"
| "call_iface (CallWrite b) = ResponseWriterI"

text \<open>
  The calls of the middleware's model dispatch as this struct does: a call of an interface that the
  original provides runs on the original writer and leaves the transaction alone, and a call of
  one that nobody provides changes nothing.
\<close>

theorem wrapped_call_dispatch:
  assumes "call_iface c \<noteq> ResponseWriterI"
  shows "wrapped_call e sd c i =
    (if Original (call_iface c) \<in> set (wrap_struct hj pu (rw_Flusher (i_w i)) (rw_ReaderFrom (i_w i)))
     then map_option (\<lambda>w. i\<lparr>i_w := w\<rparr>) (plain_call sd c (i_w i)) else Some i)"
  using assms by (cases c) (auto simp: wrap_struct_offers)

end
