(* ===== verification/Policy.thy ===== *)
theory Policy
  imports Rule_Group
begin

text \<open>
  The rules of a phase as a policy. A rule that only reads the request, with no transformations and no
  actions beyond its verdict and its metadata, is a test on the request together with a verdict, and a list of
  such rules is a first-match policy. The abstract policy (\<open>policy_run\<close>) knows nothing of transactions,
  captures, matched variables, chains of calls or panics; the evaluation of a phase (\<open>Eval\<close>) implements it.
\<close>

section \<open>The abstract policy\<close>

subsection \<open>Tests on values\<close>

definition const_macro :: "macro \<Rightarrow> bool" where
  "const_macro m \<longleftrightarrow> list_all (\<lambda>t. mt_variable t = None) (mc_tokens m)"

definition macro_text :: "macro \<Rightarrow> string" where
  "macro_text m = concat (map mt_text (mc_tokens m))"

definition const_test :: "macro \<Rightarrow> (string \<Rightarrow> string \<Rightarrow> bool) \<Rightarrow> (string \<Rightarrow> bool) option" where
  "const_test m P = (if const_macro m then Some (P (macro_text m)) else None)"

text \<open>
  The test that an operator stands for; \<open>cap\<close> says whether its rule captures. Operators that read variables,
  write variables other than the captures, or can panic have none.
\<close>

fun value_test :: "libs \<Rightarrow> bool \<Rightarrow> operator \<Rightarrow> (string \<Rightarrow> bool) option" where
  "value_test lb cap (op_beginsWith m) = const_test m (\<lambda>x v. HasPrefix v x)"
| "value_test lb cap (op_contains m) = const_test m (\<lambda>x v. Contains v x)"
| "value_test lb cap (op_endsWith m) = const_test m (\<lambda>x v. HasSuffix v x)"
| "value_test lb cap (op_eq m) = const_test m (\<lambda>x v. atoi_val x = atoi_val v)"
| "value_test lb cap (op_ge m) = const_test m (\<lambda>x v. atoi_val v \<ge> atoi_val x)"
| "value_test lb cap (op_gt m) = const_test m (\<lambda>x v. atoi_val v > atoi_val x)"
| "value_test lb cap (op_le m) = const_test m (\<lambda>x v. atoi_val v \<le> atoi_val x)"
| "value_test lb cap (op_lt m) = const_test m (\<lambda>x v. atoi_val v < atoi_val x)"
| "value_test lb cap (op_streq m) = const_test m (\<lambda>x v. v = x)"
| "value_test lb cap (op_within m) = const_test m (\<lambda>x v. Contains x v)"
| "value_test lb cap op_detectSQLi = Some (\<lambda>v. fst (IsSQLi lb v))"
| "value_test lb cap op_detectXSS = Some (IsXSS lb)"
| "value_test lb cap (op_inspectFile path) = Some (run_command lb path)"
| "value_test lb cap (op_ipMatch subnets) = Some (\<lambda>v. \<exists>subnet\<in>set subnets. subnet v)"
| "value_test lb cap op_noMatch = Some (\<lambda>v. False)"
| "value_test lb cap op_unconditionalMatch = Some (\<lambda>v. True)"
| "value_test lb cap op_validateUtf8Encoding = Some (\<lambda>v. \<not> ValidString v)"
| "value_test lb cap (op_validateByteRange bs) = Some (byteRangeEvaluate bs)"
| "value_test lb cap op_validateURLEncoding = Some validateURLEncodingEvaluate"
| "value_test lb cap (op_pm matcher) = (if cap then None else Some (\<lambda>v. matcher v \<noteq> []))"
| "value_test lb cap (op_rx re) = Some (\<lambda>v. if cap then FindStringSubmatch re v \<noteq> [] else MatchString re v)"
| "value_test lb cap _ = None"

subsection \<open>Rules and verdicts\<close>

text \<open>The values of the request that a target selects, without those that an exception names, or their number.\<close>

definition target_values :: "key_order \<Rightarrow> ruleVariableParams \<Rightarrow> TransactionVariables \<Rightarrow> string list" where
  "target_values ord rv tv =
     (case tx_Collection tv (rv_Variable rv) of
        None \<Rightarrow> []
      | Some c \<Rightarrow>
          let ms = filter (kept (rv_Exceptions rv)) (find_matches ord c rv) in
          if rv_Count rv then [Itoa (int (length ms))] else map md_Value ms)"

definition rule_holds :: "libs \<Rightarrow> key_order \<Rightarrow> TransactionVariables \<Rightarrow> bool \<Rightarrow> Rule \<Rightarrow> bool" where
  "rule_holds lb ord tv cap r \<longleftrightarrow>
     (case r_operator r of
        None \<Rightarrow> True
      | Some op \<Rightarrow>
          (case value_test lb cap (o_Operator op) of
             None \<Rightarrow> False
           | Some P \<Rightarrow> \<exists>rv\<in>set (r_variables r). \<exists>v\<in>set (target_values ord rv tv). P v \<noteq> o_Negation op))"

text \<open>A chain holds when all its rules do; once one of them captures, the next ones do too.\<close>

fun chain_holds :: "libs \<Rightarrow> key_order \<Rightarrow> TransactionVariables \<Rightarrow> bool \<Rightarrow> Rule list \<Rightarrow> bool" where
  "chain_holds lb ord tv cap [] = True"
| "chain_holds lb ord tv cap (r # rs) =
     (rule_holds lb ord tv (cap \<or> r_Capture r) r \<and> chain_holds lb ord tv (cap \<or> r_Capture r) rs)"

text \<open>
  The policy of a phase: the identifiers of the rules that match, up to the first one with a verdict, and that
  verdict. An engine that is not \<open>on\<close> has no verdicts.
\<close>

fun policy_run :: "libs \<Rightarrow> key_order \<Rightarrow> bool \<Rightarrow> RulePhase \<Rightarrow> TransactionVariables \<Rightarrow> ChainedRule list \<Rightarrow> int list \<times> Interruption option" where
  "policy_run lb ord on p tv [] = ([], None)"
| "policy_run lb ord on p tv (rc # rcs) =
     (let r = fst rc; (ids, it) = policy_run lb ord on p tv rcs; self = (if ID r \<noteq> 0 then [ID r] else []) in
      if (Phase r = p \<or> Phase r = 0) \<and> chain_holds lb ord tv False (r # snd rc) then
        (case (if on then rule_verdict r else None) of
           None \<Rightarrow> (self @ ids, it)
         | Some v \<Rightarrow> (self, Some v))
      else (ids, it))"

subsection \<open>Which rules are policies\<close>

text \<open>The variables that the evaluation of rules writes; every other one belongs to the request or the response.\<close>

definition engine_simple :: "RuleVariable list" where
  "engine_simple = [MatchedVar, MatchedVarName, HighestSeverity]"

definition engine_maps :: "RuleVariable list" where
  "engine_maps = [MatchedVars, MatchedVarsNames, Rule, TX]"

definition policy_target :: "ruleVariableParams \<Rightarrow> bool" where
  "policy_target rv \<longleftrightarrow> rv_Variable rv \<notin> set (engine_simple @ engine_maps) \<and> length (rv_Exceptions rv) \<le> 1"

definition policy_action :: "Rule \<Rightarrow> action \<Rightarrow> bool" where
  "policy_action r a \<longleftrightarrow>
     (case a of
        act_append _ \<Rightarrow> False | act_prepend _ \<Rightarrow> False | act_ctl _ \<Rightarrow> False | act_setenv _ _ \<Rightarrow> False
      | act_setvar _ \<Rightarrow> False | act_skip _ \<Rightarrow> False | act_skipAfter _ \<Rightarrow> False
      | act_logdata \<Rightarrow> r_LogData r \<noteq> None | _ \<Rightarrow> True)"

definition policy_rule :: "libs \<Rightarrow> bool \<Rightarrow> Rule \<Rightarrow> bool" where
  "policy_rule lb cap r \<longleftrightarrow> r_transformations r = [] \<and> \<not> r_MultiMatch r \<and>
     (case r_operator r of None \<Rightarrow> True | Some op \<Rightarrow> value_test lb cap (o_Operator op) \<noteq> None) \<and>
     list_all policy_target (r_variables r) \<and> list_all (\<lambda>a. policy_action r (a_Function a)) (r_actions r)"

fun policy_chain :: "libs \<Rightarrow> bool \<Rightarrow> Rule list \<Rightarrow> bool" where
  "policy_chain lb cap [] \<longleftrightarrow> True"
| "policy_chain lb cap (r # rs) \<longleftrightarrow> policy_rule lb (cap \<or> r_Capture r) r \<and> policy_chain lb (cap \<or> r_Capture r) rs"

definition policy_rules :: "libs \<Rightarrow> ChainedRule list \<Rightarrow> bool" where
  "policy_rules lb rcs \<longleftrightarrow> list_all (\<lambda>rc. chain_ok (fst rc) (snd rc) \<and> policy_chain lb False (fst rc # snd rc)) rcs"

section \<open>The frame of evaluation\<close>

text \<open>The request as rules see it, and everything that decides how the phase goes on.\<close>

definition same_request :: "Transaction \<Rightarrow> Transaction \<Rightarrow> bool" where
  "same_request t t' \<longleftrightarrow>
     (\<forall>v. v \<notin> set engine_simple \<longrightarrow> tv_simple (variables t') v = tv_simple (variables t) v) \<and>
     (\<forall>v. v \<notin> set engine_maps \<longrightarrow> tv_map (variables t') v = tv_map (variables t) v)"

definition calm :: "Transaction \<Rightarrow> Transaction \<Rightarrow> bool" where
  "calm t t' \<longleftrightarrow> same_request t t' \<and> no_verdict t t' \<and> RuleEngine t' = RuleEngine t \<and>
     ruleRemoveByID t' = ruleRemoveByID t \<and> ruleRemoveTargetByID t' = ruleRemoveTargetByID t"

definition quiet :: "Transaction \<Rightarrow> Transaction \<Rightarrow> bool" where
  "quiet t t' \<longleftrightarrow> calm t t' \<and> Capture t' = Capture t"

lemma same_request_Collection:
  assumes "same_request t t'" "v \<notin> set (engine_simple @ engine_maps)"
  shows "tx_Collection (variables t') v = tx_Collection (variables t) v"
proof -
  have m: "tv_map (variables t') w = tv_map (variables t) w" if "w \<in> {ArgsGet, ArgsPost, ArgsPath, RequestXML}" for w
    using assms(1) that by (auto simp: same_request_def engine_maps_def)
  have "tv_simple (variables t') v = tv_simple (variables t) v" "tv_map (variables t') v = tv_map (variables t) v"
    using assms by (simp_all add: same_request_def)
  with m show ?thesis
    by (simp add: tx_Collection_def argsCombinedSize_def args_proxy_def argsNames_proxy_def)
qed

lemma quiet_refl [simp]: "quiet t t"
  by (simp add: quiet_def calm_def same_request_def no_verdict_setters)

lemma same_request_trans: "same_request t1 t2 \<Longrightarrow> same_request t2 t3 \<Longrightarrow> same_request t1 t3"
  by (simp add: same_request_def)

lemma calm_trans: "calm t1 t2 \<Longrightarrow> calm t2 t3 \<Longrightarrow> calm t1 t3"
  by (auto simp: calm_def no_verdict_def intro: same_request_trans)

lemma quiet_trans [trans]: "quiet t1 t2 \<Longrightarrow> quiet t2 t3 \<Longrightarrow> quiet t1 t3"
  by (auto simp: quiet_def intro: calm_trans)

lemma quiet_calm: "quiet t t' \<Longrightarrow> calm t t'"
  by (simp add: quiet_def)

lemma calm_Capture: "calm t (t\<lparr>Capture := b\<rparr>)"
  by (simp add: calm_def same_request_def no_verdict_setters)

lemma quiet_set_var: "quiet t u \<Longrightarrow> v \<in> set engine_simple \<Longrightarrow> quiet t (set_var v x u)"
  by (erule quiet_trans) (auto simp: quiet_def calm_def same_request_def no_verdict_def set_var_def set_simple_def)

lemma quiet_upd_col: "quiet t u \<Longrightarrow> v \<in> set engine_maps \<Longrightarrow> quiet t (upd_col v f u)"
  by (erule quiet_trans) (auto simp: quiet_def calm_def same_request_def no_verdict_def upd_col_def upd_map_def)

lemmas quiet_intros = quiet_set_var quiet_upd_col quiet_refl

lemma quiet_CaptureField: "quiet t (CaptureField i x t)"
  by (simp add: CaptureField_def quiet_upd_col engine_maps_def)

lemma quiet_rx_capture: "quiet t (rx_capture i cs t)"
  by (induction i cs t rule: rx_capture.induct) (auto intro: quiet_trans [OF quiet_CaptureField])

lemma quiet_tx_matchVariable: "quiet t (tx_matchVariable m t)"
proof -
  let ?v = "if md_Key m \<noteq> [] then md_VariableName m @ '':'' @ md_Key m else md_VariableName m"
  let ?l = "if md_Key m \<noteq> [] then md_VariableName m @ '':'' @ ToLower (md_Key m) else md_VariableName m"
  have "tx_matchVariable m t = set_var MatchedVarName ?v (upd_col MatchedVarsNames (\<lambda>c. Map_AddCS c ?l ?v ?v)
      (set_var MatchedVar (md_Value m) (upd_col MatchedVars (\<lambda>c. Map_AddCS c ?l ?v (md_Value m)) (set_var MatchedVarName [] t))))"
    by (simp add: tx_matchVariable_def)
  also have "quiet t \<dots>"
    by (intro quiet_intros) (simp_all add: engine_simple_def engine_maps_def)
  finally show ?thesis .
qed

lemma quiet_set_rule_vars: "quiet t (set_rule_vars r t)"
  unfolding set_rule_vars_def Let_def
  by (cases "r_Msg r"; cases "r_LogData r") (auto intro!: quiet_intros simp: engine_maps_def)

section \<open>Matching implements the tests\<close>

lemma Expand_const: "const_macro m \<Longrightarrow> Expand tv m = macro_text m"
proof -
  assume "const_macro m"
  then have "map (expandToken tv) (mc_tokens m) = map mt_text (mc_tokens m)"
    by (auto simp: const_macro_def list_all_iff expandToken_def)
  moreover have "Expand tv m = concat (map (expandToken tv) (mc_tokens m))" by (simp add: Expand_def split: list.split)
  ultimately show ?thesis by (simp only: macro_text_def)
qed

lemma const_test_Some: "const_test m Q = Some P \<longleftrightarrow> const_macro m \<and> P = Q (macro_text m)"
  by (auto simp: const_test_def)

lemma value_test_Evaluate:
  assumes "value_test lb cap op = Some P" "Capture t = cap"
  shows "\<exists>t'. operator_Evaluate lb op t v = Some (P v, t') \<and> quiet t t'"
  using assms
  by (cases op)
    (auto simp: const_test_Some Expand_const pmEvaluate_def rxEvaluate_def Let_def quiet_CaptureField quiet_rx_capture
      split: if_splits prod.splits)

lemma policy_action_quiet:
  assumes "policy_action r a" "action_Type a = ActionTypeNondisruptive"
  shows "\<exists>t'. action_Evaluate rt waf r a t = Some t' \<and> quiet t t'"
  using assms by (cases a) (auto simp: policy_action_def quiet_def calm_def same_request_def no_verdict_def)

lemma foreach_quiet:
  assumes "\<And>x t. x \<in> set xs \<Longrightarrow> \<exists>t'. f x t = Some t' \<and> quiet t t'"
  shows "\<exists>t'. foreach xs f t = Some t' \<and> quiet t t'"
  using assms
proof (induction xs arbitrary: t)
  case (Cons x xs)
  obtain u where u: "f x t = Some u" "quiet t u" using Cons.prems by fastforce
  moreover obtain t' where "foreach xs f u = Some t'" "quiet u t'" using Cons by fastforce
  ultimately show ?case using quiet_trans by auto
qed simp

lemma policy_rule_action:
  assumes "policy_rule lb cap r" "a \<in> rule_actions r"
  shows "policy_action r a"
  using assms by (auto simp: policy_rule_def rule_actions_def list_all_iff)

lemma rule_matchVariable_quiet:
  assumes "policy_rule lb cap r"
  shows "\<exists>t'. rule_matchVariable rt waf r m t = Some t' \<and> quiet t t'"
proof -
  have "\<exists>t'. foreach (actions_of (\<lambda>t. t = ActionTypeNondisruptive) r) (action_Evaluate rt waf r) (tx_matchVariable m t) = Some t' \<and>
      quiet (tx_matchVariable m t) t'"
  proof (rule foreach_quiet)
    fix a u
    assume "a \<in> set (actions_of (\<lambda>t. t = ActionTypeNondisruptive) r)"
    then have "a \<in> rule_actions r" "action_Type a = ActionTypeNondisruptive" by (simp_all add: actions_of_iff)
    then show "\<exists>t'. action_Evaluate rt waf r a u = Some t' \<and> quiet u t'"
      by (intro policy_action_quiet policy_rule_action [OF assms])
  qed
  then show ?thesis unfolding rule_matchVariable_def using quiet_trans [OF quiet_tx_matchVariable] by blast
qed

text \<open>A loop that collects matches: there is one at the end when there was one before or an element has one.\<close>

definition collects :: "Transaction \<Rightarrow> (MatchData list \<times> Transaction \<Rightarrow> (MatchData list \<times> Transaction) go) \<Rightarrow> bool \<Rightarrow> bool" where
  "collects t0 f b \<longleftrightarrow> (\<forall>mvs t. quiet t0 t \<longrightarrow>
     (\<exists>mvs' t'. f (mvs, t) = Some (mvs', t') \<and> (mvs' \<noteq> [] \<longleftrightarrow> mvs \<noteq> [] \<or> b) \<and> quiet t t'))"

lemma collects_foreach:
  assumes "\<And>x. x \<in> set xs \<Longrightarrow> collects t0 (f x) (Q x)"
  shows "collects t0 (foreach xs f) (\<exists>x\<in>set xs. Q x)"
  using assms
proof (induction xs)
  case Nil
  then show ?case by (simp add: collects_def)
next
  case (Cons x xs)
  show ?case unfolding collects_def
  proof (intro allI impI)
    fix mvs t
    assume q: "quiet t0 t"
    have c: "collects t0 (f x) (Q x)" by (rule Cons.prems) simp
    obtain m1 t1 where 1: "f x (mvs, t) = Some (m1, t1)" "m1 \<noteq> [] \<longleftrightarrow> mvs \<noteq> [] \<or> Q x" "quiet t t1"
      using c [unfolded collects_def, rule_format, OF q, of mvs] by blast
    have "collects t0 (foreach xs f) (\<exists>x\<in>set xs. Q x)" by (rule Cons.IH) (simp add: Cons.prems)
    from this [unfolded collects_def, rule_format, OF quiet_trans [OF q 1(3)], of m1] obtain m2 t2 where 2: "foreach xs f (m1, t1) = Some (m2, t2)" "m2 \<noteq> [] \<longleftrightarrow> m1 \<noteq> [] \<or> (\<exists>x\<in>set xs. Q x)" "quiet t1 t2"
      by blast
    show "\<exists>mvs' t'. foreach (x # xs) f (mvs, t) = Some (mvs', t') \<and> (mvs' \<noteq> [] \<longleftrightarrow> mvs \<noteq> [] \<or> (\<exists>x\<in>set (x # xs). Q x)) \<and> quiet t t'"
      using 1 2 quiet_trans [OF 1(3) 2(3)] by auto
  qed
qed

lemma collects_match_value:
  assumes "policy_rule (rt_libs rt) (Capture t0) r" "value_test (rt_libs rt) (Capture t0) (o_Operator op) = Some P"
  shows "collects t0 (match_value rt waf r op v arg carg) (P carg \<noteq> o_Negation op)"
  unfolding collects_def
proof (intro allI impI)
  fix mvs t
  assume "quiet t0 t"
  then have "Capture t = Capture t0" by (simp add: quiet_def)
  with value_test_Evaluate [OF assms(2)] obtain t1
    where o: "operator_Evaluate (rt_libs rt) (o_Operator op) t carg = Some (P carg, t1)" "quiet t t1" by blast
  show "\<exists>mvs' t'. match_value rt waf r op v arg carg (mvs, t) = Some (mvs', t') \<and> (mvs' \<noteq> [] \<longleftrightarrow> mvs \<noteq> [] \<or> P carg \<noteq> o_Negation op) \<and> quiet t t'"
  proof (cases "P carg \<noteq> o_Negation op")
    case True
    let ?m = "\<lparr>md_VariableName = variable_Name (rv_Variable v), md_Variable = md_Variable arg, md_Key = md_Key arg,
      md_Value = carg, md_Message = [], md_Data = []\<rparr>"
    obtain t2 where "rule_matchVariable rt waf r ?m t1 = Some t2" "quiet t1 t2"
      using rule_matchVariable_quiet [OF assms(1)] by blast
    with o True show ?thesis by (auto simp: match_value_def executeOperator_def Let_def intro: quiet_trans)
  next
    case False
    with o show ?thesis by (auto simp: match_value_def executeOperator_def)
  qed
qed

lemma collects_match_arg:
  assumes "policy_rule (rt_libs rt) (Capture t0) r" "value_test (rt_libs rt) (Capture t0) (o_Operator op) = Some P"
  shows "collects t0 (match_arg rt waf r op v ia) (P (md_Value (snd ia)) \<noteq> o_Negation op)"
  unfolding collects_def
proof (intro allI impI)
  fix mvs t
  assume q: "quiet t0 t"
  obtain i arg where ia: "ia = (i, arg)" by fastforce
  have "transformArg r arg i c = Some (([md_Value arg], []), c)" for c
    using assms(1) by (simp add: transformArg_def policy_rule_def)
  then have "match_arg rt waf r op v ia (mvs, t) = match_value rt waf r op v arg (md_Value arg) (mvs, t)"
    by (simp add: ia match_arg_def split: option.split)
  with collects_match_value [OF assms, of waf v arg "md_Value arg"] q ia
  show "\<exists>mvs' t'. match_arg rt waf r op v ia (mvs, t) = Some (mvs', t') \<and>
      (mvs' \<noteq> [] \<longleftrightarrow> mvs \<noteq> [] \<or> P (md_Value (snd ia)) \<noteq> o_Negation op) \<and> quiet t t'"
    unfolding collects_def by simp
qed

lemma GetField_policy:
  assumes "policy_target rv"
  obtains ms where "GetField ord rv t = Some ms" "map md_Value ms = target_values ord rv (variables t)"
proof (cases "tx_Collection (variables t) (rv_Variable rv)")
  case None
  then show ?thesis using that by (simp add: GetField_def target_values_def)
next
  case (Some c)
  have "length (excepted (rv_Exceptions rv) m) \<le> 1" for m
    using assms length_filter_le order_trans unfolding excepted_def policy_target_def by blast
  then have "foreach (rev (removal_indices 0 (rv_Exceptions rv) (find_matches ord c rv))) remove_match (find_matches ord c rv) =
      Some (filter (kept (rv_Exceptions rv)) (find_matches ord c rv))"
    using remove_matches [of "find_matches ord c rv" "rv_Exceptions rv" "[]" 0] by simp
  with Some show ?thesis
    by (cases "rv_Count rv") (rule that, simp add: GetField_def Let_def, simp add: target_values_def count_match_def Let_def)+
qed

lemma target_values_same:
  assumes "same_request t t'" "policy_target rv"
  shows "target_values ord rv (variables t') = target_values ord rv (variables t)"
  using same_request_Collection [OF assms(1)] assms(2) by (simp add: target_values_def policy_target_def)

lemma collects_match_target:
  assumes "policy_rule (rt_libs rt) (Capture t0) r" "value_test (rt_libs rt) (Capture t0) (o_Operator op) = Some P" "policy_target rv"
  shows "collects t0 (match_target rt waf r op [] rv) (\<exists>v\<in>set (target_values (rt_ord rt) rv (variables t0)). P v \<noteq> o_Negation op)"
  unfolding collects_def
proof (intro allI impI)
  fix mvs t
  assume q: "quiet t0 t"
  obtain ms where ms: "GetField (rt_ord rt) rv t = Some ms" "map md_Value ms = target_values (rt_ord rt) rv (variables t)"
    by (rule GetField_policy [OF assms(3)])
  have "target_values (rt_ord rt) rv (variables t) = target_values (rt_ord rt) rv (variables t0)"
    using target_values_same [OF _ assms(3)] q by (simp add: quiet_def calm_def)
  then have "(\<exists>v\<in>set (target_values (rt_ord rt) rv (variables t0)). P v \<noteq> o_Negation op) \<longleftrightarrow> (\<exists>m\<in>set ms. P (md_Value m) \<noteq> o_Negation op)"
    using ms(2) by (metis (no_types, lifting) image_iff list.set_map)
  also have "\<dots> \<longleftrightarrow> (\<exists>x\<in>set (enumerate 0 ms). P (md_Value (snd x)) \<noteq> o_Negation op)"
    by (metis (no_types, lifting) image_iff list.set_map map_snd_enumerate)
  finally have e: "(\<exists>v\<in>set (target_values (rt_ord rt) rv (variables t0)). P v \<noteq> o_Negation op) \<longleftrightarrow> \<dots>" .
  have "with_removed_targets [] rv = rv" by (simp add: with_removed_targets_def)
  then have "match_target rt waf r op [] rv (mvs, t) = foreach (enumerate 0 ms) (match_arg rt waf r op rv) (mvs, t)"
    by (simp add: match_target_def ms(1))
  with collects_foreach [of "enumerate 0 ms" t0 "match_arg rt waf r op rv" "\<lambda>x. P (md_Value (snd x)) \<noteq> o_Negation op"]
    collects_match_arg [OF assms(1,2)] q
  show "\<exists>mvs' t'. match_target rt waf r op [] rv (mvs, t) = Some (mvs', t') \<and>
      (mvs' \<noteq> [] \<longleftrightarrow> mvs \<noteq> [] \<or> (\<exists>v\<in>set (target_values (rt_ord rt) rv (variables t0)). P v \<noteq> o_Negation op)) \<and> quiet t t'"
    unfolding e collects_def by simp
qed

lemma policy_rule_targets: "policy_rule lb cap r \<Longrightarrow> rv \<in> set (r_variables r) \<Longrightarrow> policy_target rv"
  by (simp add: policy_rule_def list_all_iff)

lemma rule_holds_same:
  assumes "same_request t t'" "policy_rule lb cap r"
  shows "rule_holds lb ord (variables t') cap r \<longleftrightarrow> rule_holds lb ord (variables t) cap r"
  using target_values_same [OF assms(1) policy_rule_targets [OF assms(2)]]
  by (auto simp: rule_holds_def split: option.split)

lemma chain_holds_same:
  "same_request t t' \<Longrightarrow> policy_chain lb cap rs \<Longrightarrow> chain_holds lb ord (variables t') cap rs \<longleftrightarrow> chain_holds lb ord (variables t) cap rs"
  by (induction rs arbitrary: cap) (auto simp: rule_holds_same)

lemma matchRuleValues_policy:
  assumes "policy_rule (rt_libs rt) (Capture t \<or> r_Capture r) r" "ruleRemoveTargetByID t = (\<lambda>_. [])"
  obtains mvs t' where "matchRuleValues rt waf r t = Some (mvs, t')"
    "mvs \<noteq> [] \<longleftrightarrow> rule_holds (rt_libs rt) (rt_ord rt) (variables t) (Capture t \<or> r_Capture r) r"
    "calm t t'" "Capture t' \<longleftrightarrow> Capture t \<or> r_Capture r"
proof -
  let ?c = "if r_Capture r then t\<lparr>Capture := True\<rparr> else t"
  let ?t = "set_rule_vars r ?c"
  have q: "quiet ?c ?t" by (rule quiet_set_rule_vars)
  have "calm t ?c" using calm_Capture [of t True] quiet_calm [OF quiet_refl [of t]] by simp
  from calm_trans [OF this quiet_calm [OF q]] have c: "calm t ?t" .
  have cap: "Capture ?t \<longleftrightarrow> Capture t \<or> r_Capture r" using q by (auto simp: quiet_def split: if_splits)
  have rule: "policy_rule (rt_libs rt) (Capture ?t) r" using assms(1) cap by simp
  have none: "ruleRemoveTargetByID ?t (ID r) = []" using c assms(2) by (simp add: calm_def)
  have same: "rule_holds (rt_libs rt) (rt_ord rt) (variables ?t) (Capture ?t) r \<longleftrightarrow>
      rule_holds (rt_libs rt) (rt_ord rt) (variables t) (Capture t \<or> r_Capture r) r"
    using rule_holds_same [OF _ rule] c cap by (simp add: calm_def)
  have fin: "calm t u \<and> (Capture u \<longleftrightarrow> Capture t \<or> r_Capture r)" if "quiet ?t u" for u
    using calm_trans [OF c quiet_calm [OF that]] that cap by (simp add: quiet_def)
  show ?thesis
  proof (cases "r_operator r")
    case None
    obtain u where "rule_matchVariable rt waf r zero_MatchData ?t = Some u" "quiet ?t u"
      using rule_matchVariable_quiet [OF rule] by blast
    then show ?thesis
      using that [of "[zero_MatchData]" u] fin None by (simp add: matchRuleValues_def Let_def rule_holds_def)
  next
    case (Some op)
    then obtain P where P: "value_test (rt_libs rt) (Capture ?t) (o_Operator op) = Some P"
      using rule by (auto simp: policy_rule_def)
    have "collects ?t (foreach (r_variables r) (match_target rt waf r op []))
        (\<exists>rv\<in>set (r_variables r). \<exists>v\<in>set (target_values (rt_ord rt) rv (variables ?t)). P v \<noteq> o_Negation op)"
      by (rule collects_foreach, rule collects_match_target [OF rule P], erule policy_rule_targets [OF rule])
    from this [unfolded collects_def, rule_format, OF quiet_refl, of "[]"] obtain mvs u
      where u: "foreach (r_variables r) (match_target rt waf r op []) ([], ?t) = Some (mvs, u)" "quiet ?t u"
        "mvs \<noteq> [] \<longleftrightarrow> (\<exists>rv\<in>set (r_variables r). \<exists>v\<in>set (target_values (rt_ord rt) rv (variables ?t)). P v \<noteq> o_Negation op)"
      by auto
    have "matchRuleValues rt waf r t = Some (mvs, u)" using Some u(1) none by (simp add: matchRuleValues_def Let_def)
    moreover have "mvs \<noteq> [] \<longleftrightarrow> rule_holds (rt_libs rt) (rt_ord rt) (variables t) (Capture t \<or> r_Capture r) r"
      unfolding same [symmetric] u(3) by (simp add: rule_holds_def Some P)
    ultimately show ?thesis using that fin [OF u(2)] by blast
  qed
qed

lemma evalChain_policy:
  assumes "policy_chain (rt_libs rt) (Capture t) chain" "\<forall>r\<in>set chain. r_ParentID r \<noteq> 0" "ruleRemoveTargetByID t = (\<lambda>_. [])"
  shows "\<exists>res t'. evalChain rt waf chain t = Some (res, t') \<and> calm t t' \<and>
    (res \<noteq> None \<longleftrightarrow> chain_holds (rt_libs rt) (rt_ord rt) (variables t) (Capture t) chain)"
  using assms
proof (induction chain arbitrary: t)
  case Nil
  then show ?case by (simp add: quiet_calm)
next
  case (Cons r chain)
  have rule: "policy_rule (rt_libs rt) (Capture t \<or> r_Capture r) r" and rest: "policy_chain (rt_libs rt) (Capture t \<or> r_Capture r) chain"
    using Cons.prems(1) by simp_all
  obtain mvs u where u: "matchRuleValues rt waf r t = Some (mvs, u)"
    "mvs \<noteq> [] \<longleftrightarrow> rule_holds (rt_libs rt) (rt_ord rt) (variables t) (Capture t \<or> r_Capture r) r"
    "calm t u" "Capture u \<longleftrightarrow> Capture t \<or> r_Capture r"
    by (rule matchRuleValues_policy [OF rule Cons.prems(3)])
  have d: "doEvaluate rt waf r chain t = Some (mvs, u)" using u(1) Cons.prems(2) by (simp add: doEvaluate.simps)
  show ?case
  proof (cases "mvs = []")
    case True
    with d u show ?thesis by (simp add: evalChain.simps)
  next
    case False
    have "ruleRemoveTargetByID u = (\<lambda>_. [])" using u(3) Cons.prems(3) by (simp add: calm_def)
    with Cons.IH [of u] Cons.prems(2) rest u(4) obtain res t' where t': "evalChain rt waf chain u = Some (res, t')" "calm u t'"
      "res \<noteq> None \<longleftrightarrow> chain_holds (rt_libs rt) (rt_ord rt) (variables u) (Capture u) chain" by auto
    have "chain_holds (rt_libs rt) (rt_ord rt) (variables u) (Capture u) chain \<longleftrightarrow>
        chain_holds (rt_libs rt) (rt_ord rt) (variables t) (Capture t \<or> r_Capture r) chain"
      using chain_holds_same [OF _ rest] u(3,4) by (simp add: calm_def)
    with t' u False d calm_trans [OF u(3) t'(2)] show ?thesis by (auto simp: evalChain.simps)
  qed
qed

section \<open>The phase implements the policy\<close>

text \<open>What every rule of a policy leaves for the next one.\<close>

definition going :: "Transaction \<Rightarrow> Transaction \<Rightarrow> bool" where
  "going t t' \<longleftrightarrow> same_request t t' \<and> Skip t' = Skip t \<and> SkipAfter t' = SkipAfter t \<and> RuleEngine t' = RuleEngine t \<and>
     ruleRemoveByID t' = ruleRemoveByID t \<and> ruleRemoveTargetByID t' = ruleRemoveTargetByID t"

definition ready :: "Transaction \<Rightarrow> bool" where
  "ready t \<longleftrightarrow> ruleRemoveByID t = [] \<and> ruleRemoveTargetByID t = (\<lambda>_. []) \<and> Skip t = 0 \<and> SkipAfter t = [] \<and> \<not> Capture t"

definition matched_ids :: "Transaction \<Rightarrow> int list" where
  "matched_ids t = map (\<lambda>mr. ID (mr_Rule mr)) (matchedRules t)"

lemma going_trans: "going t1 t2 \<Longrightarrow> going t2 t3 \<Longrightarrow> going t1 t3"
  by (auto simp: going_def intro: same_request_trans)

lemma calm_going: "calm t t' \<Longrightarrow> going t t'"
  by (simp add: calm_def going_def no_verdict_def)

lemma calm_outcome: "calm t t' \<Longrightarrow> interruption t' = interruption t \<and> matched_ids t' = matched_ids t"
  by (simp add: calm_def no_verdict_def matched_ids_def)

lemma going_ready: "going t t' \<Longrightarrow> ready t \<Longrightarrow> \<not> Capture t' \<Longrightarrow> ready t'"
  by (simp add: going_def ready_def)

lemma disruptive_actions_policy_aux:
  assumes "\<forall>a\<in>set as. policy_action r a"
  shows "foreach (filter (\<lambda>a. action_Type a = ActionTypeDisruptive \<or> action_Type a = ActionTypeFlow) as) (action_Evaluate rt waf r) t =
    Some (case (if RuleEngine t = RuleEngineOn then last_verdict r as else None) of None \<Rightarrow> t | Some it \<Rightarrow> t\<lparr>interruption := Some it\<rparr>)"
  using assms
proof (induction as arbitrary: t)
  case (Cons a as)
  from Cons.prems have a: "policy_action r a" by simp
  show ?case
  proof (cases "action_verdict r a")
    case None
    with a have "foreach (filter (\<lambda>a. action_Type a = ActionTypeDisruptive \<or> action_Type a = ActionTypeFlow) (a # as)) (action_Evaluate rt waf r) t =
        foreach (filter (\<lambda>a. action_Type a = ActionTypeDisruptive \<or> action_Type a = ActionTypeFlow) as) (action_Evaluate rt waf r) t"
      by (cases a) (simp_all add: policy_action_def)
    with Cons None show ?thesis by (simp split: option.split)
  next
    case (Some it)
    then have "action_Type a = ActionTypeDisruptive" "action_Evaluate rt waf r a t = Some (Interrupt it t)"
      by (cases a, auto simp: disrupt_def)+
    with Cons Some show ?thesis by (auto simp: Interrupt_def split: option.split)
  qed
qed simp

lemma disruptive_actions_policy:
  assumes "policy_rule lb cap r"
  shows "disruptive_actions rt waf r t =
    Some (case (if RuleEngine t = RuleEngineOn then rule_verdict r else None) of None \<Rightarrow> t | Some it \<Rightarrow> t\<lparr>interruption := Some it\<rparr>)"
  using disruptive_actions_policy_aux [of "map a_Function (r_actions r)" r rt waf t] assms
  by (auto simp: disruptive_actions_def actions_of_def rule_verdict_def policy_rule_def list_all_iff)

lemma quiet_raise_severity: "quiet t (raise_severity r t)"
  by (auto simp: raise_severity_def engine_simple_def intro: quiet_intros)

lemma MatchRule_policy:
  "going t (MatchRule waf r mds t)" "interruption (MatchRule waf r mds t) = interruption t"
  "matched_ids (MatchRule waf r mds t) = matched_ids t @ [ID r]" "Capture (MatchRule waf r mds t) = Capture t"
  using quiet_raise_severity [of t r]
  by (auto simp: MatchRule_eq Let_def going_def quiet_def calm_def same_request_def no_verdict_def matched_ids_def matched_rule_def RuleMetadata.truncate_def)

lemma finish_parent_policy:
  assumes "policy_rule lb cap r"
  obtains t' where "finish_parent rt waf r mvs t = Some (mvs, t')" "going t t'"
    "interruption t' = (case (if RuleEngine t = RuleEngineOn then rule_verdict r else None) of None \<Rightarrow> interruption t | Some it \<Rightarrow> Some it)"
    "matched_ids t' = matched_ids t @ (if ID r \<noteq> 0 then [ID r] else [])"
proof -
  define u where "u = (case (if RuleEngine t = RuleEngineOn then rule_verdict r else None) of None \<Rightarrow> t | Some it \<Rightarrow> t\<lparr>interruption := Some it\<rparr>)"
  have u: "going t u" "matched_ids u = matched_ids t"
    "interruption u = (case (if RuleEngine t = RuleEngineOn then rule_verdict r else None) of None \<Rightarrow> interruption t | Some it \<Rightarrow> Some it)"
    by (simp_all add: u_def going_def same_request_def matched_ids_def split: option.split)
  have f: "finish_parent rt waf r mvs t = Some (mvs, if ID r \<noteq> 0 then MatchRule waf r mvs u else u)"
    using disruptive_actions_policy [OF assms, of rt waf t] by (simp add: finish_parent_def u_def)
  show ?thesis
  proof (cases "ID r = 0")
    case True
    with f u show ?thesis by (intro that [of u]) simp_all
  next
    case False
    with f u going_trans [OF u(1) MatchRule_policy(1)] show ?thesis
      by (intro that [of "MatchRule waf r mvs u"]) (simp_all add: MatchRule_policy)
  qed
qed

lemma doEvaluate_policy:
  assumes "chain_ok r chain" "policy_chain (rt_libs rt) (Capture t) (r # chain)" "ruleRemoveTargetByID t = (\<lambda>_. [])"
  defines "holds \<equiv> chain_holds (rt_libs rt) (rt_ord rt) (variables t) (Capture t) (r # chain)"
  shows "\<exists>mvs t'. doEvaluate rt waf r chain t = Some (mvs, t') \<and> going t t' \<and>
    interruption t' = (case (if holds \<and> RuleEngine t = RuleEngineOn then rule_verdict r else None) of None \<Rightarrow> interruption t | Some it \<Rightarrow> Some it) \<and>
    matched_ids t' = matched_ids t @ (if holds \<and> ID r \<noteq> 0 then [ID r] else [])"
proof -
  have rule: "policy_rule (rt_libs rt) (Capture t \<or> r_Capture r) r" and rest: "policy_chain (rt_libs rt) (Capture t \<or> r_Capture r) chain"
    using assms(2) by simp_all
  have top: "r_ParentID r = 0" and subs: "\<forall>c\<in>set chain. r_ParentID c \<noteq> 0" using assms(1) by (simp_all add: chain_ok_def)
  obtain mvs u where u: "matchRuleValues rt waf r t = Some (mvs, u)"
    "mvs \<noteq> [] \<longleftrightarrow> rule_holds (rt_libs rt) (rt_ord rt) (variables t) (Capture t \<or> r_Capture r) r"
    "calm t u" "Capture u \<longleftrightarrow> Capture t \<or> r_Capture r"
    by (rule matchRuleValues_policy [OF rule assms(3)])
  show ?thesis
  proof (cases "mvs = []")
    case True
    with u have "\<not> holds" by (simp add: holds_def)
    with u True show ?thesis using calm_going [OF u(3)] calm_outcome [OF u(3)] by (simp add: doEvaluate.simps)
  next
    case False
    have none: "ruleRemoveTargetByID u = (\<lambda>_. [])" using u(3) assms(3) by (simp add: calm_def)
    obtain res v where v: "evalChain rt waf chain u = Some (res, v)" "calm u v"
      "res \<noteq> None \<longleftrightarrow> chain_holds (rt_libs rt) (rt_ord rt) (variables u) (Capture u) chain"
      using evalChain_policy [OF rest [folded u(4)] subs none] by blast
    have tv: "calm t v" using u(3) v(2) by (rule calm_trans)
    have "same_request t u" using u(3) by (simp add: calm_def)
    then have h: "holds \<longleftrightarrow> res \<noteq> None"
      using v(3) u(2,4) False chain_holds_same [OF _ rest, of t u] by (simp add: holds_def)
    show ?thesis
    proof (cases res)
      case None
      with v u False top h show ?thesis using calm_going [OF tv] calm_outcome [OF tv] by (simp add: doEvaluate.simps)
    next
      case (Some cvs)
      obtain t' where t': "finish_parent rt waf r (mvs @ cvs) v = Some (mvs @ cvs, t')" "going v t'"
        "interruption t' = (case (if RuleEngine v = RuleEngineOn then rule_verdict r else None) of None \<Rightarrow> interruption v | Some it \<Rightarrow> Some it)"
        "matched_ids t' = matched_ids v @ (if ID r \<noteq> 0 then [ID r] else [])"
        by (rule finish_parent_policy [OF rule])
      have "doEvaluate rt waf r chain t = Some (mvs @ cvs, t')" using u(1) v(1) Some False top t'(1) by (simp add: doEvaluate.simps)
      moreover have "RuleEngine v = RuleEngine t" using tv by (simp add: calm_def)
      ultimately show ?thesis
        using t' h Some going_trans [OF calm_going [OF tv] t'(2)] calm_outcome [OF tv] by (simp split: option.split)
    qed
  qed
qed

lemma quiet_reset_matched: "quiet t (reset_matched t)"
  unfolding reset_matched_def by (intro quiet_intros) (simp_all add: engine_maps_def)

lemma rule_step_policy:
  fixes p :: RulePhase
  assumes "chain_ok (fst rc) (snd rc)" "policy_chain (rt_libs rt) False (fst rc # snd rc)" "ready t" "interruption t = None"
  defines "holds \<equiv> (Phase (fst rc) = p \<or> Phase (fst rc) = 0) \<and> chain_holds (rt_libs rt) (rt_ord rt) (variables t) False (fst rc # snd rc)"
  shows "\<exists>t'. rule_step rt waf p rc t = Some t' \<and> going t t' \<and> ready t' \<and>
    interruption t' = (if holds \<and> RuleEngine t = RuleEngineOn then rule_verdict (fst rc) else None) \<and>
    matched_ids t' = matched_ids t @ (if holds \<and> ID (fst rc) \<noteq> 0 then [ID (fst rc)] else [])"
proof (cases "Phase (fst rc) = p \<or> Phase (fst rc) = 0")
  case False
  then show ?thesis using assms(3,4) calm_going [OF quiet_calm [OF quiet_refl]] by (auto simp: rule_step_def Let_def holds_def)
next
  case True
  let ?u = "reset_matched t"
  have q: "quiet t ?u" by (rule quiet_reset_matched)
  then have c: "calm t ?u" and cap: "\<not> Capture ?u" and none: "ruleRemoveTargetByID ?u = (\<lambda>_. [])"
    using assms(3) by (simp_all add: quiet_def calm_def ready_def)
  have "chain_holds (rt_libs rt) (rt_ord rt) (variables ?u) (Capture ?u) (fst rc # snd rc) \<longleftrightarrow> holds"
    using chain_holds_same [OF _ assms(2), of t ?u] c cap True unfolding calm_def holds_def by simp
  moreover have "RuleEngine ?u = RuleEngine t" "interruption ?u = None" "matched_ids ?u = matched_ids t"
    using c assms(4) calm_outcome [OF c] by (simp_all add: calm_def)
  ultimately obtain mvs v where v: "doEvaluate rt waf (fst rc) (snd rc) ?u = Some (mvs, v)" "going ?u v"
    "interruption v = (if holds \<and> RuleEngine t = RuleEngineOn then rule_verdict (fst rc) else None)"
    "matched_ids v = matched_ids t @ (if holds \<and> ID (fst rc) \<noteq> 0 then [ID (fst rc)] else [])"
    using doEvaluate_policy [OF assms(1), of rt ?u waf] assms(2) cap none by (auto split: option.splits)
  have "rule_step rt waf p rc t = Some (v\<lparr>Capture := False\<rparr>)"
    using assms(3) True v(1) by (auto simp: rule_step_def Let_def ready_def)
  moreover have "going t (v\<lparr>Capture := False\<rparr>)"
    by (rule going_trans [OF going_trans [OF calm_going [OF c] v(2)] calm_going [OF calm_Capture]])
  moreover from going_ready [OF this assms(3)] have "ready (v\<lparr>Capture := False\<rparr>)" by simp
  ultimately show ?thesis using v(3,4) by (simp add: matched_ids_def)
qed

lemma policy_run_same:
  assumes "same_request t t'" "policy_rules lb rcs"
  shows "policy_run lb ord on p (variables t') rcs = policy_run lb ord on p (variables t) rcs"
  using assms(2)
proof (induction rcs)
  case (Cons rc rcs)
  then have "policy_chain lb False (fst rc # snd rc)" by (simp add: policy_rules_def)
  from chain_holds_same [OF assms(1) this] Cons show ?case
    by (simp add: policy_rules_def del: chain_holds.simps)
qed simp

lemma eval_rules_policy:
  assumes "policy_rules (rt_libs rt) rcs" "ready t" "interruption t = None" "p \<noteq> PhaseLogging"
  shows "\<exists>t'. eval_rules rt waf p rcs t = Some t' \<and> going t t' \<and> ready t' \<and>
    interruption t' = snd (policy_run (rt_libs rt) (rt_ord rt) (RuleEngine t = RuleEngineOn) p (variables t) rcs) \<and>
    matched_ids t' = matched_ids t @ fst (policy_run (rt_libs rt) (rt_ord rt) (RuleEngine t = RuleEngineOn) p (variables t) rcs)"
  using assms
proof (induction rcs arbitrary: t)
  case Nil
  then show ?case using calm_going [OF quiet_calm [OF quiet_refl]] by simp
next
  case (Cons rc rcs)
  let ?run = "\<lambda>t. policy_run (rt_libs rt) (rt_ord rt) (RuleEngine t = RuleEngineOn) p (variables t)"
  let ?holds = "(Phase (fst rc) = p \<or> Phase (fst rc) = 0) \<and> chain_holds (rt_libs rt) (rt_ord rt) (variables t) False (fst rc # snd rc)"
  have rules: "policy_rules (rt_libs rt) rcs" and rc: "chain_ok (fst rc) (snd rc)" "policy_chain (rt_libs rt) False (fst rc # snd rc)"
    using Cons.prems(1) by (simp_all add: policy_rules_def)
  obtain u where u: "rule_step rt waf p rc t = Some u" "going t u" "ready u"
    "interruption u = (if ?holds \<and> RuleEngine t = RuleEngineOn then rule_verdict (fst rc) else None)"
    "matched_ids u = matched_ids t @ (if ?holds \<and> ID (fst rc) \<noteq> 0 then [ID (fst rc)] else [])"
    using rule_step_policy [OF rc Cons.prems(2,3), where p = p and waf = waf] by blast
  have e: "eval_rules rt waf p (rc # rcs) t = eval_rules rt waf p rcs u" using u(1) Cons.prems(3) by simp
  show ?case
  proof (cases "interruption u")
    case None
    have "same_request t u" "RuleEngine u = RuleEngine t" using u(2) by (simp_all add: going_def)
    then have r: "?run u rcs = ?run t rcs" using policy_run_same [OF _ rules, of t u] by simp
    obtain t' where t': "eval_rules rt waf p rcs u = Some t'" "going u t'" "ready t'" "interruption t' = snd (?run u rcs)"
      "matched_ids t' = matched_ids u @ fst (?run u rcs)"
      using Cons.IH [OF rules u(3) None Cons.prems(4)] by blast
    have "?run t (rc # rcs) = ((if ?holds \<and> ID (fst rc) \<noteq> 0 then [ID (fst rc)] else []) @ fst (?run t rcs), snd (?run t rcs))"
      using u(4) None by (auto simp: Let_def split: prod.split option.split simp del: chain_holds.simps)
    with t' r e u(5) going_trans [OF u(2) t'(2)] show ?thesis by simp
  next
    case (Some it)
    then have "?run t (rc # rcs) = (if ID (fst rc) \<noteq> 0 then [ID (fst rc)] else [], Some it)" and h: "?holds"
      using u(4) by (auto simp: Let_def split: prod.split if_splits simp del: chain_holds.simps)
    moreover have "eval_rules rt waf p rcs u = Some u" using Some Cons.prems(4) by (simp add: eval_rules_interrupted)
    ultimately show ?thesis using e u Some by simp
  qed
qed

section \<open>Properties\<close>


subsection \<open>Witness\<close>

text \<open>A rule that only records (8), a rule that denies the URI \<open>/x\<close> (7) and a rule that denies everything (9).\<close>

definition policy_waf :: WAF where
  "policy_waf = waf0\<lparr>w_Rules :=
     [((uri_rule op_unconditionalMatch)\<lparr>ID := 8, r_actions := []\<rparr>, []),
      (uri_rule (op_streq \<lparr>mc_original = ''/x'', mc_tokens = [\<lparr>mt_text = ''/x'', mt_variable = None, mt_key = []\<rparr>]\<rparr>), []),
      ((uri_rule op_unconditionalMatch)\<lparr>ID := 9\<rparr>, [])]\<rparr>"


end
