(* ===== verification/Cache_Position.thy ===== *)
theory Cache_Position
  imports Policy
begin

text \<open>
  A consequence of the keys of the transformation cache (\<open>transformArg\<close>,
  src/internal/corazawaf/rule.go). The key of a cached value is the variable and key of the match, the
  position of the match in the list of the rule that asks, and the transformations. Two rules that
  select overlapping lists give one key to different values: the rule that comes second reads the
  first one's value. Rule_Build has the condition under which the cache is transparent; here is a
  configuration and a request where it is not, and where a rule that would deny the request lets it
  pass because of a rule before it that never matches.
\<close>

section \<open>Two rules and a request\<close>

text \<open>
  The rules are \<^verbatim>\<open>SecRule ARGS:a "@noMatch" "id:1,phase:2,t:lowercase"\<close> and
  \<^verbatim>\<open>SecRule ARGS_POST:a "@streq evil" "id:2,phase:2,t:lowercase,deny"\<close>; the request has
  \<^verbatim>\<open>a=y\<close> in its query and \<^verbatim>\<open>a=x&a=EVIL\<close> in its body.
\<close>

definition arg_rule :: "int \<Rightarrow> operator \<Rightarrow> RuleVariable \<Rightarrow> ruleActionParams list \<Rightarrow> Rule" where
  "arg_rule i op v as = (NewRule 2)\<lparr>ID := i, r_DisruptiveStatus := 403, r_variables := [(target_of v [])\<lparr>rv_KeyStr := ''a''\<rparr>],
     r_transformations := [\<lparr>t_Name = ''lowercase'', t_Function = lowerCase\<rparr>], r_transformationsID := 1,
     r_operator := Some \<lparr>o_Operator = op, o_Function = [], o_Data = [], o_Negation = False\<rparr>, r_actions := as\<rparr>"

definition observe_args :: ChainedRule where
  "observe_args = (arg_rule 1 op_noMatch Args [], [])"

definition deny_post :: ChainedRule where
  "deny_post = (arg_rule 2 (op_streq \<lparr>mc_original = ''evil'', mc_tokens = [\<lparr>mt_text = ''evil'', mt_variable = None, mt_key = []\<rparr>]\<rparr>) ArgsPost
     [\<lparr>a_Name = ''deny'', a_Param = [], a_Function = act_deny\<rparr>], [])"

definition both_tx :: Transaction where
  "both_tx = upd_col ArgsPost (\<lambda>m. Map_Set m ''a'' [''x'', ''EVIL'']) (upd_col ArgsGet (\<lambda>m. Map_Set m ''a'' [''y'']) blank_tx)"

definition args_of :: "Transaction \<Rightarrow> Map \<times> Map \<times> Map" where
  "args_of t = (col t ArgsGet, col t ArgsPost, col t ArgsPath)"

definition the_arg :: "RuleVariable \<Rightarrow> string \<Rightarrow> MatchData" where
  "the_arg v x = \<lparr>md_VariableName = variable_Name v, md_Variable = v, md_Key = ''a'', md_Value = x, md_Message = [], md_Data = []\<rparr>"

lemma both_tx_args:
  "args_of both_tx = ((NewMap ArgsGet)\<lparr>m_data := [(''a'', [\<lparr>av_Name = ''a'', av_Value = ''y''\<rparr>])]\<rparr>,
     (NewMap ArgsPost)\<lparr>m_data := [(''a'', [\<lparr>av_Name = ''a'', av_Value = ''x''\<rparr>, \<lparr>av_Name = ''a'', av_Value = ''EVIL''\<rparr>])]\<rparr>, NewMap ArgsPath)"
  by (simp add: args_of_def both_tx_def upd_col_def upd_map_def blank_tx_def NewTransactionVariables_def Map_Set_def Map_SetCS_def NewMap_def)

lemma GetField_args:
  assumes "args_of t = args_of both_tx"
  shows "GetField ord ((target_of ArgsPost [])\<lparr>rv_KeyStr := ''a''\<rparr>) t = Some [the_arg ArgsPost ''x'', the_arg ArgsPost ''EVIL'']"
    "GetField ord ((target_of Args [])\<lparr>rv_KeyStr := ''a''\<rparr>) t = Some [the_arg ArgsGet ''y'', the_arg ArgsPost ''x'', the_arg ArgsPost ''EVIL'']"
  using assms [unfolded both_tx_args]
  by (simp_all add: args_of_def GetField_def target_of_def tx_Collection_def simple_variables_def map_variables_def args_proxy_def NewProxy_def
      find_matches_def Let_def excepted_def Proxy_FindString_def Map_FindString_def anchored_match_def NewMap_def the_arg_def)

lemma arg_rule_sel [simp]:
  "ID (arg_rule i op v as) = i" "Phase (arg_rule i op v as) = 2" "r_Capture (arg_rule i op v as) = False"
  "r_MultiMatch (arg_rule i op v as) = False" "r_ParentID (arg_rule i op v as) = 0"
  "r_variables (arg_rule i op v as) = [(target_of v [])\<lparr>rv_KeyStr := ''a''\<rparr>]"
  "r_transformations (arg_rule i op v as) = [\<lparr>t_Name = ''lowercase'', t_Function = lowerCase\<rparr>]"
  "r_transformationsID (arg_rule i op v as) = 1" "r_Msg (arg_rule i op v as) = None" "r_LogData (arg_rule i op v as) = None"
  "r_operator (arg_rule i op v as) = Some \<lparr>o_Operator = op, o_Function = [], o_Data = [], o_Negation = False\<rparr>"
  "actions_of p (arg_rule i op v as) = filter (\<lambda>a. p (action_Type a)) (map a_Function as)"
  by (simp_all add: arg_rule_def NewRule_def actions_of_def)

lemma transform_arg:
  assumes "md_Variable m = v" "md_VariableName m \<noteq> ''TX''" "md_Key m = ''a''"
  shows "transformArg (arg_rule i op w as) m n c =
    (let k = \<lparr>ck_argKey = ''a'', ck_argIndex = n, ck_argVariable = v, ck_transformationsID = 1\<rparr> in
     case c k of Some cv \<Rightarrow> Some ((cv_args cv, cv_errs cv), c)
     | None \<Rightarrow> Some (([ToLower (md_Value m)], []), c(k \<mapsto> \<lparr>cv_args = [ToLower (md_Value m)], cv_errs = []\<rparr>)))"
  using assms by (simp add: transformArg_def cache_key_def lowerCase_def Let_def split: option.split)

lemma the_arg_sel [simp]:
  "md_Variable (the_arg v x) = v" "md_Key (the_arg v x) = ''a''" "md_Value (the_arg v x) = x" "md_VariableName (the_arg v x) = variable_Name v"
  by (simp_all add: the_arg_def)

lemma lower_args: "ToLower ''x'' = ''x''" "ToLower ''y'' = ''y''" "ToLower ''EVIL'' = ''evil''"
  by code_simp+

definition args_key :: "RuleVariable \<Rightarrow> nat \<Rightarrow> transformationKey" where
  "args_key v n = \<lparr>ck_argKey = ''a'', ck_argIndex = n, ck_argVariable = v, ck_transformationsID = 1\<rparr>"

lemma no_TX: "variable_Name ArgsGet \<noteq> ''TX''" "variable_Name ArgsPost \<noteq> ''TX''"
  by (simp_all add: variable_Name_def rulemap_def)

lemma args_of_quiet: "same_request t t' \<Longrightarrow> args_of t' = args_of t"
  by (simp add: args_of_def same_request_def engine_maps_def)

lemma observe_step:
  assumes "args_of t = args_of both_tx" "ready t" "transformationCache t = (\<lambda>_. None)"
  shows "\<exists>t'. rule_step rt0 waf 2 observe_args t = Some t' \<and> calm t t' \<and> ready t' \<and> transformationCache t' (args_key ArgsPost 1) = Some \<lparr>cv_args = [''x''], cv_errs = []\<rparr> \<and>
    transformationCache t' (args_key ArgsPost 0) = None"
proof -
  let ?r = "arg_rule 1 op_noMatch Args []"
  let ?t = "set_rule_vars ?r (reset_matched t)"
  have q: "quiet t ?t" by (rule quiet_trans [OF quiet_reset_matched quiet_set_rule_vars])
  then have a: "args_of ?t = args_of both_tx" using args_of_quiet [of t ?t] assms(1) by (simp add: quiet_def calm_def)
  have c: "transformationCache ?t = (\<lambda>_. None)" "ruleRemoveTargetByID ?t = (\<lambda>_. [])"
    using assms q by (simp_all add: set_rule_vars_fields reset_matched_def upd_col_def ready_def quiet_def calm_def)
  have w: "with_removed_targets [] v = v" for v by (simp add: with_removed_targets_def)
  obtain u where u: "matchRuleValues rt0 waf ?r (reset_matched t) = Some ([], ?t\<lparr>transformationCache := u\<rparr>)"
    "u (args_key ArgsPost 1) = Some \<lparr>cv_args = [''x''], cv_errs = []\<rparr>" "u (args_key ArgsPost 0) = None"
    using GetField_args [OF a] c w
    by (simp add: matchRuleValues_def Let_def match_target_def rt0_def match_arg_def transform_arg no_TX match_value_def executeOperator_def lower_args args_key_def)
  let ?t' = "?t\<lparr>transformationCache := u, Capture := False\<rparr>"
  have "rule_step rt0 waf 2 observe_args t = Some ?t'"
    using assms(2) u(1) by (simp add: observe_args_def rule_step_def doEvaluate.simps Let_def ready_def)
  moreover have "calm t ?t'" using q by (simp add: quiet_def calm_def same_request_def no_verdict_def)
  moreover from this have "ready ?t'" by (intro going_ready [OF calm_going assms(2)]) simp_all
  ultimately show ?thesis using u(2,3) by simp
qed

lemma deny_post_match:
  assumes "args_of t = args_of both_tx" "ready t" "transformationCache t (args_key ArgsPost 0) = None"
    and "transformationCache t (args_key ArgsPost 1) \<in> {None, Some \<lparr>cv_args = [''x''], cv_errs = []\<rparr>}"
  obtains mvs u where "matchRuleValues rt0 waf (fst deny_post) t = Some (mvs, u)" "calm t u"
    "mvs \<noteq> [] \<longleftrightarrow> transformationCache t (args_key ArgsPost 1) = None"
proof -
  let ?t = "set_rule_vars (fst deny_post) t"
  have q: "quiet t ?t" by (rule quiet_set_rule_vars)
  then have a: "args_of ?t = args_of both_tx" using args_of_quiet [of t ?t] assms(1) by (simp add: quiet_def calm_def)
  have c: "transformationCache ?t = transformationCache t" "ruleRemoveTargetByID ?t = (\<lambda>_. [])"
    using assms q by (simp_all add: set_rule_vars_fields ready_def quiet_def calm_def)
  have w: "with_removed_targets [] v = v" for v by (simp add: with_removed_targets_def)
  have cc: "calm t (?t\<lparr>transformationCache := x\<rparr>)" "calm t (tx_matchVariable m (?t\<lparr>transformationCache := x\<rparr>))" for x m
  proof -
    show "calm t (?t\<lparr>transformationCache := x\<rparr>)" using q by (simp add: quiet_def calm_def same_request_def no_verdict_def)
    from calm_trans [OF this quiet_calm [OF quiet_tx_matchVariable]] show "calm t (tx_matchVariable m (?t\<lparr>transformationCache := x\<rparr>))" .
  qed
  let ?c = "(transformationCache t)(args_key ArgsPost 0 \<mapsto> \<lparr>cv_args = [''x''], cv_errs = []\<rparr>)"
  note sim = deny_post_def matchRuleValues_def Let_def match_target_def rt0_def match_arg_def transform_arg no_TX match_value_def
      executeOperator_def lower_args args_key_def rule_matchVariable_def Expand_def expandToken_def
  show ?thesis
  proof (cases "transformationCache t (args_key ArgsPost 1)")
    case None
    have "\<exists>m m'. matchRuleValues rt0 waf (fst deny_post) t =
        Some ([m], tx_matchVariable m' (?t\<lparr>transformationCache := ?c(args_key ArgsPost 1 \<mapsto> \<lparr>cv_args = [''evil''], cv_errs = []\<rparr>)\<rparr>))"
      using GetField_args [OF a] c w assms(3) None by (simp add: sim) blast
    then show ?thesis using that [OF _ cc(2)] None by blast
  next
    case (Some cv)
    then have "matchRuleValues rt0 waf (fst deny_post) t = Some ([], ?t\<lparr>transformationCache := ?c\<rparr>)"
      using GetField_args [OF a] c w assms(3,4) by (simp add: sim)
    from that [OF this cc(1)] Some show ?thesis by simp
  qed
qed

lemma deny_post_step:
  assumes "args_of t = args_of both_tx" "ready t" "RuleEngine t = RuleEngineOn" "interruption t = None"
    and "transformationCache t (args_key ArgsPost 0) = None"
    and "transformationCache t (args_key ArgsPost 1) \<in> {None, Some \<lparr>cv_args = [''x''], cv_errs = []\<rparr>}"
  shows "\<exists>t'. rule_step rt0 waf 2 deny_post t = Some t' \<and> (interruption t' \<noteq> None \<longleftrightarrow> transformationCache t (args_key ArgsPost 1) = None)"
proof -
  let ?r = "fst deny_post" and ?t = "reset_matched t"
  have q: "calm t ?t" by (rule quiet_calm [OF quiet_reset_matched])
  have "args_of ?t = args_of both_tx" "ready ?t" "transformationCache ?t = transformationCache t"
    using assms(1,2) args_of_quiet [of t ?t] q quiet_reset_matched [of t]
    by (simp_all add: calm_def ready_def no_verdict_def quiet_def) (simp add: reset_matched_def upd_col_def)
  with assms(5,6) obtain mvs u where u: "matchRuleValues rt0 waf ?r ?t = Some (mvs, u)" "calm ?t u"
    "mvs \<noteq> [] \<longleftrightarrow> transformationCache t (args_key ArgsPost 1) = None"
    by (metis deny_post_match)
  have c: "RuleEngine u = RuleEngineOn" "interruption u = None"
    using calm_trans [OF q u(2)] assms(3,4) by (simp_all add: calm_def no_verdict_def)
  have r: "snd deny_post = []" "r_ParentID ?r = 0" "ID ?r = 2" "Phase ?r = 2"
    "actions_of (\<lambda>t. t = ActionTypeDisruptive \<or> t = ActionTypeFlow) ?r = [act_deny]" by (simp_all add: deny_post_def)
  show ?thesis
  proof (cases "mvs = []")
    case True
    then have "rule_step rt0 waf 2 deny_post t = Some (u\<lparr>Capture := False\<rparr>)"
      using assms(2) u(1) r by (simp add: rule_step_def doEvaluate.simps Let_def ready_def)
    with True u(3) c show ?thesis by simp
  next
    case False
    then have "\<exists>it. rule_step rt0 waf 2 deny_post t = Some (MatchRule waf ?r mvs (u\<lparr>interruption := Some it\<rparr>)\<lparr>Capture := False\<rparr>)"
      using assms(2) u(1) r c by (simp add: rule_step_def doEvaluate.simps Let_def ready_def finish_parent_def disruptive_actions_def disrupt_def Interrupt_def) blast
    with False u(3) show ?thesis by (auto simp: MatchRule_policy(2))
  qed
qed

text \<open>
  The second rule alone interrupts the request. Behind the first rule, which selects the same
  arguments at other positions and never matches, it does not: the value at position 1 of
  \<^verbatim>\<open>ARGS_POST:a\<close> is taken for the one that the first rule found at position 1 of
  \<^verbatim>\<open>ARGS:a\<close>.
\<close>

theorem cached_position_bypass:
  "(\<exists>t. Eval rt0 (waf0\<lparr>w_Rules := [deny_post]\<rparr>) 2 both_tx = Some (True, t)) \<and>
   (\<exists>t. Eval rt0 (waf0\<lparr>w_Rules := [observe_args, deny_post]\<rparr>) 2 both_tx = Some (False, t))"
proof (intro conjI)
  let ?t = "start_phase 2 both_tx" and ?w = "waf0\<lparr>w_Rules := [observe_args, deny_post]\<rparr>"
  have t: "args_of ?t = args_of both_tx" "ready ?t" "RuleEngine ?t = RuleEngineOn" "interruption ?t = None" "transformationCache ?t = (\<lambda>_. None)"
    by (simp_all add: start_phase_def args_of_def both_tx_def blank_tx_def upd_col_def ready_def)
  show "\<exists>t. Eval rt0 (waf0\<lparr>w_Rules := [deny_post]\<rparr>) 2 both_tx = Some (True, t)"
    using deny_post_step [OF t(1-4), of "waf0\<lparr>w_Rules := [deny_post]\<rparr>"] t(4,5) by (auto simp: Eval_def)
  obtain u where u: "rule_step rt0 ?w 2 observe_args ?t = Some u" "calm ?t u" "ready u"
    "transformationCache u (args_key ArgsPost 1) = Some \<lparr>cv_args = [''x''], cv_errs = []\<rparr>" "transformationCache u (args_key ArgsPost 0) = None"
    using observe_step [OF t(1,2,5)] by blast
  have "args_of u = args_of both_tx" "RuleEngine u = RuleEngineOn" "interruption u = None"
    using u(2) t args_of_quiet [of ?t u] by (simp_all add: calm_def no_verdict_def)
  then obtain v where "rule_step rt0 ?w 2 deny_post u = Some v" "interruption v = None"
    using deny_post_step [OF _ u(3), of ?w] u(4,5) by auto
  with u(1) t(4) \<open>interruption u = None\<close> show "\<exists>t. Eval rt0 ?w 2 both_tx = Some (False, t)" by (simp add: Eval_def)
qed

end
