(* ===== verification/Liveness.thy ===== *)
theory Liveness
  imports Rule_Group
begin

text \<open>
  Every phase answers. A panic in a transformation, an operator, an action or the selection of values would
  end the request without a verdict; here are conditions on the rules, on the libraries behind their operators and
  on the transaction that exclude every one of them, so that the evaluation of a phase returns for every request.
\<close>

section \<open>Rules that cannot panic\<close>

text \<open>
  What the operators rely on: a matcher reports positions inside the value, and a regular expression that
  matches has a submatch for each of its names. The Chilean identifier check can panic.
\<close>

fun safe_operator :: "operator \<Rightarrow> bool" where
  "safe_operator (op_pm matcher) \<longleftrightarrow> (\<forall>v. \<forall>(a, b)\<in>set (matcher v). a \<le> b \<and> b \<le> length v)"
| "safe_operator (op_restpath re) \<longleftrightarrow> (\<forall>v. FindStringSubmatch re v \<noteq> [] \<longrightarrow> length (SubexpNames re) \<le> length (FindStringSubmatch re v))"
| "safe_operator (op_validateNid fn re) \<longleftrightarrow> fn = NidUs \<and> (\<forall>v n. [] \<notin> set (FindAllStringSubmatch re v n))"
| "safe_operator _ \<longleftrightarrow> True"

definition safe_setvar :: "setvarFn \<Rightarrow> bool" where
  "safe_setvar s \<longleftrightarrow> sv_key s \<noteq> None \<and> sv_value s \<noteq> None \<and> map_tag (sv_collection s) \<noteq> None"

definition removes_targets :: "action \<Rightarrow> bool" where
  "removes_targets a \<longleftrightarrow> (case a of
     act_ctl c \<Rightarrow> ctl_action c \<in> {ctlRuleRemoveTargetByID, ctlRuleRemoveTargetByTag, ctlRuleRemoveTargetByMsg} | _ \<Rightarrow> False)"

definition safe_action :: "runtime \<Rightarrow> WAF \<Rightarrow> Rule \<Rightarrow> action \<Rightarrow> bool" where
  "safe_action rt waf r a \<longleftrightarrow> \<not> removes_targets a \<and>
     (case a of
        act_append _ \<Rightarrow> \<not> rt_tiny rt \<or> \<not> w_ContentInjection waf
      | act_prepend _ \<Rightarrow> \<not> rt_tiny rt \<or> \<not> w_ContentInjection waf
      | act_setvar s \<Rightarrow> safe_setvar s
      | act_logdata \<Rightarrow> r_LogData r \<noteq> None
      | _ \<Rightarrow> True)"

definition safe_rule :: "runtime \<Rightarrow> WAF \<Rightarrow> Rule \<Rightarrow> bool" where
  "safe_rule rt waf r \<longleftrightarrow>
     (\<forall>t\<in>set (r_transformations r). \<forall>v. t_Function t v \<noteq> None) \<and>
     (case r_operator r of None \<Rightarrow> True | Some op \<Rightarrow> safe_operator (o_Operator op)) \<and>
     (\<forall>rv\<in>set (r_variables r). length (rv_Exceptions rv) \<le> 1) \<and>
     (\<forall>a\<in>rule_actions r. safe_action rt waf r a)"

section \<open>Each step answers\<close>

lemma foreach_answers:
  assumes "P s" "\<And>x s. x \<in> set xs \<Longrightarrow> P s \<Longrightarrow> \<exists>s'. f x s = Some s' \<and> P s'"
  shows "\<exists>s'. foreach xs f s = Some s' \<and> P s'"
  using assms
proof (induction xs arbitrary: s)
  case (Cons x xs)
  obtain u where "f x s = Some u" "P u" using Cons.prems by fastforce
  moreover obtain s' where "foreach xs f u = Some s'" "P s'" using Cons.IH [OF \<open>P u\<close>] Cons.prems(2) by auto
  ultimately show ?case by simp
qed simp

lemma pm_capture_answers:
  "\<forall>(a, b)\<in>set ms. a \<le> b \<and> b \<le> length v \<Longrightarrow> \<exists>b t'. pm_capture n v ms t = Some (b, t')"
  by (induction n v ms t rule: pm_capture.induct) (auto simp: slice_def Let_def)

lemma restpath_args_answers: "i + length ms \<le> length match \<Longrightarrow> \<exists>t'. restpath_args i ms match t = Some t'"
  by (induction i ms match t rule: restpath_args.induct) auto

lemma validateNid_answers: "[] \<notin> set ms \<Longrightarrow> \<exists>b t'. validateNidEvaluate NidUs i ms res t = Some (b, t')"
  by (induction NidUs i ms res t rule: validateNidEvaluate.induct) (auto split: list.splits)

lemma operator_answers:
  assumes "safe_operator op"
  shows "\<exists>b t'. operator_Evaluate lb op t v = Some (b, t')"
proof (cases op)
  case (op_pm matcher)
  then show ?thesis using assms pm_capture_answers [of "matcher v" v 0 t] by (auto simp: pmEvaluate_def)
next
  case (op_restpath re)
  then show ?thesis
    using assms restpath_args_answers [of 0 "SubexpNames re" "FindStringSubmatch re v" t] by (auto simp: restpathEvaluate_def Let_def)
next
  case (op_validateNid fn re)
  then show ?thesis using assms validateNid_answers by auto
qed (auto intro: prod.exhaust)

lemma Write_answers: "\<exists>n err b'. Write False os d b = Some (n, err, b')"
  by (auto simp: Write_def spill_def Let_def split: option.splits prod.splits)

lemma io_Copy_answers: "\<exists>n err b'. io_Copy False os d b = Some (n, err, b')"
proof (induction False os d b rule: io_Copy.induct)
  case (1 os d b)
  then show ?case using Write_answers [of os "take 32768 d" b] by (subst io_Copy.simps) (fastforce simp: Let_def)
qed

lemma setvar_answers:
  assumes "safe_setvar s"
  shows "\<exists>t'. setvar_Evaluate s t = Some t'"
proof -
  from assms obtain k v c where "sv_key s = Some k" "sv_value s = Some v" "map_tag (sv_collection s) = Some c"
    by (auto simp: safe_setvar_def)
  then show ?thesis
    by (cases "setvar_value (Expand (variables t) v) (first_or (Map_Get (col t c) (ToLower (Expand (variables t) k))) [])")
      (simp_all add: setvar_Evaluate_def evaluateTxCollection_def Let_def)
qed

lemma action_answers:
  assumes "safe_action rt waf r a"
  shows "\<exists>t'. action_Evaluate rt waf r a t = Some t'"
proof (cases a)
  case (act_append m)
  then show ?thesis
    using assms Write_answers [of "rt_os rt" "Expand (variables t) m" "ResponseBodyBuffer t"]
    by (auto simp: safe_action_def append_Evaluate_def)
next
  case (act_prepend m)
  let ?b = "NewBodyBuffer \<lparr>TmpPath = w_TmpDir waf, MemoryLimit = w_RequestBodyInMemoryLimit waf\<rparr>"
  obtain n err b where w: "Write False (rt_os rt) (Expand (variables t) m) ?b = Some (n, err, b)" using Write_answers by blast
  obtain n err b' where "io_Copy False (rt_os rt) (reader_content False (ResponseBodyBuffer t)) b = Some (n, err, b')" using io_Copy_answers by blast
  with act_prepend assms w show ?thesis by (cases "w_ContentInjection waf") (simp_all add: safe_action_def prepend_Evaluate_def)
next
  case (act_setvar s)
  then show ?thesis using assms setvar_answers by (simp add: safe_action_def)
qed (use assms in \<open>auto simp: safe_action_def\<close>)

text \<open>No action of a safe rule touches the list of removed targets.\<close>

definition targets_kept :: "Transaction \<Rightarrow> Transaction \<Rightarrow> bool" where
  "targets_kept t t' \<longleftrightarrow> ruleRemoveTargetByID t' = ruleRemoveTargetByID t"

lemma targets_kept_fold: "ruleRemoveTargetByID (fold (\<lambda>x. RemoveRuleByID (f x)) xs t) = ruleRemoveTargetByID t"
  by (induction xs arbitrary: t) (simp_all add: RemoveRuleByID_def)

lemma targets_kept_simps [simp]: "targets_kept t t" "targets_kept t (upd_col v f t)" "targets_kept t (Interrupt it t)"
  "targets_kept t (t\<lparr>Logdata := s\<rparr>)" "targets_kept t (t\<lparr>AuditCleared := ps\<rparr>)" "targets_kept t (t\<lparr>Skip := n\<rparr>)" "targets_kept t (t\<lparr>SkipAfter := s\<rparr>)"
  by (simp_all add: targets_kept_def upd_col_def Interrupt_def)

lemma targets_kept_setvar: "setvar_Evaluate s t = Some t' \<Longrightarrow> targets_kept t t'"
proof -
  assume "setvar_Evaluate s t = Some t'"
  then obtain k v where "evaluateTxCollection s k v t = Some t'" by (auto simp: setvar_Evaluate_def Let_def)
  then show ?thesis by (auto simp: evaluateTxCollection_def Let_def split: option.splits if_splits)
qed

lemma targets_kept_action:
  assumes "\<not> removes_targets a" "action_Evaluate rt waf r a t = Some t'"
  shows "targets_kept t t'"
proof (cases a)
  case (act_ctl c)
  with assms show ?thesis
    by (cases "ctl_action c")
      (auto simp: removes_targets_def targets_kept_def ctl_Evaluate_def Let_def targets_kept_fold RemoveRuleByID_def set_var_def
        split: sum.split option.split prod.split)
next
  case (act_append m)
  with assms show ?thesis by (auto simp: append_Evaluate_def targets_kept_def split: if_splits)
next
  case (act_prepend m)
  with assms show ?thesis by (auto simp: prepend_Evaluate_def targets_kept_def Let_def split: if_splits)
qed (use assms targets_kept_setvar in \<open>auto simp: Let_def disrupt_def split: option.splits\<close>)

interpretation targets: step_relation targets_kept "\<lambda>a. \<not> removes_targets a" rt waf for rt waf
proof unfold_locales
  show "only_vars t1 t2 \<Longrightarrow> targets_kept t1 t2" for t1 t2 by (erule only_vars_cases) (simp add: targets_kept_def)
  show "\<not> removes_targets a \<Longrightarrow> action_Evaluate rt waf r a t = Some t' \<Longrightarrow> targets_kept t t'" for a r t t'
    by (rule targets_kept_action)
qed (simp_all add: targets_kept_def)

lemma actions_answer:
  assumes "safe_rule rt waf r"
  shows "\<exists>t'. foreach (actions_of p r) (action_Evaluate rt waf r) t = Some t'"
  using foreach_answers [of "\<lambda>_. True" t "actions_of p r" "action_Evaluate rt waf r"] action_answers assms
  by (auto simp: safe_rule_def actions_of_iff)

lemma safe_nondisruptive: "safe_rule rt waf r \<Longrightarrow> nondisruptive_ok (\<lambda>a. \<not> removes_targets a) r"
  by (simp add: safe_rule_def nondisruptive_ok_def safe_action_def)

lemma executeTransformations_answers:
  "\<forall>t\<in>set ts. \<forall>v. t_Function t v \<noteq> None \<Longrightarrow> \<exists>w errs. executeTransformations ts v = Some (w, errs)"
proof (induction ts arbitrary: v)
  case (Cons t ts)
  then obtain w err where "t_Function t v = Some (w, err)" by fastforce
  with Cons show ?case by (cases err) fastforce+
qed simp

lemma multimatch_answers:
  "\<forall>t\<in>set ts. \<forall>v. t_Function t v \<noteq> None \<Longrightarrow> \<exists>ws errs. multimatch_loop ts v = Some (ws, errs)"
proof (induction ts arbitrary: v)
  case (Cons t ts)
  then obtain w err where t: "t_Function t v = Some (w, err)" by fastforce
  from Cons obtain ws errs where "multimatch_loop ts w = Some (ws, errs)" by fastforce
  with t show ?case by (cases err) simp_all
qed simp

lemma transformArg_answers:
  assumes "safe_rule rt waf r"
  shows "\<exists>args errs c'. transformArg r arg i c = Some ((args, errs), c')"
proof -
  have ts: "\<forall>t\<in>set (r_transformations r). \<forall>v. t_Function t v \<noteq> None" using assms by (simp add: safe_rule_def)
  show ?thesis
    using executeTransformations_answers [OF ts, of "md_Value arg"] multimatch_answers [OF ts, of "md_Value arg"]
    by (auto simp: transformArg_def executeTransformationsMultimatch_def split: option.split)
qed

lemma match_value_answers:
  assumes "safe_rule rt waf r" "r_operator r = Some op"
  shows "\<exists>s'. match_value rt waf r op v arg carg s = Some s'"
proof -
  obtain mvs t where s: "s = (mvs, t)" by fastforce
  from assms have "safe_operator (o_Operator op)" by (simp add: safe_rule_def)
  from operator_answers [OF this] obtain b t1 where "operator_Evaluate (rt_libs rt) (o_Operator op) t carg = Some (b, t1)" by blast
  moreover have "\<exists>t'. rule_matchVariable rt waf r m t = Some t'" for m t
    using actions_answer [OF assms(1)] by (simp add: rule_matchVariable_def)
  ultimately show ?thesis unfolding s match_value_def executeOperator_def Let_def by fastforce
qed

lemma match_arg_answers:
  assumes "safe_rule rt waf r" "r_operator r = Some op"
  shows "\<exists>s'. match_arg rt waf r op v ia s = Some s'"
proof -
  obtain mvs t i arg where s: "s = (mvs, t)" "ia = (i, arg)" by fastforce
  obtain args errs c where "transformArg r arg i (transformationCache t) = Some ((args, errs), c)"
    using transformArg_answers [OF assms(1)] by blast
  with foreach_answers [of "\<lambda>_. True" _ args "match_value rt waf r op v arg"] match_value_answers [OF assms] show ?thesis
    by (auto simp: s match_arg_def)
qed

lemma match_target_answers:
  assumes "safe_rule rt waf r" "r_operator r = Some op" "rv \<in> set (r_variables r)"
  shows "\<exists>s'. match_target rt waf r op [] rv s = Some s'"
proof -
  obtain mvs t where s: "s = (mvs, t)" by fastforce
  have rv: "with_removed_targets [] rv = rv" "length (rv_Exceptions rv) \<le> 1"
    using assms(1,3) by (simp_all add: with_removed_targets_def safe_rule_def)
  have "length (excepted (rv_Exceptions rv) m) \<le> 1" for m
    using rv(2) length_filter_le order_trans unfolding excepted_def by blast
  then have "\<exists>ms. GetField (rt_ord rt) rv t = Some ms"
    using remove_matches [of _ "rv_Exceptions rv" "[]" 0] by (auto simp: GetField_def Let_def split: option.split)
  then show ?thesis
    using foreach_answers [of "\<lambda>_. True" s _ "match_arg rt waf r op rv"] match_arg_answers [OF assms(1,2)]
    by (auto simp: s match_target_def rv(1))
qed

lemma matchRuleValues_answers:
  assumes "safe_rule rt waf r" "ruleRemoveTargetByID t = (\<lambda>_. [])"
  shows "\<exists>mvs t'. matchRuleValues rt waf r t = Some (mvs, t') \<and> targets_kept t t'"
proof -
  let ?t = "set_rule_vars r (if r_Capture r then t\<lparr>Capture := True\<rparr> else t)"
  have e: "ruleRemoveTargetByID ?t (ID r) = []" using assms(2) by (simp add: set_rule_vars_fields)
  have "\<exists>res. matchRuleValues rt waf r t = Some res"
  proof (cases "r_operator r")
    case None
    then show ?thesis using actions_answer [OF assms(1)] by (auto simp: matchRuleValues_def Let_def rule_matchVariable_def)
  next
    case (Some op)
    then show ?thesis
      using foreach_answers [of "\<lambda>_. True" "([], ?t)" "r_variables r" "match_target rt waf r op []"] match_target_answers [OF assms(1) Some] e
      by (auto simp: matchRuleValues_def Let_def)
  qed
  then show ?thesis using targets.R_matchRuleValues safe_nondisruptive [OF assms(1)] by fastforce
qed

lemma evalChain_answers:
  assumes "\<forall>r\<in>set chain. safe_rule rt waf r \<and> r_ParentID r \<noteq> 0" "ruleRemoveTargetByID t = (\<lambda>_. [])"
  shows "\<exists>res t'. evalChain rt waf chain t = Some (res, t')"
  using assms
proof (induction chain arbitrary: t)
  case (Cons r chain)
  then obtain mvs u where u: "matchRuleValues rt waf r t = Some (mvs, u)" "targets_kept t u"
    using matchRuleValues_answers [of rt waf r t] by auto
  then have "doEvaluate rt waf r chain t = Some (mvs, u)" using Cons.prems(1) by (simp add: doEvaluate.simps)
  moreover have "ruleRemoveTargetByID u = (\<lambda>_. [])" using u(2) Cons.prems(2) by (simp add: targets_kept_def)
  ultimately show ?case using Cons.IH [of u] Cons.prems(1) by (auto simp: evalChain.simps)
qed simp

lemma doEvaluate_answers:
  assumes "\<forall>q\<in>set (r # chain). safe_rule rt waf q" "chain_ok r chain" "ruleRemoveTargetByID t = (\<lambda>_. [])"
  shows "\<exists>mvs t'. doEvaluate rt waf r chain t = Some (mvs, t') \<and> targets_kept t t'"
proof -
  obtain mvs u where u: "matchRuleValues rt waf r t = Some (mvs, u)" "targets_kept t u"
    using matchRuleValues_answers [of rt waf r t] assms by auto
  then have "ruleRemoveTargetByID u = (\<lambda>_. [])" using assms(3) by (simp add: targets_kept_def)
  then obtain res v where v: "evalChain rt waf chain u = Some (res, v)"
    using evalChain_answers [of chain rt waf u] assms(1,2) by (auto simp: chain_ok_def)
  have "\<exists>t'. disruptive_actions rt waf r v = Some t'"
    using actions_answer [of rt waf r] assms(1) by (simp add: disruptive_actions_def)
  with u v have "\<exists>res. doEvaluate rt waf r chain t = Some res"
    by (cases res) (auto simp: doEvaluate.simps finish_parent_def)
  moreover have "\<forall>q\<in>set (r # chain). \<forall>a\<in>rule_actions q. \<not> removes_targets a" using assms(1) by (auto simp: safe_rule_def safe_action_def)
  ultimately show ?thesis using targets.R_doEvaluate by fastforce
qed

lemma rule_step_answers:
  assumes "\<forall>q\<in>set (fst rc # snd rc). safe_rule rt waf q" "chain_ok (fst rc) (snd rc)" "ruleRemoveTargetByID t = (\<lambda>_. [])"
  shows "\<exists>t'. rule_step rt waf p rc t = Some t' \<and> ruleRemoveTargetByID t' = (\<lambda>_. [])"
proof -
  have "ruleRemoveTargetByID (reset_matched t) = (\<lambda>_. [])" using assms(3) by (simp add: reset_matched_def upd_col_def)
  from doEvaluate_answers [OF assms(1,2) this] this obtain mvs u
    where "doEvaluate rt waf (fst rc) (snd rc) (reset_matched t) = Some (mvs, u)" "ruleRemoveTargetByID u = (\<lambda>_. [])"
    by (auto simp: targets_kept_def)
  with assms(3) show ?thesis by (simp add: rule_step_def Let_def)
qed

lemma eval_rules_answers:
  assumes "\<forall>rc\<in>set rcs. chain_ok (fst rc) (snd rc) \<and> (\<forall>q\<in>set (fst rc # snd rc). safe_rule rt waf q)" "ruleRemoveTargetByID t = (\<lambda>_. [])"
  shows "\<exists>t'. eval_rules rt waf p rcs t = Some t'"
  using assms
proof (induction rcs arbitrary: t)
  case (Cons rc rcs)
  then obtain u where "rule_step rt waf p rc t = Some u" "ruleRemoveTargetByID u = (\<lambda>_. [])"
    using rule_step_answers [of rc rt waf t p] by auto
  with Cons show ?case by simp
qed simp

section \<open>Properties\<close>

text \<open>
  C5. Every phase answers: with rules that cannot panic, whatever the request, the variables and the captures
  of the transaction, and whatever interruption, skips and removed rules are pending, the evaluation of a phase returns.
\<close>

theorem Eval_answers:
  assumes "\<forall>rc\<in>set (w_Rules waf). chain_ok (fst rc) (snd rc) \<and> (\<forall>q\<in>set (fst rc # snd rc). safe_rule rt waf q)"
    and "ruleRemoveTargetByID t = (\<lambda>_. [])"
  shows "\<exists>t'. Eval rt waf p t = Some (interruption t' \<noteq> None, t')"
  using eval_rules_answers [OF assms(1), of "start_phase p t" p] assms(2) by (auto simp: Eval_def start_phase_def)

theorem Eval_answers_witness: "\<exists>t'. Eval rt0 deny_waf 2 blank_tx = Some (interruption t' \<noteq> None, t')"
proof -
  have "safe_rule rt0 deny_waf (uri_rule op_unconditionalMatch)"
    by (simp add: safe_rule_def uri_rule_actions safe_action_def removes_targets_def) (simp add: uri_rule_def NewRule_def target_of_def)
  then have "\<forall>rc\<in>set (w_Rules deny_waf). chain_ok (fst rc) (snd rc) \<and> (\<forall>q\<in>set (fst rc # snd rc). safe_rule rt0 deny_waf q)"
    by (simp add: deny_waf_def chain_ok_uri_rule)
  from Eval_answers [OF this, of blank_tx 2] show ?thesis by (simp add: blank_tx_def)
qed

end
