(* ===== verification/End_To_End.thy ===== *)
theory End_To_End
  imports Seclang Seclang_Props Policy Phases
begin

text \<open>
  From the text of a rule to the verdict on a request, through every component between them: the
  parser of the configuration language (src/internal/seclang), the operator and actions that it
  builds, the variables of a transaction (src/internal/corazawaf/transaction.go), the evaluation of the
  rule and of its phase (rule.go, rulegroup.go), and the interruption that the caller gets. The rules
  are the family \<^verbatim>\<open>SecRule VARIABLE "@streq ARGUMENT" "id:7,phase:1,deny,status:403"\<close>.
\<close>

section \<open>The text of a rule\<close>

definition deny_actions :: string where
  "deny_actions = ''id:7,phase:1,deny,status:403''"

definition quote :: "string \<Rightarrow> string" where
  "quote s = CHR 0x22 # s @ [CHR 0x22]"

definition streq_rule :: "string \<Rightarrow> string \<Rightarrow> string" where
  "streq_rule name arg = name @ '' '' @ quote (''@streq '' @ arg) @ '' '' @ quote deny_actions"

definition name_ok :: "string \<Rightarrow> bool" where
  "name_ok s \<longleftrightarrow> s \<noteq> [] \<and> list_all (\<lambda>c. in_range (CHR ''A'') (CHR ''Z'') c \<or> c = CHR ''_'') s"

definition arg_ok :: "string \<Rightarrow> bool" where
  "arg_ok s \<longleftrightarrow> s \<noteq> [] \<and> is_ascii s \<and> set s \<inter> {CHR 0x22, CHR 0x5C, CHR ''%'', CHR 0x0A} = {} \<and>
     \<not> IsSpace (byte (hd s)) \<and> \<not> IsSpace (byte (last s))"

lemma name_ok_chars:
  assumes "name_ok s"
  shows "s \<noteq> []" "is_ascii s" "set s \<inter> {CHR ''|'', CHR '':'', CHR ''!'', CHR ''&'', CHR '' '', CHR 0x22, CHR 0x5C, CHR 0x0A, CHR ''#''} = {}"
    "\<not> IsSpace (byte (hd s))"
  using assms by (cases s; auto simp: name_ok_def list_all_iff is_ascii_def in_range_def IsSpace_def)+

lemma ruleTokens_skip: "CHR 0x22 \<notin> set u \<Longrightarrow> n \<noteq> 0 \<Longrightarrow> ruleTokens n (u @ s) = ruleTokens n s"
  by (induction u) auto

lemma quoted_body_plain: "set b \<inter> {CHR 0x22, CHR 0x5C} = {} \<Longrightarrow> quoted_body (b @ CHR 0x22 # rest) = Some (b, rest)"
  by (induction b) auto

lemma ruleTokens_quote:
  "set b \<inter> {CHR 0x22, CHR 0x5C} = {} \<Longrightarrow> ruleTokens (Suc n) (quote b @ rest) = quote b # ruleTokens n rest"
  by (simp add: quote_def quoted_body_plain)

lemma streq_tokens:
  assumes "name_ok name" "arg_ok arg"
  shows "ruleTokens 3 (streq_rule name arg) = [quote (''@streq '' @ arg), quote deny_actions]"
proof -
  have "CHR 0x22 \<notin> set (name @ '' '')" using name_ok_chars [OF assms(1)] by auto
  moreover have "set (''@streq '' @ arg) \<inter> {CHR 0x22, CHR 0x5C} = {}" using assms(2) by (auto simp: arg_ok_def)
  moreover have "set deny_actions \<inter> {CHR 0x22, CHR 0x5C} = {}" by (simp add: deny_actions_def)
  ultimately show ?thesis
    unfolding streq_rule_def using ruleTokens_skip [of "name @ '' ''" 3 "quote (''@streq '' @ arg) @ '' '' @ quote deny_actions"]
      ruleTokens_quote [of "''@streq '' @ arg" 2 "'' '' @ quote deny_actions"] ruleTokens_skip [of "'' ''" 2 "quote deny_actions"]
      ruleTokens_quote [of deny_actions 1 "[]"] by (simp add: numeral_2_eq_2 numeral_3_eq_3)
qed

lemma NewMacro_literal:
  assumes "CHR ''%'' \<notin> set s" "s \<noteq> []"
  shows "NewMacro s = Some (Inr \<lparr>mc_original = s, mc_tokens = [text_token s]\<rparr>)"
  using compile_loop_literal [of s "[]" "[]" "[]"] assms by (simp add: NewMacro_def flush_text_def)

lemma action_types:
  "actions_Get_Type lb ''id'' = Inr ActionTypeMetadata" "actions_Get_Type lb ''phase'' = Inr ActionTypeMetadata"
  "actions_Get_Type lb ''deny'' = Inr ActionTypeDisruptive" "actions_Get_Type lb ''status'' = Inr ActionTypeData"
  "actions_Get_Type lb ''log'' = Inr ActionTypeNondisruptive" "actions_Get_Type lb ''auditlog'' = Inr ActionTypeNondisruptive"
  "actions_Get_Type lb ''pass'' = Inr ActionTypeDisruptive"
  by (simp_all add: actions_Get_Type_def actionmap_def ToLower_def is_ascii_def lower_ascii_def in_range_def)

definition deny_list :: "ruleAction list" where
  "deny_list =
   [\<lparr>ra_Key = ''id'', ra_Value = ''7'', ra_Atype = ActionTypeMetadata\<rparr>, \<lparr>ra_Key = ''phase'', ra_Value = ''1'', ra_Atype = ActionTypeMetadata\<rparr>,
    \<lparr>ra_Key = ''deny'', ra_Value = [], ra_Atype = ActionTypeDisruptive\<rparr>, \<lparr>ra_Key = ''status'', ra_Value = ''403'', ra_Atype = ActionTypeData\<rparr>]"

lemma parse_deny: "parseActions lb deny_actions = Inr
   deny_list"
  by (simp add: deny_list_def parseActions_def deny_actions_def runes_ascii pa_start_def Let_def take_action_def action_types EncodeRune_def char_of_def bit_Suc_0_iff)

lemma numbers:
  "Atoi ''7'' = (7, None)" "Atoi ''403'' = (403, None)" "ParseRulePhase ''1'' = Inr 1" "ParseRulePhase ''2'' = Inr 2"
  by (simp_all add: ParseRulePhase_def Atoi_def ParseInt_def ParseUint_def digit_val_def in_range_def)

lemma default_dm:
  "\<exists>as. parse_defaults lb [defaultActionsPhase2] (\<lambda>_. None) = Inr [2 \<mapsto> as]"
proof -
  let ?as = "[\<lparr>ra_Key = ''phase'', ra_Value = ''2'', ra_Atype = ActionTypeMetadata\<rparr>, \<lparr>ra_Key = ''log'', ra_Value = [], ra_Atype = ActionTypeNondisruptive\<rparr>,
    \<lparr>ra_Key = ''auditlog'', ra_Value = [], ra_Atype = ActionTypeNondisruptive\<rparr>, \<lparr>ra_Key = ''pass'', ra_Value = [], ra_Atype = ActionTypeDisruptive\<rparr>]"
  have "parseActions lb defaultActionsPhase2 = Inr ?as"
    by (simp add: parseActions_def defaultActionsPhase2_def runes_ascii pa_start_def Let_def take_action_def action_types EncodeRune_def char_of_def bit_Suc_0_iff)
  then have "parse_defaults lb [defaultActionsPhase2] (\<lambda>_. None) = Inr [2 \<mapsto> ?as]"
    by (simp add: ParseDefaultActions_def numbers)
  then show ?thesis ..
qed

lemma init_deny:
  "init_metadata lb ext deny_list (r, ids) =
    Some (None, r\<lparr>ID := 7, Phase := 1\<rparr>, ids)"
  "init_actions lb ext (map Some deny_list) (r, ids) =
    Some (None, AddAction ''status'' act_status ((AddAction ''deny'' act_deny r)\<lparr>r_DisruptiveStatus := 403\<rparr>), ids)"
proof -
  have low: "ToLower ''id'' = ''id''" "ToLower ''phase'' = ''phase''" "ToLower ''deny'' = ''deny''" "ToLower ''status'' = ''status''" by code_simp+
  show "init_metadata lb ext deny_list (r, ids) =
    Some (None, r\<lparr>ID := 7, Phase := 1\<rparr>, ids)"
    by (simp add: deny_list_def init_action_def action_Init_def low actionmap_def id_Init_def phase_Init_def numbers Let_def)
  show "init_actions lb ext (map Some deny_list) (r, ids) =
    Some (None, AddAction ''status'' act_status ((AddAction ''deny'' act_deny r)\<lparr>r_DisruptiveStatus := 403\<rparr>), ids)"
    by (simp add: deny_list_def init_action_def action_Init_def low actionmap_def plain_def status_Init_def numbers Let_def)
qed

lemma ParseVariables_name:
  assumes "name_ok name" "variables_Parse name = Inr v"
  shows "ParseVariables lb name r = Some (None, r\<lparr>r_variables := r_variables r @
    [\<lparr>rv_Name = variable_Name v, rv_Count = False, rv_Variable = v, rv_KeyRx = None, rv_KeyStr = [], rv_Exceptions = []\<rparr>]\<rparr>)"
proof -
  let ?t = "\<lparr>tg_neg = False, tg_count = False, tg_name = name, tg_sel = NoKey\<rparr>"
  have "target_ok ?t" using name_ok_chars [OF assms(1)] assms(2) by (auto simp: target_ok_def)
  with pv_targets [of ?t "[]" lb "[]" r] show ?thesis
    by (simp add: ParseVariables_def print_target_def more_targets_def add_variable_def AddVariable_def selector_def target_var_def assms(2) ToLower_def is_ascii_def add_then_def)
qed

lemma ParseOperator_streq:
  assumes "arg_ok arg"
  shows "ParseOperator lb cfg (''@streq '' @ arg) r =
    Some (None, SetOperator (op_streq \<lparr>mc_original = arg, mc_tokens = [text_token arg]\<rparr>) ''@streq'' arg r)"
proof -
  have "Cut (''@streq'' @ CHR '' '' # arg) (CHR '' '') = (''@streq'', arg, True)" by (rule Cut_found) simp
  moreover have "TrimSpace arg = arg" using assms by (intro TrimSpace_ascii) (simp_all add: arg_ok_def)
  moreover have "TrimSpace ''@streq'' = ''@streq''" by (rule TrimSpace_ascii) (simp_all add: is_ascii_def IsSpace_def)
  moreover have "NewMacro arg = Some (Inr \<lparr>mc_original = arg, mc_tokens = [text_token arg]\<rparr>)"
    using assms by (intro NewMacro_literal) (auto simp: arg_ok_def)
  ultimately show ?thesis
    by (simp add: ParseOperator_def full_operator_def Let_def operators_Get_def operators_def macro_operator_def)
qed

text \<open>The rule that the text stands for.\<close>

definition streq_parsed :: "nat \<Rightarrow> RuleVariable \<Rightarrow> string \<Rightarrow> Rule" where
  "streq_parsed ptr v arg = (NewRule ptr)\<lparr>ID := 7, Phase := 1, r_DisruptiveStatus := 403,
     r_variables := [\<lparr>rv_Name = variable_Name v, rv_Count = False, rv_Variable = v, rv_KeyRx = None, rv_KeyStr = [], rv_Exceptions = []\<rparr>],
     r_operator := Some \<lparr>o_Operator = op_streq \<lparr>mc_original = arg, mc_tokens = [text_token arg]\<rparr>, o_Function = ''@streq'', o_Data = arg, o_Negation = False\<rparr>,
     r_actions := [\<lparr>a_Name = ''deny'', a_Param = [], a_Function = act_deny\<rparr>, \<lparr>a_Name = ''status'', a_Param = [], a_Function = act_status\<rparr>]\<rparr>"

lemma parse_sections_streq:
  assumes "name_ok name" "variables_Parse name = Inr v" "arg_ok arg" "disabled_rule_actions cfg = []" "disabled_rule_operators cfg = []" "dm 1 = None"
  shows "parse_sections lb ext cfg dm (streq_rule name arg) (NewRule ptr, ids) = Some (None, streq_parsed ptr v arg, ids)"
proof -
  have "CHR '' '' \<notin> set name" using name_ok_chars [OF assms(1)] by auto
  from Cut_found [OF this] have "fst (Cut (streq_rule name arg) (CHR '' '')) = name" by (simp add: streq_rule_def)
  moreover have "MaybeRemoveQuotes (quote s) = s" for s by (simp add: quote_def MaybeRemoveQuotes_quoted)
  moreover have "ParseActions lb ext cfg dm deny_actions (r, ids) =
      Some (None, AddAction ''status'' act_status ((AddAction ''deny'' act_deny (r\<lparr>ID := 7, Phase := 1\<rparr>))\<lparr>r_DisruptiveStatus := 403\<rparr>), ids)" for r
  proof -
    have "InSlice k (disabled_rule_actions cfg) = False" for k using assms(4) by simp
    then have "find (\<lambda>a. InSlice (ra_Key a) (disabled_rule_actions cfg)) deny_list = None" by (simp add: find_None_iff)
    then show ?thesis using assms(6) by (simp add: ParseActions_def parse_deny init_deny)
  qed
  ultimately show ?thesis
    using assms(5) by (simp add: parse_sections_def streq_tokens [OF assms(1,3)] Let_def case_prod_beta ParseVariables_name [OF assms(1,2)]
      ParseOperator_streq [OF assms(3), simplified] SetOperator_def AddAction_def streq_parsed_def NewRule_def)
qed

lemma streq_rule_ascii:
  assumes "name_ok name" "arg_ok arg"
  shows "is_ascii (streq_rule name arg)" "streq_rule name arg \<noteq> []" "\<not> IsSpace (byte (hd (streq_rule name arg)))"
    "last (streq_rule name arg) = CHR 0x22" "CHR 0x0A \<notin> set (streq_rule name arg)" "hd (streq_rule name arg) = hd name"
  using name_ok_chars [OF assms(1)] assms(2) by (auto simp: streq_rule_def quote_def deny_actions_def is_ascii_def arg_ok_def)

lemma ParseRule_streq:
  assumes "name_ok name" "variables_Parse name = Inr v" "arg_ok arg" "disabled_rule_actions cfg = []" "disabled_rule_operators cfg = []"
    "rule_default_actions cfg = None"
  shows "\<exists>raw f l. ParseRule lb ext cfg True directive (streq_rule name arg) ptr [] ids =
    Some (Inr (Some ((streq_parsed ptr v arg)\<lparr>Raw := raw, File := f, Line := l\<rparr>, [])), [], ids)"
proof -
  note a = streq_rule_ascii [OF assms(1,3)]
  have "TrimSpace (streq_rule name arg) \<noteq> []"
    using TrimSpace_ascii [OF a(1-3)] a(2,4) by (simp add: IsSpace_def)
  moreover obtain as where "parse_defaults lb [defaultActionsPhase2] (\<lambda>_. None) = Inr [2 \<mapsto> as]" using default_dm by blast
  moreover have "parse_sections lb ext cfg [2 \<mapsto> as] (streq_rule name arg) (NewRule ptr, ids) = Some (None, streq_parsed ptr v arg, ids)"
    using assms by (intro parse_sections_streq) simp_all
  ultimately show ?thesis
    using assms(6) by (simp add: ParseRule_def Let_def getLastRuleExpectingChain_def del: parse_defaults.simps) blast
qed

lemma FromString_streq:
  assumes "name_ok name" "variables_Parse name = Inr v" "arg_ok arg" "length name + length arg < 65000" "h_Getwd h = Inr wd"
  shows "\<exists>p' raw f l ptr. FromString h (''SecRule '' @ streq_rule name arg) (NewParser osfs (NewWAF any) settings ids) = Some (None, p') \<and>
    o_WAF (p_options p') = (NewWAF any)\<lparr>w_Rules := [((streq_parsed ptr v arg)\<lparr>Raw := raw, File := f, Line := l\<rparr>, [])]\<rparr>"
proof -
  let ?s = "''SecRule '' @ streq_rule name arg" and ?p = "NewParser osfs (NewWAF any) settings ids"
  let ?q = "?p\<lparr>p_currentLine := p_currentLine ?p + 1\<rparr>"
  note a = streq_rule_ascii [OF assms(1,3)]
  have low: "ToLower ''SecRule'' = ''secrule''" by code_simp
  have cut: "Cut ?s (CHR '' '') = (''SecRule'', streq_rule name arg, True)"
    using Cut_found [of "CHR '' ''" "''SecRule''" "streq_rule name arg"] by simp
  have dir: "map_of directivesMap ''secrule'' = Some directiveSecRule" by (simp add: directivesMap_def)
  have "hd (streq_rule name arg) \<noteq> CHR 0x22" using a(6) name_ok_chars [OF assms(1)] by (cases name) auto
  then have opts: "line_opts (streq_rule name arg) = streq_rule name arg" by (simp add: line_opts_def)
  let ?o = "enter_directive wd (streq_rule name arg) ?q"
  have o: "disabled_rule_actions (o_Config ?o) = []" "disabled_rule_operators (o_Config ?o) = []" "rule_default_actions (o_Config ?o) = None"
    "ignore_rule_compilation_errors (o_Config ?o) = False" "o_Opts ?o = streq_rule name arg" "o_WAF ?o = NewWAF any" "w_Rules (NewWAF any) = []"
    by (simp_all add: enter_directive_def NewParser_def empty_config_def NewWAF_def NewRuleGroup_def Let_def)
  obtain raw f l where r: "ParseRule (h_libs h) (h_ext h) (o_Config ?o) True ''SecRule'' (streq_rule name arg) (o_ptr ?o) [] (o_ids ?o) =
      Some (Inr (Some ((streq_parsed (o_ptr ?o) v arg)\<lparr>Raw := raw, File := f, Line := l\<rparr>, [])), [], o_ids ?o)"
    using ParseRule_streq [OF assms(1-3) o(1-3)] by blast
  obtain p' where p': "evaluateLine h (FromFile h) ?s ?q = Some (None, p')"
    "o_WAF (p_options p') = (NewWAF any)\<lparr>w_Rules := [((streq_parsed (o_ptr ?o) v arg)\<lparr>Raw := raw, File := f, Line := l\<rparr>, [])]\<rparr>"
    using r o assms(5) cut
    by (simp add: evaluateLine_def low dir opts directiveSecRule_def parse_rule_def add_rule_def Add_def Let_def)
  have "length ?s < 65536" using assms(4) by (simp add: streq_rule_def quote_def deny_actions_def)
  moreover have "is_ascii ?s" "last ?s = CHR 0x22" "CHR 0x0A \<notin> set ?s" using a by (auto simp: is_ascii_def)
  ultimately have "FromString h ?s ?p = Some (None, p')"
    by (intro FromString_line [OF _ _ _ _ _ _ _ _ p'(1)]) (simp_all add: IsSpace_def)
  with p'(2) show ?thesis by blast
qed

section \<open>Properties\<close>

text \<open>The values of a variable: the value itself, or all the values of a collection.\<close>

definition values_of :: "key_order \<Rightarrow> TransactionVariables \<Rightarrow> RuleVariable \<Rightarrow> string list" where
  "values_of ord tv v = (case tx_Collection tv v of None \<Rightarrow> [] | Some c \<Rightarrow> map md_Value (FindAll ord c))"

lemma streq_Eval:
  assumes "v \<notin> set (engine_simple @ engine_maps)" "w_Rules w = [((streq_parsed ptr v arg)\<lparr>Raw := raw, File := f, Line := l\<rparr>, [])]"
    and "ready t" "interruption t = None" "RuleEngine t = RuleEngineOn"
  shows "\<exists>t'. Eval rt w 1 t = Some (arg \<in> set (values_of (rt_ord rt) (variables t) v), t') \<and>
    interruption t' = (if arg \<in> set (values_of (rt_ord rt) (variables t) v)
      then Some \<lparr>it_RuleID = 7, it_Action = ''deny'', it_Status = 403, it_Data = []\<rparr> else None)"
proof -
  let ?in = "arg \<in> set (values_of (rt_ord rt) (variables t) v)"
  note r = assms(2) streq_parsed_def NewRule_def
  have "policy_rules (rt_libs rt) (w_Rules w)"
    using assms(1) by (simp add: r policy_rules_def chain_ok_def policy_rule_def const_test_def const_macro_def text_token_def policy_target_def policy_action_def)
  moreover have "policy_run (rt_libs rt) (rt_ord rt) True 1 (variables t) (w_Rules w) =
      (if ?in then ([7], Some \<lparr>it_RuleID = 7, it_Action = ''deny'', it_Status = 403, it_Data = []\<rparr>) else ([], None))"
    by (auto simp: r rule_holds_def const_test_def const_macro_def text_token_def macro_text_def target_values_def values_of_def find_matches_def
      kept_def excepted_def rule_verdict_def effective_id_def Let_def split: option.splits)
  ultimately show ?thesis
    using eval_rules_policy [of rt "w_Rules w" "start_phase 1 t" 1 w] assms(3-5)
    by (auto simp: Eval_def start_phase_def ready_def)
qed

text \<open>
  C18. From the text of a rule to its verdict. A WAF that is configured with the line
  \<^verbatim>\<open>SecRule NAME "@streq ARG" "id:7,phase:1,deny,status:403"\<close>, for any variable of the request and any
  argument without quotes, backslashes and percent signs, compiles, and its first phase interrupts a
  transaction, with status 403 and rule 7, exactly when one of the values of the variable is the argument.
\<close>

theorem rule_text_verdict:
  assumes "name_ok name" "variables_Parse name = Inr v" "v \<notin> set (engine_simple @ engine_maps)"
    and "arg_ok arg" "length name + length arg < 65000" "h_Getwd h = Inr wd"
    and "ready t" "interruption t = None" "RuleEngine t = RuleEngineOn"
  shows "\<exists>p' t'. FromString h (''SecRule '' @ streq_rule name arg) (NewParser osfs (NewWAF any) settings ids) = Some (None, p') \<and>
    Eval rt (o_WAF (p_options p')) 1 t = Some (arg \<in> set (values_of (rt_ord rt) (variables t) v), t') \<and>
    interruption t' = (if arg \<in> set (values_of (rt_ord rt) (variables t) v)
      then Some \<lparr>it_RuleID = 7, it_Action = ''deny'', it_Status = 403, it_Data = []\<rparr> else None)"
proof -
  obtain p' raw f l ptr where p': "FromString h (''SecRule '' @ streq_rule name arg) (NewParser osfs (NewWAF any) settings ids) = Some (None, p')"
    and w: "o_WAF (p_options p') = (NewWAF any)\<lparr>w_Rules := [((streq_parsed ptr v arg)\<lparr>Raw := raw, File := f, Line := l\<rparr>, [])]\<rparr>"
    using FromString_streq [OF assms(1,2,4-6)] by blast
  from streq_Eval [OF assms(3) _ assms(7-9), where ptr = ptr and raw = raw and f = f and l = l and arg = arg and w = "o_WAF (p_options p')" and rt = rt] w p' show ?thesis by auto
qed

text \<open>The arguments of a query string, as ARGS_GET holds them.\<close>

lemma FindAll_values:
  assumes "range_order ord" "Map_wf c"
  shows "set (map md_Value (Map_FindAll ord c)) = (\<Union>k. set (Map_Get c k))"
proof -
  have "set (map md_Value (Map_FindAll ord c)) = (\<Union>k\<in>set (map fst (m_data c)). set (Map_Get c k))"
    using range_order_set [OF assms(1), of "map fst (m_data c)"]
    by (simp add: Map_FindAll_def Map_Get_def anchored_match_def image_UN image_image)
  also have "\<dots> = (\<Union>k. set (Map_Get c k))"
  proof -
    have "Map_Get c k = []" if "k \<notin> set (map fst (m_data c))" for k
      using that map_of_eq_None_iff [of "m_data c" k] by (simp add: Map_Get_def map_get_def)
    then show ?thesis by fastforce
  qed
  finally show ?thesis .
qed

lemma ExtractArguments_set:
  assumes "range_order ord"
  shows "(\<Union>k. set (Map_Get (col (ExtractArguments ord ArgumentGET q t) ArgsGet) k)) =
    (\<Union>k. set (Map_Get (col t ArgsGet) k)) \<union> snd ` set (query_fields q (CHR ''&''))"
proof -
  let ?ks = "ord (map fst (ParseQuery q (CHR ''&'')))"
  have vals: "map_get (ParseQuery q (CHR ''&'')) k' = map snd (filter (\<lambda>(k1, _). k1 = k') (query_fields q (CHR ''&'')))" for k'
    by (simp add: ParseQuery_def parse_query_loop_get)
  have ks: "set ?ks = fst ` set (query_fields q (CHR ''&''))"
    using range_order_set [OF assms] ParseQuery_keys(1) by metis
  have "set (Map_Get (col (ExtractArguments ord ArgumentGET q t) ArgsGet) k) =
      set (Map_Get (col t ArgsGet) k) \<union> {x. \<exists>k'. (k', x) \<in> set (query_fields q (CHR ''&'')) \<and> ToLower k' = k}" for k
    by (force simp: ExtractArguments_def Map_Get_fold_arguments vals ks)
  then show ?thesis by force
qed

lemma ready_only_vars: "only_vars t u \<Longrightarrow> ready u \<longleftrightarrow> ready t"
  by (erule only_vars_cases) (simp add: ready_def)

lemma col_set_defaults: "col (set_defaults t) ArgsGet = col t ArgsGet"
proof -
  have "col (fold (\<lambda>v. set_var v ''0'') vs t) = col t" for vs t by (induction vs arbitrary: t) simp_all
  moreover have "col (fold (\<lambda>i. upd_col TX (\<lambda>m. Map_Set m (Itoa i) [[]])) is t) ArgsGet = col t ArgsGet" for "is" t
    by (rule col_fold_upd_other) simp
  ultimately show ?thesis by (simp add: set_defaults_def Let_def)
qed

lemma ready_new: "ready (newTransactionWithID w cs i None)"
  by (simp add: newTransactionWithID_def ready_only_vars [OF only_vars_set_defaults]) (simp add: ready_def)

lemma fresh_transaction:
  "interruption (newTransactionWithID w cs i None) = None" "LastPhase (newTransactionWithID w cs i None) = 0"
  "RuleEngine (newTransactionWithID w cs i None) = w_RuleEngine w" "Map_Get (col (newTransactionWithID w cs i None) ArgsGet) k = []"
  by (simp_all add: newTransactionWithID_def only_varsD [OF only_vars_set_defaults] col_set_defaults NewTransactionVariables_def NewMap_def Map_Get_def)

lemma fold_view:
  assumes "\<And>x s s'. g s = g s' \<Longrightarrow> g (f x s) = g (f x s')" "g s = g s'"
  shows "g (fold f xs s) = g (fold f xs s')"
  using assms(2)
proof (induction xs arbitrary: s s')
  case (Cons x xs)
  from Cons.IH [OF assms(1) [OF Cons.prems]] show ?case by simp
qed simp

lemma AddArguments_view:
  "col s ArgsGet = col s' ArgsGet \<Longrightarrow>
     col (fold (\<lambda>v. AddArgument ArgumentGET k v) vs s) ArgsGet = col (fold (\<lambda>v. AddArgument ArgumentGET k v) vs s') ArgsGet"
  by (rule fold_view [where g = "\<lambda>t. col t ArgsGet"]) (simp_all add: AddArgument_def)

lemma ExtractArguments_view:
  "col t ArgsGet = col t' ArgsGet \<Longrightarrow>
     col (ExtractArguments ord ArgumentGET q t) ArgsGet = col (ExtractArguments ord ArgumentGET q t') ArgsGet"
  unfolding ExtractArguments_def Let_def by (rule fold_view [where g = "\<lambda>t. col t ArgsGet"]) (rule AddArguments_view)

lemma ProcessURI_args:
  "col (ProcessURI url_Parse ord uri meth version t) ArgsGet =
     (case url_Parse (fst (Cut uri (CHR ''#''))) of
        Inl _ \<Rightarrow> col t ArgsGet
      | Inr u \<Rightarrow> col (ExtractArguments ord ArgumentGET (RawQuery u) t) ArgsGet)"
proof (cases "url_Parse (fst (Cut uri (CHR ''#'')))")
  case (Inr u)
  then show ?thesis unfolding ProcessURI_def Let_def by (simp add: case_prod_beta) (rule ExtractArguments_view, simp)
qed (simp add: ProcessURI_def Let_def case_prod_beta)

text \<open>The values in the query of a URI, as the parser of URLs splits it: none when it rejects the URI.\<close>

definition query_values :: "url_parser \<Rightarrow> string \<Rightarrow> string set" where
  "query_values url_Parse uri =
     (case url_Parse (fst (Cut uri (CHR ''#''))) of
        Inl _ \<Rightarrow> {}
      | Inr u \<Rightarrow> snd ` set (query_fields (RawQuery u) (CHR ''&'')))"

text \<open>
  C4. A configuration text with one rule that compares the arguments of the query with a text, and a
  request of any URI: the configuration compiles, and processing the headers of a new transaction
  of that WAF after its URI denies the request with status 403 exactly when the URI without its
  fragment is one that \<open>url.Parse\<close> accepts and some value in its query, decoded, is that text. It never
  panics and no other verdict is possible. In particular \<open>ProcessURI\<close> itself adds the arguments, and
  adds none for a URI that \<open>url.Parse\<close> rejects.
\<close>

theorem query_denied:
  assumes "arg_ok arg" "length arg < 60000" "h_Getwd h = Inr wd" "range_order (rt_ord rt)"
  shows "\<exists>p' t'. FromString h (''SecRule '' @ streq_rule ''ARGS_GET'' arg) (NewParser osfs (NewWAF any) settings ids) = Some (None, p') \<and>
    ProcessRequestHeaders rt (o_WAF (p_options p')) (ProcessURI url_Parse (rt_ord rt) uri meth version
      (newTransactionWithID (o_WAF (p_options p')) [] i None)) =
    Some (if arg \<in> query_values url_Parse uri
      then Some \<lparr>it_RuleID = 7, it_Action = ''deny'', it_Status = 403, it_Data = []\<rparr> else None, t')"
proof -
  have n: "name_ok ''ARGS_GET''" "variables_Parse ''ARGS_GET'' = Inr ArgsGet" "ArgsGet \<notin> set (engine_simple @ engine_maps)"
    by (simp_all add: name_ok_def in_range_def engine_simple_def engine_maps_def)
      (rule variables_Parse_name, simp_all add: ToUpper_def is_ascii_def upper_ascii_def in_range_def variable_Name_def rulemap_def)
  have "length ''ARGS_GET'' + length arg < 65000" using assms(2) by simp
  from FromString_streq [OF n(1,2) assms(1) this assms(3)] obtain p' raw f l ptr
    where p': "FromString h (''SecRule '' @ streq_rule ''ARGS_GET'' arg) (NewParser osfs (NewWAF any) settings ids) = Some (None, p')"
      and w: "o_WAF (p_options p') = (NewWAF any)\<lparr>w_Rules := [((streq_parsed ptr ArgsGet arg)\<lparr>Raw := raw, File := f, Line := l\<rparr>, [])]\<rparr>"
    by blast
  let ?w = "o_WAF (p_options p')"
  let ?new = "newTransactionWithID ?w [] i None"
  let ?t = "ProcessURI url_Parse (rt_ord rt) uri meth version ?new"
  have v: "only_vars ?new ?t" by (intro inv_intros)
  have e: "w_RuleEngine ?w = RuleEngineOn" using w by (simp add: NewWAF_def)
  have r: "ready ?t" by (rule ready_only_vars [OF v, THEN iffD2]) (rule ready_new)
  have r': "interruption ?t = None" "LastPhase ?t = 0" "RuleEngine ?t = RuleEngineOn"
    unfolding only_varsD(1-3) [OF v] using fresh_transaction(1-3) [of ?w "[]" i] e by simp_all
  have "tx_wf ?t" using tx_ok_new [of ?w "[]" i] unfolding tx_ok_def by (intro inv_intros) simp
  then have "Map_wf (col ?t ArgsGet)" by (simp add: tx_wf_def tv_wf_def)
  with FindAll_values [OF assms(4), of "col ?t ArgsGet"]
  have "set (values_of (rt_ord rt) (variables ?t) ArgsGet) = (\<Union>k. set (Map_Get (col ?t ArgsGet) k))"
    by (simp add: values_of_def tx_Collection_def simple_variables_def map_variables_def)
  also have "\<dots> = query_values url_Parse uri"
    using ExtractArguments_set [OF assms(4), of _ ?new] fresh_transaction(4) [of ?w "[]" i]
    by (simp add: ProcessURI_args query_values_def split: sum.split)
  finally have vals: "set (values_of (rt_ord rt) (variables ?t) ArgsGet) = query_values url_Parse uri" .
  have rules: "w_Rules ?w = [((streq_parsed ptr ArgsGet arg)\<lparr>Raw := raw, File := f, Line := l\<rparr>, [])]" using w by simp
  obtain t' where "Eval rt ?w 1 ?t = Some (arg \<in> query_values url_Parse uri, t')"
    "interruption t' = (if arg \<in> query_values url_Parse uri
      then Some \<lparr>it_RuleID = 7, it_Action = ''deny'', it_Status = 403, it_Data = []\<rparr> else None)"
    using streq_Eval [OF n(3) rules r r'(1,3), of rt] unfolding vals by blast
  then have "ProcessRequestHeaders rt ?w ?t = Some (if arg \<in> query_values url_Parse uri
      then Some \<lparr>it_RuleID = 7, it_Action = ''deny'', it_Status = 403, it_Data = []\<rparr> else None, t')"
    using r' by (simp only: ProcessRequestHeaders_def run_phase_def) simp
  with p' show ?thesis by blast
qed

section \<open>Witnesses\<close>

abbreviation empty_files :: FS where
  "empty_files \<equiv> \<lparr>fs_ReadFile = (\<lambda>_. NotExist), fs_Glob = (\<lambda>_. Inr [])\<rparr>"

theorem rule_text_verdict_witness:
  "\<exists>p' t'. FromString demo_host (''SecRule '' @ streq_rule ''REQUEST_URI'' ''/x'') demo_parser = Some (None, p') \<and>
     Eval rt0 (o_WAF (p_options p')) 1 (set_var RequestURI ''/x'' blank_tx) = Some (True, t') \<and> map_option it_Status (interruption t') = Some 403"
proof -
  let ?t = "set_var RequestURI ''/x'' blank_tx"
  have n: "name_ok ''REQUEST_URI''" "variables_Parse ''REQUEST_URI'' = Inr RequestURI" "RequestURI \<notin> set (engine_simple @ engine_maps)"
    by (simp_all add: name_ok_def in_range_def engine_simple_def engine_maps_def)
      (rule variables_Parse_name, simp_all add: ToUpper_def is_ascii_def upper_ascii_def in_range_def variable_Name_def rulemap_def)
  have a: "arg_ok ''/x''" "length ''REQUEST_URI'' + length ''/x'' < 65000" "h_Getwd demo_host = Inr ''/''"
    by (simp_all add: arg_ok_def is_ascii_def IsSpace_def demo_host_def)
  have t: "ready ?t" "interruption ?t = None" "RuleEngine ?t = RuleEngineOn" by (simp_all add: ready_def set_var_def blank_tx_def)
  have "''/x'' \<in> set (values_of (rt_ord rt0) (variables ?t) RequestURI)"
    by (simp add: values_of_def tx_Collection_def simple_variables_def set_var_def set_simple_def Simple_FindAll_def Simple_Set_def)
  then show ?thesis
    using rule_text_verdict [OF n a t, where rt = rt0 and osfs = empty_files and any = any_text and settings = new_settings and ids = initial_ids]
    by (auto simp: demo_parser_def)
qed

theorem query_denied_witness:
  "\<exists>p' t'. FromString demo_host (''SecRule '' @ streq_rule ''ARGS_GET'' ''evil'') demo_parser = Some (None, p') \<and>
     ProcessRequestHeaders rt0 (o_WAF (p_options p')) (ProcessURI (\<lambda>s. Inr \<lparr>RawQuery = ''a=evil'', URL_Path = ''/'', URL_String = s\<rparr>) (\<lambda>ks. ks)
       ''/?a=evil'' ''GET'' ''HTTP/1.1'' (newTransactionWithID (o_WAF (p_options p')) [] ''id'' None)) =
     Some (Some \<lparr>it_RuleID = 7, it_Action = ''deny'', it_Status = 403, it_Data = []\<rparr>, t')"
proof -
  have a: "arg_ok ''evil''" "length ''evil'' < 60000" "h_Getwd demo_host = Inr ''/''" "range_order (rt_ord rt0)"
    by (simp_all add: arg_ok_def is_ascii_def IsSpace_def demo_host_def rt0_def)
  have q: "query_fields ''a=evil'' (CHR ''&'') = [(''a'', ''evil'')]"
    by (simp add: query_fields_def split_field_def QueryUnescape_other)
  show ?thesis
    using query_denied [OF a, where url_Parse = "\<lambda>s. Inr \<lparr>RawQuery = ''a=evil'', URL_Path = ''/'', URL_String = s\<rparr>" and uri = "''/?a=evil''"
      and meth = "''GET''" and version = "''HTTP/1.1''" and i = "''id''" and osfs = empty_files and any = any_text and settings = new_settings and ids = initial_ids]
    by (simp add: demo_parser_def q rt0_def query_values_def)
qed

end
