(* ===== verification/Test_Engine.thy ===== *)
theory Test_Engine
  imports Match_Log
begin

text \<open>
  The test engine (src/testing/engine.go) with the expectations of a test profile
  (src/testing/profile/profile.go): a request is set field by field or read from its raw text, the phases
  are run on one transaction, and the matched rules and the interruption are compared with what is expected.
  The environment \<open>e\<close> holds the WAF and the libraries, \<open>pr\<close> the printable runes.
\<close>

section \<open>State\<close>

record ExpectedInterruption =
  xi_RuleID :: int
  xi_Action :: string
  xi_Status :: int
  xi_Data :: string

text \<open>The fields of the expected output that the engine reads; a list that is nil behaves like an empty one.\<close>

record ExpectedOutput =
  xo_LogContains :: string
  xo_NoLogContains :: string
  xo_TriggeredRules :: "int list"
  xo_NonTriggeredRules :: "int list"
  xo_Interruption :: "ExpectedInterruption option"

record Test =
  t_transaction :: Transaction
  t_magic :: bool
  t_TestName :: string
  t_body :: string
  t_RequestAddress :: string
  t_RequestPort :: int
  t_RequestURI :: string
  t_RequestMethod :: string
  t_RequestProtocol :: string
  t_RequestHeaders :: "(string \<times> string) list"
  t_ResponseHeaders :: "(string \<times> string) list"
  t_ResponseCode :: int
  t_ResponseProtocol :: string
  t_ServerAddress :: string
  t_ServerPort :: int
  t_ExpectedOutput :: ExpectedOutput

definition no_expectation :: ExpectedOutput where
  "no_expectation = \<lparr>xo_LogContains = [], xo_NoLogContains = [], xo_TriggeredRules = [], xo_NonTriggeredRules = [], xo_Interruption = None\<rparr>"

text \<open>The transaction comes from \<open>waf.NewTransaction\<close>.\<close>

definition NewTest :: "string \<Rightarrow> Transaction \<Rightarrow> Test" where
  "NewTest name tx = \<lparr>t_transaction = tx, t_magic = True, t_TestName = name, t_body = [], t_RequestAddress = ''127.0.0.1'',
     t_RequestPort = 80, t_RequestURI = ''/'', t_RequestMethod = ''GET'', t_RequestProtocol = ''HTTP/1.1'',
     t_RequestHeaders = [], t_ResponseHeaders = [(''Content-Type'', ''text/html'')], t_ResponseCode = 0,
     t_ResponseProtocol = [], t_ServerAddress = [], t_ServerPort = 0, t_ExpectedOutput = no_expectation\<rparr>"

definition DisableMagic :: "Test \<Rightarrow> Test" where
  "DisableMagic t = t\<lparr>t_magic := False\<rparr>"

section \<open>The request\<close>

abbreviation CRLF :: string where
  "CRLF \<equiv> [CHR 0x0D, CHR 0x0A]"

text \<open>A body is nil, a slice of strings, a string, or of a type that panics.\<close>

datatype body_value = BodyNil | BodyStrings "string list" | BodyString string | BodyOther

fun bodyToString :: "body_value \<Rightarrow> string go" where
  "bodyToString (BodyStrings v) = Some (concat (map (\<lambda>s. s @ CRLF) v) @ CRLF)"
| "bodyToString (BodyString v) = Some v"
| "bodyToString _ = None"

definition SetRequestBody :: "env \<Rightarrow> body_value \<Rightarrow> Test \<Rightarrow> (string option \<times> Test) go" where
  "SetRequestBody e body t =
     (if body = BodyNil then Some (None, t)
      else
        do { data \<leftarrow> bodyToString body;
             let lbody = length data;
             if lbody = 0 then Some (None, t)
             else
               do { let t = t\<lparr>t_body := data\<rparr>;
                    let t = (if t_magic t
                             then t\<lparr>t_RequestHeaders := AList.update ''content-length'' (Itoa (int lbody)) (t_RequestHeaders t)\<rparr> else t);
                    (_, _, err, tx) \<leftarrow> WriteRequestBody (e_ps e) (e_rt e) (e_waf e) data (t_transaction t);
                    Some (err, t\<lparr>t_transaction := tx\<rparr>) } })"

definition SetResponseBody :: "env \<Rightarrow> body_value \<Rightarrow> Test \<Rightarrow> (string option \<times> Test) go" where
  "SetResponseBody e body t =
     (if body = BodyNil then Some (None, t)
      else
        do { data \<leftarrow> bodyToString body;
             if length data = 0 then Some (None, t)
             else
               do { (_, err, tx) \<leftarrow> ResponseBodyWriter_Write (e_rt e) data (t_transaction t);
                    Some (err, t\<lparr>t_transaction := tx\<rparr>) } })"

text \<open>\<open>strings.Split\<close> at the separator CR LF.\<close>

fun SplitCRLF :: "string \<Rightarrow> string list" where
  "SplitCRLF [] = [[]]"
| "SplitCRLF [c] = [[c]]"
| "SplitCRLF (c # d # cs) =
     (if c = CHR 0x0D \<and> d = CHR 0x0A then [] # SplitCRLF cs
      else (case SplitCRLF (d # cs) of [] \<Rightarrow> [[c]] | w # ws \<Rightarrow> (c # w) # ws))"

text \<open>
  The loop over the header lines: the error, the headers, and \<open>spl[i:]\<close>, the lines from the empty one on
  that stopped the loop.
\<close>

fun raw_headers :: "string list \<Rightarrow> (string \<times> string) list \<Rightarrow> string option \<times> (string \<times> string) list \<times> string list" where
  "raw_headers [] hs = (None, hs, [])"
| "raw_headers (l # ls) hs =
     (if l = [] then (None, hs, l # ls)
      else
        let (key, val, ok) = Cut l (CHR '':'') in
        if \<not> ok then (Some ''invalid header'', hs, l # ls)
        else raw_headers ls (AList.update (TrimSpace key) (TrimSpace val) hs))"

definition SetRawRequest :: "env \<Rightarrow> string \<Rightarrow> Test \<Rightarrow> (string option \<times> Test) go" where
  "SetRawRequest e request t =
     (if request = [] then Some (None, t)
      else
        let spl = SplitCRLF request;
            spl = (if length spl \<le> 1 then Split request (CHR 0x0A) else spl)
        in
        if length spl \<le> 1 then Some (Some ''invalid request'', t)
        else
          (case Split (hd spl) (CHR '' '') of
             [m, u, p] \<Rightarrow>
               let (err, hs, rest) = raw_headers (tl spl) [];
                   t = t\<lparr>t_RequestMethod := m, t_RequestURI := u, t_RequestProtocol := p, t_RequestHeaders := hs\<rparr>
               in if err \<noteq> None then Some (err, t)
                  else if rest \<noteq> [] then SetRequestBody e (BodyString (Join rest CRLF)) t
                  else Some (None, t)
           | reqLine \<Rightarrow> Some (Some (''invalid request line, got ['' @ Join reqLine '' '' @ '']''), t)))"

text \<open>The decoder \<open>b64.StdEncoding.DecodeString\<close> is the argument \<open>decode\<close>.\<close>

definition SetEncodedRequest :: "(string \<Rightarrow> string + string) \<Rightarrow> env \<Rightarrow> string \<Rightarrow> Test \<Rightarrow> (string option \<times> Test) go" where
  "SetEncodedRequest decode e request t =
     (if request = [] then Some (None, t)
      else (case decode request of Inl err \<Rightarrow> Some (Some err, t) | Inr sDec \<Rightarrow> SetRawRequest e sDec t))"

definition Test_Request :: "key_order \<Rightarrow> Test \<Rightarrow> string" where
  "Test_Request ord t =
     t_RequestMethod t @ '' '' @ t_RequestURI t @ '' '' @ t_RequestProtocol t @ CRLF @
     concat (map (\<lambda>k. k @ '': '' @ the (map_of (t_RequestHeaders t) k) @ CRLF) (ord (map fst (t_RequestHeaders t)))) @
     CRLF @ t_body t"

section \<open>Running and comparing\<close>

definition set_headers :: "key_order \<Rightarrow> (string \<Rightarrow> string \<Rightarrow> Transaction \<Rightarrow> Transaction) \<Rightarrow> (string \<times> string) list \<Rightarrow> Transaction \<Rightarrow> Transaction" where
  "set_headers ord add hs tx = fold (\<lambda>k. add k (the (map_of hs k))) (ord (map fst hs)) tx"

definition RunPhases :: "env \<Rightarrow> Test \<Rightarrow> (string option \<times> Test) go" where
  "RunPhases e t =
     do { let ord = rt_ord (e_rt e);
          let tx = ProcessConnection (t_RequestAddress t) (t_RequestPort t) (t_ServerAddress t) (t_ServerPort t) (t_transaction t);
          let tx = ProcessURI (e_url e) ord (t_RequestURI t) (t_RequestMethod t) (t_RequestProtocol t) tx;
          let tx = set_headers ord (AddRequestHeader ord) (t_RequestHeaders t) tx;
          (_, tx) \<leftarrow> ProcessRequestHeaders (e_rt e) (e_waf e) tx;
          (_, err, tx) \<leftarrow> ProcessRequestBody (e_ps e) (e_rt e) (e_waf e) tx;
          if err \<noteq> None then Some (err, t\<lparr>t_transaction := tx\<rparr>)
          else
            do { let tx = set_headers ord AddResponseHeader (t_ResponseHeaders t) tx;
                 (_, tx) \<leftarrow> ProcessResponseHeaders (e_rt e) (e_waf e) (t_ResponseCode t) (t_ResponseProtocol t) tx;
                 (_, err, tx) \<leftarrow> ProcessResponseBody (e_rt e) (e_waf e) tx;
                 if err \<noteq> None then Some (err, t\<lparr>t_transaction := tx\<rparr>)
                 else
                   do { tx \<leftarrow> ProcessLogging (e_rt e) (e_waf e) tx;
                        Some (None, t\<lparr>t_transaction := tx\<rparr>) } } }"

text \<open>A nil interruption is dereferenced when one is expected.\<close>

definition OutputInterruptionErrors :: "Test \<Rightarrow> string list go" where
  "OutputInterruptionErrors t =
     (case xo_Interruption (t_ExpectedOutput t) of
        None \<Rightarrow> Some []
      | Some x \<Rightarrow>
          (case interruption (t_transaction t) of
             None \<Rightarrow> None
           | Some it \<Rightarrow> Some (
               (if xi_Action x \<noteq> it_Action it
                then [''Interruption.Action: expected: '' @ CHR 0x27 # xi_Action x @ CHR 0x27 # '', got: '' @ CHR 0x27 # it_Action it @ [CHR 0x27]] else []) @
               (if xi_Status x \<noteq> it_Status it
                then [''Interruption.Status: expected: '' @ CHR 0x27 # Itoa (xi_Status x) @ CHR 0x27 # '', got: '' @ CHR 0x27 # Itoa (it_Status it) @ [CHR 0x27]] else []) @
               (if xi_Data x \<noteq> it_Data it
                then [''Interruption.Data: expected: '' @ CHR 0x27 # xi_Data x @ CHR 0x27 # '', got: '' @ CHR 0x27 # it_Data it @ [CHR 0x27]] else []) @
               (if xi_RuleID x \<noteq> it_RuleID it
                then [''Interruption.RuleID: expected: '' @ CHR 0x27 # Itoa (xi_RuleID x) @ CHR 0x27 # '', got: '' @ CHR 0x27 # Itoa (it_RuleID it) @ [CHR 0x27]] else []))))"

fun log_contains :: "printable \<Rightarrow> int \<Rightarrow> string \<Rightarrow> MatchedRule list \<Rightarrow> bool go" where
  "log_contains pr code log [] = Some False"
| "log_contains pr code log (mr # mrs) =
     do { line \<leftarrow> mr_ErrorLog pr code mr; if Contains line log then Some True else log_contains pr code log mrs }"

definition LogContains :: "printable \<Rightarrow> string \<Rightarrow> Test \<Rightarrow> bool go" where
  "LogContains pr log t = log_contains pr (t_ResponseCode t) log (matchedRules (t_transaction t))"

definition id_text :: "int \<Rightarrow> string" where
  "id_text rule = ''id '' @ CHR 0x22 # Itoa rule @ [CHR 0x22]"

text \<open>One loop over rules: the errors of those whose presence in the log is not \<open>wanted\<close>.\<close>

fun rule_errors :: "printable \<Rightarrow> bool \<Rightarrow> string \<Rightarrow> Test \<Rightarrow> int list \<Rightarrow> string list go" where
  "rule_errors pr wanted text t [] = Some []"
| "rule_errors pr wanted text t (rule # rules) =
     do { b \<leftarrow> LogContains pr (id_text rule) t;
          errors \<leftarrow> rule_errors pr wanted text t rules;
          Some ((if b \<noteq> wanted then [''Expected rule '' @ CHR 0x27 # Itoa rule @ CHR 0x27 # text] else []) @ errors) }"

definition OutputErrors :: "printable \<Rightarrow> Test \<Rightarrow> string list go" where
  "OutputErrors pr t =
     (let x = t_ExpectedOutput t; lc = xo_LogContains x; nlc = xo_NoLogContains x in
      do { e1 \<leftarrow> (if lc \<noteq> [] then map_option (\<lambda>b. if \<not> b then [''Expected log to contain '' @ CHR 0x27 # lc @ [CHR 0x27]] else []) (LogContains pr lc t)
                  else Some []);
           e2 \<leftarrow> (if nlc \<noteq> [] then map_option (\<lambda>b. if b then [''Expected log to not contain '' @ CHR 0x27 # nlc @ [CHR 0x27]] else []) (LogContains pr nlc t)
                  else Some []);
           e3 \<leftarrow> rule_errors pr True '' to be triggered'' t (xo_TriggeredRules x);
           e4 \<leftarrow> rule_errors pr False '' to not be triggered'' t (xo_NonTriggeredRules x);
           Some (e1 @ e2 @ e3 @ e4) })"

section \<open>Runs are sequences of calls\<close>

lemma reachable_set_headers:
  assumes "\<And>k v t. reachable e t \<Longrightarrow> reachable e (add k v t)" "reachable e t"
  shows "reachable e (set_headers ord add hs t)"
proof -
  have "reachable e (fold (\<lambda>k. add k (f k)) ks t)" if "reachable e t" for f ks t
    using that by (induction ks arbitrary: t) (simp_all add: assms(1))
  with assms(2) show ?thesis by (simp add: set_headers_def)
qed

lemma reachable_ops:
  assumes "reachable e t"
  shows "reachable e (ProcessConnection c p s q t)" "reachable e (ProcessURI (e_url e) (rt_ord (e_rt e)) u m v t)"
    "reachable e (AddRequestHeader (rt_ord (e_rt e)) k x t)" "reachable e (AddResponseHeader k x t)"
  using reachable.call [OF assms, of "ProcessConnectionCall c p s q"] reachable.call [OF assms, of "ProcessURICall u m v"]
    reachable.call [OF assms, of "AddRequestHeaderCall k x"] reachable.call [OF assms, of "AddResponseHeaderCall k x"]
  by simp_all

lemma reachable_phases:
  assumes "reachable e t"
  shows "ProcessRequestHeaders (e_rt e) (e_waf e) t = Some (it, u) \<Longrightarrow> reachable e u"
    "ProcessRequestBody (e_ps e) (e_rt e) (e_waf e) t = Some (it, err, u) \<Longrightarrow> reachable e u"
    "ProcessResponseHeaders (e_rt e) (e_waf e) c p t = Some (it, u) \<Longrightarrow> reachable e u"
    "ProcessResponseBody (e_rt e) (e_waf e) t = Some (it, err, u) \<Longrightarrow> reachable e u"
    "ProcessLogging (e_rt e) (e_waf e) t = Some u \<Longrightarrow> reachable e u"
    "WriteRequestBody (e_ps e) (e_rt e) (e_waf e) b t = Some (it, n, err, u) \<Longrightarrow> reachable e u"
  using reachable.call [OF assms, of ProcessRequestHeadersCall] reachable.call [OF assms, of ProcessRequestBodyCall]
    reachable.call [OF assms, of "ProcessResponseHeadersCall c p"] reachable.call [OF assms, of ProcessResponseBodyCall]
    reachable.call [OF assms, of ProcessLoggingCall] reachable.call [OF assms, of "WriteRequestBodyCall b"]
  by simp_all

lemma reachable_headers:
  assumes "reachable e t"
  shows "reachable e (set_headers ord (AddRequestHeader (rt_ord (e_rt e))) hs t)" "reachable e (set_headers ord AddResponseHeader hs t)"
  by (rule reachable_set_headers [OF _ assms], erule reachable_ops)+

lemma RunPhases_reachable:
  assumes "RunPhases e t = Some (err, t')" "reachable e (t_transaction t)"
  shows "reachable e (t_transaction t')"
proof -
  let ?ord = "rt_ord (e_rt e)"
  define b where "b = set_headers ?ord (AddRequestHeader ?ord) (t_RequestHeaders t)
    (ProcessURI (e_url e) ?ord (t_RequestURI t) (t_RequestMethod t) (t_RequestProtocol t)
    (ProcessConnection (t_RequestAddress t) (t_RequestPort t) (t_ServerAddress t) (t_ServerPort t) (t_transaction t)))"
  have b: "reachable e b" unfolding b_def by (intro reachable_headers reachable_ops assms(2))
  note run = assms(1) [unfolded RunPhases_def Let_def, folded b_def]
  obtain it c where c: "ProcessRequestHeaders (e_rt e) (e_waf e) b = Some (it, c)" using run by (cases "ProcessRequestHeaders (e_rt e) (e_waf e) b") auto
  obtain it' err1 d where d: "ProcessRequestBody (e_ps e) (e_rt e) (e_waf e) c = Some (it', err1, d)"
    using run c by (cases "ProcessRequestBody (e_ps e) (e_rt e) (e_waf e) c") auto
  have rd: "reachable e d" by (rule reachable_phases(2) [OF reachable_phases(1) [OF b c] d])
  show ?thesis
  proof (cases "err1 = None")
    case False
    with run c d rd show ?thesis by auto
  next
    case True
    let ?f = "set_headers ?ord AddResponseHeader (t_ResponseHeaders t) d"
    obtain it2 g where g: "ProcessResponseHeaders (e_rt e) (e_waf e) (t_ResponseCode t) (t_ResponseProtocol t) ?f = Some (it2, g)"
      using run c d True by (cases "ProcessResponseHeaders (e_rt e) (e_waf e) (t_ResponseCode t) (t_ResponseProtocol t) ?f") auto
    obtain it3 err2 h where h: "ProcessResponseBody (e_rt e) (e_waf e) g = Some (it3, err2, h)"
      using run c d True g by (cases "ProcessResponseBody (e_rt e) (e_waf e) g") auto
    have rh: "reachable e h" by (rule reachable_phases(4) [OF reachable_phases(3) [OF reachable_headers(2) [OF rd] g] h])
    with run c d True g h reachable_phases(5) [OF rh] show ?thesis by (auto split: if_splits)
  qed
qed

lemma SetRequestBody_reachable:
  assumes "SetRequestBody e body t = Some (err, t')" "reachable e (t_transaction t)"
  shows "reachable e (t_transaction t')"
  using assms reachable_phases(6) [OF assms(2)] by (auto simp: SetRequestBody_def Let_def split: if_splits)

lemma SetRawRequest_reachable:
  assumes "SetRawRequest e req t = Some (err, t')" "reachable e (t_transaction t)"
  shows "reachable e (t_transaction t')"
  using assms(1) SetRequestBody_reachable [of e _ _ err t'] assms(2)
  by (auto simp: SetRawRequest_def Let_def split: if_splits list.splits prod.splits)

section \<open>What a test reports\<close>

definition in_log :: "printable \<Rightarrow> Test \<Rightarrow> string \<Rightarrow> bool" where
  "in_log pr t s \<longleftrightarrow> (\<exists>mr\<in>set (matchedRules (t_transaction t)). \<exists>l. mr_ErrorLog pr (t_ResponseCode t) mr = Some l \<and> Contains l s)"

lemma log_contains_filled:
  "\<forall>mr\<in>set mrs. mr_MatchedDatas mr \<noteq> [] \<Longrightarrow>
     log_contains pr code s mrs = Some (\<exists>mr\<in>set mrs. \<exists>l. mr_ErrorLog pr code mr = Some l \<and> Contains l s)"
proof (induction mrs)
  case (Cons mr mrs)
  then obtain l where "mr_ErrorLog pr code mr = Some l" using ErrorLog_returns [of pr code mr] by auto
  with Cons show ?case by auto
qed simp

lemma LogContains_filled: "filled (t_transaction t) \<Longrightarrow> LogContains pr s t = Some (in_log pr t s)"
  by (simp add: LogContains_def in_log_def log_contains_filled filled_def)

lemma rule_errors_filled:
  assumes "filled (t_transaction t)"
  shows "\<exists>errs. rule_errors pr wanted text t rules = Some errs \<and> (errs = [] \<longleftrightarrow> (\<forall>r\<in>set rules. in_log pr t (id_text r) = wanted))"
  by (induction rules) (auto simp: LogContains_filled [OF assms])

section \<open>The text of a request\<close>

definition raw_request :: "string \<Rightarrow> string \<Rightarrow> string \<Rightarrow> (string \<times> string) list \<Rightarrow> string \<Rightarrow> string" where
  "raw_request m u p hs body =
     m @ '' '' @ u @ '' '' @ p @ CRLF @ concat (map (\<lambda>(k, v). k @ '': '' @ v @ CRLF) hs) @ CRLF @ body"

definition word :: "string \<Rightarrow> bool" where
  "word s \<longleftrightarrow> set s \<inter> {CHR '' '', CHR 0x0D} = {}"

definition header_ok :: "string \<times> string \<Rightarrow> bool" where
  "header_ok h \<longleftrightarrow> set (fst h) \<inter> {CHR '':'', CHR 0x0D} = {} \<and> CHR 0x0D \<notin> set (snd h) \<and>
     TrimSpace (fst h) = fst h \<and> TrimSpace (CHR '' '' # snd h) = snd h"

lemma SplitCRLF_nonempty: "SplitCRLF s \<noteq> []"
  by (induction s rule: SplitCRLF.induct) (auto split: list.splits)

lemma SplitCRLF_line: "CHR 0x0D \<notin> set w \<Longrightarrow> SplitCRLF (w @ CRLF @ rest) = w # SplitCRLF rest"
proof (induction w)
  case (Cons c w)
  then show ?case by (cases "w @ CRLF @ rest") auto
qed simp

lemma Join_SplitCRLF: "Join (SplitCRLF s) CRLF = s"
proof (induction s rule: SplitCRLF.induct)
  case (3 c d cs)
  then show ?case
    by (cases "SplitCRLF cs"; cases "SplitCRLF (d # cs)") (auto simp: Join_def SplitCRLF_nonempty)
qed (simp_all add: Join_def)

lemma raw_headers_lines:
  assumes "list_all header_ok hs"
  shows "raw_headers (map (\<lambda>(k, v). k @ '': '' @ v) hs @ [] # rest) acc = (None, fold (\<lambda>(k, v). AList.update k v) hs acc, [] # rest)"
  using assms
proof (induction hs arbitrary: acc)
  case (Cons h hs)
  obtain k v where h: "h = (k, v)" by fastforce
  have "CHR '':'' \<notin> set k" using Cons.prems by (auto simp: h header_ok_def)
  from Cut_found [OF this, of "CHR '' '' # v"] Cons show ?case by (simp add: h header_ok_def)
qed simp

lemma SplitCRLF_request:
  assumes "word m" "word u" "word p" "list_all header_ok hs"
  shows "SplitCRLF (raw_request m u p hs body) = (m @ '' '' @ u @ '' '' @ p) # map (\<lambda>(k, v). k @ '': '' @ v) hs @ [] # SplitCRLF body"
proof -
  have hs: "SplitCRLF (concat (map (\<lambda>(k, v). k @ '': '' @ v @ CRLF) hs) @ CRLF @ body) = map (\<lambda>(k, v). k @ '': '' @ v) hs @ [] # SplitCRLF body"
    using assms(4)
  proof (induction hs)
    case (Cons h hs)
    obtain k v where h: "h = (k, v)" by fastforce
    have "CHR 0x0D \<notin> set (k @ '': '' @ v)" using Cons.prems by (auto simp: h header_ok_def)
    from SplitCRLF_line [OF this] Cons show ?case by (simp add: h)
  qed simp
  have "CHR 0x0D \<notin> set (m @ '' '' @ u @ '' '' @ p)" using assms by (auto simp: word_def)
  from SplitCRLF_line [OF this] hs show ?thesis by (simp add: raw_request_def)
qed

lemma Split_words: "word m \<Longrightarrow> word u \<Longrightarrow> word p \<Longrightarrow> Split (m @ '' '' @ u @ '' '' @ p) (CHR '' '') = [m, u, p]"
  by (auto simp: word_def Split_append_sep Split_no_sep_whole)

section \<open>Properties\<close>

text \<open>
  A test reports exactly the expectations that are not met. After the phases were run on a transaction that
  calls of the interface reached, the comparison returns, and it has nothing to report exactly when the log lines of the
  matched rules contain the expected text and not the unexpected one, and the identifiers of all the rules
  that are to be triggered and of none of the others.
\<close>

theorem OutputErrors_exact:
  assumes "reachable e (t_transaction t)" "RunPhases e t = Some (err, t')"
  shows "\<exists>errs. OutputErrors pr t' = Some errs \<and>
    (errs = [] \<longleftrightarrow>
       (xo_LogContains (t_ExpectedOutput t') \<noteq> [] \<longrightarrow> in_log pr t' (xo_LogContains (t_ExpectedOutput t'))) \<and>
       (xo_NoLogContains (t_ExpectedOutput t') \<noteq> [] \<longrightarrow> \<not> in_log pr t' (xo_NoLogContains (t_ExpectedOutput t'))) \<and>
       (\<forall>r\<in>set (xo_TriggeredRules (t_ExpectedOutput t')). in_log pr t' (id_text r)) \<and>
       (\<forall>r\<in>set (xo_NonTriggeredRules (t_ExpectedOutput t')). \<not> in_log pr t' (id_text r)))"
proof -
  have f: "filled (t_transaction t')" by (rule reachable_filled [OF RunPhases_reachable [OF assms(2,1)]])
  obtain e3 where e3: "rule_errors pr True '' to be triggered'' t' (xo_TriggeredRules (t_ExpectedOutput t')) = Some e3"
    "e3 = [] \<longleftrightarrow> (\<forall>r\<in>set (xo_TriggeredRules (t_ExpectedOutput t')). in_log pr t' (id_text r))"
    using rule_errors_filled [OF f, of pr True] by (simp only: simp_thms) blast
  obtain e4 where e4: "rule_errors pr False '' to not be triggered'' t' (xo_NonTriggeredRules (t_ExpectedOutput t')) = Some e4"
    "e4 = [] \<longleftrightarrow> (\<forall>r\<in>set (xo_NonTriggeredRules (t_ExpectedOutput t')). \<not> in_log pr t' (id_text r))"
    using rule_errors_filled [OF f, of pr False] by (simp only: simp_thms) blast
  show ?thesis using e3 e4 by (auto simp: OutputErrors_def Let_def LogContains_filled [OF f])
qed

text \<open>
  Reading the text of a request gives the request line and the headers back, but the line end that closes the
  headers becomes part of the body: every body starts with CR LF, and a request without a body gets a body of two bytes.
\<close>

theorem SetRawRequest_reads:
  assumes "word m" "word u" "word p" "list_all header_ok hs"
  shows "SetRawRequest e (raw_request m u p hs body) t = SetRequestBody e (BodyString (CRLF @ body))
    (t\<lparr>t_RequestMethod := m, t_RequestURI := u, t_RequestProtocol := p, t_RequestHeaders := fold (\<lambda>(k, v). AList.update k v) hs []\<rparr>)"
proof -
  have "Join ([] # SplitCRLF body) CRLF = CRLF @ body"
    using Join_SplitCRLF [of body] by (cases "SplitCRLF body") (auto simp: Join_def SplitCRLF_nonempty)
  then show ?thesis
    unfolding SetRawRequest_def SplitCRLF_request [OF assms] Let_def list.sel raw_headers_lines [OF assms(4)]
    using Split_words [OF assms(1-3)] raw_headers_lines [OF assms(4), of "SplitCRLF body" "[]"] by (simp add: raw_request_def)
qed

text \<open>A test that expects an interruption panics when there is none, instead of reporting it.\<close>

theorem OutputInterruptionErrors_panics:
  assumes "xo_Interruption (t_ExpectedOutput t) = Some x" "interruption (t_transaction t) = None"
  shows "OutputInterruptionErrors t = None"
  using assms by (simp add: OutputInterruptionErrors_def)

subsection \<open>Witnesses\<close>

theorem SetRawRequest_reads_witness:
  "\<exists>t'. SetRawRequest deny_env (''GET /x HTTP/1.1'' @ CRLF @ CRLF) (NewTest [] (blank_tx\<lparr>RuleEngine := RuleEngineOff\<rparr>)) = Some (None, t') \<and>
     t_RequestURI t' = ''/x'' \<and> t_body t' = CRLF"
proof -
  have "word ''GET''" "word ''/x''" "word ''HTTP/1.1''" by (simp_all add: word_def)
  then show ?thesis
    using SetRawRequest_reads [of "''GET''" "''/x''" "''HTTP/1.1''" "[]" deny_env "[]" "NewTest [] (blank_tx\<lparr>RuleEngine := RuleEngineOff\<rparr>)"]
    by (simp add: raw_request_def SetRequestBody_def WriteRequestBody_def NewTest_def Let_def)
qed

text \<open>An engine that is off triggers nothing, and a test that expects rule 7 says so.\<close>

definition off_env :: env where
  "off_env = deny_env\<lparr>e_waf := deny_waf\<lparr>w_RuleEngine := RuleEngineOff\<rparr>\<rparr>"

definition off_test :: Test where
  "off_test = (NewTest [] (newTransactionWithID (e_waf off_env) [] ''id'' None))\<lparr>t_ExpectedOutput := no_expectation\<lparr>xo_TriggeredRules := [7]\<rparr>\<rparr>"

lemma only_vars_set_headers:
  assumes "only_vars t u" "\<And>k v t u. only_vars t u \<Longrightarrow> only_vars t (add k v u)"
  shows "only_vars t (set_headers ord add hs u)"
proof -
  have "only_vars t (fold (\<lambda>k. add k (f k)) ks u)" if "only_vars t u" for f ks u
    using that by (induction ks arbitrary: u) (simp_all add: assms(2))
  with assms(1) show ?thesis by (simp add: set_headers_def)
qed

lemma off_run: "\<exists>t'. RunPhases off_env off_test = Some (None, t') \<and> matchedRules (t_transaction t') = [] \<and> t_ExpectedOutput t' = t_ExpectedOutput off_test"
proof -
  let ?ord = "rt_ord (e_rt off_env)" and ?tx = "t_transaction off_test"
  define b where "b = set_headers ?ord (AddRequestHeader ?ord) (t_RequestHeaders off_test)
    (ProcessURI (e_url off_env) ?ord (t_RequestURI off_test) (t_RequestMethod off_test) (t_RequestProtocol off_test)
    (ProcessConnection (t_RequestAddress off_test) (t_RequestPort off_test) (t_ServerAddress off_test) (t_ServerPort off_test) ?tx))"
  define c where "c = set_headers ?ord AddResponseHeader (t_ResponseHeaders off_test) b"
  have vb: "only_vars ?tx b" unfolding b_def by (intro only_vars_set_headers inv_intros)
  have vc: "only_vars ?tx c" unfolding c_def by (intro only_vars_set_headers inv_intros vb)
  have t: "RuleEngine ?tx = RuleEngineOff" "matchedRules ?tx = []"
    by (simp_all add: off_test_def off_env_def NewTest_def newTransactionWithID_def only_varsD [OF only_vars_set_defaults])
  have "RuleEngine b = RuleEngineOff" "RuleEngine c = RuleEngineOff" "matchedRules c = []"
    using t only_varsD [OF vb] only_varsD [OF vc] by simp_all
  then show ?thesis
    unfolding RunPhases_def Let_def b_def [symmetric]
    by (simp add: ProcessRequestHeaders_def ProcessRequestBody_def c_def [symmetric] ProcessResponseHeaders_def ProcessResponseBody_def ProcessLogging_def)
qed

theorem OutputErrors_exact_witness:
  "\<exists>t' errs. RunPhases off_env off_test = Some (None, t') \<and> OutputErrors (\<lambda>_. True) t' = Some errs \<and> errs \<noteq> []"
proof -
  obtain t' where t': "RunPhases off_env off_test = Some (None, t')" "matchedRules (t_transaction t') = []" "t_ExpectedOutput t' = t_ExpectedOutput off_test"
    using off_run by blast
  have "reachable off_env (t_transaction off_test)" by (simp add: off_test_def NewTest_def) (rule reachable.fresh)
  from OutputErrors_exact [OF this t'(1), of "\<lambda>_. True"] t' show ?thesis by (auto simp: in_log_def off_test_def no_expectation_def)
qed

theorem OutputInterruptionErrors_panics_witness:
  "OutputInterruptionErrors ((NewTest [] deny_tx)\<lparr>t_ExpectedOutput :=
     no_expectation\<lparr>xo_Interruption := Some \<lparr>xi_RuleID = 7, xi_Action = ''deny'', xi_Status = 403, xi_Data = []\<rparr>\<rparr>\<rparr>) = None"
  by (rule OutputInterruptionErrors_panics [of _ "\<lparr>xi_RuleID = 7, xi_Action = ''deny'', xi_Status = 403, xi_Data = []\<rparr>"])
    (simp_all add: NewTest_def no_expectation_def new_fields)

end
