(* ===== verification/Spec2Isabelle.thy ===== *)
theory Spec2Isabelle
  imports Transform_Props Lazy_Buf Seclang_Props Coraza Http_Props Match_Log Server Tx_Getters Helpers
    Cache_Position Liveness End_To_End Test_Engine
begin

text \<open>
  A verification development for Coraza, a web application firewall in Go.

  \<^bold>\<open>The program.\<close> A connector (an HTTP server) creates a transaction per request from a WAF, feeds
  it with the connection, the URI, headers and bodies, and calls one processing function per
  phase: request headers, request body, response headers, response body, logging. In a phase the
  rule group of the WAF evaluates its rules in order. A rule selects values of the transaction's
  variables, passes them through transformations, matches them with an operator, and on a match runs
  actions, which may set variables, change settings of the transaction, skip rules, or interrupt the
  transaction. The connector asks for the interruption and answers the client. Closed transactions
  go back to a pool. The configuration language SecLang builds the rules; the configuration API of the
  root package builds a WAF from texts and files in that language; the package \<^verbatim>\<open>http\<close> is a
  connector for Go's HTTP server. Matches go to an error log and to an audit log.

  \<^bold>\<open>Conventions.\<close> A Go string is a list of bytes (\<open>string\<close>); an \<open>int\<close> is an
  \<open>int\<close> with the wrap-around written out where it can matter; a Go map is an association list with
  distinct keys, and ranging over it goes through a parameter \<open>key_order\<close>, any permutation of the
  keys; an error is \<open>Inl\<close> of its text or \<open>Some\<close> of it; the type \<open>'a go\<close> is an option
  whose \<open>None\<close> is a panic. Pointers that nothing aliases are values. Go code that the repository
  does not contain (regular expressions, libinjection, Aho-Corasick, DNS, the operating system, the
  parsers of URLs, JSON, XML, media types and multipart bodies, hash functions, HTML entities, the
  random source) is a parameter: the records \<open>libs\<close>, \<open>OS\<close>, \<open>parsers\<close>,
  \<open>runtime\<close> and single arguments; so are the file system, time and JSON encoding of the
  configuration and of the loggers (\<open>host\<close>, \<open>clock\<close>, \<open>format_env\<close>, \<open>write_env\<close>). The response
  writer of \<^verbatim>\<open>net/http\<close> is a record of what the client has received, and a handler is the list of
  its calls. Configurations, which the API shares by pointer, live in an explicit store, and so do the arrays
  behind their slices of rules.

  \<^bold>\<open>Theories and sources.\<close>
  \<^item> Go_Base, Go_Unicode: what the sources use of Go's standard library on strings and numbers,
    with its case tables.
  \<^item> Types, Variables, Collection, Tx_Variables: \<^verbatim>\<open>types/\<close>, \<^verbatim>\<open>types/variables\<close>,
    \<^verbatim>\<open>collection/\<close>, and the variables of a transaction. The invariants \<open>Map_wf\<close> and
    \<open>tv_wf\<close>; the locales \<open>multimap\<close> and \<open>searchable\<close> are what the rest relies on.
  \<^item> Strings_Util, Macro: \<^verbatim>\<open>internal/strings\<close>, \<^verbatim>\<open>internal/url\<close>, \<^verbatim>\<open>macro/\<close>.
  \<^item> Body_Buffer: \<^verbatim>\<open>internal/corazawaf/body_buffer.go\<close>, memory and temporary file; the
    locale \<open>byte_store\<close> with two instances, normal and TinyGo builds.
  \<^item> Transaction: the state of a transaction and the operations that feed and read it, up to
    \<open>GetField\<close>, the selection of a rule's targets (\<^verbatim>\<open>transaction.go\<close>).
  \<^item> Transformations, Transform_Decode, Transform_Props: \<^verbatim>\<open>transformations/\<close>, every one of
    them, and round trips and specifications.
  \<^item> Operators: \<^verbatim>\<open>operators/\<close>, one definition per operator and factory.
  \<^item> Actions, Action_Init: \<^verbatim>\<open>actions/\<close>, what an action does when it is evaluated and when it
    is initialised; the records of rules and of the WAF.
  \<^item> Rule_Eval, Rule_Build, Rule_Props: \<^verbatim>\<open>internal/corazawaf/rule.go\<close>, the evaluation of a rule
    with its chain, its construction, the transformation cache. The locales \<open>step_core\<close> and
    \<open>step_relation\<close> lift a relation that every action respects to whole rules; their instances are
    the frame of evaluation, the engine state, the absence of a verdict, and the buffer options.
  \<^item> Rule_Group: \<^verbatim>\<open>rulegroup.go\<close>, the collection of rules (locale \<open>rule_store\<close>) and the loop
    over the rules of a phase.
  \<^item> Waf: \<^verbatim>\<open>waf.go\<close> and \<open>Close\<close>, default configuration, new and recycled transactions.
  \<^item> Body_Processors: \<^verbatim>\<open>bodyprocessors/\<close>.
  \<^item> Phases: the processing functions and the writing of the request body (\<^verbatim>\<open>transaction.go\<close>).
  \<^item> Api: the interface \<^verbatim>\<open>types/transaction.go\<close> as a state machine; its reachable states. The
    locale \<open>call_relation\<close> lifts a relation on transactions to all sequences of calls.
  \<^item> Seclang_Rule, Seclang_Props: \<^verbatim>\<open>internal/seclang/rule_parser.go\<close>,
    the variables, operators and actions of a rule, default actions and chains; the parsers read back
    what is printed.
  \<^item> Directives, Seclang: \<^verbatim>\<open>internal/seclang/directives.go\<close>, one definition per directive, and
    \<^verbatim>\<open>parser.go\<close>, lines, continuations, files and includes. The locale \<open>parser_relation\<close> lifts a
    relation that every directive respects to whole configurations.
  \<^item> Coraza: \<^verbatim>\<open>config.go\<close> and \<^verbatim>\<open>waf.go\<close>; the locale \<open>copy_on_write\<close> is the contract of
    the functions that build a new configuration from another.
  \<^item> Http, Http_Props: \<^verbatim>\<open>http/middleware.go\<close> and \<^verbatim>\<open>interceptor.go\<close>.
  \<^item> Rule_Match, Audit_Log, Match_Log: the log lines of \<^verbatim>\<open>internal/corazarules/rule_match.go\<close>; the
    audit log document and the debug dump of a transaction, the formatters and writers of
    \<^verbatim>\<open>loggers/\<close>; and what the interface guarantees about the matches that are logged.
  \<^item> Policy, Liveness, Cache_Position: the evaluation of a phase (\<^verbatim>\<open>rulegroup.go\<close> and
    \<^verbatim>\<open>rule.go\<close>) against an abstract policy, a list of rules of which the first with a verdict decides;
    the rules under which a phase always returns; and two rules between which the transformation cache
    mixes up values.
  \<^item> End_To_End: from the text of a rule to the answer for a request, through the parser, the
    operator, the variables, the rule and the phase.
  \<^item> Lazy_Buf: the lazy buffer of \<^verbatim>\<open>transformations/normalise_path_win.go\<close> with its indices, and
    its refinement to lists. Tx_Getters: the accessors of single variables and the interface of
    \<^verbatim>\<open>rules/transaction.go\<close>. Helpers: \<^verbatim>\<open>internal/io\<close>, the lines of the debug log, and the optional
    interfaces of the wrapped response writer.
  \<^item> Test_Engine: \<^verbatim>\<open>testing/engine.go\<close>, the engine that runs the test profiles.
  \<^item> Cache_Blind, Server: the calls of the interface do the same whatever the transformation cache holds;
    \<^verbatim>\<open>internal/sync\<close>, the pool of transactions in both builds (locale \<open>object_pool\<close>), and
    the interleaving of many transactions of one WAF as a step relation, with a log of the calls of each.

  \<^bold>\<open>What is shown.\<close> For rules: what a match records and interrupts, that a rule without a match
  leaves no verdict, that the cache changes nothing for arguments that do not change, what skip and
  skipAfter skip; that a phase implements the first-match policy on rules that only read the request, and
  that it returns whatever the request is when its rules cannot panic; and, end to end, that the text of a
  rule denies exactly the requests it describes. For phases and the interface: the phases up to the response body run at most once and in order, an
  interruption is final, an engine that is off does nothing, a detection-only engine does not
  interrupt, the body buffer respects its limit, a recycled transaction behaves like a new one,
  requests that are served at the same time do not disturb each other (each is in the state that its own
  calls produce from a new transaction), a call that logs writes to the audit log exactly when it should. For the data that rules see: targets and exceptions,
  query strings, form, JSON and multipart bodies, macros, counters. For transformations: round trips
  and equivalences. For the configuration language: lists of actions and variables are read back as
  printed, every configuration leaves rules with unique identifiers and well-formed chains, a rule gets the
  default actions of its phase, includes end. For the configuration API: configurations do not change once
  they are built, and a WAF that is built is valid. For the connector and handlers whose calls the interceptor sees: an interrupted request or
  response reaches the client without a byte of the handler's answer and, when the action is deny, with its
  status; a response that is inspected and not interrupted passes unchanged, as the body of every request does. For the logs: a client cannot forge fields of a log
  line, the native audit log can be read back, and the lines of a match never panic. Several theorems state where the code does what it should not, such as a panic
  or a missed field; they are listed as findings in the manifest.

  \<^bold>\<open>Loops and fuel.\<close> Every loop is a structurally recursive or provably terminating function.
  The parser of configurations calls itself on included files; \<open>FromFile_n\<close> bounds the nesting by
  fuel 101, one more than the number of includes that the code follows, and \<open>FromFile_depth\<close> shows
  that more fuel gives the same result. \<open>RandomString\<close> rejects letters out of range and may go on
  for ever; it returns \<open>None\<close> when its list of draws ends.

  \<^bold>\<open>Not modelled.\<close> The measurement of the stop watches (their values are a parameter), which messages
  the code sends to the debug log, the process environment that \<open>setenv\<close> writes, calls that overlap in time
  (Server interleaves whole calls; transactions share only the configuration, the pool, and the
  \<open>Audit\<close> field of rules that \<open>nolog\<close> clears), what a handler does with a hijacked connection or a
  push, the TinyGo stubs of the loggers, the test profiles, which are data, the examples and the build
  tool.
\<close>

end
